(* ===== verification/Prelude.thy ===== *)
theory Prelude
  imports Complex_Main "HOL-Library.AList"
begin

text \<open>
  Shared vocabulary of the development.

  \<^item> Python numbers. An \<open>int\<close> of the program is an \<open>int\<close>. A \<open>float\<close> that the program
    only combines after its finiteness is settled is a \<open>real\<close> (exact arithmetic: the
    binary rounding of IEEE doubles is not modelled); a \<open>float\<close> that enters from outside,
    where NaN and the infinities matter, is a \<open>pyfloat\<close>.
  \<^item> \<open>py_min\<close>, \<open>py_max\<close> with Python's argument order, which decides what happens to NaN;
    \<open>py_round\<close>, \<open>round_dec\<close>: Python's \<open>round(x)\<close> and \<open>round(x, n)\<close> (ties to even).
  \<^item> The functions of the \<open>math\<close> module the program calls: \<open>hypot\<close>, \<open>atan2\<close>, \<open>degrees\<close>,
    \<open>radians\<close>, and Python's \<open>%\<close> on floats.
  \<^item> Interfaces as locales: a system that keeps an invariant, a latch, a monotone counter and
    an emitter of strictly increasing sequence numbers. The components interpret them.
\<close>

named_theorems py_simps \<open>evaluation rules of the Python primitives\<close>
named_theorems inv_intro \<open>operations preserve their component's invariant\<close>

section \<open>Floats that may be NaN or infinite\<close>

datatype pyfloat = Fin real | PosInf | NegInf | NaN

fun fless :: "pyfloat \<Rightarrow> pyfloat \<Rightarrow> bool" where
  "fless NaN y = False"
| "fless x NaN = False"
| "fless (Fin a) (Fin b) = (a < b)"
| "fless (Fin a) PosInf = True"
| "fless (Fin a) NegInf = False"
| "fless NegInf y = (y \<noteq> NegInf)"
| "fless PosInf y = False"

text \<open>Python's \<open>==\<close> on floats: NaN differs from everything, itself included.\<close>

fun feq :: "pyfloat \<Rightarrow> pyfloat \<Rightarrow> bool" where
  "feq NaN y = False"
| "feq x y = (x = y)"

fun isfinite :: "pyfloat \<Rightarrow> bool" where
  "isfinite (Fin a) = True"
| "isfinite x = False"

text \<open>\<open>inf + -inf\<close> is NaN; NaN absorbs.\<close>

fun fadd :: "pyfloat \<Rightarrow> pyfloat \<Rightarrow> pyfloat" where
  "fadd NaN y = NaN"
| "fadd x NaN = NaN"
| "fadd (Fin a) (Fin b) = Fin (a + b)"
| "fadd PosInf NegInf = NaN"
| "fadd NegInf PosInf = NaN"
| "fadd PosInf y = PosInf"
| "fadd NegInf y = NegInf"
| "fadd x PosInf = PosInf"
| "fadd x NegInf = NegInf"

fun fneg :: "pyfloat \<Rightarrow> pyfloat" where
  "fneg (Fin a) = Fin (- a)"
| "fneg PosInf = NegInf"
| "fneg NegInf = PosInf"
| "fneg NaN = NaN"

text \<open>
  \<open>min(a, b)\<close> returns \<open>a\<close> unless \<open>b < a\<close>, \<open>max(a, b)\<close> returns \<open>a\<close> unless \<open>b > a\<close>.
\<close>

definition py_min :: "pyfloat \<Rightarrow> pyfloat \<Rightarrow> pyfloat" where
  "py_min a b = (if fless b a then b else a)"

definition py_max :: "pyfloat \<Rightarrow> pyfloat \<Rightarrow> pyfloat" where
  "py_max a b = (if fless a b then b else a)"

lemma py_min_Fin [simp, py_simps]: "py_min (Fin a) (Fin b) = Fin (min a b)"
  by (simp add: py_min_def min_def)

lemma py_max_Fin [simp, py_simps]: "py_max (Fin a) (Fin b) = Fin (max a b)"
  by (simp add: py_max_def max_def)

section \<open>Rounding\<close>

definition py_round :: "real \<Rightarrow> int" where
  "py_round x =
     (let f = \<lfloor>x\<rfloor>; d = x - of_int f
      in if d < 1 / 2 then f else if 1 / 2 < d then f + 1 else if even f then f else f + 1)"

definition round_dec :: "nat \<Rightarrow> real \<Rightarrow> real" where
  "round_dec n x = of_int (py_round (x * 10 ^ n)) / 10 ^ n"

lemma py_round_of_int [simp]: "py_round (of_int k) = k"
  by (simp add: py_round_def)

lemma py_round_numeral [simp]:
  "py_round 0 = 0" "py_round 1 = 1" "py_round (numeral w) = numeral w"
  "py_round (- 1) = - 1" "py_round (- numeral w) = - numeral w"
  using py_round_of_int [of 0] py_round_of_int [of 1] py_round_of_int [of "numeral w"]
    py_round_of_int [of "- 1"] py_round_of_int [of "- numeral w"]
  by simp_all

lemma py_round_cases: "py_round x = \<lfloor>x\<rfloor> \<or> py_round x = \<lfloor>x\<rfloor> + 1"
  by (simp add: py_round_def Let_def)

lemma py_round_near: "\<bar>of_int (py_round x) - x\<bar> \<le> 1 / 2"
proof -
  define f where "f = \<lfloor>x\<rfloor>"
  have "of_int f \<le> x" "x < of_int f + 1" unfolding f_def by linarith+
  then show ?thesis
    unfolding py_round_def Let_def f_def [symmetric] by (auto simp: abs_le_iff)
qed

lemma py_round_mono:
  assumes "x \<le> y" shows "py_round x \<le> py_round y"
proof (cases "\<lfloor>x\<rfloor> = \<lfloor>y\<rfloor>")
  case True
  with assms show ?thesis by (auto simp: py_round_def Let_def)
next
  case False
  then have "\<lfloor>x\<rfloor> + 1 \<le> \<lfloor>y\<rfloor>" using floor_mono [OF assms] by linarith
  then show ?thesis using py_round_cases [of x] py_round_cases [of y] by linarith
qed

lemma round_dec_near: "\<bar>round_dec n x - x\<bar> \<le> 1 / (2 * 10 ^ n)"
proof -
  have "round_dec n x - x = (of_int (py_round (x * 10 ^ n)) - x * 10 ^ n) / 10 ^ n"
    by (simp add: round_dec_def field_simps)
  then have "\<bar>round_dec n x - x\<bar> = \<bar>of_int (py_round (x * 10 ^ n)) - x * 10 ^ n\<bar> / 10 ^ n"
    by simp
  also have "\<dots> \<le> (1 / 2) / 10 ^ n"
    by (intro divide_right_mono py_round_near) simp
  finally show ?thesis by simp
qed

lemma round_dec_mono: "x \<le> y \<Longrightarrow> round_dec n x \<le> round_dec n y"
  by (simp add: round_dec_def divide_right_mono py_round_mono)

lemma round_dec_of_int [simp]: "round_dec n (of_int k) = of_int k"
proof -
  have "py_round (of_int k * 10 ^ n) = k * 10 ^ n"
    using py_round_of_int [of "k * 10 ^ n"] by simp
  then show ?thesis by (simp add: round_dec_def)
qed

lemma round_dec_numeral [simp]:
  "round_dec n 0 = 0" "round_dec n 1 = 1" "round_dec n (- 1) = - 1"
  using round_dec_of_int [of n 0] round_dec_of_int [of n 1] round_dec_of_int [of n "- 1"]
  by simp_all

lemma round_dec_bounds:
  "of_int a \<le> x \<Longrightarrow> x \<le> of_int b \<Longrightarrow> of_int a \<le> round_dec n x \<and> round_dec n x \<le> of_int b"
  using round_dec_mono [of "of_int a" x n] round_dec_mono [of x "of_int b" n] by simp

lemma round_dec_unit:
  "- 1 \<le> x \<Longrightarrow> x \<le> 1 \<Longrightarrow> - 1 \<le> round_dec n x \<and> round_dec n x \<le> 1"
  using round_dec_bounds [of "- 1" x 1 n] by simp

lemma round_dec_nonneg: "0 \<le> x \<Longrightarrow> 0 \<le> round_dec n x"
  using round_dec_mono [of 0 x n] by simp

lemma round_dec_nonpos: "x \<le> 0 \<Longrightarrow> round_dec n x \<le> 0"
  using round_dec_mono [of x 0 n] by simp

lemma py_round_minus: "py_round (- x) = - py_round x"
proof -
  define f where "f = \<lfloor>x\<rfloor>"
  have b: "of_int f \<le> x" "x < of_int f + 1" unfolding f_def by linarith+
  show ?thesis
  proof (cases "x = of_int f")
    case True
    then have "- x = of_int (- f)" by simp
    then show ?thesis using True by (metis py_round_of_int)
  next
    case False
    then have m: "\<lfloor>- x\<rfloor> = - f - 1" using b by (simp add: floor_eq_iff)
    show ?thesis
      unfolding py_round_def Let_def m f_def [symmetric] using b by (auto simp: field_simps)
  qed
qed

lemma round_dec_minus: "round_dec n (- x) = - round_dec n x"
  using py_round_minus [of "x * 10 ^ n"] by (simp add: round_dec_def)

text \<open>A multiple of \<open>10 ^ -n\<close> is unchanged.\<close>

lemma round_dec_grid: "x * 10 ^ n = of_int k \<Longrightarrow> round_dec n x = x"
  by (simp add: round_dec_def) (metis nonzero_eq_divide_eq power_not_zero zero_neq_numeral)

text \<open>Rounding of a possibly non-finite float: NaN and the infinities are returned as they are.\<close>

fun fround :: "nat \<Rightarrow> pyfloat \<Rightarrow> pyfloat" where
  "fround n (Fin a) = Fin (round_dec n a)"
| "fround n x = x"

section \<open>The \<open>math\<close> module and \<open>%\<close>\<close>

definition hypot :: "real \<Rightarrow> real \<Rightarrow> real" where
  "hypot x y = sqrt (x\<^sup>2 + y\<^sup>2)"

text \<open>\<open>math.atan2(y, x)\<close>: the angle of \<open>(x, y)\<close> in \<open>(-pi, pi]\<close>; \<open>atan2(0, 0) = 0\<close>.\<close>

definition atan2 :: "real \<Rightarrow> real \<Rightarrow> real" where
  "atan2 y x =
     (if 0 < x then arctan (y / x)
      else if x < 0 then (if 0 \<le> y then arctan (y / x) + pi else arctan (y / x) - pi)
      else if 0 < y then pi / 2 else if y < 0 then - (pi / 2) else 0)"

definition degrees :: "real \<Rightarrow> real" where
  "degrees r = r * 180 / pi"

definition radians :: "real \<Rightarrow> real" where
  "radians d = d * pi / 180"

text \<open>\<open>x % m\<close> for \<open>m > 0\<close>: the result has the sign of \<open>m\<close>.\<close>

definition pymod :: "real \<Rightarrow> real \<Rightarrow> real" where
  "pymod x m = x - m * of_int \<lfloor>x / m\<rfloor>"

lemma hypot_nonneg [simp]: "0 \<le> hypot x y"
  by (simp add: hypot_def)

lemma hypot_axis [simp]: "hypot x 0 = \<bar>x\<bar>" "hypot 0 y = \<bar>y\<bar>"
  by (simp_all add: hypot_def)

lemma hypot_minus [simp]: "hypot (- x) y = hypot x y" "hypot x (- y) = hypot x y"
  by (simp_all add: hypot_def)

lemma hypot_diff_commute: "hypot (a - b) (c - d) = hypot (b - a) (d - c)"
  by (simp add: hypot_def power2_commute)

lemma hypot_eq_0 [simp]: "hypot x y = 0 \<longleftrightarrow> x = 0 \<and> y = 0"
  by (simp add: hypot_def sum_power2_eq_zero_iff)

lemma pymod_bounds: "0 < m \<Longrightarrow> 0 \<le> pymod x m \<and> pymod x m < m"
proof -
  assume m: "0 < m"
  have "of_int \<lfloor>x / m\<rfloor> \<le> x / m" "x / m < of_int \<lfloor>x / m\<rfloor> + 1" by linarith+
  then have "m * of_int \<lfloor>x / m\<rfloor> \<le> m * (x / m)" "m * (x / m) < m * (of_int \<lfloor>x / m\<rfloor> + 1)"
    using m by (simp_all only: mult_le_cancel_left_pos mult_less_cancel_left_pos)
  then show ?thesis using m by (simp add: pymod_def distrib_left)
qed

lemma pymod_id: "0 \<le> x \<Longrightarrow> x < m \<Longrightarrow> pymod x m = x"
proof -
  assume "0 \<le> x" "x < m"
  then have "\<lfloor>x / m\<rfloor> = 0" by (simp add: floor_eq_iff divide_less_eq)
  then show ?thesis by (simp add: pymod_def)
qed

lemma pymod_shift: "0 < m \<Longrightarrow> pymod (x + m * of_int k) m = pymod x m"
proof -
  assume m: "0 < m"
  then have "(x + m * of_int k) / m = x / m + of_int k" by (simp add: field_simps)
  then show ?thesis by (simp add: pymod_def distrib_left)
qed

lemma arctan_strict: "- pi / 2 < arctan z" "arctan z < pi / 2"
  using arctan_bounded [of z] by simp_all

lemma atan2_bounds: "- pi < atan2 y x \<and> atan2 y x \<le> pi"
proof -
  have pos: "0 < pi" by (rule pi_gt_zero)
  show ?thesis
  proof (cases "x < 0")
    case True
    show ?thesis
    proof (cases "0 \<le> y")
      case le: True
      then have "y / x \<le> 0" using True by (simp add: divide_nonneg_neg)
      then have "arctan (y / x) \<le> 0" by (simp add: arctan_le_zero_iff)
      then show ?thesis using True le pos arctan_strict [of "y / x"] by (simp add: atan2_def)
    next
      case False
      then have "0 < y / x" using True by (simp add: divide_neg_neg)
      then have "0 < arctan (y / x)" by (simp add: zero_less_arctan_iff)
      then show ?thesis using True False pos arctan_strict [of "y / x"] by (simp add: atan2_def)
    qed
  next
    case False
    then show ?thesis using pos arctan_strict [of "y / x"] by (auto simp: atan2_def)
  qed
qed

section \<open>Systems that run over a list of events\<close>

text \<open>
  A component is a step function; a run folds it over the events. The locales below are the
  interfaces the components' contracts are stated against.
\<close>

locale guarded_system =
  fixes step :: "'s \<Rightarrow> 'e \<Rightarrow> 's"
    and inv :: "'s \<Rightarrow> bool"
    and good :: "'e \<Rightarrow> bool"
  assumes guarded_step: "inv s \<Longrightarrow> good e \<Longrightarrow> inv (step s e)"
begin

lemma guarded_run_inv: "inv s \<Longrightarrow> list_all good es \<Longrightarrow> inv (foldl step s es)"
  by (induction es arbitrary: s) (auto intro: guarded_step)

end

locale step_system =
  fixes step :: "'s \<Rightarrow> 'e \<Rightarrow> 's"
    and inv :: "'s \<Rightarrow> bool"
  assumes step_inv: "inv s \<Longrightarrow> inv (step s e)"
begin

end

sublocale step_system \<subseteq> unguarded: guarded_system step inv "\<lambda>_. True"
  by unfold_locales (rule step_inv)

context step_system
begin

lemma run_inv: "inv s \<Longrightarrow> inv (foldl step s es)"
  using unguarded.guarded_run_inv [of s es] by (simp add: list_all_iff)

end

text \<open>A latch stays set until an event releases it.\<close>

locale latch =
  fixes step :: "'s \<Rightarrow> 'e \<Rightarrow> 's"
    and latched :: "'s \<Rightarrow> bool"
    and release :: "'e \<Rightarrow> bool"
  assumes keeps: "latched s \<Longrightarrow> \<not> release e \<Longrightarrow> latched (step s e)"
begin

lemma run_keeps: "latched s \<Longrightarrow> list_all (\<lambda>e. \<not> release e) es \<Longrightarrow> latched (foldl step s es)"
  by (induction es arbitrary: s) (auto intro: keeps)

lemma released_by:
  "latched s \<Longrightarrow> \<not> latched (foldl step s es) \<Longrightarrow> list_ex release es"
  using run_keeps [of s es] by (auto simp: list_all_iff list_ex_iff)

end

text \<open>A step that also emits outputs; \<open>run_out\<close> collects them in order.\<close>

fun run_out :: "('s \<Rightarrow> 'e \<Rightarrow> 's \<times> 'o list) \<Rightarrow> 's \<Rightarrow> 'e list \<Rightarrow> 's \<times> 'o list" where
  "run_out step s [] = (s, [])"
| "run_out step s (e # es) =
     (let (s', out) = step s e; (s'', outs) = run_out step s' es in (s'', out @ outs))"

text \<open>
  An emitter numbers some of its outputs from a counter: within one step the numbers lie
  above the old counter value and at most at the new one, in increasing order. The contract may
  depend on an invariant of the state and be limited to good events.
\<close>

locale guarded_emitter =
  fixes step :: "'s \<Rightarrow> 'e \<Rightarrow> 's \<times> 'o list"
    and cnt :: "'s \<Rightarrow> int"
    and tag :: "'o \<Rightarrow> int option"
    and inv :: "'s \<Rightarrow> bool"
    and good :: "'e \<Rightarrow> bool"
  assumes emit_inv: "inv s \<Longrightarrow> good e \<Longrightarrow> step s e = (s', out) \<Longrightarrow> inv s'"
    and emit_mono: "inv s \<Longrightarrow> good e \<Longrightarrow> step s e = (s', out) \<Longrightarrow> cnt s \<le> cnt s'"
    and emit_sorted: "inv s \<Longrightarrow> good e \<Longrightarrow> step s e = (s', out) \<Longrightarrow>
      sorted_wrt (<) (List.map_filter tag out)"
    and emit_range: "inv s \<Longrightarrow> good e \<Longrightarrow> step s e = (s', out) \<Longrightarrow>
      t \<in> set (List.map_filter tag out) \<Longrightarrow> cnt s < t \<and> t \<le> cnt s'"
begin

lemma map_filter_append:
  "List.map_filter tag (xs @ ys) = List.map_filter tag xs @ List.map_filter tag ys"
  by (simp add: List.map_filter_def)

lemma guarded_run:
  "inv s \<Longrightarrow> list_all good es \<Longrightarrow> run_out step s es = (s', outs) \<Longrightarrow>
     cnt s \<le> cnt s' \<and> (\<forall>t \<in> set (List.map_filter tag outs). cnt s < t \<and> t \<le> cnt s') \<and>
     sorted_wrt (<) (List.map_filter tag outs)"
proof (induction es arbitrary: s s' outs)
  case Nil
  then show ?case by (simp add: List.map_filter_def)
next
  case (Cons e es)
  have good: "good e" "list_all good es" using Cons.prems(2) by simp_all
  obtain s1 out where 1: "step s e = (s1, out)" by fastforce
  obtain s2 rest where 2: "run_out step s1 es = (s2, rest)" by fastforce
  from Cons.prems 1 2 have eqs: "s' = s2" "outs = out @ rest" by auto
  note I = Cons.prems(1) good(1) 1
  show ?case
    using emit_mono [OF I] emit_sorted [OF I] emit_range [OF I] Cons.IH [OF emit_inv [OF I] good(2) 2]
    by (fastforce simp: eqs map_filter_append sorted_wrt_append)
qed

end

locale seq_emitter =
  fixes step :: "'s \<Rightarrow> 'e \<Rightarrow> 's \<times> 'o list"
    and cnt :: "'s \<Rightarrow> int"
    and tag :: "'o \<Rightarrow> int option"
  assumes cnt_mono: "step s e = (s', out) \<Longrightarrow> cnt s \<le> cnt s'"
    and tags_sorted: "step s e = (s', out) \<Longrightarrow> sorted_wrt (<) (List.map_filter tag out)"
    and tags_range: "step s e = (s', out) \<Longrightarrow> t \<in> set (List.map_filter tag out) \<Longrightarrow>
      cnt s < t \<and> t \<le> cnt s'"

sublocale seq_emitter \<subseteq> guarded: guarded_emitter step cnt tag "\<lambda>_. True" "\<lambda>_. True"
  by unfold_locales (auto dest: cnt_mono tags_sorted tags_range)

context seq_emitter
begin

lemma run_range:
  "run_out step s es = (s', outs) \<Longrightarrow>
     cnt s \<le> cnt s' \<and> (\<forall>t \<in> set (List.map_filter tag outs). cnt s < t \<and> t \<le> cnt s')"
  using guarded.guarded_run [of es s] by (simp add: list_all_iff)

lemma run_sorted:
  "run_out step s es = (s', outs) \<Longrightarrow> sorted_wrt (<) (List.map_filter tag outs)"
  using guarded.guarded_run [of es s] by (simp add: list_all_iff)

lemma run_distinct:
  "run_out step s es = (s', outs) \<Longrightarrow> distinct (List.map_filter tag outs)"
  using run_sorted strict_sorted_iff by blast

end

text \<open>
  A latch whose outputs stay quiet while it is set: the contract of a stopped vehicle.
\<close>

locale quiet_latch =
  fixes step :: "'s \<Rightarrow> 'e \<Rightarrow> 's \<times> 'o list"
    and latched :: "'s \<Rightarrow> bool"
    and release :: "'e \<Rightarrow> bool"
    and quiet :: "'o \<Rightarrow> bool"
  assumes quiet_step: "latched s \<Longrightarrow> \<not> release e \<Longrightarrow> step s e = (s', out) \<Longrightarrow>
      latched s' \<and> list_all quiet out"
begin

lemma run_quiet:
  "latched s \<Longrightarrow> list_all (\<lambda>e. \<not> release e) es \<Longrightarrow> run_out step s es = (s', outs) \<Longrightarrow>
     latched s' \<and> list_all quiet outs"
proof (induction es arbitrary: s s' outs)
  case Nil
  then show ?case by simp
next
  case (Cons e es)
  obtain s1 out where 1: "step s e = (s1, out)" by fastforce
  obtain s2 rest where 2: "run_out step s1 es = (s2, rest)" by fastforce
  show ?case
    using quiet_step [OF _ _ 1] Cons.IH [OF _ _ 2] Cons.prems 1 2 by auto
qed

end

sublocale quiet_latch \<subseteq> latch "\<lambda>s e. fst (step s e)" latched release
proof
  fix s e assume "latched s" "\<not> release e"
  then show "latched (fst (step s e))" using quiet_step by (metis prod.collapse)
qed

end
