(* ===== verification/Authority.thy ===== *)
theory Authority
  imports Prelude
begin

text \<open>
  \<open>integrated/host/host_control/authority.py\<close>: which control producer may move the vehicle.
  One enum value holds the state, so MANUAL and AUTO_HOST exclude each other by construction;
  FAULTED is a latch that only \<open>clear_fault\<close> (or a re-arm, which calls it) opens. A transition
  that raises \<open>AuthorityError\<close> is an \<open>Inl\<close> and leaves the object as it was.
\<close>

datatype authority = DISARMED | MANUAL | AUTO_HOST | FAULTED

datatype authority_error =
    Requires authority authority  \<comment> \<open>expected, found\<close>
  | Use_clear_fault
  | Not_faulted

record control_authority =
  auth_state :: authority
  auth_fault_reason :: string

definition authority_init :: control_authority where
  "authority_init = \<lparr>auth_state = DISARMED, auth_fault_reason = ''''\<rparr>"

definition is_driving_allowed :: "control_authority \<Rightarrow> bool" where
  "is_driving_allowed a = (auth_state a = MANUAL \<or> auth_state a = AUTO_HOST)"

definition is_faulted :: "control_authority \<Rightarrow> bool" where
  "is_faulted a = (auth_state a = FAULTED)"

definition require_state :: "control_authority \<Rightarrow> authority \<Rightarrow> authority_error + unit" where
  "require_state a expected =
     (if auth_state a \<noteq> expected then Inl (Requires expected (auth_state a)) else Inr ())"

definition arm_manual :: "control_authority \<Rightarrow> authority_error + control_authority" where
  "arm_manual a = (case require_state a DISARMED of
       Inl e \<Rightarrow> Inl e
     | Inr _ \<Rightarrow> Inr (a\<lparr>auth_state := MANUAL\<rparr>))"

definition arm_auto :: "control_authority \<Rightarrow> authority_error + control_authority" where
  "arm_auto a = (case require_state a DISARMED of
       Inl e \<Rightarrow> Inl e
     | Inr _ \<Rightarrow> Inr (a\<lparr>auth_state := AUTO_HOST\<rparr>))"

definition disarm :: "control_authority \<Rightarrow> authority_error + control_authority" where
  "disarm a =
     (if auth_state a = FAULTED then Inl Use_clear_fault
      else Inr (a\<lparr>auth_state := DISARMED, auth_fault_reason := ''''\<rparr>))"

definition fault :: "control_authority \<Rightarrow> string \<Rightarrow> control_authority" where
  "fault a reason =
     (if auth_state a \<noteq> FAULTED
      then a\<lparr>auth_fault_reason := (if reason = '''' then ''FAULT'' else reason),
             auth_state := FAULTED\<rparr>
      else a)"

definition stop :: "control_authority \<Rightarrow> control_authority" where
  "stop a = fault a ''STOP''"

definition clear_fault :: "control_authority \<Rightarrow> authority_error + control_authority" where
  "clear_fault a =
     (if auth_state a \<noteq> FAULTED then Inl Not_faulted
      else Inr (a\<lparr>auth_state := DISARMED, auth_fault_reason := ''''\<rparr>))"

definition re_arm_auto :: "control_authority \<Rightarrow> authority_error + control_authority" where
  "re_arm_auto a =
     (if auth_state a = FAULTED
      then (case clear_fault a of Inl e \<Rightarrow> Inl e | Inr a' \<Rightarrow> arm_auto a')
      else arm_auto a)"

definition re_arm_manual :: "control_authority \<Rightarrow> authority_error + control_authority" where
  "re_arm_manual a =
     (if auth_state a = FAULTED
      then (case clear_fault a of Inl e \<Rightarrow> Inl e | Inr a' \<Rightarrow> arm_manual a')
      else arm_manual a)"

section \<open>The authority as a machine\<close>

text \<open>A caller that catches the exception goes on with the unchanged object.\<close>

datatype auth_op = Arm_manual | Arm_auto | Disarm | Fault string | Stop | Clear_fault
  | Re_arm_auto | Re_arm_manual

fun auth_call :: "control_authority \<Rightarrow> auth_op \<Rightarrow> authority_error + control_authority" where
  "auth_call a Arm_manual = arm_manual a"
| "auth_call a Arm_auto = arm_auto a"
| "auth_call a Disarm = disarm a"
| "auth_call a (Fault r) = Inr (fault a r)"
| "auth_call a Stop = Inr (stop a)"
| "auth_call a Clear_fault = clear_fault a"
| "auth_call a Re_arm_auto = re_arm_auto a"
| "auth_call a Re_arm_manual = re_arm_manual a"

definition auth_step :: "control_authority \<Rightarrow> auth_op \<Rightarrow> control_authority" where
  "auth_step a op = (case auth_call a op of Inl _ \<Rightarrow> a | Inr a' \<Rightarrow> a')"

fun is_arming :: "auth_op \<Rightarrow> bool" where
  "is_arming Arm_manual = True"
| "is_arming Arm_auto = True"
| "is_arming Re_arm_auto = True"
| "is_arming Re_arm_manual = True"
| "is_arming _ = False"

fun is_clearing :: "auth_op \<Rightarrow> bool" where
  "is_clearing Clear_fault = True"
| "is_clearing Re_arm_auto = True"
| "is_clearing Re_arm_manual = True"
| "is_clearing _ = False"

lemmas authority_defs = require_state_def arm_manual_def arm_auto_def disarm_def fault_def
  stop_def clear_fault_def re_arm_auto_def re_arm_manual_def is_driving_allowed_def is_faulted_def

text \<open>A fault reason is recorded exactly while the authority is FAULTED.\<close>

definition authority_inv :: "control_authority \<Rightarrow> bool" where
  "authority_inv a \<longleftrightarrow> (auth_state a = FAULTED \<longleftrightarrow> auth_fault_reason a \<noteq> '''')"

lemma authority_init_inv: "authority_inv authority_init"
  by (simp add: authority_inv_def authority_init_def)

lemma auth_step_inv [inv_intro]: "authority_inv a \<Longrightarrow> authority_inv (auth_step a op)"
  by (cases op) (auto simp: auth_step_def authority_inv_def authority_defs)

interpretation auth_sys: step_system auth_step authority_inv
  by unfold_locales (rule auth_step_inv)

interpretation fault_latch: latch auth_step is_faulted is_clearing
proof
  fix a op assume "is_faulted a" "\<not> is_clearing op"
  then show "is_faulted (auth_step a op)"
    by (cases op) (auto simp: auth_step_def authority_defs)
qed

interpretation still_latch: latch auth_step "\<lambda>a. \<not> is_driving_allowed a" is_arming
proof
  fix a op assume "\<not> is_driving_allowed a" "\<not> is_arming op"
  then show "\<not> is_driving_allowed (auth_step a op)"
    by (cases op) (auto simp: auth_step_def authority_defs)
qed

text \<open>The reason of the fault that latched first is the one that stays.\<close>

lemma fault_reason_sticky:
  "is_faulted a \<Longrightarrow> \<not> is_clearing op \<Longrightarrow> auth_step a op = a"
  by (cases op) (auto simp: auth_step_def authority_defs)

lemma fault_reason_kept:
  "is_faulted a \<Longrightarrow> list_all (\<lambda>op. \<not> is_clearing op) ops \<Longrightarrow> foldl auth_step a ops = a"
  by (induction ops) (auto simp: fault_reason_sticky)

text \<open>FAULTED is a latch. Whatever is called after a fault, the vehicle can drive again only
  if somebody explicitly armed it, and the fault is gone only if somebody explicitly cleared it;
  until then neither the state nor the first fault's reason changes.\<close>

theorem fault_needs_explicit_rearm:
  assumes "is_faulted a"
  shows "(is_driving_allowed (foldl auth_step a ops) \<longrightarrow> list_ex is_arming ops)
    \<and> (\<not> is_faulted (foldl auth_step a ops) \<longrightarrow> list_ex is_clearing ops)
    \<and> (list_all (\<lambda>op. \<not> is_clearing op) ops \<longrightarrow> foldl auth_step a ops = a)"
proof -
  have "\<not> is_driving_allowed a" using assms by (simp add: authority_defs)
  then show ?thesis
    using still_latch.released_by [of a ops] fault_latch.released_by [OF assms, of ops]
      fault_reason_kept [OF assms, of ops] by blast
qed

theorem fault_needs_explicit_rearm_witness:
  "foldl auth_step (fault authority_init ''POSE_STALE'') [Arm_auto, Disarm, Stop]
     = fault authority_init ''POSE_STALE''"
  using fault_needs_explicit_rearm [of "fault authority_init ''POSE_STALE''" "[Arm_auto, Disarm, Stop]"]
  by (simp add: authority_defs authority_init_def)

lemma authority_reachable_inv: "authority_inv (foldl auth_step authority_init ops)"
  by (rule auth_sys.run_inv [OF authority_init_inv])

end
