(* ===== verification/Geometry.thy ===== *)
theory Geometry
  imports Prelude
begin

text \<open>
  \<open>integrated/host/controller/geometry.py\<close>, \<open>models.py\<close> and \<open>config.py\<close>: angles, distances and
  the data the host-side controllers exchange. Positions are millimetres, headings degrees
  (0 = +X, counter-clockwise), times seconds of a monotonic clock.
\<close>

section \<open>\<open>geometry.py\<close>\<close>

definition wrap180 :: "real \<Rightarrow> real" where
  "wrap180 deg = pymod (deg + 180) 360 - 180"

definition wrap360 :: "real \<Rightarrow> real" where
  "wrap360 deg = pymod deg 360"

definition distance_mm :: "real \<Rightarrow> real \<Rightarrow> real \<Rightarrow> real \<Rightarrow> real" where
  "distance_mm x0 y0 x1 y1 = hypot (x1 - x0) (y1 - y0)"

definition bearing_deg :: "real \<Rightarrow> real \<Rightarrow> real \<Rightarrow> real \<Rightarrow> real" where
  "bearing_deg x_from y_from x_to y_to = degrees (atan2 (y_to - y_from) (x_to - x_from))"

definition heading_error_deg :: "real \<Rightarrow> real \<Rightarrow> real" where
  "heading_error_deg bearing heading = wrap180 (bearing - heading)"

definition clamp :: "real \<Rightarrow> real \<Rightarrow> real \<Rightarrow> real" where
  "clamp value lo hi = (if value < lo then lo else if value > hi then hi else value)"

lemma wrap180_bounds: "- 180 \<le> wrap180 d \<and> wrap180 d < 180"
  using pymod_bounds [of 360 "d + 180"] by (simp add: wrap180_def)

lemma wrap360_bounds: "0 \<le> wrap360 d \<and> wrap360 d < 360"
  using pymod_bounds [of 360 d] by (simp add: wrap360_def)

lemma wrap180_id: "- 180 \<le> d \<Longrightarrow> d < 180 \<Longrightarrow> wrap180 d = d"
  by (simp add: wrap180_def pymod_id)

lemma wrap180_shift: "wrap180 (d + 360 * of_int k) = wrap180 d"
proof -
  have "d + 360 * of_int k + 180 = (d + 180) + 360 * of_int k" by simp
  then show ?thesis
    using pymod_shift [of 360 "d + 180" k] unfolding wrap180_def by (metis zero_less_numeral)
qed

lemma wrap180_congruent: "\<exists>k. wrap180 d = d + 360 * of_int k"
proof
  show "wrap180 d = d + 360 * of_int (- \<lfloor>(d + 180) / 360\<rfloor>)"
    by (simp add: wrap180_def pymod_def)
qed

lemma abs_wrap180_le: "\<bar>wrap180 d\<bar> \<le> 180"
  using wrap180_bounds [of d] by (simp add: abs_le_iff)

text \<open>Among all representatives of an angle the wrapped one is a smallest in magnitude.\<close>

lemma wrap180_least: "\<bar>wrap180 d\<bar> \<le> \<bar>d + 360 * of_int k\<bar>"
proof -
  obtain j :: int where j: "wrap180 d = d + 360 * of_int j" using wrap180_congruent by blast
  then have d: "d + 360 * of_int k = wrap180 d + 360 * of_int (k - j)" by (simp add: algebra_simps)
  show ?thesis
  proof (cases "k = j")
    case True
    then show ?thesis using d by simp
  next
    case False
    then have "1 \<le> \<bar>k - j\<bar>" by simp
    then have "(1::real) \<le> \<bar>of_int (k - j)\<bar>" by linarith
    then have "360 \<le> \<bar>360 * real_of_int (k - j)\<bar>" by (simp add: abs_mult)
    then show ?thesis using abs_wrap180_le [of d] unfolding d by linarith
  qed
qed

lemma clamp_bounds: "lo \<le> hi \<Longrightarrow> lo \<le> clamp v lo hi \<and> clamp v lo hi \<le> hi"
  by (simp add: clamp_def)

lemma clamp_id: "lo \<le> v \<Longrightarrow> v \<le> hi \<Longrightarrow> clamp v lo hi = v"
  by (simp add: clamp_def)

lemma clamp_idem: "lo \<le> hi \<Longrightarrow> clamp (clamp v lo hi) lo hi = clamp v lo hi"
  by (simp add: clamp_id clamp_bounds)

lemma clamp_neg: "clamp (- v) (- 1) 1 = - clamp v (- 1) 1"
  by (simp add: clamp_def)

lemma clamp_mono: "lo \<le> hi \<Longrightarrow> u \<le> v \<Longrightarrow> clamp u lo hi \<le> clamp v lo hi"
  by (auto simp: clamp_def)

lemma clamp_pos: "lo < 0 \<Longrightarrow> 0 < hi \<Longrightarrow> 0 < clamp v lo hi \<longleftrightarrow> 0 < v"
  by (auto simp: clamp_def)

lemma clamp_minmax: "lo \<le> hi \<Longrightarrow> clamp v lo hi = max lo (min hi v)"
  by (auto simp: clamp_def)

lemma distance_mm_sym: "distance_mm a b c d = distance_mm c d a b"
  by (simp add: distance_mm_def hypot_diff_commute)

lemma bearing_bounds: "- 180 < bearing_deg a b c d \<and> bearing_deg a b c d \<le> 180"
  using atan2_bounds [of "d - b" "c - a"]
  by (simp add: bearing_deg_def degrees_def divide_le_eq less_divide_eq)

section \<open>\<open>models.py\<close>\<close>

datatype control_mode = HOLD | DRIVE | BRAKE | ALIGN | ARRIVED

record pose =
  x_mm :: real
  y_mm :: real
  heading_deg :: "real option"
  timestamp :: real
  valid :: bool

definition has_heading :: "pose \<Rightarrow> bool" where
  "has_heading p = (heading_deg p \<noteq> None)"

record host_waypoint =
  wp_x_mm :: real
  wp_y_mm :: real
  target_heading_deg :: "real option"
  speed_cm_s :: real
  position_tolerance_cm :: real
  heading_tolerance_deg :: real
  heading_required :: bool
  is_final :: bool
  wp_route_id :: "int option"
  wp_waypoint_id :: "int option"
  wp_phase :: "string option"

record control_command =
  cc_throttle :: real
  cc_steering :: real
  cc_mode :: control_mode
  cc_arrived :: bool
  distance_error_cm :: real
  cc_heading_error_deg :: real
  target_bearing_deg :: real
  cc_reason :: string
  logical_steering :: real

definition is_stopped :: "control_command \<Rightarrow> bool" where
  "is_stopped c = (cc_throttle c = 0 \<and> cc_steering c = 0)"

section \<open>\<open>config.py\<close>\<close>

text \<open>
  The gains and limits. A zero \<open>steer_normalize_deg\<close> would make the program divide by zero; the
  shipped configuration has 30 and no caller overrides it.
\<close>

record controller_config =
  steer_kp :: real
  steer_kd :: real
  steer_normalize_deg :: real
  wire_steering_sign :: real
  throttle_per_cm_s :: real
  min_move_throttle :: real
  max_throttle :: real
  turn_slowdown_deg :: real
  turn_throttle_floor :: real
  slow_radius_cm :: real
  stop_distance_cm :: real
  allow_reverse :: bool
  max_pose_age_s :: real

definition ControllerConfig :: controller_config where
  "ControllerConfig =
     \<lparr>steer_kp = 16 / 10, steer_kd = 25 / 100, steer_normalize_deg = 30,
      wire_steering_sign = - 1, throttle_per_cm_s = 3 / 100, min_move_throttle = 22 / 100,
      max_throttle = 40 / 100, turn_slowdown_deg = 60, turn_throttle_floor = 30 / 100,
      slow_radius_cm = 25, stop_distance_cm = 3, allow_reverse = False, max_pose_age_s = 1 / 2\<rparr>"

definition brake_radius_cm :: "controller_config \<Rightarrow> real \<Rightarrow> real" where
  "brake_radius_cm cfg tolerance = tolerance + stop_distance_cm cfg"

lemma ControllerConfig_simps [simp]:
  "wire_steering_sign ControllerConfig = - 1" "max_throttle ControllerConfig = 40 / 100"
  "min_move_throttle ControllerConfig = 22 / 100" "max_pose_age_s ControllerConfig = 1 / 2"
  "stop_distance_cm ControllerConfig = 3" "\<not> allow_reverse ControllerConfig"
  by (simp_all add: ControllerConfig_def)

end
