(* ===== verification/Pose_Control.thy ===== *)
theory Pose_Control
  imports Geometry
begin

text \<open>
  \<open>integrated/host/controller/pose_controller.py\<close>: one control step from a camera pose and a
  waypoint to a wire-ready command. The only state is the memory of the derivative term.
\<close>

record pd_state =
  prev_err_rad :: "real option"
  prev_time :: "real option"

definition pd_reset :: pd_state where
  "pd_reset = \<lparr>prev_err_rad = None, prev_time = None\<rparr>"

definition halt_command :: "real \<Rightarrow> real \<Rightarrow> real \<Rightarrow> string \<Rightarrow> control_command" where
  "halt_command distance_cm err_deg bearing reason =
     \<lparr>cc_throttle = 0, cc_steering = 0, cc_mode = HOLD, cc_arrived = False,
      distance_error_cm = distance_cm, cc_heading_error_deg = err_deg,
      target_bearing_deg = bearing, cc_reason = reason, logical_steering = 0\<rparr>"

definition steering :: "controller_config \<Rightarrow> real \<Rightarrow> real \<Rightarrow> real \<times> real" where
  "steering cfg err_rad derr_rad_s =
     (let raw = steer_kp cfg * err_rad + steer_kd cfg * derr_rad_s;
          norm = raw / radians (steer_normalize_deg cfg);
          logical = clamp norm (- 1) 1;
          wire = clamp (wire_steering_sign cfg * logical) (- 1) 1
      in (round_dec 4 logical, round_dec 4 wire))"

definition throttle_for :: "controller_config \<Rightarrow> host_waypoint \<Rightarrow> real \<Rightarrow> real \<Rightarrow> real" where
  "throttle_for cfg wp distance_cm err_deg =
     (let turn_scale = clamp (1 - \<bar>err_deg\<bar> / max (turn_slowdown_deg cfg) (1 / 10 ^ 6))
            (turn_throttle_floor cfg) 1;
          remaining = max (distance_cm - stop_distance_cm cfg) 0;
          approach_scale = clamp (remaining / max (slow_radius_cm cfg) (1 / 10 ^ 6)) 0 1;
          desired_cm_s = max (speed_cm_s wp) 0 * turn_scale * approach_scale
      in if desired_cm_s \<le> 0 then 0
         else
           let throttle = desired_cm_s * throttle_per_cm_s cfg;
               throttle = max throttle (min_move_throttle cfg);
               throttle = clamp throttle 0 (max_throttle cfg)
           in round_dec 4 throttle)"

definition needs_alignment :: "host_waypoint \<Rightarrow> real \<Rightarrow> bool" where
  "needs_alignment wp heading =
     (if \<not> heading_required wp then False
      else case target_heading_deg wp of
        None \<Rightarrow> False
      | Some t \<Rightarrow> \<bar>wrap180 (t - heading)\<bar> > heading_tolerance_deg wp)"

definition derivative :: "pd_state \<Rightarrow> real \<Rightarrow> real \<Rightarrow> real \<times> pd_state" where
  "derivative st err_rad now =
     (let st' = \<lparr>prev_err_rad = Some err_rad, prev_time = Some now\<rparr>
      in case (prev_err_rad st, prev_time st) of
           (Some prev_err, Some prev_t) \<Rightarrow>
             let dt = now - prev_t
             in if dt \<le> 1 / 1000 then (0, st') else ((err_rad - prev_err) / dt, st')
         | _ \<Rightarrow> (0, st'))"

definition pose_compute ::
  "controller_config \<Rightarrow> pd_state \<Rightarrow> pose \<Rightarrow> host_waypoint \<Rightarrow> bool \<Rightarrow> real \<Rightarrow>
     control_command \<times> pd_state" where
  "pose_compute cfg st p wp allow_drive now =
     (let dx = wp_x_mm wp - x_mm p;
          dy = wp_y_mm wp - y_mm p;
          distance_cm = hypot dx dy / 10;
          bearing = bearing_deg (x_mm p) (y_mm p) (wp_x_mm wp) (wp_y_mm wp)
      in if \<not> valid p then (halt_command distance_cm 0 bearing ''POSE_INVALID'', pd_reset)
         else case heading_deg p of
           None \<Rightarrow> (halt_command distance_cm 0 bearing ''NO_HEADING'', pd_reset)
         | Some heading \<Rightarrow>
             if now - timestamp p > max_pose_age_s cfg
             then (halt_command distance_cm 0 bearing ''POSE_STALE'', pd_reset)
             else
               let err_deg = heading_error_deg bearing heading;
                   err_rad = radians err_deg;
                   (derr, st') = derivative st err_rad now
               in if \<not> allow_drive
                  then (halt_command distance_cm err_deg bearing ''DRIVE_NOT_ALLOWED'', pd_reset)
                  else if distance_cm \<le> brake_radius_cm cfg (position_tolerance_cm wp)
                  then if needs_alignment wp heading
                       then (\<lparr>cc_throttle = 0, cc_steering = 0, cc_mode = ALIGN, cc_arrived = False,
                              distance_error_cm = distance_cm,
                              cc_heading_error_deg =
                                wrap180 (case_option 0 id (target_heading_deg wp) - heading),
                              target_bearing_deg = bearing,
                              cc_reason = ''HEADING_OUT_OF_TOLERANCE'', logical_steering = 0\<rparr>, st')
                       else (\<lparr>cc_throttle = 0, cc_steering = 0, cc_mode = ARRIVED, cc_arrived = True,
                              distance_error_cm = distance_cm, cc_heading_error_deg = err_deg,
                              target_bearing_deg = bearing, cc_reason = ''ARRIVED'',
                              logical_steering = 0\<rparr>, pd_reset)
                  else
                    let (logical, wire) = steering cfg err_rad derr;
                        throttle = throttle_for cfg wp distance_cm err_deg
                    in (\<lparr>cc_throttle = throttle, cc_steering = wire,
                         cc_mode = (if throttle > 0 then DRIVE else BRAKE), cc_arrived = False,
                         distance_error_cm = distance_cm, cc_heading_error_deg = err_deg,
                         target_bearing_deg = bearing, cc_reason = '''',
                         logical_steering = logical\<rparr>, st'))"

section \<open>The pieces of a step\<close>

lemma halt_command_simps [simp]:
  "cc_throttle (halt_command d e b r) = 0" "cc_steering (halt_command d e b r) = 0"
  "cc_mode (halt_command d e b r) = HOLD" "\<not> cc_arrived (halt_command d e b r)"
  "cc_reason (halt_command d e b r) = r" "logical_steering (halt_command d e b r) = 0"
  by (simp_all add: halt_command_def)

lemma steering_unit:
  "\<bar>fst (steering cfg e d)\<bar> \<le> 1 \<and> \<bar>snd (steering cfg e d)\<bar> \<le> 1"
proof -
  have "\<bar>round_dec 4 (clamp v (- 1) 1)\<bar> \<le> 1" for v
    using round_dec_unit [of "clamp v (- 1) 1" 4] clamp_bounds [of "- 1" 1 v] by (simp add: abs_le_iff)
  then show ?thesis by (simp add: steering_def Let_def)
qed

text \<open>With the firmware's sign the wire value is the logical one negated.\<close>

lemma steering_wire:
  assumes "wire_steering_sign cfg = - 1"
  shows "snd (steering cfg e d) = - fst (steering cfg e d)"
proof -
  have "clamp (clamp v (- 1) 1) (- 1) 1 = clamp v (- 1) 1" for v
    by (simp add: clamp_idem)
  then show ?thesis using assms by (simp add: steering_def Let_def clamp_neg round_dec_minus)
qed

lemma throttle_for_cases:
  obtains "throttle_for cfg wp d e = 0"
  | x where "throttle_for cfg wp d e =
      round_dec 4 (clamp (max x (min_move_throttle cfg)) 0 (max_throttle cfg))"
  unfolding throttle_for_def Let_def by (metis (no_types))

lemma throttle_for_nonneg:
  assumes "0 \<le> max_throttle cfg" shows "0 \<le> throttle_for cfg wp d e"
  by (cases cfg wp d e rule: throttle_for_cases) (simp_all add: assms clamp_bounds round_dec_nonneg)

lemma throttle_for_upper:
  assumes "0 \<le> max_throttle cfg" shows "throttle_for cfg wp d e \<le> round_dec 4 (max_throttle cfg)"
  by (cases cfg wp d e rule: throttle_for_cases)
    (simp_all add: assms clamp_bounds round_dec_nonneg round_dec_mono)

lemma throttle_for_lower:
  assumes "0 \<le> min_move_throttle cfg" "min_move_throttle cfg \<le> max_throttle cfg"
    and "throttle_for cfg wp d e \<noteq> 0"
  shows "round_dec 4 (min_move_throttle cfg) \<le> throttle_for cfg wp d e"
proof (cases cfg wp d e rule: throttle_for_cases)
  case 1
  then show ?thesis using assms(3) by simp
next
  case (2 x)
  have "min_move_throttle cfg \<le> clamp (max x (min_move_throttle cfg)) 0 (max_throttle cfg)"
    using assms by (simp add: clamp_def)
  then show ?thesis unfolding 2 by (rule round_dec_mono)
qed

section \<open>The whole step\<close>

text \<open>
  What a step decides, without the numbers: the abstract specification \<open>pose_compute\<close> refines.
\<close>

definition fresh_pose :: "controller_config \<Rightarrow> pose \<Rightarrow> real \<Rightarrow> bool" where
  "fresh_pose cfg p now \<longleftrightarrow>
     valid p \<and> has_heading p \<and> now - timestamp p \<le> max_pose_age_s cfg"

definition within_brake_radius :: "controller_config \<Rightarrow> pose \<Rightarrow> host_waypoint \<Rightarrow> bool" where
  "within_brake_radius cfg p wp \<longleftrightarrow>
     hypot (wp_x_mm wp - x_mm p) (wp_y_mm wp - y_mm p) / 10
       \<le> brake_radius_cm cfg (position_tolerance_cm wp)"

definition misaligned :: "pose \<Rightarrow> host_waypoint \<Rightarrow> bool" where
  "misaligned p wp \<longleftrightarrow> (case heading_deg p of None \<Rightarrow> False | Some h \<Rightarrow> needs_alignment wp h)"

lemmas compute_split = prod.splits option.splits if_splits

lemmas compute_unfold = pose_compute_def fresh_pose_def within_brake_radius_def misaligned_def
  has_heading_def is_stopped_def Let_def

lemma pose_compute_halts:
  assumes "\<not> (fresh_pose cfg p now \<and> allow)"
  shows "\<exists>d e b r. pose_compute cfg st p wp allow now = (halt_command d e b r, pd_reset)"
proof (cases "heading_deg p")
  case None
  then show ?thesis by (auto simp: pose_compute_def Let_def)
next
  case (Some h)
  then show ?thesis
    using assms by (auto simp: pose_compute_def fresh_pose_def has_heading_def Let_def
        split: prod.splits)
qed

lemma pose_compute_at_target:
  assumes "fresh_pose cfg p now" "allow" "within_brake_radius cfg p wp"
  shows "is_stopped (fst (pose_compute cfg st p wp allow now)) \<and>
         cc_mode (fst (pose_compute cfg st p wp allow now)) =
           (if misaligned p wp then ALIGN else ARRIVED) \<and>
         cc_arrived (fst (pose_compute cfg st p wp allow now)) = (\<not> misaligned p wp)"
  using assms unfolding compute_unfold by (cases "heading_deg p") (auto split: prod.splits)

lemma pose_compute_underway:
  assumes "fresh_pose cfg p now" "allow" "\<not> within_brake_radius cfg p wp"
  obtains e der d st' b h where "heading_deg p = Some h"
    "e = heading_error_deg (bearing_deg (x_mm p) (y_mm p) (wp_x_mm wp) (wp_y_mm wp)) h"
    "derivative st (radians e) now = (der, st')"
    "pose_compute cfg st p wp allow now =
       (\<lparr>cc_throttle = throttle_for cfg wp d e, cc_steering = snd (steering cfg (radians e) der),
         cc_mode = (if throttle_for cfg wp d e > 0 then DRIVE else BRAKE), cc_arrived = False,
         distance_error_cm = d, cc_heading_error_deg = e, target_bearing_deg = b,
         cc_reason = '''', logical_steering = fst (steering cfg (radians e) der)\<rparr>, st')"
proof -
  from assms(1) obtain h where h: "heading_deg p = Some h" and v: "valid p"
    and t: "now - timestamp p \<le> max_pose_age_s cfg"
    by (auto simp: fresh_pose_def has_heading_def)
  let ?e = "heading_error_deg (bearing_deg (x_mm p) (y_mm p) (wp_x_mm wp) (wp_y_mm wp)) h"
  obtain der st' where d: "derivative st (radians ?e) now = (der, st')" by fastforce
  show ?thesis
    by (rule that [OF h refl d, where d = "hypot (wp_x_mm wp - x_mm p) (wp_y_mm wp - y_mm p) / 10"
          and b = "bearing_deg (x_mm p) (y_mm p) (wp_x_mm wp) (wp_y_mm wp)"])
      (use assms h v t d in \<open>simp add: pose_compute_def within_brake_radius_def Let_def
         split: prod.splits\<close>)
qed

lemma pose_compute_exhaust:
  obtains (halt) d e b r where "\<not> (fresh_pose cfg p now \<and> allow)"
    "pose_compute cfg st p wp allow now = (halt_command d e b r, pd_reset)"
  | (target) "fresh_pose cfg p now" "allow" "within_brake_radius cfg p wp"
    "is_stopped (fst (pose_compute cfg st p wp allow now))"
    "cc_mode (fst (pose_compute cfg st p wp allow now)) =
       (if misaligned p wp then ALIGN else ARRIVED)"
    "cc_arrived (fst (pose_compute cfg st p wp allow now)) = (\<not> misaligned p wp)"
  | (underway) "fresh_pose cfg p now" "allow" "\<not> within_brake_radius cfg p wp"
  using pose_compute_halts pose_compute_at_target by metis

lemma pose_compute_moving:
  assumes "\<not> is_stopped (fst (pose_compute cfg st p wp allow now))"
  shows "fresh_pose cfg p now \<and> allow \<and> \<not> within_brake_radius cfg p wp"
  by (rule pose_compute_exhaust [where cfg = cfg and p = p and now = now and allow = allow
        and st = st and wp = wp])
    (use assms in \<open>auto simp: is_stopped_def\<close>)

text \<open>What one step must decide, as a table over four questions.\<close>

definition decide_mode :: "bool \<Rightarrow> bool \<Rightarrow> bool \<Rightarrow> bool \<Rightarrow> control_mode" where
  "decide_mode usable near mis moving =
     (if \<not> usable then HOLD
      else if near then (if mis then ALIGN else ARRIVED)
      else if moving then DRIVE else BRAKE)"


text \<open>Every command is wire-ready for a forward-only configuration: steering in \<open>[-1, 1]\<close>, the
  opposite of the logical steering (the firmware reads negative as LEFT), throttle between 0 and
  the rounded limit, and a non-zero throttle is never below the rounded dead-band value.\<close>

theorem pose_compute_wire_ready:
  assumes "wire_steering_sign cfg = - 1" "0 \<le> min_move_throttle cfg"
    "min_move_throttle cfg \<le> max_throttle cfg"
    and c: "fst (pose_compute cfg st p wp allow now) = c"
  shows "\<bar>cc_steering c\<bar> \<le> 1 \<and> cc_steering c = - logical_steering c
    \<and> 0 \<le> cc_throttle c \<and> cc_throttle c \<le> round_dec 4 (max_throttle cfg)
    \<and> (cc_throttle c \<noteq> 0 \<longrightarrow> round_dec 4 (min_move_throttle cfg) \<le> cc_throttle c)"
proof -
  have m: "0 \<le> max_throttle cfg" using assms by simp
  show ?thesis
  proof (cases "fresh_pose cfg p now \<and> allow \<and> \<not> within_brake_radius cfg p wp")
    case True
    then show ?thesis
      using c assms(1-3) m steering_unit steering_wire throttle_for_nonneg throttle_for_upper
        throttle_for_lower by (elim conjE pose_compute_underway [where st = st]) auto
  next
    case False
    have "cc_throttle c = 0 \<and> cc_steering c = 0 \<and> logical_steering c = 0"
      using False unfolding c [symmetric] compute_unfold halt_command_def
      by (cases "heading_deg p") (auto split: compute_split)
    then show ?thesis using m by (simp add: round_dec_nonneg)
  qed
qed

theorem pose_compute_wire_ready_witness:
  "0 \<le> cc_throttle (fst (pose_compute ControllerConfig pd_reset
      \<lparr>x_mm = 0, y_mm = 0, heading_deg = Some 0, timestamp = 0, valid = True\<rparr>
      \<lparr>wp_x_mm = 1000, wp_y_mm = 0, target_heading_deg = None, speed_cm_s = 12,
        position_tolerance_cm = 8, heading_tolerance_deg = 30, heading_required = False,
        is_final = True, wp_route_id = None, wp_waypoint_id = None, wp_phase = None\<rparr> True 0))"
  using pose_compute_wire_ready [OF _ _ _ refl, of ControllerConfig pd_reset
      "\<lparr>x_mm = 0, y_mm = 0, heading_deg = Some 0, timestamp = 0, valid = True\<rparr>"
      "\<lparr>wp_x_mm = 1000, wp_y_mm = 0, target_heading_deg = None, speed_cm_s = 12,
        position_tolerance_cm = 8, heading_tolerance_deg = 30, heading_required = False,
        is_final = True, wp_route_id = None, wp_waypoint_id = None, wp_phase = None\<rparr>" True 0]
  by simp

end
