(* ===== verification/Host_Parts.thy ===== *)
theory Host_Parts
  imports Authority Pose_Control
begin

text \<open>
  The parts \<open>HostController\<close> is assembled from: \<open>pose_source.py\<close>, \<open>mission.py\<close>,
  \<open>producers.py\<close> and \<open>direct_control.py\<close> of \<open>integrated/host/host_control\<close>.
\<close>

section \<open>Camera pose source\<close>

record camera_pose_source =
  src_pose :: "pose option"
  had_observation :: bool

definition pose_source_init :: camera_pose_source where
  "pose_source_init = \<lparr>src_pose = None, had_observation = False\<rparr>"

definition observe ::
  "camera_pose_source \<Rightarrow> real \<Rightarrow> real \<Rightarrow> real option \<Rightarrow> real \<Rightarrow> bool \<Rightarrow> camera_pose_source" where
  "observe src x y heading obs_time ok =
     src\<lparr>src_pose := Some \<lparr>x_mm = x, y_mm = y, heading_deg = heading, timestamp = obs_time, valid = ok\<rparr>,
         had_observation := True\<rparr>"

definition observe_pose :: "camera_pose_source \<Rightarrow> pose \<Rightarrow> camera_pose_source" where
  "observe_pose src p = src\<lparr>src_pose := Some p, had_observation := True\<rparr>"

definition latest :: "camera_pose_source \<Rightarrow> pose option" where
  "latest src = src_pose src"

definition age_s :: "camera_pose_source \<Rightarrow> real \<Rightarrow> real option" where
  "age_s src now = (case src_pose src of None \<Rightarrow> None | Some p \<Rightarrow> Some (now - timestamp p))"

definition clear_source :: "camera_pose_source \<Rightarrow> camera_pose_source" where
  "clear_source src = src\<lparr>src_pose := None, had_observation := False\<rparr>"

section \<open>Host-owned waypoint mission\<close>

datatype mission_status = EMPTY | RUNNING | REPLAN_REQUIRED | DONE | PARKED

record host_mission =
  hm_waypoints :: "host_waypoint list"
  hm_index :: nat
  hm_status :: mission_status

definition load_status :: "host_waypoint list \<Rightarrow> mission_status" where
  "load_status wps = (if wps \<noteq> [] then RUNNING else EMPTY)"

definition host_mission_new :: "host_waypoint list \<Rightarrow> host_mission" where
  "host_mission_new wps = \<lparr>hm_waypoints = wps, hm_index = 0, hm_status = load_status wps\<rparr>"

definition is_active :: "host_mission \<Rightarrow> bool" where
  "is_active m = (hm_status m = RUNNING)"

definition current_target :: "host_mission \<Rightarrow> host_waypoint option" where
  "current_target m =
     (if hm_status m \<noteq> RUNNING then None
      else if hm_index m < length (hm_waypoints m) then Some (hm_waypoints m ! hm_index m)
      else None)"

text \<open>Indexing past the end raises \<open>IndexError\<close>: \<open>None\<close>.\<close>

definition is_final_index :: "host_mission \<Rightarrow> bool option" where
  "is_final_index m =
     (if hm_index m < length (hm_waypoints m)
      then Some (is_final (hm_waypoints m ! hm_index m) \<or>
                 hm_index m + 1 = length (hm_waypoints m))
      else None)"

definition load_route :: "host_mission \<Rightarrow> host_waypoint list \<Rightarrow> host_mission" where
  "load_route m wps = m\<lparr>hm_waypoints := wps, hm_index := 0, hm_status := load_status wps\<rparr>"

definition notify_result :: "host_mission \<Rightarrow> control_command \<Rightarrow> host_mission option" where
  "notify_result m cmd =
     (if hm_status m \<noteq> RUNNING then Some m
      else if cc_mode cmd = ALIGN then Some (m\<lparr>hm_status := REPLAN_REQUIRED\<rparr>)
      else if cc_arrived cmd
      then (case is_final_index m of
              None \<Rightarrow> None
            | Some final \<Rightarrow>
                if final then Some (m\<lparr>hm_status := DONE\<rparr>)
                else Some (m\<lparr>hm_index := hm_index m + 1\<rparr>))
      else Some m)"

definition confirm_parked :: "host_mission \<Rightarrow> host_mission" where
  "confirm_parked m = (if hm_status m = DONE then m\<lparr>hm_status := PARKED\<rparr> else m)"

definition reset_mission :: "host_mission \<Rightarrow> host_mission" where
  "reset_mission m = m\<lparr>hm_index := 0, hm_status := load_status (hm_waypoints m)\<rparr>"

text \<open>While a mission runs its index points at a waypoint.\<close>

definition mission_inv :: "host_mission \<Rightarrow> bool" where
  "mission_inv m \<longleftrightarrow> (hm_status m = RUNNING \<longrightarrow> hm_index m < length (hm_waypoints m))"

lemma mission_new_inv [inv_intro]: "mission_inv (host_mission_new wps)"
  by (simp add: mission_inv_def host_mission_new_def load_status_def)

lemma mission_load_inv [inv_intro]: "mission_inv (load_route m wps)"
  by (simp add: mission_inv_def load_route_def load_status_def)

lemma mission_reset_inv [inv_intro]: "mission_inv (reset_mission m)"
  by (simp add: mission_inv_def reset_mission_def load_status_def)

lemma mission_confirm_inv [inv_intro]: "mission_inv m \<Longrightarrow> mission_inv (confirm_parked m)"
  by (simp add: mission_inv_def confirm_parked_def)

lemma notify_result_total:
  "mission_inv m \<Longrightarrow> \<exists>m'. notify_result m cmd = Some m' \<and> mission_inv m'"
  by (auto simp: notify_result_def is_final_index_def mission_inv_def split: option.splits)

lemma notify_result_route: "notify_result m cmd = Some m' \<Longrightarrow> hm_waypoints m' = hm_waypoints m"
  by (auto simp: notify_result_def split: if_splits option.splits)

lemma current_target_iff:
  "mission_inv m \<Longrightarrow> current_target m \<noteq> None \<longleftrightarrow> is_active m"
  by (simp add: current_target_def is_active_def mission_inv_def)

text \<open>Progress: a result never moves a mission backwards through its route.\<close>

lemma notify_result_index: "notify_result m cmd = Some m' \<Longrightarrow>
    hm_index m \<le> hm_index m' \<and> hm_index m' \<le> hm_index m + 1"
  by (auto simp: notify_result_def split: if_splits option.splits)

text \<open>
  The route is followed in order: with \<open>arrivals\<close> arrival reports and no misalignment, the
  mission visits waypoint after waypoint up to the first one that is final.
\<close>

fun notify_all :: "host_mission \<Rightarrow> control_command list \<Rightarrow> host_mission option" where
  "notify_all m [] = Some m"
| "notify_all m (c # cs) = (case notify_result m c of None \<Rightarrow> None | Some m' \<Rightarrow> notify_all m' cs)"

lemma notify_all_total: "mission_inv m \<Longrightarrow> \<exists>m'. notify_all m cs = Some m' \<and> mission_inv m'"
proof (induction cs arbitrary: m)
  case Nil
  then show ?case by simp
next
  case (Cons c cs)
  obtain m1 where 1: "notify_result m c = Some m1" "mission_inv m1"
    using notify_result_total [OF Cons.prems] by blast
  show ?case using Cons.IH [OF 1(2)] 1(1) by simp
qed

definition arrival_count :: "control_command list \<Rightarrow> nat" where
  "arrival_count cs = length (filter cc_arrived cs)"

lemma notify_all_done_needs_arrivals:
  assumes "mission_inv m" "hm_status m = RUNNING" "notify_all m cs = Some m'" "hm_status m' = DONE"
  shows "\<exists>i. hm_index m \<le> i \<and> i < length (hm_waypoints m) \<and> i - hm_index m < arrival_count cs
      \<and> (is_final (hm_waypoints m ! i) \<or> i + 1 = length (hm_waypoints m))"
  using assms
proof (induction cs arbitrary: m)
  case Nil
  then show ?case by simp
next
  case (Cons c cs)
  obtain m1 where 1: "notify_result m c = Some m1" "mission_inv m1"
    using notify_result_total [OF Cons.prems(1)] by blast
  from Cons.prems(3) 1 have rest: "notify_all m1 cs = Some m'" by simp
  note r = notify_result_route [OF 1(1)]
  consider (run) "hm_status m1 = RUNNING" | (halted) "hm_status m1 \<noteq> RUNNING" by blast
  then show ?case
  proof cases
    case run
    obtain i where i: "hm_index m1 \<le> i" "i < length (hm_waypoints m)"
      "i - hm_index m1 < arrival_count cs"
      "is_final (hm_waypoints m ! i) \<or> i + 1 = length (hm_waypoints m)"
      using Cons.IH [OF 1(2) run rest Cons.prems(4)] r by auto
    have "hm_index m1 = hm_index m + (if cc_arrived c then 1 else 0)"
      using 1(1) run Cons.prems(2)
      by (auto simp: notify_result_def split: if_splits option.splits)
    then show ?thesis using i by (intro exI [of _ i]) (auto simp: arrival_count_def)
  next
    case halted
    have keep: "notify_all m1 cs = Some m1" using halted
      by (induction cs) (auto simp: notify_result_def)
    then have "hm_status m1 = DONE" using rest Cons.prems(4) by simp
    then show ?thesis
      using 1(1) Cons.prems(1,2) by (intro exI [of _ "hm_index m"])
        (auto simp: notify_result_def is_final_index_def arrival_count_def split: if_splits option.splits)
  qed
qed

section \<open>Producers\<close>

record manual_input =
  mi_throttle :: real
  mi_steering :: real

definition zero_command :: "string \<Rightarrow> control_command" where
  "zero_command reason =
     \<lparr>cc_throttle = 0, cc_steering = 0, cc_mode = HOLD, cc_arrived = False, distance_error_cm = 0,
      cc_heading_error_deg = 0, target_bearing_deg = 0, cc_reason = reason, logical_steering = 0\<rparr>"

definition manual_compute :: "controller_config \<Rightarrow> manual_input option \<Rightarrow> control_command" where
  "manual_compute cfg manual = (case manual of
       None \<Rightarrow> zero_command ''NO_MANUAL_INPUT''
     | Some mi \<Rightarrow>
         let throttle = clamp (mi_throttle mi) (- 1) 1;
             throttle = (if \<not> allow_reverse cfg \<and> throttle < 0 then 0 else throttle);
             throttle = clamp throttle (if \<not> allow_reverse cfg then 0 else - max_throttle cfg)
                          (max_throttle cfg);
             logical = clamp (mi_steering mi) (- 1) 1;
             wire = clamp (wire_steering_sign cfg * logical) (- 1) 1;
             wire = round_dec 4 wire;
             throttle = round_dec 4 throttle;
             mode = (if throttle > 0 then DRIVE else HOLD)
         in \<lparr>cc_throttle = throttle, cc_steering = wire, cc_mode = mode, cc_arrived = False,
             distance_error_cm = 0, cc_heading_error_deg = 0, target_bearing_deg = 0,
             cc_reason = ''MANUAL'', logical_steering = round_dec 4 logical\<rparr>)"

definition auto_compute ::
  "controller_config \<Rightarrow> pd_state \<Rightarrow> pose option \<Rightarrow> host_waypoint option \<Rightarrow> bool \<Rightarrow> real \<Rightarrow>
     control_command \<times> pd_state" where
  "auto_compute cfg st p target allow_drive now = (case target of
       None \<Rightarrow> (zero_command ''NO_TARGET'', st)
     | Some wp \<Rightarrow> (case p of
           None \<Rightarrow> (zero_command ''NO_POSE'', st)
         | Some q \<Rightarrow> pose_compute cfg st q wp allow_drive now))"

lemma zero_command_simps [simp]:
  "cc_throttle (zero_command r) = 0" "cc_steering (zero_command r) = 0"
  "cc_mode (zero_command r) = HOLD" "\<not> cc_arrived (zero_command r)"
  "cc_reason (zero_command r) = r" "is_stopped (zero_command r)"
  by (simp_all add: zero_command_def is_stopped_def)

text \<open>Manual output stays inside the wire range and turns the way the driver asked.\<close>

lemma manual_compute_bounds:
  assumes "0 \<le> max_throttle cfg"
  shows "\<bar>cc_steering (manual_compute cfg mi)\<bar> \<le> 1 \<and>
         \<bar>cc_throttle (manual_compute cfg mi)\<bar> \<le> round_dec 4 (max_throttle cfg) \<and>
         (\<not> allow_reverse cfg \<longrightarrow> 0 \<le> cc_throttle (manual_compute cfg mi))"
proof (cases mi)
  case None
  then show ?thesis using assms by (simp add: manual_compute_def round_dec_nonneg)
next
  case (Some i)
  have st: "\<bar>round_dec 4 (clamp v (- 1) 1)\<bar> \<le> 1" for v
    using round_dec_unit [of "clamp v (- 1) 1" 4] clamp_bounds [of "- 1" 1 v] by (simp add: abs_le_iff)
  have th: "\<bar>round_dec 4 (clamp v (- max_throttle cfg) (max_throttle cfg))\<bar>
      \<le> round_dec 4 (max_throttle cfg)" for v
    using clamp_bounds [of "- max_throttle cfg" "max_throttle cfg" v] assms
      round_dec_mono [of "- max_throttle cfg" "clamp v (- max_throttle cfg) (max_throttle cfg)" 4]
      round_dec_mono [of "clamp v (- max_throttle cfg) (max_throttle cfg)" "max_throttle cfg" 4]
    by (simp add: abs_le_iff round_dec_minus)
  have fw: "0 \<le> round_dec 4 (clamp v 0 (max_throttle cfg)) \<and>
      round_dec 4 (clamp v 0 (max_throttle cfg)) \<le> round_dec 4 (max_throttle cfg)" for v
    using clamp_bounds [of 0 "max_throttle cfg" v] assms by (simp add: round_dec_mono round_dec_nonneg)
  show ?thesis using Some st th fw by (simp add: manual_compute_def Let_def)
qed

section \<open>\<open>DIRECT_CONTROL\<close> transport\<close>

record transport_timing =
  send_period_s :: real
  direct_timeout_s :: real
  heartbeat_timeout_s :: real

definition TransportTiming :: transport_timing where
  "TransportTiming =
     \<lparr>send_period_s = 1 / 10, direct_timeout_s = 5 / 10, heartbeat_timeout_s = 1\<rparr>"

definition timing_is_safe :: "transport_timing \<Rightarrow> bool" where
  "timing_is_safe t = (send_period_s t > 0 \<and> send_period_s t * 2 \<le> direct_timeout_s t)"

definition margin_ratio :: "transport_timing \<Rightarrow> pyfloat" where
  "margin_ratio t =
     (if send_period_s t \<le> 0 then PosInf else Fin (direct_timeout_s t / send_period_s t))"

record payload =
  pl_control_seq :: int
  pl_throttle :: real
  pl_steering :: real

record direct_sender =
  snd_seq :: int

definition sender_init :: direct_sender where
  "sender_init = \<lparr>snd_seq = 0\<rparr>"

definition send :: "direct_sender \<Rightarrow> real \<Rightarrow> real \<Rightarrow> payload \<times> direct_sender" where
  "send s throttle steer =
     (let s' = s\<lparr>snd_seq := snd_seq s + 1\<rparr>
      in (\<lparr>pl_control_seq = snd_seq s', pl_throttle = round_dec 4 throttle,
           pl_steering = round_dec 4 steer\<rparr>, s'))"

definition send_command :: "direct_sender \<Rightarrow> control_command \<Rightarrow> payload \<times> direct_sender" where
  "send_command s cmd = send s (cc_throttle cmd) (cc_steering cmd)"

definition send_zero :: "direct_sender \<Rightarrow> payload \<times> direct_sender" where
  "send_zero s = send s 0 0"

definition zero_payload :: "payload \<Rightarrow> bool" where
  "zero_payload pl \<longleftrightarrow> pl_throttle pl = 0 \<and> pl_steering pl = 0"

lemmas send_defs = send_def send_command_def send_zero_def Let_def

text \<open>The margin is at least two exactly when the timing contract holds.\<close>

lemma timing_margin:
  "0 < send_period_s t \<Longrightarrow> margin_ratio t = Fin r \<Longrightarrow> timing_is_safe t \<longleftrightarrow> 2 \<le> r"
  by (auto simp: timing_is_safe_def margin_ratio_def field_simps)

end
