(* ===== verification/Host_Controller.thy ===== *)
theory Host_Controller
  imports Host_Parts
begin

text \<open>
  \<open>integrated/host/host_control/host_controller.py\<close>: the tick that picks one producer's output
  and sends it. A tick always sends exactly one payload. \<open>None\<close> is the \<open>IndexError\<close> of the
  mission's index, which the mission invariant excludes.
\<close>

record host_controller =
  hc_config :: controller_config
  hc_authority :: control_authority
  hc_pose_source :: camera_pose_source
  hc_mission :: host_mission
  hc_manual_config :: controller_config
  hc_auto :: pd_state
  hc_sender :: direct_sender
  hc_fault_on_stale :: bool

definition host_new :: "controller_config \<Rightarrow> host_waypoint list \<Rightarrow> host_controller" where
  "host_new cfg wps =
     \<lparr>hc_config = cfg, hc_authority = authority_init, hc_pose_source = pose_source_init,
      hc_mission = host_mission_new wps, hc_manual_config = cfg, hc_auto = pd_reset,
      hc_sender = sender_init, hc_fault_on_stale = True\<rparr>"

record tick_result =
  tr_authority :: authority
  tr_mission_status :: mission_status
  tr_command :: control_command
  tr_payload :: payload

definition stale_reasons :: "string list" where
  "stale_reasons = [''POSE_STALE'', ''POSE_INVALID'', ''NO_HEADING'']"

definition authority_name :: "authority \<Rightarrow> string" where
  "authority_name s = (case s of DISARMED \<Rightarrow> ''DISARMED'' | MANUAL \<Rightarrow> ''MANUAL''
     | AUTO_HOST \<Rightarrow> ''AUTO_HOST'' | FAULTED \<Rightarrow> ''FAULTED'')"

definition mission_status_name :: "mission_status \<Rightarrow> string" where
  "mission_status_name s = (case s of EMPTY \<Rightarrow> ''EMPTY'' | RUNNING \<Rightarrow> ''RUNNING''
     | REPLAN_REQUIRED \<Rightarrow> ''REPLAN_REQUIRED'' | DONE \<Rightarrow> ''DONE'' | PARKED \<Rightarrow> ''PARKED'')"

definition host_observe :: "host_controller \<Rightarrow> pose \<Rightarrow> host_controller" where
  "host_observe h p = h\<lparr>hc_pose_source := observe_pose (hc_pose_source h) p\<rparr>"

definition finish_tick ::
  "host_controller \<Rightarrow> control_command \<Rightarrow> bool \<Rightarrow> tick_result \<times> host_controller" where
  "finish_tick h cmd zero =
     (let (pl, sender) = (if zero then send_zero (hc_sender h) else send_command (hc_sender h) cmd)
      in (\<lparr>tr_authority = auth_state (hc_authority h), tr_mission_status = hm_status (hc_mission h),
           tr_command = cmd, tr_payload = pl\<rparr>, h\<lparr>hc_sender := sender\<rparr>))"

definition tick ::
  "host_controller \<Rightarrow> real \<Rightarrow> pose option \<Rightarrow> manual_input option \<Rightarrow>
     (tick_result \<times> host_controller) option" where
  "tick h0 now observation manual =
     (let h = (case observation of None \<Rightarrow> h0 | Some p \<Rightarrow> host_observe h0 p);
          state = auth_state (hc_authority h)
      in if state = DISARMED \<or> state = FAULTED
         then let reason = (if auth_fault_reason (hc_authority h) \<noteq> ''''
                            then auth_fault_reason (hc_authority h) else authority_name state)
              in Some (finish_tick h (zero_command reason) True)
         else if state = MANUAL
         then let cmd = manual_compute (hc_manual_config h) manual
              in Some (finish_tick h cmd (is_stopped cmd))
         else
           let target = current_target (hc_mission h)
           in if target = None \<or> \<not> is_active (hc_mission h)
              then Some (finish_tick h
                     (zero_command (''MISSION_'' @ mission_status_name (hm_status (hc_mission h)))) True)
              else
                let p = latest (hc_pose_source h);
                    (cmd, auto) = auto_compute (hc_config h) (hc_auto h) p target True now;
                    h = h\<lparr>hc_auto := auto\<rparr>
                in if p \<noteq> None \<and> cc_reason cmd \<in> set stale_reasons \<and> hc_fault_on_stale h
                   then let h = h\<lparr>hc_authority := fault (hc_authority h) (cc_reason cmd)\<rparr>
                        in Some (finish_tick h (zero_command (cc_reason cmd)) True)
                   else case notify_result (hc_mission h) cmd of
                          None \<Rightarrow> None
                        | Some m \<Rightarrow> Some (finish_tick (h\<lparr>hc_mission := m\<rparr>) cmd (is_stopped cmd)))"

text \<open>
  The forwarding calls. \<open>arm_auto\<close> and \<open>re_arm_auto\<close> reset the derivative memory before the
  authority may refuse, so the result carries the exception next to the state it leaves behind.
\<close>

definition on_authority ::
  "host_controller \<Rightarrow> (authority_error + control_authority) \<Rightarrow> (authority_error + unit) \<times> host_controller" where
  "on_authority h res = (case res of
       Inl e \<Rightarrow> (Inl e, h)
     | Inr a \<Rightarrow> (Inr (), h\<lparr>hc_authority := a\<rparr>))"

definition host_arm_auto :: "host_controller \<Rightarrow> (authority_error + unit) \<times> host_controller" where
  "host_arm_auto h =
     (let h = h\<lparr>hc_auto := pd_reset\<rparr> in on_authority h (arm_auto (hc_authority h)))"

definition host_arm_manual :: "host_controller \<Rightarrow> (authority_error + unit) \<times> host_controller" where
  "host_arm_manual h = on_authority h (arm_manual (hc_authority h))"

definition host_disarm :: "host_controller \<Rightarrow> (authority_error + unit) \<times> host_controller" where
  "host_disarm h = on_authority h (disarm (hc_authority h))"

definition host_stop :: "host_controller \<Rightarrow> host_controller" where
  "host_stop h = h\<lparr>hc_authority := stop (hc_authority h)\<rparr>"

definition host_fault :: "host_controller \<Rightarrow> string \<Rightarrow> host_controller" where
  "host_fault h reason = h\<lparr>hc_authority := fault (hc_authority h) reason\<rparr>"

definition host_re_arm_auto :: "host_controller \<Rightarrow> (authority_error + unit) \<times> host_controller" where
  "host_re_arm_auto h =
     (let h = h\<lparr>hc_auto := pd_reset\<rparr> in on_authority h (re_arm_auto (hc_authority h)))"

section \<open>One tick\<close>

lemmas tick_unfold = tick_def finish_tick_def send_defs

definition with_observation :: "host_controller \<Rightarrow> pose option \<Rightarrow> host_controller" where
  "with_observation h obs = (case obs of None \<Rightarrow> h | Some p \<Rightarrow> host_observe h p)"

lemma with_observation_simps [simp]:
  "hc_authority (with_observation h obs) = hc_authority h"
  "hc_mission (with_observation h obs) = hc_mission h"
  "hc_config (with_observation h obs) = hc_config h"
  "hc_manual_config (with_observation h obs) = hc_manual_config h"
  "hc_auto (with_observation h obs) = hc_auto h"
  "hc_sender (with_observation h obs) = hc_sender h"
  "hc_fault_on_stale (with_observation h obs) = hc_fault_on_stale h"
  by (simp_all add: with_observation_def host_observe_def split: option.split)

lemma finish_tick_simps [simp]:
  "tr_command (fst (finish_tick h cmd z)) = cmd"
  "hc_authority (snd (finish_tick h cmd z)) = hc_authority h"
  "hc_mission (snd (finish_tick h cmd z)) = hc_mission h"
  "hc_config (snd (finish_tick h cmd z)) = hc_config h"
  "snd_seq (hc_sender (snd (finish_tick h cmd z))) = snd_seq (hc_sender h) + 1"
  "pl_control_seq (tr_payload (fst (finish_tick h cmd z))) = snd_seq (hc_sender h) + 1"
  "pl_throttle (tr_payload (fst (finish_tick h cmd z))) =
     (if z then 0 else round_dec 4 (cc_throttle cmd))"
  "pl_steering (tr_payload (fst (finish_tick h cmd z))) =
     (if z then 0 else round_dec 4 (cc_steering cmd))"
  by (simp_all add: finish_tick_def send_defs)

text \<open>The four ways a tick can go.\<close>

lemma tick_exhaust:
  assumes "tick h now obs man = Some (r, h')"
  obtains
    (idle) "\<not> is_driving_allowed (hc_authority h)"
      "\<exists>reason. (r, h') = finish_tick (with_observation h obs) (zero_command reason) True"
  | (manual) cmd where "auth_state (hc_authority h) = MANUAL"
      "cmd = manual_compute (hc_manual_config h) man"
      "(r, h') = finish_tick (with_observation h obs) cmd (is_stopped cmd)"
  | (no_target) "auth_state (hc_authority h) = AUTO_HOST" "current_target (hc_mission h) = None"
      "\<exists>reason. (r, h') = finish_tick (with_observation h obs) (zero_command reason) True"
  | (stale) cmd auto p where "auth_state (hc_authority h) = AUTO_HOST"
      "latest (hc_pose_source (with_observation h obs)) = Some p"
      "auto_compute (hc_config h) (hc_auto h) (Some p) (current_target (hc_mission h)) True now
         = (cmd, auto)"
      "cc_reason cmd \<in> set stale_reasons"
      "(r, h') = finish_tick
         ((with_observation h obs)\<lparr>hc_auto := auto,
            hc_authority := fault (hc_authority h) (cc_reason cmd)\<rparr>)
         (zero_command (cc_reason cmd)) True"
  | (auto) cmd auto m where "auth_state (hc_authority h) = AUTO_HOST"
      "current_target (hc_mission h) \<noteq> None"
      "auto_compute (hc_config h) (hc_auto h) (latest (hc_pose_source (with_observation h obs)))
         (current_target (hc_mission h)) True now = (cmd, auto)"
      "latest (hc_pose_source (with_observation h obs)) = None \<or> cc_reason cmd \<notin> set stale_reasons
         \<or> \<not> hc_fault_on_stale h"
      "notify_result (hc_mission h) cmd = Some m"
      "(r, h') = finish_tick ((with_observation h obs)\<lparr>hc_auto := auto, hc_mission := m\<rparr>) cmd
         (is_stopped cmd)"
proof (cases "auth_state (hc_authority h)")
  case DISARMED
  then show ?thesis using assms that(1)
    by (simp add: tick_def Let_def with_observation_def [symmetric] is_driving_allowed_def) metis
next
  case FAULTED
  then show ?thesis using assms that(1)
    by (simp add: tick_def Let_def with_observation_def [symmetric] is_driving_allowed_def) metis
next
  case MANUAL
  then show ?thesis using assms that(2)
    by (simp add: tick_def Let_def with_observation_def [symmetric])
next
  case AUTO_HOST
  show ?thesis
  proof (cases "current_target (hc_mission h) = None \<or> \<not> is_active (hc_mission h)")
    case True
    then have "current_target (hc_mission h) = None"
      by (auto simp: current_target_def is_active_def)
    then show ?thesis using assms AUTO_HOST that(3)
      by (simp add: tick_def Let_def with_observation_def [symmetric]) metis
  next
    case False
    obtain cmd auto where c: "auto_compute (hc_config h) (hc_auto h)
        (latest (hc_pose_source (with_observation h obs))) (current_target (hc_mission h)) True now
        = (cmd, auto)" by fastforce
    show ?thesis
    proof (cases "latest (hc_pose_source (with_observation h obs)) \<noteq> None
        \<and> cc_reason cmd \<in> set stale_reasons \<and> hc_fault_on_stale h")
      case True
      then obtain p where "latest (hc_pose_source (with_observation h obs)) = Some p" by blast
      then show ?thesis using assms AUTO_HOST False c True that(4)
        by (simp add: tick_def Let_def with_observation_def [symmetric])
    next
      case no: False
      have "\<exists>m. notify_result (hc_mission h) cmd = Some m \<and>
        (r, h') = finish_tick ((with_observation h obs)\<lparr>hc_auto := auto, hc_mission := m\<rparr>) cmd
         (is_stopped cmd)"
        using assms AUTO_HOST False c no
        by (simp add: tick_def Let_def with_observation_def [symmetric] split: option.splits if_splits)
      then show ?thesis using AUTO_HOST False c no that(5) by auto
    qed
  qed
qed

lemma tick_total: "\<exists>r h'. tick h now obs man = Some (r, h')"
proof (cases "auth_state (hc_authority h) = AUTO_HOST \<and> current_target (hc_mission h) \<noteq> None")
  case True
  then have "hm_index (hc_mission h) < length (hm_waypoints (hc_mission h))"
    by (auto simp: current_target_def split: if_splits)
  then have "\<exists>m. notify_result (hc_mission h) cmd = Some m" for cmd
    by (auto simp: notify_result_def is_final_index_def split: option.splits)
  then show ?thesis
    by (simp add: tick_def Let_def with_observation_def [symmetric] split: prod.splits option.splits)
      (metis option.distinct(1) prod.collapse)
next
  case False
  then show ?thesis
    by (cases "auth_state (hc_authority h)")
      (auto simp: tick_def Let_def with_observation_def [symmetric] finish_tick_def
        split: prod.splits)
qed

lemma pose_compute_stale_reason:
  assumes "cc_reason (fst (pose_compute cfg st p wp True now)) \<in> set stale_reasons"
  shows "\<not> fresh_pose cfg p now"
proof
  assume f: "fresh_pose cfg p now"
  then obtain h where "heading_deg p = Some h" by (auto simp: fresh_pose_def has_heading_def)
  then show False using f assms
    by (auto simp: pose_compute_def fresh_pose_def stale_reasons_def Let_def
        split: prod.splits if_splits)
qed

lemma pose_compute_not_fresh:
  assumes "\<not> fresh_pose cfg p now"
  shows "is_stopped (fst (pose_compute cfg st p wp True now)) \<and>
    cc_reason (fst (pose_compute cfg st p wp True now)) \<in> set stale_reasons"
  using assms
  by (cases "heading_deg p")
    (auto simp: pose_compute_def fresh_pose_def has_heading_def stale_reasons_def Let_def is_stopped_def
      split: prod.splits)

text \<open>
  When a tick may move the vehicle: under MANUAL from the driver's input, under AUTO_HOST from a
  fresh pose towards a target that is still out of reach of the brake.
\<close>

definition may_move ::
  "host_controller \<Rightarrow> real \<Rightarrow> pose option \<Rightarrow> manual_input option \<Rightarrow> bool" where
  "may_move h now obs man \<longleftrightarrow>
     (auth_state (hc_authority h) = MANUAL \<and> man \<noteq> None) \<or>
     (auth_state (hc_authority h) = AUTO_HOST \<and>
      (case (latest (hc_pose_source (with_observation h obs)), current_target (hc_mission h)) of
         (Some p, Some wp) \<Rightarrow>
           fresh_pose (hc_config h) p now \<and> \<not> within_brake_radius (hc_config h) p wp
       | _ \<Rightarrow> False))"

lemma stopped_payload_zero:
  "is_stopped cmd \<Longrightarrow> zero_payload (tr_payload (fst (finish_tick h cmd z)))"
  by (simp add: zero_payload_def is_stopped_def)

lemma zero_finish: "(r, h') = finish_tick h (zero_command reason) z \<Longrightarrow> zero_payload (tr_payload r)"
  by (metis fst_conv stopped_payload_zero zero_command_simps(6))

lemma moving_finish:
  "(r, h') = finish_tick h cmd z \<Longrightarrow> \<not> zero_payload (tr_payload r) \<Longrightarrow> \<not> is_stopped cmd"
  by (metis fst_conv stopped_payload_zero)



section \<open>The host as a machine\<close>

datatype host_op = H_tick real "pose option" "manual_input option" | H_observe pose
  | H_arm_auto | H_arm_manual | H_disarm | H_stop | H_fault string | H_clear_fault
  | H_re_arm_auto | H_load "host_waypoint list"

fun host_step :: "host_controller \<Rightarrow> host_op \<Rightarrow> host_controller \<times> payload list" where
  "host_step h (H_tick now obs man) = (case tick h now obs man of
       None \<Rightarrow> (h, [])
     | Some (r, h') \<Rightarrow> (h', [tr_payload r]))"
| "host_step h (H_observe p) = (host_observe h p, [])"
| "host_step h H_arm_auto = (snd (host_arm_auto h), [])"
| "host_step h H_arm_manual = (snd (host_arm_manual h), [])"
| "host_step h H_disarm = (snd (host_disarm h), [])"
| "host_step h H_stop = (host_stop h, [])"
| "host_step h (H_fault r) = (host_fault h r, [])"
| "host_step h H_clear_fault = (snd (on_authority h (clear_fault (hc_authority h))), [])"
| "host_step h H_re_arm_auto = (snd (host_re_arm_auto h), [])"
| "host_step h (H_load wps) = (h\<lparr>hc_mission := load_route (hc_mission h) wps\<rparr>, [])"

fun arms_host :: "host_op \<Rightarrow> bool" where
  "arms_host H_arm_auto = True"
| "arms_host H_arm_manual = True"
| "arms_host H_re_arm_auto = True"
| "arms_host _ = False"

lemmas host_op_defs = on_authority_def host_arm_auto_def host_arm_manual_def host_disarm_def
  host_stop_def host_fault_def host_re_arm_auto_def host_observe_def Let_def

definition host_still :: "host_controller \<Rightarrow> bool" where
  "host_still h \<longleftrightarrow> \<not> is_driving_allowed (hc_authority h)"

lemma finish_tick_effect:
  assumes "(r, h') = finish_tick g cmd z"
  shows "pl_control_seq (tr_payload r) = snd_seq (hc_sender g) + 1"
    and "snd_seq (hc_sender h') = snd_seq (hc_sender g) + 1"
    and "hc_authority h' = hc_authority g" and "hc_mission h' = hc_mission g"
  using finish_tick_simps [of g cmd z] by (metis assms fst_conv snd_conv)+

lemma finish_tick_seq:
  "(r, h') = finish_tick g cmd z \<Longrightarrow>
     pl_control_seq (tr_payload r) = snd_seq (hc_sender g) + 1 \<and>
     snd_seq (hc_sender h') = snd_seq (hc_sender g) + 1"
  using finish_tick_effect(1,2) by blast

lemma tick_seq:
  assumes "tick h now obs man = Some (r, h')"
  shows "pl_control_seq (tr_payload r) = snd_seq (hc_sender h) + 1 \<and>
         snd_seq (hc_sender h') = snd_seq (hc_sender h) + 1"
  using assms by (cases rule: tick_exhaust)
    (auto dest!: finish_tick_seq)

lemma tick_still:
  assumes "tick h now obs man = Some (r, h')" "host_still h"
  shows "host_still h' \<and> zero_payload (tr_payload r)"
  using assms(1)
proof (cases rule: tick_exhaust)
  case idle
  then obtain reason where e: "(r, h') = finish_tick (with_observation h obs) (zero_command reason) True"
    by blast
  then have "hc_authority h' = hc_authority h"
    using finish_tick_effect(3) by fastforce
  then show ?thesis using zero_finish [OF e] assms(2) by (simp add: host_still_def)
qed (use assms(2) in \<open>simp_all add: host_still_def is_driving_allowed_def\<close>)

lemma host_step_still:
  assumes "host_still h" "\<not> arms_host op" "host_step h op = (h', out)"
  shows "host_still h' \<and> list_all zero_payload out"
proof (cases op)
  case (H_tick now obs man)
  obtain r g where t: "tick h now obs man = Some (r, g)" using tick_total by blast
  then show ?thesis using tick_still [OF t assms(1)] assms(3) H_tick by auto
qed (use assms in \<open>auto simp: host_still_def host_op_defs authority_defs split: if_splits\<close>)

interpretation host_quiet: quiet_latch host_step host_still arms_host zero_payload
  by unfold_locales (rule host_step_still)

interpretation host_seq: seq_emitter host_step "\<lambda>h. snd_seq (hc_sender h)" "\<lambda>p. Some (pl_control_seq p)"
proof
  fix h op h' out
  assume s: "host_step h op = (h', out)"
  have "(snd_seq (hc_sender h') = snd_seq (hc_sender h) \<and> out = []) \<or>
    (snd_seq (hc_sender h') = snd_seq (hc_sender h) + 1 \<and>
      (\<exists>p. out = [p] \<and> pl_control_seq p = snd_seq (hc_sender h) + 1))"
  proof (cases op)
    case (H_tick now obs man)
    obtain r g where t: "tick h now obs man = Some (r, g)" using tick_total by blast
    then show ?thesis using tick_seq [OF t] s H_tick by auto
  qed (use s in \<open>auto simp: host_op_defs split: sum.splits\<close>)
  then show "snd_seq (hc_sender h) \<le> snd_seq (hc_sender h')"
    and "sorted_wrt (<) (List.map_filter (\<lambda>p. Some (pl_control_seq p)) out)"
    and "t \<in> set (List.map_filter (\<lambda>p. Some (pl_control_seq p)) out) \<Longrightarrow>
      snd_seq (hc_sender h) < t \<and> t \<le> snd_seq (hc_sender h')" for t
    by (auto simp: List.map_filter_def)
qed

lemma tick_stale_faults:
  assumes "auth_state (hc_authority h) = AUTO_HOST" "current_target (hc_mission h) \<noteq> None"
    and "hc_fault_on_stale h" "latest (hc_pose_source h) = Some p" "\<not> fresh_pose (hc_config h) p now"
    and t: "tick h now None man = Some (r, h')"
  shows "is_faulted (hc_authority h') \<and> zero_payload (tr_payload r)"
  using t
proof (cases rule: tick_exhaust)
  case (stale cmd auto q)
  then have "hc_authority h' = fault (hc_authority h) (cc_reason cmd)"
    using finish_tick_effect(3) [OF stale(5)] by simp
  then show ?thesis using zero_finish [OF stale(5)] by (simp add: is_faulted_def fault_def)
next
  case (auto cmd ast m)
  obtain wp where "current_target (hc_mission h) = Some wp" using assms by blast
  then have "cc_reason cmd \<in> set stale_reasons"
    using auto(3) assms pose_compute_not_fresh [OF assms(5), of "hc_auto h" wp]
    by (simp add: auto_compute_def with_observation_def latest_def)
  then show ?thesis using auto(4) assms by (simp add: with_observation_def)
qed (use assms in \<open>simp_all add: is_driving_allowed_def\<close>)

text \<open>Losing the camera stops the vehicle and keeps it stopped. Under AUTO_HOST with a target, a
  tick on a pose that is no longer fresh sends zero and latches FAULTED; whatever happens
  afterwards (ticks, late camera poses, disarming, clearing the fault, loading routes), every
  further payload is zero until an operation that arms the host.\<close>

theorem camera_loss_stops_until_rearm:
  assumes "auth_state (hc_authority h) = AUTO_HOST" "current_target (hc_mission h) \<noteq> None"
    and "hc_fault_on_stale h" "latest (hc_pose_source h) = Some p" "\<not> fresh_pose (hc_config h) p now"
    and "list_all (\<lambda>op. \<not> arms_host op) ops"
    and "run_out host_step h (H_tick now None man # ops) = (h', outs)"
  shows "list_all zero_payload outs \<and> host_still h'"
proof -
  obtain r g where t: "tick h now None man = Some (r, g)" using tick_total by blast
  note f = tick_stale_faults [OF assms(1-5) t]
  obtain g' rest where run: "run_out host_step g ops = (g', rest)" by fastforce
  have "host_still g" using f by (simp add: host_still_def is_driving_allowed_def is_faulted_def)
  from host_quiet.run_quiet [OF this assms(6) run] show ?thesis
    using assms(7) t run f by auto
qed

text \<open>The control sequence numbers on the wire are strictly increasing and distinct over any
  sequence of host operations, zero payloads included.\<close>

theorem control_seq_strictly_increasing:
  "sorted_wrt (<) (map pl_control_seq (snd (run_out host_step h ops)))"
proof -
  have "List.map_filter (\<lambda>p. Some (pl_control_seq p)) outs = map pl_control_seq outs" for outs
    by (induction outs) (simp_all add: List.map_filter_def)
  then show ?thesis using host_seq.run_sorted by (metis prod.collapse)
qed

theorem camera_loss_stops_until_rearm_witness:
  "list_all zero_payload (snd (run_out host_step
     ((host_new ControllerConfig [\<lparr>wp_x_mm = 1000, wp_y_mm = 0, target_heading_deg = None, speed_cm_s = 12,
        position_tolerance_cm = 8, heading_tolerance_deg = 30, heading_required = False,
        is_final = True, wp_route_id = None, wp_waypoint_id = None, wp_phase = None\<rparr>])
       \<lparr>hc_authority := \<lparr>auth_state = AUTO_HOST, auth_fault_reason = ''''\<rparr>,
        hc_pose_source := \<lparr>src_pose = Some \<lparr>x_mm = 0, y_mm = 0, heading_deg = Some 0, timestamp = 0,
           valid = True\<rparr>, had_observation = True\<rparr>\<rparr>)
     [H_tick 1 None None, H_observe \<lparr>x_mm = 0, y_mm = 0, heading_deg = Some 0, timestamp = 2, valid = True\<rparr>,
      H_tick 2 None None, H_clear_fault, H_tick 3 None None]))"
proof -
  let ?p = "\<lparr>x_mm = 0, y_mm = 0, heading_deg = Some 0, timestamp = 0, valid = True\<rparr>"
  let ?h = "(host_new ControllerConfig [\<lparr>wp_x_mm = 1000, wp_y_mm = 0, target_heading_deg = None, speed_cm_s = 12,
        position_tolerance_cm = 8, heading_tolerance_deg = 30, heading_required = False,
        is_final = True, wp_route_id = None, wp_waypoint_id = None, wp_phase = None\<rparr>])
       \<lparr>hc_authority := \<lparr>auth_state = AUTO_HOST, auth_fault_reason = ''''\<rparr>,
        hc_pose_source := \<lparr>src_pose = Some ?p, had_observation = True\<rparr>\<rparr>"
  let ?ops = "[H_observe \<lparr>x_mm = 0, y_mm = 0, heading_deg = Some 0, timestamp = 2, valid = True\<rparr>,
      H_tick 2 None None, H_clear_fault, H_tick 3 None None]"
  obtain h' outs where run: "run_out host_step ?h (H_tick 1 None None # ?ops) = (h', outs)"
    by (metis surj_pair)
  have "list_all zero_payload outs \<and> host_still h'"
    by (rule camera_loss_stops_until_rearm [where p = ?p, OF _ _ _ _ _ _ run])
      (simp_all add: host_new_def host_mission_new_def load_status_def current_target_def latest_def
        fresh_pose_def)
  then show ?thesis using run by simp
qed

section \<open>What goes on the wire\<close>

text \<open>A configuration the wire can take: the firmware's sign and limits inside the unit range.\<close>

definition wire_config :: "controller_config \<Rightarrow> bool" where
  "wire_config cfg \<longleftrightarrow> wire_steering_sign cfg = - 1 \<and> 0 \<le> min_move_throttle cfg \<and>
     min_move_throttle cfg \<le> max_throttle cfg \<and> max_throttle cfg \<le> 1"

lemma wire_config_default [simp]: "wire_config ControllerConfig"
  by (simp add: wire_config_def)

lemma auto_command_unit:
  assumes "wire_config cfg"
  shows "\<bar>cc_steering (fst (auto_compute cfg st p wp al now))\<bar> \<le> 1 \<and>
         \<bar>cc_throttle (fst (auto_compute cfg st p wp al now))\<bar> \<le> 1"
proof (cases "is_stopped (fst (auto_compute cfg st p wp al now))")
  case True
  then show ?thesis by (simp add: is_stopped_def)
next
  case False
  then obtain q w where q: "p = Some q" "wp = Some w"
    by (auto simp: auto_compute_def split: option.splits)
  then have f: "fresh_pose cfg q now" "al" "\<not> within_brake_radius cfg q w"
    using pose_compute_moving [of cfg st q w al now] False by (simp_all add: auto_compute_def)
  have "round_dec 4 (max_throttle cfg) \<le> 1"
    using round_dec_mono [of "max_throttle cfg" 1 4] assms by (simp add: wire_config_def)
  then have th: "\<bar>throttle_for cfg w d e\<bar> \<le> 1" for d e
    using throttle_for_nonneg [of cfg w d e] throttle_for_upper [of cfg w d e] assms
    by (simp add: wire_config_def)
  show ?thesis
    by (rule pose_compute_underway [OF f, of st]) (simp add: auto_compute_def q th steering_unit)
qed

text \<open>Every payload is inside the range the firmware accepts: throttle and steering in
  \<open>[-1, 1]\<close>, from any pose, waypoint or driver input, under any authority.\<close>

theorem tick_payload_in_range:
  assumes "wire_config (hc_config h)" "0 \<le> max_throttle (hc_manual_config h)"
    "max_throttle (hc_manual_config h) \<le> 1"
    and "tick h now obs man = Some (r, h')"
  shows "\<bar>pl_throttle (tr_payload r)\<bar> \<le> 1 \<and> \<bar>pl_steering (tr_payload r)\<bar> \<le> 1"
proof -
  have range: "(r, h') = finish_tick g cmd z \<Longrightarrow> \<bar>cc_throttle cmd\<bar> \<le> 1 \<Longrightarrow> \<bar>cc_steering cmd\<bar> \<le> 1 \<Longrightarrow>
      \<bar>pl_throttle (tr_payload r)\<bar> \<le> 1 \<and> \<bar>pl_steering (tr_payload r)\<bar> \<le> 1" for g cmd z
    using finish_tick_simps(7,8) [of g cmd z] round_dec_unit [of "cc_throttle cmd" 4]
      round_dec_unit [of "cc_steering cmd" 4] by (auto simp: abs_le_iff dest: arg_cong [of _ _ fst])
  have man: "\<bar>cc_throttle (manual_compute (hc_manual_config h) mi)\<bar> \<le> 1" for mi
    using manual_compute_bounds [OF assms(2), of mi]
      round_dec_mono [OF assms(3), of 4] by simp
  from assms(4) show ?thesis
  proof (cases rule: tick_exhaust)
    case (manual cmd)
    then show ?thesis using range [OF manual(3)] man manual_compute_bounds [OF assms(2), of man] by simp
  next
    case (auto cmd st m)
    then show ?thesis
      using range [OF auto(6)] auto_command_unit [OF assms(1), of "hc_auto h"
          "latest (hc_pose_source (with_observation h obs))" "current_target (hc_mission h)" True now]
      by simp
  qed (use range in force)+
qed

theorem tick_payload_in_range_witness:
  "\<bar>pl_throttle (tr_payload (fst (the (tick (host_new ControllerConfig []) 0 None None))))\<bar> \<le> 1"
proof -
  let ?h = "host_new ControllerConfig []"
  obtain r h' where t: "tick ?h 0 None None = Some (r, h')" using tick_total by blast
  show ?thesis using tick_payload_in_range [OF _ _ _ t] t by (simp add: host_new_def)
qed

end
