(* ===== verification/Py_Json.thy ===== *)
theory Py_Json
  imports Prelude
begin

text \<open>
  Wire messages. A message is a Python \<open>dict\<close>: an association list in insertion order with
  distinct keys. \<open>str\<close> values are byte strings (the UTF-8 encoding the program sends).
  \<open>dumps\<close> is \<open>json.dumps(msg, ensure_ascii=False, separators=(",", ":"))\<close>; the text of a float,
  \<open>float.__repr__\<close>, is its parameter \<open>fr\<close>. \<open>json.loads\<close> is a parameter where it is used.
\<close>

datatype json = JNull | JBool bool | JInt int | JFloat pyfloat | JStr string
  | JList "json list" | JObj "(string \<times> json) list"

type_synonym pydict = "(string \<times> json) list"

section \<open>Dictionaries\<close>

text \<open>\<open>d.get(k)\<close>, \<open>d.get(k, v)\<close>, \<open>k in d\<close>, \<open>d[k] = v\<close>, \<open>d.setdefault(k, v)\<close>, \<open>d.update(e)\<close>, \<open>del d[k]\<close>.\<close>

definition dget_or :: "pydict \<Rightarrow> string \<Rightarrow> json \<Rightarrow> json" where
  "dget_or d k v = (case map_of d k of None \<Rightarrow> v | Some w \<Rightarrow> w)"

definition dget :: "pydict \<Rightarrow> string \<Rightarrow> json" where
  "dget d k = dget_or d k JNull"

definition dhas :: "pydict \<Rightarrow> string \<Rightarrow> bool" where
  "dhas d k = (map_of d k \<noteq> None)"

definition dset :: "pydict \<Rightarrow> string \<Rightarrow> json \<Rightarrow> pydict" where
  "dset d k v = AList.update k v d"

definition dsetdefault :: "pydict \<Rightarrow> string \<Rightarrow> json \<Rightarrow> pydict" where
  "dsetdefault d k v = (if dhas d k then d else dset d k v)"

definition dupdate :: "pydict \<Rightarrow> pydict \<Rightarrow> pydict" where
  "dupdate d e = foldl (\<lambda>a (k, v). dset a k v) d e"

definition ddel :: "pydict \<Rightarrow> string \<Rightarrow> pydict" where
  "ddel d k = filter (\<lambda>p. fst p \<noteq> k) d"

lemma map_of_dset [simp]: "map_of (dset d k v) = (map_of d)(k \<mapsto> v)"
  by (simp add: dset_def update_conv')

lemma dget_or_dset [simp]: "dget_or (dset d k v) k' w = (if k' = k then v else dget_or d k' w)"
  by (simp add: dget_or_def)

lemma dget_dset [simp]: "dget (dset d k v) k' = (if k' = k then v else dget d k')"
  by (simp add: dget_def)

lemma dhas_dset [simp]: "dhas (dset d k v) k' = (k' = k \<or> dhas d k')"
  by (simp add: dhas_def)

lemma dget_or_Cons [simp]: "dget_or ((k, v) # d) k' w = (if k' = k then v else dget_or d k' w)"
  by (simp add: dget_or_def)

lemma dget_Cons [simp]: "dget ((k, v) # d) k' = (if k' = k then v else dget d k')"
  by (simp add: dget_def)

lemma dget_Nil [simp]: "dget [] k = JNull" "dget_or [] k w = w" "\<not> dhas [] k"
  by (simp_all add: dget_def dget_or_def dhas_def)

lemma dhas_Cons [simp]: "dhas ((k, v) # d) k' = (k' = k \<or> dhas d k')"
  by (auto simp: dhas_def)

lemma dget_dsetdefault [simp]:
  "dget (dsetdefault d k v) k' = (if k' = k \<and> \<not> dhas d k then v else dget d k')"
  by (simp add: dsetdefault_def)

lemma dset_dset [simp]: "dset (dset d k v) k w = dset d k w"
  by (induction d) (auto simp: dset_def)

lemma map_of_dupdate_notin: "k \<notin> fst ` set e \<Longrightarrow> map_of (dupdate d e) k = map_of d k"
  by (induction e arbitrary: d) (auto simp: dupdate_def)

section \<open>Python's view of JSON values\<close>

text \<open>
  \<open>v == n\<close> for an \<open>int\<close> \<open>n\<close>: \<open>True == 1\<close> and \<open>1.0 == 1\<close> hold in Python.
  \<open>isinstance(v, int)\<close> holds for booleans too.
\<close>

fun py_eq_int :: "json \<Rightarrow> int \<Rightarrow> bool" where
  "py_eq_int (JInt i) n = (i = n)"
| "py_eq_int (JBool b) n = ((if b then 1 else 0) = n)"
| "py_eq_int (JFloat f) n = feq f (Fin (of_int n))"
| "py_eq_int _ n = False"

fun as_int :: "json \<Rightarrow> int option" where
  "as_int (JInt i) = Some i"
| "as_int (JBool b) = Some (if b then 1 else 0)"
| "as_int _ = None"

text \<open>
  \<open>str(v)\<close> as far as the program looks at it: it compares the text with words such as \<open>NONE\<close> or
  \<open>ACCEPTED\<close>, which the text of a non-string value (\<open>None\<close>, \<open>True\<close>, \<open>12\<close>, \<open>[...]\<close>) never is.
\<close>

fun str_word :: "json \<Rightarrow> string option" where
  "str_word (JStr s) = Some s"
| "str_word _ = None"

text \<open>\<open>bool(v)\<close>.\<close>

fun truthy :: "json \<Rightarrow> bool" where
  "truthy JNull = False"
| "truthy (JBool b) = b"
| "truthy (JInt i) = (i \<noteq> 0)"
| "truthy (JFloat f) = (f \<noteq> Fin 0)"
| "truthy (JStr s) = (s \<noteq> '''')"
| "truthy (JList xs) = (xs \<noteq> [])"
| "truthy (JObj d) = (d \<noteq> [])"

text \<open>\<open>a <= b\<close> on JSON numbers; anything else raises \<open>TypeError\<close>: \<open>None\<close>.\<close>

fun as_float :: "json \<Rightarrow> pyfloat option" where
  "as_float (JInt i) = Some (Fin (of_int i))"
| "as_float (JBool b) = Some (Fin (if b then 1 else 0))"
| "as_float (JFloat f) = Some f"
| "as_float _ = None"

definition fle :: "pyfloat \<Rightarrow> pyfloat \<Rightarrow> bool" where
  "fle a b = (fless a b \<or> feq a b)"

definition py_le :: "json \<Rightarrow> json \<Rightarrow> bool option" where
  "py_le a b = (case (as_float a, as_float b) of
       (Some x, Some y) \<Rightarrow> Some (fle x y)
     | _ \<Rightarrow> None)"

lemma as_int_eq: "as_int v = Some i \<Longrightarrow> py_eq_int v n = (i = n)"
  by (cases v) auto

lemma py_le_int [simp]: "py_le (JInt a) (JInt b) = Some (a \<le> b)"
  by (auto simp: py_le_def fle_def)

section \<open>Serialisation\<close>

definition chr :: "nat \<Rightarrow> char" where
  "chr n = char_of n"

definition code :: "char \<Rightarrow> nat" where
  "code c = of_char c"

function dec_nat :: "nat \<Rightarrow> string" where
  "dec_nat n = (if n < 10 then [chr (48 + n)] else dec_nat (n div 10) @ [chr (48 + n mod 10)])"
  by pat_completeness auto
termination by (relation "measure id") auto

declare dec_nat.simps [simp del]

definition dec_int :: "int \<Rightarrow> string" where
  "dec_int i = (if i < 0 then ''-'' @ dec_nat (nat (- i)) else dec_nat (nat i))"

definition hex_digit :: "nat \<Rightarrow> char" where
  "hex_digit n = (if n < 10 then chr (48 + n) else chr (87 + n))"

definition esc_char :: "char \<Rightarrow> string" where
  "esc_char c =
     (if code c = 34 then [chr 92, chr 34]
      else if code c = 92 then [chr 92, chr 92]
      else if code c = 10 then [chr 92, CHR ''n'']
      else if code c = 13 then [chr 92, CHR ''r'']
      else if code c = 9 then [chr 92, CHR ''t'']
      else if code c = 8 then [chr 92, CHR ''b'']
      else if code c = 12 then [chr 92, CHR ''f'']
      else if code c < 32
        then [chr 92, CHR ''u'', CHR ''0'', CHR ''0'', hex_digit (code c div 16), hex_digit (code c mod 16)]
      else [c])"

definition quote_str :: "string \<Rightarrow> string" where
  "quote_str s = [chr 34] @ concat (map esc_char s) @ [chr 34]"

fun join :: "string \<Rightarrow> string list \<Rightarrow> string" where
  "join sep [] = ''''"
| "join sep [x] = x"
| "join sep (x # y # ys) = x @ sep @ join sep (y # ys)"

fun dumps :: "(pyfloat \<Rightarrow> string) \<Rightarrow> json \<Rightarrow> string" where
  "dumps fr JNull = ''null''"
| "dumps fr (JBool b) = (if b then ''true'' else ''false'')"
| "dumps fr (JInt i) = dec_int i"
| "dumps fr (JFloat f) = fr f"
| "dumps fr (JStr s) = quote_str s"
| "dumps fr (JList xs) = ''['' @ join '','' (map (dumps fr) xs) @ '']''"
| "dumps fr (JObj d) =
     ''{'' @ join '','' (map (\<lambda>p. quote_str (fst p) @ '':'' @ dumps fr (snd p)) d) @ ''}''"

text \<open>No serialised text contains a control character, so none contains a line break.\<close>

definition printable :: "string \<Rightarrow> bool" where
  "printable s \<longleftrightarrow> list_all (\<lambda>c. 32 \<le> code c) s"

lemma code_chr [simp]: "n < 256 \<Longrightarrow> code (chr n) = n"
  by (simp add: code_def chr_def)

lemma printable_simps [simp]:
  "printable []" "printable (c # s) \<longleftrightarrow> 32 \<le> code c \<and> printable s"
  "printable (s @ t) \<longleftrightarrow> printable s \<and> printable t"
  by (auto simp: printable_def)

lemma printable_concat [simp]: "printable (concat xs) \<longleftrightarrow> list_all printable xs"
  by (induction xs) auto

lemma printable_join: "printable sep \<Longrightarrow> list_all printable xs \<Longrightarrow> printable (join sep xs)"
  by (induction sep xs rule: join.induct) auto

lemma code_lits [simp]:
  "code (CHR ''n'') = 110" "code (CHR ''r'') = 114" "code (CHR ''t'') = 116" "code (CHR ''b'') = 98"
  "code (CHR ''f'') = 102" "code (CHR ''u'') = 117" "code (CHR ''0'') = 48" "code (CHR ''-'') = 45"
  "code (CHR '','') = 44" "code (CHR '':'') = 58" "code (CHR ''['') = 91" "code (CHR '']'') = 93"
  "code (CHR ''{'') = 123" "code (CHR ''}'') = 125" "code (CHR ''l'') = 108" "code (CHR ''e'') = 101"
  "code (CHR ''a'') = 97" "code (CHR ''s'') = 115"
  by (simp_all add: code_def)

lemma printable_dec_nat: "printable (dec_nat n)"
proof (induction n rule: dec_nat.induct)
  case (1 n)
  then show ?case by (subst dec_nat.simps) auto
qed

lemma printable_dec_int: "printable (dec_int i)"
  by (simp add: dec_int_def printable_dec_nat)

lemma printable_esc_char: "printable (esc_char c)"
proof -
  have "32 \<le> code (hex_digit k)" if "k < 16" for k using that by (simp add: hex_digit_def)
  moreover have "code c div 16 < 16" "code c mod 16 < 16"
    by (simp_all add: code_def less_mult_imp_div_less)
  ultimately show ?thesis by (simp add: esc_char_def)
qed

lemma printable_quote_str: "printable (quote_str s)"
  by (simp add: quote_str_def list_all_iff printable_esc_char)

lemma printable_dumps:
  assumes "\<And>f. printable (fr f)" shows "printable (dumps fr v)"
proof (induction v rule: dumps.induct [where ?a0.0 = fr, of "\<lambda>_ v. printable (dumps fr v)"])
qed (auto simp: assms printable_dec_int printable_quote_str list_all_iff intro!: printable_join)

end
