(* ===== verification/Comm_Protocol.thy ===== *)
theory Comm_Protocol
  imports Py_Json
begin

text \<open>
  \<open>integrated/host/comm/protocol.py\<close>: the vocabulary of the TCP protocol, the command builders,
  the NDJSON framing and the validation of received lines. A \<open>ValueError\<close> is an \<open>Inl\<close>.
\<close>

datatype value_error = ValueError string

section \<open>Vocabulary\<close>

definition PROTOCOL_VERSION :: int where "PROTOCOL_VERSION = 1"

definition MAX_MESSAGE_BYTES :: nat where "MAX_MESSAGE_BYTES = 512"

definition RELIABLE_TYPES :: "string list" where
  "RELIABLE_TYPES = [''SET_MODE'', ''WAYPOINT'', ''WAIT'', ''GO'', ''STOP'', ''RESET'']"

definition PREEMPTIVE_TYPES :: "string list" where
  "PREEMPTIVE_TYPES = [''WAIT'', ''STOP'']"

record timing_table =
  HEARTBEAT_INTERVAL :: real
  COMM_TIMEOUT :: real
  POSE_INTERVAL :: real
  CONTROL_INTERVAL :: real
  RESP_TIMEOUT_WAYPOINT :: real
  RESP_TIMEOUT_WAIT :: real
  RESP_TIMEOUT_STOP :: real
  RESP_TIMEOUT_DEFAULT :: real
  MAX_RETRANSMIT :: nat

definition TIMING :: timing_table where
  "TIMING =
     \<lparr>HEARTBEAT_INTERVAL = 250, COMM_TIMEOUT = 1000, POSE_INTERVAL = 100, CONTROL_INTERVAL = 100,
      RESP_TIMEOUT_WAYPOINT = 300, RESP_TIMEOUT_WAIT = 100, RESP_TIMEOUT_STOP = 100,
      RESP_TIMEOUT_DEFAULT = 300, MAX_RETRANSMIT = 5\<rparr>"

definition CONTROL_MODES :: "string list" where
  "CONTROL_MODES = [''MANUAL_SERIAL'', ''REMOTE_DIRECT'', ''WAYPOINT_AUTO'']"

definition WAIT_REASONS :: "string list" where
  "WAIT_REASONS = [''REMOTE_WAIT'', ''COLLISION_RISK'', ''OBSTACLE'', ''REROUTING'',
     ''WAYPOINT_REACHED'', ''FINAL_WAYPOINT_REACHED'', ''OPERATOR_REQUEST'']"

definition TERMINAL_RESULTS :: "string list" where
  "TERMINAL_RESULTS = [''ACCEPTED'', ''ALREADY_STOPPED'', ''INVALID_STATE'', ''SESSION_MISMATCH'',
     ''SEQ_CONFLICT'', ''STALE_SEQ'', ''TARGET_MISMATCH'', ''TARGET_NOT_LOADED'',
     ''NEW_ROUTE_REQUIRED'', ''STALE_ROUTE'', ''POSE_REQUIRED'', ''LOCKED_STATE'',
     ''PROTOCOL_ERROR'', ''HOLD'', ''REJECTED'']"

definition NEGATIVE_RESULTS :: "string list" where
  "NEGATIVE_RESULTS = filter (\<lambda>r. r \<notin> {''ACCEPTED'', ''ALREADY_STOPPED''}) TERMINAL_RESULTS"

definition POSE_UPDATE_ENABLED :: bool where "POSE_UPDATE_ENABLED = False"

section \<open>Car identifiers\<close>

text \<open>\<open>f"CAR_{n:02d}"\<close>: at least two characters, padded with zeros after the sign.\<close>

definition pad2 :: "string \<Rightarrow> string" where
  "pad2 s = (if length s < 2 then ''0'' @ s else s)"

definition wire_car_id :: "int \<Rightarrow> string" where
  "wire_car_id car_id = ''CAR_'' @ (if car_id < 0 then dec_int car_id else pad2 (dec_int car_id))"

definition is_digit :: "char \<Rightarrow> bool" where
  "is_digit c = (48 \<le> code c \<and> code c \<le> 57)"

definition car_id_re :: "string \<Rightarrow> bool" where
  "car_id_re raw = (take 4 raw = ''CAR_'' \<and> 2 \<le> length (drop 4 raw) \<and> list_all is_digit (drop 4 raw))"

definition digits_value :: "string \<Rightarrow> nat" where
  "digits_value s = foldl (\<lambda>a c. 10 * a + (code c - 48)) 0 s"

fun parse_car_id :: "json \<Rightarrow> value_error + int" where
  "parse_car_id (JBool b) = Inl (ValueError ''invalid car_id'')"
| "parse_car_id (JInt n) = Inr n"
| "parse_car_id (JStr raw) =
     (if \<not> car_id_re raw then Inl (ValueError ''invalid car_id'')
      else
        let value = int (digits_value (drop 4 raw))
        in if wire_car_id value \<noteq> raw then Inl (ValueError ''non-canonical car_id'') else Inr value)"
| "parse_car_id _ = Inl (ValueError ''invalid car_id'')"

lemma is_digit_chr: "k < 10 \<Longrightarrow> is_digit (chr (48 + k))"
  by (simp add: is_digit_def)

lemma dec_nat_digits: "list_all is_digit (dec_nat n)"
proof (induction n rule: dec_nat.induct)
  case (1 n)
  then show ?case by (subst dec_nat.simps) (auto intro: is_digit_chr)
qed

lemma digits_value_snoc: "digits_value (s @ [c]) = 10 * digits_value s + (code c - 48)"
  by (simp add: digits_value_def)

lemma digits_value_dec_nat: "digits_value (dec_nat n) = n"
proof (induction n rule: dec_nat.induct)
  case (1 n)
  show ?case
  proof (cases "n < 10")
    case True
    then show ?thesis by (subst dec_nat.simps) (simp add: digits_value_def)
  next
    case False
    then have "dec_nat n = dec_nat (n div 10) @ [chr (48 + n mod 10)]"
      by (subst dec_nat.simps) simp
    then show ?thesis using "1" False by (simp add: digits_value_snoc)
  qed
qed

lemma dec_nat_nonempty: "1 \<le> length (dec_nat n)"
  by (subst dec_nat.simps) simp

lemma digits_value_zero: "digits_value (''0'' @ s) = digits_value s"
  by (simp add: digits_value_def)

lemma car_id_re_wire: "0 \<le> n \<Longrightarrow> car_id_re (wire_car_id n)"
  using dec_nat_nonempty [of "nat n"] dec_nat_digits [of "nat n"]
  by (simp add: car_id_re_def wire_car_id_def pad2_def dec_int_def is_digit_def)

text \<open>The wire form of a car id and its parser are inverse to each other. Every non-negative id
  survives the round trip, and a string that parses is exactly the canonical form of its value, as
  the firmware's \<open>strcmp\<close> demands (\<open>CAR_001\<close> is refused).\<close>

theorem car_id_roundtrip:
  "(0 \<le> n \<longrightarrow> parse_car_id (JStr (wire_car_id n)) = Inr n)
   \<and> (parse_car_id (JStr raw) = Inr m \<longrightarrow> raw = wire_car_id m \<and> 0 \<le> m)"
proof -
  have "digits_value (drop 4 (wire_car_id n)) = nat n" if "0 \<le> n"
    using that digits_value_dec_nat [of "nat n"] digits_value_zero [of "dec_nat (nat n)"]
    by (simp add: wire_car_id_def pad2_def dec_int_def)
  then show ?thesis using car_id_re_wire by (auto simp: Let_def split: if_splits)
qed

theorem car_id_roundtrip_witness:
  "parse_car_id (JStr (wire_car_id 1)) = Inr 1 \<and> parse_car_id (JStr (wire_car_id 123)) = Inr 123"
  using car_id_roundtrip [of 1 "''''" 0] car_id_roundtrip [of 123 "''''" 0] by simp

section \<open>Builders\<close>

definition base_msg :: "string \<Rightarrow> int \<Rightarrow> string \<Rightarrow> pydict" where
  "base_msg msg_type car_id session_id =
     [(''version'', JInt PROTOCOL_VERSION), (''type'', JStr msg_type),
      (''car_id'', JStr (wire_car_id car_id)), (''session_id'', JStr session_id)]"

definition make_waypoint :: "int \<Rightarrow> string \<Rightarrow> int \<Rightarrow> pydict \<Rightarrow> pydict" where
  "make_waypoint car_id session_id seq wire_waypoint =
     (let msg = dset (base_msg ''WAYPOINT'' car_id session_id) ''seq'' (JInt seq);
          msg = dupdate msg wire_waypoint;
          msg = dsetdefault msg ''motion_direction'' (JStr ''FORWARD'')
      in dsetdefault msg ''arrival_mode'' (JStr ''STOP''))"

definition make_go :: "int \<Rightarrow> string \<Rightarrow> int \<Rightarrow> int \<Rightarrow> int \<Rightarrow> pydict" where
  "make_go car_id session_id seq route_id waypoint_id =
     dupdate (base_msg ''GO'' car_id session_id)
       [(''seq'', JInt seq), (''route_id'', JInt route_id), (''waypoint_id'', JInt waypoint_id)]"

definition make_wait ::
  "int \<Rightarrow> string \<Rightarrow> int \<Rightarrow> int \<Rightarrow> int \<Rightarrow> string \<Rightarrow> value_error + pydict" where
  "make_wait car_id session_id seq route_id waypoint_id reason =
     (if reason \<notin> set WAIT_REASONS then Inl (ValueError ''unsupported WAIT reason'')
      else Inr (dupdate (base_msg ''WAIT'' car_id session_id)
             [(''seq'', JInt seq), (''route_id'', JInt route_id), (''waypoint_id'', JInt waypoint_id),
              (''reason'', JStr reason)]))"

definition make_stop :: "int \<Rightarrow> string \<Rightarrow> int \<Rightarrow> pydict" where
  "make_stop car_id session_id seq = dset (base_msg ''STOP'' car_id session_id) ''seq'' (JInt seq)"

definition make_reset :: "int \<Rightarrow> string \<Rightarrow> int \<Rightarrow> pydict" where
  "make_reset car_id session_id seq = dset (base_msg ''RESET'' car_id session_id) ''seq'' (JInt seq)"

definition make_set_mode :: "int \<Rightarrow> string \<Rightarrow> int \<Rightarrow> string \<Rightarrow> value_error + pydict" where
  "make_set_mode car_id session_id seq mode =
     (if mode \<notin> set CONTROL_MODES then Inl (ValueError ''unknown mode'')
      else Inr (dupdate (base_msg ''SET_MODE'' car_id session_id)
             [(''seq'', JInt seq), (''mode'', JStr mode)]))"

definition make_pose_update ::
  "int \<Rightarrow> string \<Rightarrow> int \<Rightarrow> real \<Rightarrow> real \<Rightarrow> real option \<Rightarrow> real \<Rightarrow> real \<Rightarrow> string option \<Rightarrow> int \<Rightarrow> bool
     \<Rightarrow> pydict" where
  "make_pose_update car_id session_id pose_seq x_cm y_cm heading_deg position_confidence
       heading_confidence heading_source measurement_age_ms valid =
     dupdate (base_msg ''POSE_UPDATE'' car_id session_id)
       [(''pose_seq'', JInt pose_seq),
        (''x_cm'', JFloat (Fin (round_dec 1 x_cm))), (''y_cm'', JFloat (Fin (round_dec 1 y_cm))),
        (''heading_deg'', (case heading_deg of None \<Rightarrow> JNull | Some h \<Rightarrow> JFloat (Fin (round_dec 1 h)))),
        (''position_confidence'', JFloat (Fin (round_dec 2 position_confidence))),
        (''heading_confidence'', JFloat (Fin (round_dec 2 heading_confidence))),
        (''heading_source'', (case heading_source of None \<Rightarrow> JNull | Some s \<Rightarrow> JStr s)),
        (''measurement_age_ms'', JInt measurement_age_ms), (''valid'', JBool valid)]"

definition wire_clamp :: "pyfloat \<Rightarrow> pyfloat" where
  "wire_clamp v = py_max (Fin (- 1)) (py_min (Fin 1) v)"

definition make_direct_control :: "int \<Rightarrow> string \<Rightarrow> int \<Rightarrow> pyfloat \<Rightarrow> pyfloat \<Rightarrow> pydict" where
  "make_direct_control car_id session_id control_seq throttle steering =
     dupdate (base_msg ''DIRECT_CONTROL'' car_id session_id)
       [(''control_seq'', JInt control_seq),
        (''throttle'', JFloat (fround 4 (wire_clamp throttle))),
        (''steering'', JFloat (fround 4 (wire_clamp steering)))]"

definition make_hello_ack ::
  "int \<Rightarrow> string \<Rightarrow> string \<Rightarrow> string option \<Rightarrow> string \<Rightarrow> int \<Rightarrow> value_error + pydict" where
  "make_hello_ack car_id session_id result reason boot_id command_seq_start =
     (if result \<notin> {''READY_ALLOWED'', ''HOLD'', ''REJECTED''}
      then Inl (ValueError ''invalid HELLO_ACK result'')
      else
        let msg = base_msg ''HELLO_ACK'' car_id session_id;
            msg = dset msg ''boot_id'' (JStr boot_id);
            msg = dset msg ''result'' (JStr result);
            msg = (if result \<noteq> ''REJECTED''
                   then dset msg ''command_seq_start'' (JInt command_seq_start) else msg)
        in Inr (case reason of
             None \<Rightarrow> msg
           | Some r \<Rightarrow>
               if r = '''' then msg
               else dset msg (if result = ''HOLD'' then ''hold_reason'' else ''reject_reason'') (JStr r)))"

definition make_heartbeat :: "int \<Rightarrow> string \<Rightarrow> int \<Rightarrow> pydict" where
  "make_heartbeat car_id session_id heartbeat_seq =
     dset (base_msg ''HEARTBEAT'' car_id session_id) ''heartbeat_seq'' (JInt heartbeat_seq)"

definition make_event_ack :: "int \<Rightarrow> string \<Rightarrow> int \<Rightarrow> pydict" where
  "make_event_ack car_id session_id event_id =
     dset (base_msg ''EVENT_ACK'' car_id session_id) ''event_id'' (JInt event_id)"

lemma base_msg_dget [simp]:
  "dget (base_msg t c s) ''type'' = JStr t" "dget (base_msg t c s) ''session_id'' = JStr s"
  "dget (base_msg t c s) ''seq'' = JNull" "dget (base_msg t c s) ''car_id'' = JStr (wire_car_id c)"
  by (simp_all add: base_msg_def)

lemma dupdate_simps [simp]:
  "dupdate d [] = d" "dupdate d ((k, v) # e) = dupdate (dset d k v) e"
  by (simp_all add: dupdate_def)

lemma wire_clamp_finite: "\<exists>r. wire_clamp v = Fin r \<and> - 1 \<le> r \<and> r \<le> 1"
  by (cases v) (auto simp: wire_clamp_def py_min_def py_max_def)

lemma wire_clamp_round: "\<exists>r. fround 4 (wire_clamp v) = Fin r \<and> \<bar>r\<bar> \<le> 1"
  using wire_clamp_finite [of v] round_dec_unit [of _ 4] by (force simp: abs_le_iff)

lemma wire_clamp_Fin [simp]: "wire_clamp (Fin a) = Fin (max (- 1) (min 1 a))"
  by (simp add: wire_clamp_def)

lemma wire_clamp_NaN: "wire_clamp NaN = Fin 1"
  by (simp add: wire_clamp_def py_min_def py_max_def)

text \<open>Whatever float is pushed, NaN and the infinities included, the \<open>DIRECT_CONTROL\<close> message
  carries finite throttle and steering in \<open>[-1, 1]\<close>; in-range values are only rounded to four digits;
  but a NaN throttle is sent as full forward.\<close>

theorem direct_control_in_range:
  "(\<exists>t s. dget (make_direct_control c sid n thr str) ''throttle'' = JFloat (Fin t) \<and>
          dget (make_direct_control c sid n thr str) ''steering'' = JFloat (Fin s) \<and>
          \<bar>t\<bar> \<le> 1 \<and> \<bar>s\<bar> \<le> 1)
   \<and> dget (make_direct_control c sid n NaN str) ''throttle'' = JFloat (Fin 1)"
proof -
  obtain t u where "fround 4 (wire_clamp thr) = Fin t" "\<bar>t\<bar> \<le> 1"
    and "fround 4 (wire_clamp str) = Fin u" "\<bar>u\<bar> \<le> 1"
    using wire_clamp_round by metis
  then show ?thesis by (simp add: make_direct_control_def wire_clamp_NaN)
qed

section \<open>Framing and validation\<close>

definition newline :: char where "newline = chr 10"

text \<open>\<open>fr\<close> is the text of a float.\<close>

definition encode :: "(pyfloat \<Rightarrow> string) \<Rightarrow> pydict \<Rightarrow> value_error + string" where
  "encode fr msg =
     (let data = dumps fr (JObj msg) @ [newline]
      in if length data > MAX_MESSAGE_BYTES then Inl (ValueError ''message exceeds 512 bytes'')
         else Inr data)"

text \<open>
  \<open>loads\<close> is \<open>json.loads\<close> on the bytes of a line, \<open>None\<close> for the \<open>ValueError\<close> it raises (invalid
  JSON, invalid UTF-8).
\<close>

definition parse_message :: "(string \<Rightarrow> json option) \<Rightarrow> string \<Rightarrow> value_error + pydict" where
  "parse_message loads line =
     (if length line > MAX_MESSAGE_BYTES then Inl (ValueError ''oversized message'')
      else case loads line of
        None \<Rightarrow> Inl (ValueError ''invalid JSON'')
      | Some (JObj obj) \<Rightarrow>
          if \<not> dhas obj ''type'' then Inl (ValueError ''missing required field: type'')
          else if \<not> dhas obj ''car_id'' then Inl (ValueError ''missing required field: car_id'')
          else (case parse_car_id (dget obj ''car_id'') of
                  Inl e \<Rightarrow> Inl e
                | Inr cid \<Rightarrow> Inr (dset obj ''car_id'' (JInt cid)))
      | Some _ \<Rightarrow> Inl (ValueError ''message must be a JSON object''))"

lemma newline_not_printable: "printable s \<Longrightarrow> newline \<notin> set s"
  by (auto simp: printable_def list_all_iff newline_def)

lemma encode_Inr:
  assumes "encode fr msg = Inr data"
  shows "data = dumps fr (JObj msg) @ [newline] \<and> length data \<le> MAX_MESSAGE_BYTES"
  using assms unfolding encode_def Let_def
  by (cases "length (dumps fr (JObj msg) @ [newline]) > MAX_MESSAGE_BYTES")
     (simp_all only: if_True if_False sum.inject not_less, blast+)

text \<open>An encoded message is one NDJSON line: it ends in a line break, contains no other one
  (string fields cannot smuggle one in), and is at most 512 bytes long.\<close>

theorem encode_one_line:
  assumes "\<And>f. printable (fr f)" and "encode fr msg = Inr data"
  shows "\<exists>body. data = body @ [newline] \<and> newline \<notin> set body \<and> length data \<le> 512"
proof -
  have d: "data = dumps fr (JObj msg) @ [newline]" and l: "length data \<le> 512"
    using encode_Inr [OF assms(2)] unfolding MAX_MESSAGE_BYTES_def by (rule conjunct1, rule conjunct2)
  have "newline \<notin> set (dumps fr (JObj msg))"
    by (rule newline_not_printable [OF printable_dumps [OF assms(1)]])
  with d l show ?thesis by (intro exI conjI)
qed

theorem encode_one_line_witness:
  "\<exists>body. ''{}'' @ [newline] = body @ [newline] \<and> newline \<notin> set body \<and>
     length (''{}'' @ [newline]) \<le> 512"
proof -
  have enc: "encode (\<lambda>_. ''0'') [] = Inr (''{}'' @ [newline])"
    by (simp add: encode_def MAX_MESSAGE_BYTES_def)
  have pr: "\<And>f::pyfloat. printable ((\<lambda>_. ''0'') f)" by simp
  show ?thesis by (rule encode_one_line [OF pr enc])
qed

end
