(* ===== verification/Reliability.thy ===== *)
theory Reliability
  imports Comm_Protocol
begin

text \<open>
  \<open>integrated/host/comm/reliability.py\<close>: the \<open>ReliableSender\<close> of one vehicle. \<open>now\<close> is the reading
  of \<open>time.monotonic()\<close>, in seconds, in the call. A call gives the new state and, in order, the
  calls of the callbacks (\<open>SendRaw\<close>, \<open>OnFail\<close>) and the value returned; a \<open>RuntimeError\<close> is an \<open>Inl\<close>
  and leaves the state as it was.
\<close>

datatype runtime_error = RuntimeError string

section \<open>State and operations\<close>

record pending =
  p_seq :: int
  p_msg :: pydict
  sent_at :: real
  attempts :: nat
  timeout_ms :: real

record reliable_sender =
  rs_car_id :: int
  rs_seq :: int
  rs_pending :: "pending option"

definition reliable_new :: "int \<Rightarrow> reliable_sender" where
  "reliable_new car_id = \<lparr>rs_car_id = car_id, rs_seq = 0, rs_pending = None\<rparr>"

definition priority :: "string \<Rightarrow> int" where
  "priority t = (if t = ''STOP'' then 2 else if t = ''WAIT'' then 1 else 0)"

definition timeout_for :: "string \<Rightarrow> real" where
  "timeout_for t =
     (if t = ''WAYPOINT'' then RESP_TIMEOUT_WAYPOINT TIMING
      else if t = ''WAIT'' then RESP_TIMEOUT_WAIT TIMING
      else if t = ''STOP'' then RESP_TIMEOUT_STOP TIMING
      else RESP_TIMEOUT_DEFAULT TIMING)"

text \<open>\<open>msg.get("type", "")\<close>; the builders always set a string.\<close>

definition msg_type :: "pydict \<Rightarrow> string" where
  "msg_type msg = (case dget_or msg ''type'' (JStr '''') of JStr t \<Rightarrow> t | _ \<Rightarrow> '''')"

definition set_seq_start :: "reliable_sender \<Rightarrow> int \<Rightarrow> reliable_sender" where
  "set_seq_start rs start = rs\<lparr>rs_seq := max 0 (start - 1)\<rparr>"

definition next_seq :: "reliable_sender \<Rightarrow> reliable_sender \<times> int" where
  "next_seq rs = (rs\<lparr>rs_seq := rs_seq rs + 1\<rparr>, rs_seq rs + 1)"

datatype sender_out = SendRaw pydict | OnFail pydict | Returned int

definition rs_send ::
  "real \<Rightarrow> pydict \<Rightarrow> reliable_sender \<Rightarrow> runtime_error + (reliable_sender \<times> sender_out list)" where
  "rs_send now msg rs =
     (let t = msg_type msg;
          accept =
            (let n = rs_seq rs + 1;
                 msg' = dset msg ''seq'' (JInt n);
                 p = \<lparr>p_seq = n, p_msg = msg', sent_at = now, attempts = 1,
                      timeout_ms = timeout_for t\<rparr>
             in Inr (rs\<lparr>rs_seq := n, rs_pending := Some p\<rparr>, [SendRaw msg', Returned n]))
      in case rs_pending rs of
           None \<Rightarrow> accept
         | Some p \<Rightarrow>
             if t \<notin> set PREEMPTIVE_TYPES
             then Inl (RuntimeError ''outstanding command exists; wait for ack'')
             else if priority t \<le> priority (msg_type (p_msg p))
             then Inl (RuntimeError ''cannot preempt pending command'')
             else accept)"

definition on_ack :: "reliable_sender \<Rightarrow> int \<Rightarrow> reliable_sender \<times> bool" where
  "on_ack rs acked_seq = (case rs_pending rs of
       Some p \<Rightarrow> if p_seq p \<le> acked_seq then (rs\<lparr>rs_pending := None\<rparr>, True) else (rs, False)
     | None \<Rightarrow> (rs, False))"

definition clear_pending :: "reliable_sender \<Rightarrow> reliable_sender" where
  "clear_pending rs = rs\<lparr>rs_pending := None\<rparr>"

definition outstanding :: "reliable_sender \<Rightarrow> pydict option" where
  "outstanding rs = map_option p_msg (rs_pending rs)"

definition rs_tick :: "real \<Rightarrow> reliable_sender \<Rightarrow> reliable_sender \<times> sender_out list" where
  "rs_tick now rs = (case rs_pending rs of
       None \<Rightarrow> (rs, [])
     | Some p \<Rightarrow>
         let elapsed_ms = (now - sent_at p) * 1000
         in if elapsed_ms < timeout_ms p then (rs, [])
            else if MAX_RETRANSMIT TIMING \<le> attempts p
            then (rs\<lparr>rs_pending := None\<rparr>, [OnFail (p_msg p)])
            else (rs\<lparr>rs_pending := Some (p\<lparr>attempts := attempts p + 1, sent_at := now\<rparr>)\<rparr>,
                  [SendRaw (p_msg p)]))"

section \<open>Runs\<close>

datatype sender_op = OpSend real pydict | OpAck int | OpClear | OpTick real | OpNext

fun sender_step :: "reliable_sender \<Rightarrow> sender_op \<Rightarrow> reliable_sender \<times> sender_out list" where
  "sender_step rs (OpSend now msg) = (case rs_send now msg rs of Inl _ \<Rightarrow> (rs, []) | Inr r \<Rightarrow> r)"
| "sender_step rs (OpAck n) = (fst (on_ack rs n), [])"
| "sender_step rs OpClear = (clear_pending rs, [])"
| "sender_step rs (OpTick now) = rs_tick now rs"
| "sender_step rs OpNext = (let (rs', n) = next_seq rs in (rs', [Returned n]))"

text \<open>The invariant: the pending command carries its own number, which the counter has reached.\<close>

definition sender_ok :: "reliable_sender \<Rightarrow> bool" where
  "sender_ok rs = (0 \<le> rs_seq rs \<and> (case rs_pending rs of
       None \<Rightarrow> True
     | Some p \<Rightarrow> 0 < p_seq p \<and> p_seq p \<le> rs_seq rs \<and> dget (p_msg p) ''seq'' = JInt (p_seq p)
         \<and> 1 \<le> attempts p \<and> attempts p \<le> 5))"

lemmas sender_defs = rs_send_def on_ack_def clear_pending_def rs_tick_def next_seq_def Let_def

lemma reliable_new_ok [inv_intro]: "sender_ok (set_seq_start (reliable_new c) n)"
  by (simp add: sender_ok_def set_seq_start_def reliable_new_def)

text \<open>When a command may be sent, and the state and calls of an accepted one.\<close>

definition sender_accepts :: "reliable_sender \<Rightarrow> string \<Rightarrow> bool" where
  "sender_accepts rs t = (case rs_pending rs of
       None \<Rightarrow> True
     | Some p \<Rightarrow> t \<in> {''WAIT'', ''STOP''} \<and> priority (msg_type (p_msg p)) < priority t)"

lemma rs_send_accepted:
  "sender_accepts rs (msg_type msg) \<Longrightarrow>
     rs_send now msg rs = Inr (rs\<lparr>rs_seq := rs_seq rs + 1, rs_pending := Some
          \<lparr>p_seq = rs_seq rs + 1, p_msg = dset msg ''seq'' (JInt (rs_seq rs + 1)), sent_at = now,
           attempts = 1, timeout_ms = timeout_for (msg_type msg)\<rparr>\<rparr>,
        [SendRaw (dset msg ''seq'' (JInt (rs_seq rs + 1))), Returned (rs_seq rs + 1)])"
  by (auto simp: rs_send_def Let_def PREEMPTIVE_TYPES_def sender_accepts_def split: option.splits)

lemma rs_send_refused: "\<not> sender_accepts rs (msg_type msg) \<Longrightarrow> \<exists>e. rs_send now msg rs = Inl e"
  by (auto simp: rs_send_def Let_def PREEMPTIVE_TYPES_def sender_accepts_def split: option.splits)

lemma sender_step_send:
  "sender_step rs (OpSend now msg) =
     (if sender_accepts rs (msg_type msg)
      then (rs\<lparr>rs_seq := rs_seq rs + 1, rs_pending := Some
          \<lparr>p_seq = rs_seq rs + 1, p_msg = dset msg ''seq'' (JInt (rs_seq rs + 1)), sent_at = now,
           attempts = 1, timeout_ms = timeout_for (msg_type msg)\<rparr>\<rparr>,
        [SendRaw (dset msg ''seq'' (JInt (rs_seq rs + 1))), Returned (rs_seq rs + 1)])
      else (rs, []))"
  using rs_send_refused [of rs msg now] by (auto simp: rs_send_accepted)

lemma sender_step_ok [inv_intro]: "sender_ok rs \<Longrightarrow> sender_ok (fst (sender_step rs e))"
proof (cases e)
  case (OpSend now msg)
  then show "sender_ok rs \<Longrightarrow> ?thesis" by (auto simp del: sender_step.simps simp: sender_step_send sender_ok_def
        split: if_splits option.splits)
next
  case (OpTick now)
  then show "sender_ok rs \<Longrightarrow> ?thesis"
    by (auto simp: rs_tick_def sender_ok_def Let_def TIMING_def split: option.splits)
qed (auto simp: sender_ok_def sender_defs split: option.splits)

interpretation sender_sys: step_system "\<lambda>rs e. fst (sender_step rs e)" sender_ok
  by unfold_locales (rule sender_step_ok)

fun returned_seq :: "sender_out \<Rightarrow> int option" where
  "returned_seq (Returned n) = Some n"
| "returned_seq _ = None"

lemma sender_step_returns:
  assumes "sender_step rs e = (rs', out)"
  shows "(List.map_filter returned_seq out = [] \<and> rs_seq rs' = rs_seq rs) \<or>
     (List.map_filter returned_seq out = [rs_seq rs + 1] \<and> rs_seq rs' = rs_seq rs + 1)"
proof (cases e)
  case (OpSend now msg)
  then show ?thesis using assms
    by (auto simp del: sender_step.simps simp: sender_step_send List.map_filter_def split: if_splits)
qed (use assms in \<open>auto simp: on_ack_def clear_pending_def rs_tick_def next_seq_def Let_def
    List.map_filter_def split: if_splits option.splits\<close>)

interpretation sender_seq: seq_emitter sender_step rs_seq returned_seq
proof
  fix s e s' out assume "sender_step s e = (s', out)"
  note * = sender_step_returns [OF this]
  show "rs_seq s \<le> rs_seq s'" using * by auto
  show "sorted_wrt (<) (List.map_filter returned_seq out)" using * by auto
  fix t assume "t \<in> set (List.map_filter returned_seq out)"
  then show "rs_seq s < t \<and> t \<le> rs_seq s'" using * by auto
qed

section \<open>Properties\<close>

text \<open>A command is sent exactly when no command is outstanding or it is a \<open>WAIT\<close>/\<open>STOP\<close> of higher
  priority than the outstanding one; it gets the next number, becomes the outstanding command and
  is handed to the socket once. A refused command changes nothing and sends nothing.\<close>

theorem send_accepts_iff:
  "if rs_pending rs = None \<or>
      (\<exists>p. rs_pending rs = Some p \<and> msg_type msg = ''STOP'' \<and> msg_type (p_msg p) \<noteq> ''STOP'') \<or>
      (\<exists>p. rs_pending rs = Some p \<and> msg_type msg = ''WAIT'' \<and>
           msg_type (p_msg p) \<notin> {''STOP'', ''WAIT''})
   then rs_send now msg rs = Inr (rs\<lparr>rs_seq := rs_seq rs + 1, rs_pending := Some
          \<lparr>p_seq = rs_seq rs + 1, p_msg = dset msg ''seq'' (JInt (rs_seq rs + 1)), sent_at = now,
           attempts = 1, timeout_ms = timeout_for (msg_type msg)\<rparr>\<rparr>,
        [SendRaw (dset msg ''seq'' (JInt (rs_seq rs + 1))), Returned (rs_seq rs + 1)])
   else sender_step rs (OpSend now msg) = (rs, []) \<and> (\<exists>e. rs_send now msg rs = Inl e)"
proof -
  have iff: "sender_accepts rs (msg_type msg) =
     (rs_pending rs = None \<or>
      (\<exists>p. rs_pending rs = Some p \<and> msg_type msg = ''STOP'' \<and> msg_type (p_msg p) \<noteq> ''STOP'') \<or>
      (\<exists>p. rs_pending rs = Some p \<and> msg_type msg = ''WAIT'' \<and>
           msg_type (p_msg p) \<notin> {''STOP'', ''WAIT''}))"
    by (auto simp: sender_accepts_def priority_def split: option.splits)
  show ?thesis unfolding iff [symmetric]
    by (simp del: sender_step.simps add: sender_step_send rs_send_accepted rs_send_refused)
qed

text \<open>The messages given to the socket, in order.\<close>

definition raw_sent :: "sender_out list \<Rightarrow> pydict list" where
  "raw_sent out = List.map_filter (\<lambda>x. case x of SendRaw m \<Rightarrow> Some m | _ \<Rightarrow> None) out"

lemma raw_sent_simps [simp]:
  "raw_sent [] = []" "raw_sent (SendRaw m # out) = m # raw_sent out"
  "raw_sent (OnFail m # out) = raw_sent out" "raw_sent (Returned n # out) = raw_sent out"
  "raw_sent (xs @ ys) = raw_sent xs @ raw_sent ys"
  by (simp_all add: raw_sent_def List.map_filter_def)

text \<open>What one step can put on the wire: the pending command again, or a fresh number.\<close>

lemma sender_step_sent:
  assumes "sender_step rs e = (rs', out)"
  shows "(raw_sent out = [] \<and> rs_seq rs \<le> rs_seq rs' \<and>
        (\<forall>p'. rs_pending rs' = Some p' \<longrightarrow> (\<exists>p. rs_pending rs = Some p \<and> p_msg p' = p_msg p)))
     \<or> (\<exists>p p'. rs_pending rs = Some p \<and> rs_pending rs' = Some p' \<and> p_msg p' = p_msg p \<and>
          raw_sent out = [p_msg p] \<and> rs_seq rs' = rs_seq rs)
     \<or> (\<exists>m p'. raw_sent out = [m] \<and> dget m ''seq'' = JInt (rs_seq rs + 1) \<and>
          rs_seq rs' = rs_seq rs + 1 \<and> rs_pending rs' = Some p' \<and> p_msg p' = m)"
proof (cases e)
  case (OpSend now msg)
  then show ?thesis using assms
    by (auto simp del: sender_step.simps simp: sender_step_send split: if_splits)
qed (use assms in \<open>auto simp: on_ack_def clear_pending_def rs_tick_def next_seq_def Let_def
    split: if_splits option.splits\<close>)

text \<open>The messages a run from this state can still send.\<close>

definition sendable :: "reliable_sender \<Rightarrow> pydict \<Rightarrow> bool" where
  "sendable rs m = ((\<exists>p. rs_pending rs = Some p \<and> m = p_msg p) \<or>
     (\<exists>n > rs_seq rs. dget m ''seq'' = JInt n))"

lemma sender_step_sendable:
  assumes "sender_step rs e = (rs', out)"
  shows "m \<in> set (raw_sent out) \<Longrightarrow> sendable rs m" and "sendable rs' m \<Longrightarrow> sendable rs m"
    and "m \<in> set (raw_sent out) \<Longrightarrow> \<exists>p. rs_pending rs' = Some p \<and> m = p_msg p"
proof -
  consider (quiet) "raw_sent out = []" "rs_seq rs \<le> rs_seq rs'"
        "\<And>p'. rs_pending rs' = Some p' \<Longrightarrow> \<exists>p. rs_pending rs = Some p \<and> p_msg p' = p_msg p"
    | (again) p p' where "rs_pending rs = Some p" "rs_pending rs' = Some p'" "p_msg p' = p_msg p"
        "raw_sent out = [p_msg p]" "rs_seq rs' = rs_seq rs"
    | (fresh) m0 p' where "raw_sent out = [m0]" "dget m0 ''seq'' = JInt (rs_seq rs + 1)"
        "rs_seq rs' = rs_seq rs + 1" "rs_pending rs' = Some p'" "p_msg p' = m0"
    using sender_step_sent [OF assms] by blast
  then have "(m \<in> set (raw_sent out) \<longrightarrow> sendable rs m) \<and> (sendable rs' m \<longrightarrow> sendable rs m) \<and>
      (m \<in> set (raw_sent out) \<longrightarrow> (\<exists>p. rs_pending rs' = Some p \<and> m = p_msg p))"
  proof cases
    case quiet
    then show ?thesis unfolding sendable_def by (metis empty_iff list.set(1) order_le_less_trans)
  next
    case again
    then show ?thesis unfolding sendable_def by simp
  next
    case fresh
    have "rs_seq rs < rs_seq rs + 1" by simp
    then show ?thesis using fresh unfolding sendable_def by fastforce
  qed
  then show "m \<in> set (raw_sent out) \<Longrightarrow> sendable rs m" "sendable rs' m \<Longrightarrow> sendable rs m"
    "m \<in> set (raw_sent out) \<Longrightarrow> \<exists>p. rs_pending rs' = Some p \<and> m = p_msg p" by blast+
qed

lemma sender_run_sent:
  assumes "run_out sender_step rs es = (rs', out)" "m \<in> set (raw_sent out)"
  shows "sendable rs m"
  using assms
proof (induction es arbitrary: rs rs' out)
  case Nil
  then show ?case by simp
next
  case (Cons e es)
  obtain r1 o1 where 1: "sender_step rs e = (r1, o1)" by fastforce
  obtain r2 o2 where 2: "run_out sender_step r1 es = (r2, o2)" by fastforce
  have "out = o1 @ o2" using Cons.prems(1) 1 2 by simp
  then show ?case
    using sender_step_sendable(1,2) [OF 1] Cons.IH [OF 2] Cons.prems(2) by auto
qed

text \<open>A message that can still be sent and has the number of the outstanding one is that one.\<close>

lemma sendable_pending:
  assumes "sender_ok rs" "rs_pending rs = Some p" "sendable rs m"
    and "dget m ''seq'' = dget (p_msg p) ''seq''"
  shows "m = p_msg p"
  using assms by (auto simp: sender_ok_def sendable_def)

text \<open>C23: a command number stands for one payload. Over every sequence of sends, acks, discards and
  timer ticks, two messages on the wire with the same number are the same message, byte for byte;
  so a retransmission can never change what a number means.\<close>

theorem same_seq_same_payload:
  assumes "run_out sender_step (set_seq_start (reliable_new c) n) es = (rs', out)"
    and "m1 \<in> set (raw_sent out)" "m2 \<in> set (raw_sent out)"
    and "dget m1 ''seq'' = dget m2 ''seq''"
  shows "m1 = m2"
proof -
  have "m1 = m2" if "sender_ok rs" "run_out sender_step rs es = (rs', out)"
      "m1 \<in> set (raw_sent out)" "m2 \<in> set (raw_sent out)" for rs
    using that
  proof (induction es arbitrary: rs rs' out)
    case Nil
    then show ?case by simp
  next
    case (Cons e es)
    obtain r1 o1 where 1: "sender_step rs e = (r1, o1)" by fastforce
    obtain r2 o2 where 2: "run_out sender_step r1 es = (r2, o2)" by fastforce
    have out: "out = o1 @ o2" using Cons.prems(2) 1 2 by simp
    have ok: "sender_ok r1" using sender_step_ok [OF Cons.prems(1), of e] 1 by simp
    note now = sender_step_sendable(3) [OF 1]
    have can: "sendable r1 m" if "m \<in> set (raw_sent out)" for m
      using that now [of m] sender_run_sent [OF 2, of m] by (auto simp: out sendable_def)
    show ?case
    proof (cases "m1 \<in> set (raw_sent o1) \<or> m2 \<in> set (raw_sent o1)")
      case True
      then obtain p where "rs_pending r1 = Some p" "m1 = p_msg p \<or> m2 = p_msg p" using now by blast
      then show ?thesis
        using sendable_pending [OF ok] can [OF Cons.prems(3)] can [OF Cons.prems(4)] assms(4)
        by metis
    next
      case False
      then show ?thesis using Cons.IH [OF ok 2] Cons.prems(3,4) out by simp
    qed
  qed
  then show ?thesis using reliable_new_ok assms(1-3) by blast
qed

theorem same_seq_same_payload_witness:
  "\<exists>m1 m2. raw_sent (snd (run_out sender_step (set_seq_start (reliable_new 1) 1)
       [OpSend 0 [(''type'', JStr ''STOP'')], OpTick (1 / 2)])) = [m1, m2] \<and> m1 = m2"
proof -
  define rs where "rs = set_seq_start (reliable_new 1) 1"
  define m where "m = [(''type'', JStr ''STOP''), (''seq'', JInt 1)]"
  have "\<exists>rs'. run_out sender_step (set_seq_start (reliable_new 1) 1)
      [OpSend 0 [(''type'', JStr ''STOP'')], OpTick (1 / 2)] = (rs', [SendRaw m, Returned 1, SendRaw m])"
    by (simp add: m_def set_seq_start_def reliable_new_def rs_send_def Let_def msg_type_def dset_def
        rs_tick_def timeout_for_def TIMING_def)
  then obtain rs' where run: "run_out sender_step (set_seq_start (reliable_new 1) 1)
      [OpSend 0 [(''type'', JStr ''STOP'')], OpTick (1 / 2)] = (rs', [SendRaw m, Returned 1, SendRaw m])"
    by blast
  have "m = m" by (rule same_seq_same_payload [OF run]) simp_all
  then show ?thesis by (simp only: run snd_conv raw_sent_simps) blast
qed



text \<open>A pending emergency stop cannot be displaced by anything the host sends: whatever
  commands are attempted while a \<open>STOP\<close> is outstanding, the \<open>STOP\<close> stays outstanding and nothing else
  reaches the wire. Only its answer, a discard or the failure of all its copies ends it.\<close>

theorem stop_never_displaced:
  assumes "rs_pending rs = Some p" "msg_type (p_msg p) = ''STOP''"
  shows "run_out sender_step rs (map (\<lambda>(t, m). OpSend t m) sends) = (rs, [])"
proof (induction sends)
  case Nil
  then show ?case by simp
next
  case (Cons x xs)
  have "\<not> sender_accepts rs t" for t using assms by (auto simp: sender_accepts_def priority_def)
  then have "sender_step rs (OpSend (fst x) (snd x)) = (rs, [])"
    by (simp del: sender_step.simps add: sender_step_send)
  then show ?case using Cons by (simp del: sender_step.simps add: split_def)
qed

theorem stop_never_displaced_witness:
  "run_out sender_step \<lparr>rs_car_id = 1, rs_seq = 1, rs_pending =
      Some \<lparr>p_seq = 1, p_msg = [(''type'', JStr ''STOP'')], sent_at = 0, attempts = 1, timeout_ms = 100\<rparr>\<rparr>
      (map (\<lambda>(t, m). OpSend t m) [(1, [(''type'', JStr ''WAIT'')]), (2, [(''type'', JStr ''GO'')])])
   = (\<lparr>rs_car_id = 1, rs_seq = 1, rs_pending =
      Some \<lparr>p_seq = 1, p_msg = [(''type'', JStr ''STOP'')], sent_at = 0, attempts = 1, timeout_ms = 100\<rparr>\<rparr>, [])"
proof -
  define p where "p = \<lparr>p_seq = 1, p_msg = [(''type'', JStr ''STOP'')], sent_at = 0, attempts = 1,
     timeout_ms = 100\<rparr>"
  have "msg_type (p_msg p) = ''STOP''" by (simp add: msg_type_def p_def)
  then show ?thesis unfolding p_def [symmetric] by (intro stop_never_displaced [of _ p]) simp
qed

end
