(* ===== verification/Framing.thy ===== *)
theory Framing
  imports Comm_Protocol
begin

text \<open>
  The receive buffer of the NDJSON connections: bytes are appended as they arrive and complete
  lines are cut off at the line break (\<open>while b"\n" in buf: line, buf = buf.split(b"\n", 1)\<close>).
\<close>

text \<open>\<open>buf.split(b"\n", 1)\<close>, when the buffer has a line break.\<close>

fun split_line :: "string \<Rightarrow> (string \<times> string) option" where
  "split_line [] = None"
| "split_line (c # s) =
     (if c = newline then Some ([], s)
      else case split_line s of None \<Rightarrow> None | Some (line, rest) \<Rightarrow> Some (c # line, rest))"

lemma split_line_Some: "split_line s = Some (line, rest) \<Longrightarrow> s = line @ newline # rest \<and> newline \<notin> set line"
  by (induction s arbitrary: line) (auto split: if_splits option.splits)

lemma split_line_None: "split_line s = None \<longleftrightarrow> newline \<notin> set s"
  by (induction s) (auto split: if_splits option.splits)

lemma split_line_append:
  "split_line s = Some (line, rest) \<Longrightarrow> split_line (s @ t) = Some (line, rest @ t)"
  by (induction s arbitrary: line) (auto split: if_splits option.splits)

lemma split_line_first: "newline \<notin> set line \<Longrightarrow> split_line (line @ newline # rest) = Some (line, rest)"
  by (induction line) auto

function take_lines :: "string \<Rightarrow> string list \<times> string" where
  "take_lines buf = (case split_line buf of
       None \<Rightarrow> ([], buf)
     | Some (line, rest) \<Rightarrow> let (lines, buf') = take_lines rest in (line # lines, buf'))"
  by pat_completeness auto
termination
  by (relation "measure length") (auto dest: split_line_Some)

declare take_lines.simps [simp del]

lemma take_lines_none: "newline \<notin> set s \<Longrightarrow> take_lines s = ([], s)"
  by (subst take_lines.simps) (simp add: split_line_None [symmetric])

lemma take_lines_cons: "newline \<notin> set line \<Longrightarrow>
    take_lines (line @ newline # rest) = (line # fst (take_lines rest), snd (take_lines rest))"
  by (subst take_lines.simps) (simp add: split_line_first split_def Let_def)

lemma take_lines_rest: "newline \<notin> set (snd (take_lines s))"
proof (induction s rule: take_lines.induct)
  case (1 buf)
  then show ?case
    by (subst take_lines.simps) (auto simp: split_def Let_def split_line_None split: option.splits)
qed

lemma take_lines_append:
  "take_lines (s @ t) =
     (let (l1, r1) = take_lines s; (l2, r2) = take_lines (r1 @ t) in (l1 @ l2, r2))"
proof (induction s rule: take_lines.induct)
  case (1 buf)
  show ?case
  proof (cases "split_line buf")
    case None
    then show ?thesis by (simp add: take_lines_none split_line_None)
  next
    case (Some p)
    obtain line rest where p: "p = (line, rest)" by fastforce
    have app: "split_line (buf @ t) = Some (line, rest @ t)" using split_line_append Some p by blast
    have "take_lines (buf @ t) = (line # fst (take_lines (rest @ t)), snd (take_lines (rest @ t)))"
      by (subst take_lines.simps) (simp add: app split_def Let_def)
    moreover have "take_lines buf = (line # fst (take_lines rest), snd (take_lines rest))"
      by (subst take_lines.simps) (simp add: Some p split_def Let_def)
    ultimately show ?thesis using "1.IH" [OF Some p [symmetric]] by (simp add: split_def Let_def)
  qed
qed

lemma newline_char: "newline = CHR 0x0A"
  by (simp add: newline_def chr_def char_of_def bit_0)

text \<open>The receive loop: one chunk at a time, the incomplete tail kept.\<close>

fun feed :: "string \<Rightarrow> string list \<Rightarrow> string list \<times> string" where
  "feed buf [] = ([], buf)"
| "feed buf (chunk # chunks) =
     (let (lines, buf') = take_lines (buf @ chunk); (more, buf'') = feed buf' chunks
      in (lines @ more, buf''))"

lemma feed_concat: "newline \<notin> set buf \<Longrightarrow> feed buf chunks = take_lines (buf @ concat chunks)"
proof (induction chunks arbitrary: buf)
  case Nil
  then show ?case by (simp add: take_lines_none)
next
  case (Cons c cs)
  have "feed (snd (take_lines (buf @ c))) cs = take_lines (snd (take_lines (buf @ c)) @ concat cs)"
    by (rule Cons.IH) (rule take_lines_rest)
  then show ?case using take_lines_append [of "buf @ c" "concat cs"] by (simp add: split_def Let_def)
qed

lemma take_lines_messages:
  "list_all (\<lambda>l. newline \<notin> set l) lines \<Longrightarrow>
     take_lines (concat (map (\<lambda>l. l @ [newline]) lines)) = (lines, [])"
  by (induction lines) (simp_all add: take_lines_none take_lines_cons)

text \<open>C25: framing does not depend on how TCP cuts the stream. However the bytes of a sequence of
  newline-terminated lines are split into chunks, the receiver takes out exactly those lines, in
  order, and keeps nothing back.\<close>

theorem framing_chunk_independent:
  assumes "list_all (\<lambda>l. newline \<notin> set l) lines"
    and "concat chunks = concat (map (\<lambda>l. l @ [newline]) lines)"
  shows "feed [] chunks = (lines, [])"
  using feed_concat [of "[]" chunks] take_lines_messages [OF assms(1)] assms(2) by simp

theorem framing_chunk_independent_witness:
  "feed [] [''ab'', ''c'' @ [newline] @ ''d'', ''e'' @ [newline]] = ([''abc'', ''de''], [])"
  by (rule framing_chunk_independent) (simp_all add: newline_char)

end
