(* ===== verification/Comm_Server.thy ===== *)
theory Comm_Server
  imports Reliability Framing
begin

text \<open>
  \<open>integrated/host/comm/server.py\<close>: the TCP server. Sessions live in a store and are reached by
  reference: the connection of a replaced session keeps its own (dead) one. \<open>sessions\<close> is the
  \<open>dict\<close> of the active ones. \<open>now\<close> is \<open>time.monotonic()\<close> in seconds. Callbacks of the layers above and
  socket calls are emitted in order; a callback is a call that is made if a listener is set.
  \<open>SafeSend\<close> is a call of \<open>_safe_send\<close>.
\<close>

section \<open>State\<close>

record vehicle_session =
  vs_car_id :: int
  vs_session_id :: string
  vs_boot_id :: string
  vs_conn :: nat
  vs_sender :: reliable_sender
  vs_last_status :: pydict
  vs_last_rx_ms :: real
  vs_pose_seq :: int
  vs_heartbeat_seq :: int
  vs_latest_pose :: "pydict option"
  vs_control_seq :: int
  vs_latest_control :: "pydict option"
  vs_alive :: bool
  vs_comm_failed :: bool

record vehicle_server =
  srv_known_car_ids :: "int list"
  srv_heap :: "nat \<Rightarrow> vehicle_session option"
  srv_next :: nat
  srv_sessions :: "(int \<times> nat) list"
  srv_direct_control_enabled :: bool
  srv_max_hold_retries :: nat

datatype server_out =
    SafeSend nat pydict
  | SendAll nat string
  | CloseConn nat
  | OnStatus int pydict
  | OnReady int
  | OnResync int pydict
  | OnCommFail int pydict
  | OnCommRecovered int
  | OnCommandRejected int string pydict
  | OnCommandResult int int string pydict
  | OnHold int string

definition server_new :: "int list \<Rightarrow> vehicle_server" where
  "server_new known =
     \<lparr>srv_known_car_ids = (if known = [] then [1, 2] else known), srv_heap = (\<lambda>_. None), srv_next = 0,
      srv_sessions = [], srv_direct_control_enabled = False, srv_max_hold_retries = 20\<rparr>"

definition new_session :: "int \<Rightarrow> string \<Rightarrow> string \<Rightarrow> nat \<Rightarrow> reliable_sender \<Rightarrow> real \<Rightarrow> vehicle_session" where
  "new_session car_id session_id boot_id conn sender now =
     \<lparr>vs_car_id = car_id, vs_session_id = session_id, vs_boot_id = boot_id, vs_conn = conn,
      vs_sender = sender, vs_last_status = [], vs_last_rx_ms = now * 1000, vs_pose_seq = 0,
      vs_heartbeat_seq = 0, vs_latest_pose = None, vs_control_seq = 0, vs_latest_control = None,
      vs_alive = True, vs_comm_failed = False\<rparr>"

definition put :: "nat \<Rightarrow> vehicle_session \<Rightarrow> vehicle_server \<Rightarrow> vehicle_server" where
  "put r s st = st\<lparr>srv_heap := (srv_heap st)(r \<mapsto> s)\<rparr>"

text \<open>\<open>self.sessions.get(car_id)\<close>, with the object it refers to.\<close>

definition active :: "vehicle_server \<Rightarrow> int \<Rightarrow> (nat \<times> vehicle_session) option" where
  "active st car_id = (case map_of (srv_sessions st) car_id of
       None \<Rightarrow> None
     | Some r \<Rightarrow> map_option (Pair r) (srv_heap st r))"

section \<open>Sending\<close>

text \<open>\<open>_safe_send\<close>: the bytes given to the socket; a message that does not fit is dropped.\<close>

definition safe_send :: "(pyfloat \<Rightarrow> string) \<Rightarrow> pydict \<Rightarrow> string list" where
  "safe_send fr msg = (case encode fr msg of Inl _ \<Rightarrow> [] | Inr data \<Rightarrow> [data])"

definition session_of :: "vehicle_server \<Rightarrow> int \<Rightarrow> runtime_error + (nat \<times> vehicle_session)" where
  "session_of st car_id = (case active st car_id of
       None \<Rightarrow> Inl (RuntimeError ''no active session'')
     | Some (r, s) \<Rightarrow> if vs_alive s then Inr (r, s) else Inl (RuntimeError ''no active session''))"

text \<open>\<open>_comm_fail\<close>, the notification of a fault at its start only.\<close>

definition comm_fail :: "int \<Rightarrow> pydict \<Rightarrow> vehicle_server \<Rightarrow> vehicle_server \<times> server_out list" where
  "comm_fail car_id msg st = (case active st car_id of
       None \<Rightarrow> (st, [OnCommFail car_id msg])
     | Some (r, s) \<Rightarrow>
         if vs_comm_failed s then (st, [])
         else (put r (s\<lparr>vs_comm_failed := True, vs_sender := clear_pending (vs_sender s)\<rparr>) st,
               [OnCommFail car_id msg]))"

definition comm_recovered :: "vehicle_session \<Rightarrow> vehicle_session \<times> server_out list" where
  "comm_recovered s =
     (if \<not> vs_comm_failed s then (s, [])
      else (s\<lparr>vs_comm_failed := False\<rparr>, [OnCommRecovered (vs_car_id s)]))"

text \<open>\<open>s.sender.send(msg)\<close>: the sender's \<open>send_raw\<close> is \<open>_safe_send\<close> on the session's connection.\<close>

definition reliable ::
  "real \<Rightarrow> int \<Rightarrow> (string \<Rightarrow> pydict) \<Rightarrow> vehicle_server
     \<Rightarrow> runtime_error + (vehicle_server \<times> server_out list \<times> int)" where
  "reliable now car_id build st = (case session_of st car_id of
       Inl e \<Rightarrow> Inl e
     | Inr (r, s) \<Rightarrow>
         (case rs_send now (build (vs_session_id s)) (vs_sender s) of
            Inl e \<Rightarrow> Inl e
          | Inr (rs, out) \<Rightarrow>
              Inr (put r (s\<lparr>vs_sender := rs\<rparr>) st, map (SafeSend (vs_conn s)) (raw_sent out), rs_seq rs)))"

definition send_waypoint where
  "send_waypoint now car_id wire_wp = reliable now car_id (\<lambda>sid. make_waypoint car_id sid 0 wire_wp)"

definition send_go where
  "send_go now car_id route_id waypoint_id =
     reliable now car_id (\<lambda>sid. make_go car_id sid 0 route_id waypoint_id)"

definition send_stop where
  "send_stop now car_id = reliable now car_id (\<lambda>sid. make_stop car_id sid 0)"

definition send_reset where
  "send_reset now car_id = reliable now car_id (\<lambda>sid. make_reset car_id sid 0)"

text \<open>\<open>WAIT\<close> and \<open>SET_MODE\<close> check their enum after the session: a \<open>ValueError\<close>.\<close>

definition checked_send ::
  "real \<Rightarrow> int \<Rightarrow> (string \<Rightarrow> value_error + pydict) \<Rightarrow> vehicle_server
     \<Rightarrow> (runtime_error + value_error) + (vehicle_server \<times> server_out list \<times> int)" where
  "checked_send now car_id build st = (case session_of st car_id of
       Inl e \<Rightarrow> Inl (Inl e)
     | Inr (r, s) \<Rightarrow>
         (case build (vs_session_id s) of
            Inl e \<Rightarrow> Inl (Inr e)
          | Inr msg \<Rightarrow>
              (case reliable now car_id (\<lambda>_. msg) st of Inl e \<Rightarrow> Inl (Inl e) | Inr x \<Rightarrow> Inr x)))"

definition send_wait where
  "send_wait now car_id reason route_id waypoint_id =
     checked_send now car_id (\<lambda>sid. make_wait car_id sid 0 route_id waypoint_id reason)"

definition send_set_mode where
  "send_set_mode now car_id mode = checked_send now car_id (\<lambda>sid. make_set_mode car_id sid 0 mode)"

text \<open>The latest-value streams.\<close>

definition push_control :: "int \<Rightarrow> pyfloat \<Rightarrow> pyfloat \<Rightarrow> vehicle_server \<Rightarrow> vehicle_server" where
  "push_control car_id throttle steering st = (case active st car_id of
       None \<Rightarrow> st
     | Some (r, s) \<Rightarrow>
         let n = vs_control_seq s + 1
         in put r (s\<lparr>vs_control_seq := n,
              vs_latest_control := Some (make_direct_control car_id (vs_session_id s) n throttle steering)\<rparr>) st)"

definition stop_control :: "int \<Rightarrow> vehicle_server \<Rightarrow> vehicle_server" where
  "stop_control car_id = push_control car_id (Fin 0) (Fin 0)"

definition srv_clear_outstanding :: "int \<Rightarrow> vehicle_server \<Rightarrow> vehicle_server" where
  "srv_clear_outstanding car_id st = (case active st car_id of
       None \<Rightarrow> st
     | Some (r, s) \<Rightarrow> put r (s\<lparr>vs_sender := clear_pending (vs_sender s)\<rparr>) st)"

definition push_pose ::
  "int \<Rightarrow> real \<Rightarrow> real \<Rightarrow> real option \<Rightarrow> string option \<Rightarrow> real \<Rightarrow> real \<Rightarrow> int \<Rightarrow> bool
     \<Rightarrow> vehicle_server \<Rightarrow> vehicle_server" where
  "push_pose car_id x_cm y_cm heading_deg heading_source position_confidence heading_confidence
       measurement_age_ms valid st = (case active st car_id of
       None \<Rightarrow> st
     | Some (r, s) \<Rightarrow>
         let n = vs_pose_seq s + 1
         in put r (s\<lparr>vs_pose_seq := n,
              vs_latest_pose := Some (make_pose_update car_id (vs_session_id s) n x_cm y_cm heading_deg
                position_confidence heading_confidence heading_source measurement_age_ms valid)\<rparr>) st)"

definition last_status :: "vehicle_server \<Rightarrow> int \<Rightarrow> pydict" where
  "last_status st car_id = (case active st car_id of None \<Rightarrow> [] | Some (r, s) \<Rightarrow> vs_last_status s)"

section \<open>HELLO\<close>

datatype hello_result = REJECTED | HOLD | READY_ALLOWED

fun result_name :: "hello_result \<Rightarrow> string" where
  "result_name REJECTED = ''REJECTED''"
| "result_name HOLD = ''HOLD''"
| "result_name READY_ALLOWED = ''READY_ALLOWED''"

text \<open>\<open>hold_check\<close> is the hook of the layers above, \<open>None\<close> when it is not set.\<close>

definition judge_hello ::
  "(int \<Rightarrow> pydict \<Rightarrow> string option) option \<Rightarrow> vehicle_server \<Rightarrow> pydict
     \<Rightarrow> hello_result \<times> string option" where
  "judge_hello hold_check st hello =
     (if dget hello ''type'' \<noteq> JStr ''HELLO'' then (REJECTED, Some ''NOT_HELLO'')
      else if \<not> py_eq_int (dget hello ''version'') PROTOCOL_VERSION
        then (REJECTED, Some ''VERSION_MISMATCH'')
      else if \<not> (\<exists>n \<in> set (srv_known_car_ids st). py_eq_int (dget hello ''car_id'') n)
        then (REJECTED, Some ''UNKNOWN_CAR_ID'')
      else if str_word (dget_or hello ''error_code'' (JStr ''NONE'')) \<notin> {Some ''NONE'', Some ''''}
        then (HOLD, Some ''ERROR_NOT_CLEARED'')
      else if dget hello ''previous_state'' = JStr ''EMERGENCY_STOP'' then (HOLD, Some ''ESTOP_HISTORY'')
      else case hold_check of
        None \<Rightarrow> (READY_ALLOWED, None)
      | Some f \<Rightarrow>
          (case as_int (dget hello ''car_id'') of
             None \<Rightarrow> (READY_ALLOWED, None)
           | Some car_id \<Rightarrow>
               (case f car_id hello of
                  None \<Rightarrow> (READY_ALLOWED, None)
                | Some reason \<Rightarrow> if reason = '''' then (READY_ALLOWED, None) else (HOLD, Some reason))))"

text \<open>Registering the session of an accepted \<open>HELLO\<close>: an old session of the car dies first.\<close>

definition open_session ::
  "real \<Rightarrow> nat \<Rightarrow> string \<Rightarrow> string \<Rightarrow> pydict \<Rightarrow> int \<Rightarrow> vehicle_server
     \<Rightarrow> vehicle_server \<times> nat \<times> server_out list" where
  "open_session now conn session_id boot_id hello car_id st =
     (let (st1, closed) = (case active st car_id of
            None \<Rightarrow> (st, [])
          | Some (r, old) \<Rightarrow> (put r (old\<lparr>vs_alive := False\<rparr>) st, [CloseConn (vs_conn old)]));
          sender = set_seq_start (reliable_new car_id) 1;
          r = srv_next st1;
          st2 = put r (new_session car_id session_id boot_id conn sender now) st1
      in (st2\<lparr>srv_next := Suc r, srv_sessions := AList.update car_id r (srv_sessions st2)\<rparr>, r,
          closed @ [OnResync car_id hello, OnReady car_id]))"

datatype handshake = Reading nat | Finished | Crashed | Opened nat

text \<open>
  One line of the handshake loop; the \<open>nat\<close> of \<open>Reading\<close> is \<open>hold_count\<close>. \<open>token\<close> is the fresh
  session id, \<open>boot_text\<close> is \<open>str\<close> of the \<open>boot_id\<close>. An answer too long to encode raises a \<open>ValueError\<close>
  that nothing catches: \<open>Crashed\<close>.
\<close>

definition handshake_line ::
  "(pyfloat \<Rightarrow> string) \<Rightarrow> (string \<Rightarrow> json option) \<Rightarrow> (json \<Rightarrow> string)
     \<Rightarrow> (int \<Rightarrow> pydict \<Rightarrow> string option) option \<Rightarrow> real \<Rightarrow> string \<Rightarrow> nat \<Rightarrow> nat \<Rightarrow> string \<Rightarrow> vehicle_server
     \<Rightarrow> vehicle_server \<times> handshake \<times> server_out list" where
  "handshake_line fr loads boot_text hold_check now token conn hold_count line st =
     (case parse_message loads line of
        Inl _ \<Rightarrow> (st, Finished, [CloseConn conn])
      | Inr hello \<Rightarrow>
          if dget hello ''type'' \<noteq> JStr ''HELLO'' then (st, Reading hold_count, [])
          else
            let car_id = (case as_int (dget_or hello ''car_id'' (JInt (- 1))) of Some n \<Rightarrow> n | None \<Rightarrow> - 1);
                boot_id = boot_text (dget_or hello ''boot_id'' (JStr ''''));
                (result, reason) = judge_hello hold_check st hello;
                session_id = (if result = READY_ALLOWED then token else '''')
            in case make_hello_ack car_id session_id (result_name result) reason boot_id 1 of
                 Inl _ \<Rightarrow> (st, Crashed, [])
               | Inr ack \<Rightarrow>
                   (case encode fr ack of
                      Inl _ \<Rightarrow> (st, Crashed, [])
                    | Inr data \<Rightarrow>
                        (case result of
                           REJECTED \<Rightarrow> (st, Finished, [SendAll conn data, CloseConn conn])
                         | HOLD \<Rightarrow>
                             let why = (case reason of Some w \<Rightarrow> (if w = '''' then ''HOLD'' else w) | None \<Rightarrow> ''HOLD'')
                             in if srv_max_hold_retries st \<le> hold_count + 1
                                then (st, Finished,
                                      [SendAll conn data, OnHold car_id why, CloseConn conn,
                                       OnCommFail car_id [(''type'', JStr ''HOLD_EXHAUSTED''), (''reason'', JStr why)]])
                                else (st, Reading (hold_count + 1), [SendAll conn data, OnHold car_id why])
                         | READY_ALLOWED \<Rightarrow>
                             let (st', r, out) = open_session now conn session_id boot_id hello car_id st
                             in (st', Opened r, SendAll conn data # out))))"

text \<open>The handshake over the lines of the connection; \<open>now\<close> and \<open>token\<close> depend on the line's number.\<close>

fun handshake_run ::
  "(pyfloat \<Rightarrow> string) \<Rightarrow> (string \<Rightarrow> json option) \<Rightarrow> (json \<Rightarrow> string)
     \<Rightarrow> (int \<Rightarrow> pydict \<Rightarrow> string option) option \<Rightarrow> nat \<Rightarrow> nat \<Rightarrow> (real \<times> string \<times> string) list
     \<Rightarrow> vehicle_server \<Rightarrow> vehicle_server \<times> handshake \<times> server_out list" where
  "handshake_run fr loads boot_text hc conn hold_count [] st = (st, Reading hold_count, [])"
| "handshake_run fr loads boot_text hc conn hold_count ((now, token, line) # lines) st =
     (let (st1, h, out) = handshake_line fr loads boot_text hc now token conn hold_count line st
      in case h of
           Reading k \<Rightarrow>
             let (st2, h2, out2) = handshake_run fr loads boot_text hc conn k lines st1
             in (st2, h2, out @ out2)
         | _ \<Rightarrow> (st1, h, out))"

section \<open>Receiving\<close>

text \<open>
  \<open>_consume_command_result\<close>. \<open>command_result\<close> is compared as text, so only strings match; \<open>seq\<close> is the
  outstanding command's own number.
\<close>

definition consume_command_result ::
  "pydict \<Rightarrow> vehicle_session \<Rightarrow> vehicle_session \<times> server_out list" where
  "consume_command_result msg s = (case outstanding (vs_sender s) of
       None \<Rightarrow> (s, [])
     | Some pending \<Rightarrow>
         (case str_word (dget_or msg ''command_result'' (JStr ''NONE'')) of
            None \<Rightarrow> (s, [])
          | Some result \<Rightarrow>
              if result \<notin> set TERMINAL_RESULTS then (s, [])
              else
                (case as_int (dget pending ''seq'') of
                   None \<Rightarrow> (s, [])
                 | Some seq \<Rightarrow>
                     let acked = dget msg ''last_processed_cmd_seq'';
                         rejected = dget_or msg ''rejected_seq'' (dget msg ''ack_seq'')
                     in if \<not> py_eq_int acked seq \<and> \<not> py_eq_int rejected seq then (s, [])
                        else (s\<lparr>vs_sender := fst (on_ack (vs_sender s) seq)\<rparr>,
                              OnCommandResult (vs_car_id s) seq result msg #
                              (if result \<in> set NEGATIVE_RESULTS
                               then [OnCommandRejected (vs_car_id s) result msg] else [])))))"

text \<open>\<open>int(v)\<close>; \<open>int_str\<close> is \<open>int\<close> on a string. \<open>None\<close>: it raises.\<close>

fun py_int :: "(string \<Rightarrow> int option) \<Rightarrow> json \<Rightarrow> int option" where
  "py_int int_str (JInt i) = Some i"
| "py_int int_str (JBool b) = Some (if b then 1 else 0)"
| "py_int int_str (JFloat (Fin x)) = Some (if 0 \<le> x then \<lfloor>x\<rfloor> else \<lceil>x\<rceil>)"
| "py_int int_str (JStr s) = int_str s"
| "py_int int_str _ = None"

text \<open>
  \<open>_dispatch\<close> on the session \<open>s\<close> of the connection. \<open>False\<close>: a \<open>TypeError\<close> or \<open>ValueError\<close> ended the
  receive thread (a \<open>status_seq\<close> that is no number, an \<open>event_id\<close> that is no integer).
\<close>

definition dispatch ::
  "(string \<Rightarrow> int option) \<Rightarrow> real \<Rightarrow> pydict \<Rightarrow> vehicle_session
     \<Rightarrow> vehicle_session \<times> server_out list \<times> bool" where
  "dispatch int_str now msg s =
     (let (s, recovered) = comm_recovered (s\<lparr>vs_last_rx_ms := now * 1000\<rparr>);
          mtype = dget msg ''type''
      in if truthy (dget msg ''session_id'') \<and> dget msg ''session_id'' \<noteq> JStr (vs_session_id s)
         then (s, recovered, True)
         else if \<not> py_eq_int (dget msg ''car_id'') (vs_car_id s) then (s, recovered, True)
         else if mtype = JStr ''STATUS'' \<or> mtype = JStr ''COMMAND_RESULT'' then
           let (s, results) = consume_command_result msg s
           in if mtype = JStr ''COMMAND_RESULT'' then (s, recovered @ results, True)
              else (case py_le (dget_or msg ''status_seq'' (JInt (- 1)))
                          (dget_or (vs_last_status s) ''status_seq'' (JInt (- 1))) of
                      None \<Rightarrow> (s, recovered @ results, False)
                    | Some True \<Rightarrow> (s, recovered @ results, True)
                    | Some False \<Rightarrow>
                        (s\<lparr>vs_last_status := msg\<rparr>, recovered @ results @ [OnStatus (vs_car_id s) msg], True))
         else if mtype = JStr ''ARRIVED'' \<and> dhas msg ''event_id'' then
           (case py_int int_str (dget msg ''event_id'') of
              None \<Rightarrow> (s, recovered, False)
            | Some event_id \<Rightarrow>
                (s, recovered @ [SafeSend (vs_conn s)
                   (make_event_ack (vs_car_id s) (vs_session_id s) event_id)], True))
         else (s, recovered, True))"

text \<open>
  The receive loop of the connection whose session is at \<open>r\<close>, on the complete lines of one chunk.
  \<open>strip\<close> is \<open>bytes.strip\<close>: a line of white space is skipped, an invalid one too. The lines of a chunk
  are dispatched even when the session died in between.
\<close>

definition is_space :: "char \<Rightarrow> bool" where
  "is_space c = (code c = 32 \<or> (9 \<le> code c \<and> code c \<le> 13))"

fun rx_lines ::
  "(string \<Rightarrow> json option) \<Rightarrow> (string \<Rightarrow> int option) \<Rightarrow> real \<Rightarrow> nat \<Rightarrow> string list \<Rightarrow> vehicle_server
     \<Rightarrow> vehicle_server \<times> server_out list \<times> bool" where
  "rx_lines loads int_str now r [] st = (st, [], True)"
| "rx_lines loads int_str now r (line # lines) st =
     (if list_all is_space line then rx_lines loads int_str now r lines st
      else case parse_message loads line of
        Inl _ \<Rightarrow> rx_lines loads int_str now r lines st
      | Inr msg \<Rightarrow>
          (case srv_heap st r of
             None \<Rightarrow> (st, [], True)
           | Some s \<Rightarrow>
               let (s', out, ok) = dispatch int_str now msg s; st' = put r s' st
               in if \<not> ok then (st', out, False)
                  else let (st2, out2, ok2) = rx_lines loads int_str now r lines st'
                       in (st2, out @ out2, ok2)))"

definition rx_chunk ::
  "(string \<Rightarrow> json option) \<Rightarrow> (string \<Rightarrow> int option) \<Rightarrow> real \<Rightarrow> nat \<Rightarrow> string \<Rightarrow> string \<Rightarrow> vehicle_server
     \<Rightarrow> vehicle_server \<times> string \<times> server_out list \<times> bool" where
  "rx_chunk loads int_str now r buf chunk st =
     (let (lines, buf') = take_lines (buf @ chunk);
          (st', out, ok) = rx_lines loads int_str now r lines st
      in (st', buf', out, ok))"

text \<open>The end of the receive loop.\<close>

definition rx_end :: "nat \<Rightarrow> vehicle_server \<Rightarrow> vehicle_server" where
  "rx_end r st = (case srv_heap st r of None \<Rightarrow> st | Some s \<Rightarrow> put r (s\<lparr>vs_alive := False\<rparr>) st)"

definition server_stop :: "vehicle_server \<Rightarrow> vehicle_server \<times> server_out list" where
  "server_stop st =
     (let refs = map snd (srv_sessions st);
          conns = List.map_filter (\<lambda>r. map_option vs_conn (srv_heap st r)) refs;
          st' = foldl (\<lambda>st r. rx_end r st) st refs
      in (st'\<lparr>srv_sessions := []\<rparr>, map CloseConn conns))"

section \<open>The periodic loop\<close>

record tick_times =
  last_pose_ms :: real
  last_hb_ms :: real
  last_control_ms :: real

text \<open>The callbacks of the session's sender: \<open>send_raw\<close> and \<open>on_fail\<close>.\<close>

fun sender_calls ::
  "int \<Rightarrow> nat \<Rightarrow> sender_out list \<Rightarrow> vehicle_server \<Rightarrow> vehicle_server \<times> server_out list" where
  "sender_calls car_id conn [] st = (st, [])"
| "sender_calls car_id conn (SendRaw m # out) st =
     (let (st', o2) = sender_calls car_id conn out st in (st', SafeSend conn m # o2))"
| "sender_calls car_id conn (OnFail m # out) st =
     (let (st1, o1) = comm_fail car_id m st; (st2, o2) = sender_calls car_id conn out st1
      in (st2, o1 @ o2))"
| "sender_calls car_id conn (Returned n # out) st = sender_calls car_id conn out st"

text \<open>One session: the retransmission timer, then the supervision of the link.\<close>

definition tick_session :: "real \<Rightarrow> nat \<Rightarrow> vehicle_server \<Rightarrow> vehicle_server \<times> server_out list" where
  "tick_session now r st = (case srv_heap st r of
       None \<Rightarrow> (st, [])
     | Some s \<Rightarrow>
         if \<not> vs_alive s then (st, [])
         else
           let (rs, sout) = rs_tick now (vs_sender s);
               (st1, out1) = sender_calls (vs_car_id s) (vs_conn s) sout (put r (s\<lparr>vs_sender := rs\<rparr>) st)
           in if now * 1000 - vs_last_rx_ms s > COMM_TIMEOUT TIMING
              then let (st2, out2) = comm_fail (vs_car_id s) [(''type'', JStr ''COMM_TIMEOUT'')] st1
                   in (st2, out1 @ out2)
              else (st1, out1))"

fun for_sessions ::
  "(nat \<Rightarrow> vehicle_server \<Rightarrow> vehicle_server \<times> server_out list) \<Rightarrow> nat list \<Rightarrow> vehicle_server
     \<Rightarrow> vehicle_server \<times> server_out list" where
  "for_sessions f [] st = (st, [])"
| "for_sessions f (r # rs) st =
     (let (st1, out1) = f r st; (st2, out2) = for_sessions f rs st1 in (st2, out1 @ out2))"

definition heartbeat_session :: "nat \<Rightarrow> vehicle_server \<Rightarrow> vehicle_server \<times> server_out list" where
  "heartbeat_session r st = (case srv_heap st r of
       None \<Rightarrow> (st, [])
     | Some s \<Rightarrow>
         if \<not> vs_alive s then (st, [])
         else let n = vs_heartbeat_seq s + 1
              in (put r (s\<lparr>vs_heartbeat_seq := n\<rparr>) st,
                  [SafeSend (vs_conn s) (make_heartbeat (vs_car_id s) (vs_session_id s) n)]))"

definition stream_session ::
  "(vehicle_session \<Rightarrow> pydict option) \<Rightarrow> nat \<Rightarrow> vehicle_server \<Rightarrow> vehicle_server \<times> server_out list" where
  "stream_session latest r st = (case srv_heap st r of
       None \<Rightarrow> (st, [])
     | Some s \<Rightarrow>
         (case latest s of
            Some m \<Rightarrow> (st, if vs_alive s then [SafeSend (vs_conn s) m] else [])
          | None \<Rightarrow> (st, [])))"

definition tick_iteration ::
  "real \<Rightarrow> tick_times \<Rightarrow> vehicle_server \<Rightarrow> vehicle_server \<times> tick_times \<times> server_out list" where
  "tick_iteration now tt st =
     (let now_ms = now * 1000;
          sessions = map snd (srv_sessions st);
          (st1, out1) = for_sessions (tick_session now) sessions st;
          hb = now_ms - last_hb_ms tt \<ge> HEARTBEAT_INTERVAL TIMING;
          (st2, out2) = (if hb then for_sessions heartbeat_session sessions st1 else (st1, []));
          dc = srv_direct_control_enabled st2 \<and> now_ms - last_control_ms tt \<ge> CONTROL_INTERVAL TIMING;
          (st3, out3) = (if dc then for_sessions (stream_session vs_latest_control) sessions st2 else (st2, []));
          po = POSE_UPDATE_ENABLED \<and> now_ms - last_pose_ms tt \<ge> POSE_INTERVAL TIMING;
          (st4, out4) = (if po then for_sessions (stream_session vs_latest_pose) sessions st3 else (st3, []))
      in (st4,
          \<lparr>last_pose_ms = (if po then now_ms else last_pose_ms tt),
           last_hb_ms = (if hb then now_ms else last_hb_ms tt),
           last_control_ms = (if dc then now_ms else last_control_ms tt)\<rparr>,
          out1 @ out2 @ out3 @ out4))"

section \<open>Command results\<close>

lemma comm_recovered_sender [simp]:
  "vs_sender (fst (comm_recovered s)) = vs_sender s" "vs_car_id (fst (comm_recovered s)) = vs_car_id s"
  "vs_session_id (fst (comm_recovered s)) = vs_session_id s"
  "vs_alive (fst (comm_recovered s)) = vs_alive s"
  "vs_last_status (fst (comm_recovered s)) = vs_last_status s"
  "vs_conn (fst (comm_recovered s)) = vs_conn s"
  by (simp_all add: comm_recovered_def)

text \<open>What makes a received message the answer to the outstanding command.\<close>

definition answers :: "pydict \<Rightarrow> vehicle_session \<Rightarrow> pending \<Rightarrow> bool" where
  "answers msg s p =
     (\<not> (truthy (dget msg ''session_id'') \<and> dget msg ''session_id'' \<noteq> JStr (vs_session_id s)) \<and>
      py_eq_int (dget msg ''car_id'') (vs_car_id s) \<and>
      dget msg ''type'' \<in> {JStr ''STATUS'', JStr ''COMMAND_RESULT''} \<and>
      (\<exists>w \<in> set TERMINAL_RESULTS. dget msg ''command_result'' = JStr w) \<and>
      (py_eq_int (dget msg ''last_processed_cmd_seq'') (p_seq p) \<or>
       py_eq_int (dget_or msg ''rejected_seq'' (dget msg ''ack_seq'')) (p_seq p)))"

lemma terminal_not_none: "''NONE'' \<notin> set TERMINAL_RESULTS"
  by (simp add: TERMINAL_RESULTS_def)

lemma result_word:
  "(\<exists>w. str_word (dget_or msg ''command_result'' (JStr ''NONE'')) = Some w \<and> w \<in> set TERMINAL_RESULTS) =
     (\<exists>w \<in> set TERMINAL_RESULTS. dget msg ''command_result'' = JStr w)"
proof -
  have "str_word v = Some w \<longleftrightarrow> v = JStr w" for v w by (cases v) auto
  then show ?thesis using terminal_not_none
    by (auto simp: dget_def dget_or_def split: option.splits)
qed

lemma consume_command_result_pending:
  assumes "rs_pending (vs_sender s) = Some p" "dget (p_msg p) ''seq'' = JInt (p_seq p)"
  shows "consume_command_result msg s =
     (if (\<exists>w \<in> set TERMINAL_RESULTS. dget msg ''command_result'' = JStr w) \<and>
         (py_eq_int (dget msg ''last_processed_cmd_seq'') (p_seq p) \<or>
          py_eq_int (dget_or msg ''rejected_seq'' (dget msg ''ack_seq'')) (p_seq p))
      then (s\<lparr>vs_sender := (vs_sender s)\<lparr>rs_pending := None\<rparr>\<rparr>,
            OnCommandResult (vs_car_id s) (p_seq p)
              (the (str_word (dget_or msg ''command_result'' (JStr ''NONE'')))) msg #
            (if the (str_word (dget_or msg ''command_result'' (JStr ''NONE''))) \<in> set NEGATIVE_RESULTS
             then [OnCommandRejected (vs_car_id s)
               (the (str_word (dget_or msg ''command_result'' (JStr ''NONE'')))) msg] else []))
      else (s, []))"
proof (cases "\<exists>w. str_word (dget_or msg ''command_result'' (JStr ''NONE'')) = Some w \<and> w \<in> set TERMINAL_RESULTS")
  case True
  then obtain w where "str_word (dget_or msg ''command_result'' (JStr ''NONE'')) = Some w"
    "w \<in> set TERMINAL_RESULTS" by blast
  moreover have "\<exists>w \<in> set TERMINAL_RESULTS. dget msg ''command_result'' = JStr w"
    using True result_word by simp
  ultimately show ?thesis
    using assms by (simp add: consume_command_result_def outstanding_def on_ack_def Let_def)
next
  case False
  then have "\<not> (\<exists>w \<in> set TERMINAL_RESULTS. dget msg ''command_result'' = JStr w)"
    using result_word by simp
  moreover have "consume_command_result msg s = (s, [])"
    using False assms
    by (auto simp: consume_command_result_def outstanding_def split: option.splits)
  ultimately show ?thesis by simp
qed

lemma consume_command_result_idle:
  "rs_pending (vs_sender s) = None \<Longrightarrow> consume_command_result msg s = (s, [])"
  by (simp add: consume_command_result_def outstanding_def)

lemma consume_command_result_keeps [simp]:
  "vs_car_id (fst (consume_command_result msg s)) = vs_car_id s"
  "vs_session_id (fst (consume_command_result msg s)) = vs_session_id s"
  "vs_alive (fst (consume_command_result msg s)) = vs_alive s"
  "vs_conn (fst (consume_command_result msg s)) = vs_conn s"
  "vs_last_status (fst (consume_command_result msg s)) = vs_last_status s"
  "vs_comm_failed (fst (consume_command_result msg s)) = vs_comm_failed s"
  by (simp_all add: consume_command_result_def Let_def split: option.splits)

lemma dispatch_sender:
  "vs_sender (fst (dispatch int_str now msg s)) =
     (if \<not> (truthy (dget msg ''session_id'') \<and> dget msg ''session_id'' \<noteq> JStr (vs_session_id s)) \<and>
         py_eq_int (dget msg ''car_id'') (vs_car_id s) \<and>
         dget msg ''type'' \<in> {JStr ''STATUS'', JStr ''COMMAND_RESULT''}
      then vs_sender (fst (consume_command_result msg
        (fst (comm_recovered (s\<lparr>vs_last_rx_ms := now * 1000\<rparr>)))))
      else vs_sender s)"
  by (auto simp: dispatch_def Let_def split_def split: option.splits bool.splits)

text \<open>C13: a received message ends the outstanding command exactly when it is a terminal result for
  that command's number, of this session and this car. A periodic \<open>STATUS\<close>
  (\<open>command_result = NONE\<close>), an answer to another number, another session's or another car's message
  all leave it outstanding, so it is still repeated.\<close>

theorem result_releases_exactly:
  assumes "rs_pending (vs_sender s) = Some p" "sender_ok (vs_sender s)"
  shows "rs_pending (vs_sender (fst (dispatch int_str now msg s))) =
     (if answers msg s p then None else Some p)"
proof -
  have seq: "dget (p_msg p) ''seq'' = JInt (p_seq p)" using assms by (simp add: sender_ok_def)
  define s1 where "s1 = fst (comm_recovered (s\<lparr>vs_last_rx_ms := now * 1000\<rparr>))"
  have "vs_sender s1 = vs_sender s" by (simp add: s1_def)
  then have "rs_pending (vs_sender s1) = Some p" using assms(1) by simp
  note c = consume_command_result_pending [OF this seq, of msg]
  show ?thesis
    unfolding dispatch_sender s1_def [symmetric] c answers_def
    using assms(1) \<open>vs_sender s1 = vs_sender s\<close> by auto
qed

theorem result_releases_exactly_witness:
  "let s = new_session 1 ''S1'' ''B'' 0 (fst (sender_step (set_seq_start (reliable_new 1) 1)
       (OpSend 0 [(''type'', JStr ''STOP'')]))) 0;
       m = [(''type'', JStr ''STATUS''), (''car_id'', JInt 1), (''last_processed_cmd_seq'', JInt 1),
            (''command_result'', JStr ''NONE'')]
   in rs_pending (vs_sender (fst (dispatch (\<lambda>_. None) 1 m s))) \<noteq> None"
proof -
  define rs where "rs = fst (sender_step (set_seq_start (reliable_new 1) 1)
     (OpSend 0 [(''type'', JStr ''STOP'')]))"
  have "rs_pending rs \<noteq> None"
    by (simp add: rs_def rs_send_def set_seq_start_def reliable_new_def Let_def)
  then obtain p where p: "rs_pending rs = Some p" by blast
  have ok: "sender_ok rs" unfolding rs_def by (intro sender_step_ok reliable_new_ok)
  define s where "s = new_session 1 ''S1'' ''B'' 0 rs 0"
  have s: "rs_pending (vs_sender s) = Some p" "sender_ok (vs_sender s)"
    using p ok by (simp_all add: s_def new_session_def)
  show ?thesis
    unfolding rs_def [symmetric] Let_def s_def [symmetric] result_releases_exactly [OF s]
    by (simp add: answers_def TERMINAL_RESULTS_def)
qed

section \<open>Status snapshots\<close>

text \<open>Messages whose \<open>status_seq\<close>, if any, is an \<open>int\<close>, as the firmware sends them.\<close>

definition int_status :: "pydict \<Rightarrow> bool" where
  "int_status msg = (\<exists>n. dget_or msg ''status_seq'' (JInt (- 1)) = JInt n)"

definition status_seq_of :: "pydict \<Rightarrow> int" where
  "status_seq_of msg = (case dget_or msg ''status_seq'' (JInt (- 1)) of JInt n \<Rightarrow> n | _ \<Rightarrow> - 1)"

fun status_tag :: "server_out \<Rightarrow> int option" where
  "status_tag (OnStatus c m) = Some (status_seq_of m)"
| "status_tag _ = None"

definition dispatch_step ::
  "(string \<Rightarrow> int option) \<Rightarrow> vehicle_session \<Rightarrow> real \<times> pydict \<Rightarrow> vehicle_session \<times> server_out list" where
  "dispatch_step int_str s e = (let (s', out, ok) = dispatch int_str (fst e) (snd e) s in (s', out))"

lemma no_status_tags:
  "List.map_filter status_tag (snd (comm_recovered s)) = []"
  "List.map_filter status_tag (snd (consume_command_result msg s)) = []"
  by (simp_all add: comm_recovered_def consume_command_result_def List.map_filter_def Let_def
      split: option.splits)

lemma map_filter_simps:
  "List.map_filter f (xs @ ys) = List.map_filter f xs @ List.map_filter f ys"
  "List.map_filter f [] = []"
  "List.map_filter f (x # xs) = (case f x of None \<Rightarrow> List.map_filter f xs | Some y \<Rightarrow> y # List.map_filter f xs)"
  by (simp_all add: List.map_filter_def split: option.splits)

lemma dispatch_step_status:
  assumes "int_status (vs_last_status s)" "int_status (snd e)" "dispatch_step int_str s e = (s', out)"
  shows "(vs_last_status s' = vs_last_status s \<and> List.map_filter status_tag out = []) \<or>
     (vs_last_status s' = snd e \<and> List.map_filter status_tag out = [status_seq_of (snd e)] \<and>
      status_seq_of (vs_last_status s) < status_seq_of (snd e))"
proof -
  obtain n m where "dget_or (vs_last_status s) ''status_seq'' (JInt (- 1)) = JInt n"
    "dget_or (snd e) ''status_seq'' (JInt (- 1)) = JInt m"
    using assms(1,2) unfolding int_status_def by blast
  then show ?thesis
    using assms(3)
    by (auto simp: dispatch_step_def dispatch_def Let_def split_def map_filter_simps no_status_tags
        status_seq_of_def split: if_splits option.splits bool.splits)
qed

interpretation status_stream: guarded_emitter "dispatch_step int_str"
  "\<lambda>s. status_seq_of (vs_last_status s)" status_tag "\<lambda>s. int_status (vs_last_status s)"
  "\<lambda>e. int_status (snd e)" for int_str
proof
  fix s e s' out t
  assume "int_status (vs_last_status s)" "int_status (snd e)" "dispatch_step int_str s e = (s', out)"
  note * = dispatch_step_status [OF this] this
  show "int_status (vs_last_status s')" using * by auto
  show "status_seq_of (vs_last_status s) \<le> status_seq_of (vs_last_status s')" using * by auto
  show "sorted_wrt (<) (List.map_filter status_tag out)" using * by auto
  show "t \<in> set (List.map_filter status_tag out) \<Longrightarrow>
      status_seq_of (vs_last_status s) < t \<and> t \<le> status_seq_of (vs_last_status s')" using * by auto
qed

text \<open>A late snapshot never rolls the vehicle's state back. Whatever order the messages of a
  session arrive in, the snapshots handed to the layers above have strictly increasing
  \<open>status_seq\<close>, and the stored one is the newest of them.\<close>

theorem status_never_rolls_back:
  assumes "int_status (vs_last_status s)" "list_all (\<lambda>e. int_status (snd e)) es"
    and "run_out (dispatch_step int_str) s es = (s', out)"
  shows "sorted_wrt (<) (List.map_filter status_tag out) \<and>
     (\<forall>n \<in> set (List.map_filter status_tag out). n \<le> status_seq_of (vs_last_status s'))"
  using status_stream.guarded_run [OF assms] by blast

theorem status_never_rolls_back_witness:
  "sorted_wrt (<) (List.map_filter status_tag (snd (run_out (dispatch_step (\<lambda>_. None))
     (new_session 1 ''S1'' ''B'' 0 (reliable_new 1) 0)
     [(1, [(''type'', JStr ''STATUS''), (''car_id'', JInt 1), (''status_seq'', JInt 7)]),
      (2, [(''type'', JStr ''STATUS''), (''car_id'', JInt 1), (''status_seq'', JInt 5)])])))"
proof -
  define s where "s = new_session 1 ''S1'' ''B'' 0 (reliable_new 1) 0"
  define es :: "(real \<times> pydict) list" where "es =
     [(1, [(''type'', JStr ''STATUS''), (''car_id'', JInt 1), (''status_seq'', JInt 7)]),
      (2, [(''type'', JStr ''STATUS''), (''car_id'', JInt 1), (''status_seq'', JInt 5)])]"
  obtain s' out where run: "run_out (dispatch_step (\<lambda>_. None)) s es = (s', out)" by fastforce
  have "int_status (vs_last_status s)" by (simp add: s_def new_session_def int_status_def)
  moreover have "list_all (\<lambda>e. int_status (snd e)) es" by (simp add: es_def int_status_def)
  ultimately show ?thesis
    using status_never_rolls_back [OF _ _ run] unfolding s_def [symmetric] es_def [symmetric] run
    by simp
qed

end
