(* ===== verification/Server_Runs.thy ===== *)
theory Server_Runs
  imports Comm_Server
begin

text \<open>
  Everything the server does, as one event type: the calls of the layers above, the lines of a
  handshake, received chunks, the end of a connection and the iterations of the periodic loop. The
  invariant of the session store and the bookkeeping of fault notifications over all runs.
\<close>

record server_env =
  env_fr :: "pyfloat \<Rightarrow> string"
  env_loads :: "string \<Rightarrow> json option"
  env_boot_text :: "json \<Rightarrow> string"
  env_int_str :: "string \<Rightarrow> int option"
  env_hold_check :: "(int \<Rightarrow> pydict \<Rightarrow> string option) option"

datatype server_op =
    SendWaypoint real int pydict
  | SendGo real int int int
  | SendWait real int string int int
  | SendStop real int
  | SendReset real int
  | SendSetMode real int string
  | PushControl int pyfloat pyfloat
  | PushPose int real real "real option" "string option" real real int bool
  | ClearOutstanding int
  | HelloLine real string nat nat string
  | Chunk real nat string string
  | ConnEnd nat
  | TickIteration real tick_times
  | StopServer

definition applied :: "vehicle_server \<Rightarrow> 'e + (vehicle_server \<times> server_out list \<times> int)
    \<Rightarrow> vehicle_server \<times> server_out list" where
  "applied st r = (case r of Inl _ \<Rightarrow> (st, []) | Inr (st', out, _) \<Rightarrow> (st', out))"

fun server_step :: "server_env \<Rightarrow> vehicle_server \<Rightarrow> server_op \<Rightarrow> vehicle_server \<times> server_out list" where
  "server_step env st (SendWaypoint now c wire) = applied st (send_waypoint now c wire st)"
| "server_step env st (SendGo now c rid wid) = applied st (send_go now c rid wid st)"
| "server_step env st (SendWait now c reason rid wid) = applied st (send_wait now c reason rid wid st)"
| "server_step env st (SendStop now c) = applied st (send_stop now c st)"
| "server_step env st (SendReset now c) = applied st (send_reset now c st)"
| "server_step env st (SendSetMode now c mode) = applied st (send_set_mode now c mode st)"
| "server_step env st (PushControl c thr str) = (push_control c thr str st, [])"
| "server_step env st (PushPose c x y h src pc hc age v) = (push_pose c x y h src pc hc age v st, [])"
| "server_step env st (ClearOutstanding c) = (srv_clear_outstanding c st, [])"
| "server_step env st (HelloLine now token conn holds line) =
     (let (st', h, out) = handshake_line (env_fr env) (env_loads env) (env_boot_text env)
          (env_hold_check env) now token conn holds line st in (st', out))"
| "server_step env st (Chunk now r buf chunk) =
     (let (st', buf', out, ok) = rx_chunk (env_loads env) (env_int_str env) now r buf chunk st
      in (st', out))"
| "server_step env st (ConnEnd r) = (rx_end r st, [])"
| "server_step env st (TickIteration now tt) =
     (let (st', tt', out) = tick_iteration now tt st in (st', out))"
| "server_step env st StopServer = server_stop st"

section \<open>The session store\<close>

text \<open>
  Active sessions exist and belong to their car; a session that is alive is the active one of its
  car; references are below the counter; every sender is well-formed.
\<close>

definition store_ok :: "vehicle_server \<Rightarrow> bool" where
  "store_ok st =
     ((\<forall>c r. map_of (srv_sessions st) c = Some r \<longrightarrow> (\<exists>s. srv_heap st r = Some s \<and> vs_car_id s = c)) \<and>
      (\<forall>r s. srv_heap st r = Some s \<longrightarrow> r < srv_next st \<and> sender_ok (vs_sender s) \<and>
         (vs_alive s \<longrightarrow> map_of (srv_sessions st) (vs_car_id s) = Some r)))"

lemma store_okD: "store_ok st \<Longrightarrow> map_of (srv_sessions st) c = Some r \<Longrightarrow>
    \<exists>s. srv_heap st r = Some s \<and> vs_car_id s = c"
  by (simp add: store_ok_def)

lemma store_ok_new: "store_ok (server_new known)"
  by (simp add: store_ok_def server_new_def)

lemma store_ok_put:
  assumes "store_ok st" "srv_heap st r = Some s" "vs_car_id s' = vs_car_id s"
    and "vs_alive s' \<longrightarrow> vs_alive s" "sender_ok (vs_sender s) \<Longrightarrow> sender_ok (vs_sender s')"
  shows "store_ok (put r s' st)"
proof -
  have car: "map_of (srv_sessions st) c = Some r \<Longrightarrow> vs_car_id s = c" for c
    using assms(1,2) unfolding store_ok_def by fastforce
  show ?thesis
    using assms car unfolding store_ok_def put_def by (auto split: if_splits)
qed

lemma store_ok_sender: "store_ok st \<Longrightarrow> srv_heap st r = Some s \<Longrightarrow> sender_ok (vs_sender s)"
  by (simp add: store_ok_def)

lemma active_heap: "active st c = Some (r, s) \<Longrightarrow> srv_heap st r = Some s \<and> map_of (srv_sessions st) c = Some r"
  by (auto simp: active_def split: option.splits)

lemma session_of_heap: "session_of st c = Inr (r, s) \<Longrightarrow> srv_heap st r = Some s \<and> vs_alive s"
  by (auto simp: session_of_def dest: active_heap split: option.splits if_splits)

lemma put_simps [simp]:
  "srv_heap (put r s st) r' = (if r' = r then Some s else srv_heap st r')"
  "srv_sessions (put r s st) = srv_sessions st" "srv_next (put r s st) = srv_next st"
  "srv_max_hold_retries (put r s st) = srv_max_hold_retries st"
  by (simp_all add: put_def)

lemma clear_pending_ok: "sender_ok rs \<Longrightarrow> sender_ok (clear_pending rs)"
  using sender_step_ok [of rs OpClear] by simp

lemma on_ack_ok: "sender_ok rs \<Longrightarrow> sender_ok (fst (on_ack rs n))"
  using sender_step_ok [of rs "OpAck n"] by simp

lemma rs_tick_ok: "sender_ok rs \<Longrightarrow> sender_ok (fst (rs_tick now rs))"
  using sender_step_ok [of rs "OpTick now"] by simp

lemma rs_send_ok: "sender_ok rs \<Longrightarrow> rs_send now msg rs = Inr (rs', out) \<Longrightarrow> sender_ok rs'"
  using sender_step_ok [of rs "OpSend now msg"] by simp

lemmas sender_ops_ok = clear_pending_ok on_ack_ok rs_tick_ok rs_send_ok

lemma reliable_store_ok [inv_intro]:
  assumes "store_ok st" shows "store_ok (fst (applied st (reliable now c build st)))"
proof (cases "session_of st c")
  case (Inl e)
  then show ?thesis using assms by (simp add: reliable_def applied_def)
next
  case (Inr x)
  obtain r s where x: "x = (r, s)" by fastforce
  note heap = session_of_heap [OF Inr [unfolded x]]
  show ?thesis
  proof (cases "rs_send now (build (vs_session_id s)) (vs_sender s)")
    case (Inl e)
    then show ?thesis using assms Inr x by (simp add: reliable_def applied_def)
  next
    case (Inr y)
    have "store_ok (put r (s\<lparr>vs_sender := fst y\<rparr>) st)"
      by (rule store_ok_put [OF assms conjunct1 [OF heap]]) (use Inr rs_send_ok [of "vs_sender s" now _ "fst y" "snd y"] in simp_all)
    then show ?thesis using Inr \<open>session_of st c = Inr x\<close> x
      by (simp add: reliable_def applied_def split_def)
  qed
qed

text \<open>Updating the active session of a car.\<close>

lemma store_ok_active:
  assumes "store_ok st" "active st c = Some (r, s)" "vs_car_id s' = vs_car_id s"
    and "vs_alive s' \<longrightarrow> vs_alive s" "sender_ok (vs_sender s) \<Longrightarrow> sender_ok (vs_sender s')"
  shows "store_ok (put r s' st)"
  using store_ok_put [OF assms(1) conjunct1 [OF active_heap [OF assms(2)]] assms(3-5)] .

lemma checked_send_store_ok [inv_intro]:
  "store_ok st \<Longrightarrow> store_ok (fst (applied st (checked_send now c build st)))"
  using reliable_store_ok [of st now c]
  by (fastforce simp: checked_send_def applied_def split: sum.splits prod.splits)

lemma push_store_ok [inv_intro]:
  assumes "store_ok st"
  shows "store_ok (push_control c thr str st)" "store_ok (push_pose c x y h src pc hc age v st)"
    "store_ok (srv_clear_outstanding c st)"
  using assms store_ok_active [OF assms, of c]
  by (auto simp: push_control_def push_pose_def srv_clear_outstanding_def Let_def clear_pending_ok
      split: option.splits)

lemma comm_fail_store_ok [inv_intro]: "store_ok st \<Longrightarrow> store_ok (fst (comm_fail c m st))"
  using store_ok_active [of st c]
  by (auto simp: comm_fail_def clear_pending_ok split: option.splits)

lemma sender_calls_store_ok [inv_intro]: "store_ok st \<Longrightarrow> store_ok (fst (sender_calls c conn out st))"
proof (induction out arbitrary: st)
  case (Cons x out)
  then show ?case by (cases x) (simp_all add: split_def Let_def comm_fail_store_ok)
qed simp

lemma tick_session_store_ok [inv_intro]:
  assumes "store_ok st" shows "store_ok (fst (tick_session now r st))"
proof (cases "srv_heap st r")
  case None
  then show ?thesis using assms by (simp add: tick_session_def)
next
  case (Some s)
  have "store_ok (put r (s\<lparr>vs_sender := fst (rs_tick now (vs_sender s))\<rparr>) st)"
    by (rule store_ok_put [OF assms Some]) (auto intro: sender_ops_ok)
  then show ?thesis
    using assms Some
    by (auto simp: tick_session_def Let_def split_def intro!: sender_calls_store_ok comm_fail_store_ok)
qed

lemma heartbeat_store_ok [inv_intro]: "store_ok st \<Longrightarrow> store_ok (fst (heartbeat_session r st))"
  by (auto simp: heartbeat_session_def Let_def split: option.splits intro!: store_ok_put)

lemma stream_store [simp]: "fst (stream_session latest r st) = st"
  by (auto simp: stream_session_def split: option.splits)

lemma for_sessions_store_ok:
  assumes "\<And>r st. store_ok st \<Longrightarrow> store_ok (fst (f r st))"
  shows "store_ok st \<Longrightarrow> store_ok (fst (for_sessions f rs st))"
  by (induction rs arbitrary: st) (simp_all add: assms split_def Let_def)

lemma tick_iteration_store_ok [inv_intro]: "store_ok st \<Longrightarrow> store_ok (fst (tick_iteration now tt st))"
  by (auto simp: tick_iteration_def Let_def split_def
      intro!: for_sessions_store_ok tick_session_store_ok heartbeat_store_ok)

lemma dispatch_keeps [simp]:
  "vs_car_id (fst (dispatch int_str now msg s)) = vs_car_id s"
  "vs_alive (fst (dispatch int_str now msg s)) = vs_alive s"
  by (auto simp: dispatch_def Let_def split_def split: option.splits bool.splits)

lemma consume_sender_ok:
  "sender_ok (vs_sender s) \<Longrightarrow> sender_ok (vs_sender (fst (consume_command_result msg s)))"
  by (auto simp: consume_command_result_def Let_def split: option.splits intro: sender_ops_ok)

lemma dispatch_sender_ok:
  "sender_ok (vs_sender s) \<Longrightarrow> sender_ok (vs_sender (fst (dispatch int_str now msg s)))"
  unfolding dispatch_sender by (auto intro: consume_sender_ok)

lemma rx_lines_store_ok: "store_ok st \<Longrightarrow> store_ok (fst (rx_lines loads int_str now r lines st))"
proof (induction lines arbitrary: st)
  case Nil
  then show ?case by simp
next
  case (Cons line lines)
  have "store_ok (put r (fst (dispatch int_str now msg s)) st)" if "srv_heap st r = Some s" for msg s
    by (rule store_ok_put [OF Cons.prems that]) (auto intro: dispatch_sender_ok)
  then show ?case
    using Cons by (auto simp: Let_def split_def split: sum.splits option.splits)
qed

lemma rx_end_store_ok [inv_intro]: "store_ok st \<Longrightarrow> store_ok (rx_end r st)"
  by (auto simp: rx_end_def split: option.splits intro!: store_ok_put)

lemma open_session_store_ok:
  assumes "store_ok st" shows "store_ok (fst (open_session now conn sid boot hello c st))"
proof -
  define st1 where "st1 = (case active st c of None \<Rightarrow> st | Some (r, old) \<Rightarrow> put r (old\<lparr>vs_alive := False\<rparr>) st)"
  have ok: "store_ok st1"
    using assms store_ok_active [OF assms, of c] by (auto simp: st1_def split: option.splits)
  have dead: "\<not> vs_alive s" if "srv_heap st1 r = Some s" "vs_car_id s = c" for r s
  proof (cases "active st c")
    case None
    have "map_of (srv_sessions st) c = None"
    proof (rule ccontr)
      assume "map_of (srv_sessions st) c \<noteq> None"
      then obtain r' s' where "map_of (srv_sessions st) c = Some r'" "srv_heap st r' = Some s'"
        using assms unfolding store_ok_def by blast
      then show False using None by (simp add: active_def)
    qed
    then show ?thesis using that None assms by (auto simp: st1_def store_ok_def)
  next
    case (Some x)
    then obtain r0 old where x: "x = (r0, old)" "srv_heap st r0 = Some old"
      "map_of (srv_sessions st) c = Some r0"
      using active_heap by (metis surj_pair)
    then show ?thesis using that Some assms by (auto simp: st1_def store_ok_def split: if_splits)
  qed
  define r where "r = srv_next st1"
  define s where "s = new_session c sid boot conn (set_seq_start (reliable_new c) 1) now"
  have s: "vs_car_id s = c" "sender_ok (vs_sender s)"
    using reliable_new_ok [of c 1] by (simp_all add: s_def new_session_def)
  have "fst (open_session now conn sid boot hello c st) =
     (put r s st1)\<lparr>srv_next := Suc r, srv_sessions := AList.update c r (srv_sessions st1)\<rparr>"
    by (simp add: open_session_def st1_def r_def s_def Let_def split: option.splits prod.splits)
  moreover have "store_ok ((put r s st1)\<lparr>srv_next := Suc r,
      srv_sessions := AList.update c r (srv_sessions st1)\<rparr>)"
    unfolding store_ok_def
  proof (intro conjI allI impI)
    fix c' r' assume "map_of (srv_sessions ((put r s st1)\<lparr>srv_next := Suc r,
      srv_sessions := AList.update c r (srv_sessions st1)\<rparr>)) c' = Some r'"
    then have "(c' = c \<and> r' = r) \<or> (c' \<noteq> c \<and> map_of (srv_sessions st1) c' = Some r')"
      by (simp add: update_conv' split: if_splits)
    then show "\<exists>sa. srv_heap ((put r s st1)\<lparr>srv_next := Suc r,
        srv_sessions := AList.update c r (srv_sessions st1)\<rparr>) r' = Some sa \<and> vs_car_id sa = c'"
      using ok s(1) unfolding store_ok_def r_def by fastforce
  next
    fix r' s' assume h: "srv_heap ((put r s st1)\<lparr>srv_next := Suc r,
      srv_sessions := AList.update c r (srv_sessions st1)\<rparr>) r' = Some s'"
    have old: "r' < r \<and> sender_ok (vs_sender s') \<and>
        (vs_alive s' \<longrightarrow> map_of (srv_sessions st1) (vs_car_id s') = Some r')" if "r' \<noteq> r"
      using h that ok by (simp add: store_ok_def r_def)
    show "r' < srv_next ((put r s st1)\<lparr>srv_next := Suc r,
        srv_sessions := AList.update c r (srv_sessions st1)\<rparr>)"
      using old by (cases "r' = r") simp_all
    show "sender_ok (vs_sender s')" using old h s(2) by (cases "r' = r") simp_all
    show "map_of (srv_sessions ((put r s st1)\<lparr>srv_next := Suc r,
        srv_sessions := AList.update c r (srv_sessions st1)\<rparr>)) (vs_car_id s') = Some r'" if "vs_alive s'"
      using old h s(1) dead [of r' s'] that by (cases "r' = r") (auto simp: update_conv')
  qed
  ultimately show ?thesis by simp
qed

lemma handshake_line_store_ok:
  "store_ok st \<Longrightarrow> store_ok (fst (handshake_line fr loads bt hc now token conn holds line st))"
  by (auto simp: handshake_line_def Let_def split_def open_session_store_ok
      split: sum.splits hello_result.splits)

lemma server_stop_store_ok: "store_ok st \<Longrightarrow> store_ok (fst (server_stop st))"
proof -
  assume ok: "store_ok st"
  have keep: "srv_sessions (foldl (\<lambda>st r. rx_end r st) st rs) = srv_sessions st" for rs st
    by (induction rs arbitrary: st) (simp_all add: rx_end_def split: option.splits)
  have all: "store_ok (foldl (\<lambda>st r. rx_end r st) st rs)" for rs
    using ok by (induction rs arbitrary: st) (simp_all add: rx_end_store_ok)
  have dies: "r \<in> set rs \<Longrightarrow> srv_heap (foldl (\<lambda>st r. rx_end r st) st rs) r = Some s \<Longrightarrow> \<not> vs_alive s"
    for r rs s st
  proof (induction rs arbitrary: st s rule: rev_induct)
    case Nil
    then show ?case by simp
  next
    case (snoc x xs)
    then show ?case by (auto simp: rx_end_def split: option.splits if_splits)
  qed
  define st' where "st' = foldl (\<lambda>st r. rx_end r st) st (map snd (srv_sessions st))"
  have "\<not> vs_alive s" if "srv_heap st' r = Some s" for r s
  proof
    assume "vs_alive s"
    then have "map_of (srv_sessions st) (vs_car_id s) = Some r"
      using all [of "map snd (srv_sessions st)"] that keep
      by (simp add: st'_def [symmetric] store_ok_def) (simp add: st'_def)
    then have "r \<in> set (map snd (srv_sessions st))" by (force dest: map_of_SomeD)
    then show False using dies that \<open>vs_alive s\<close> unfolding st'_def by blast
  qed
  then show ?thesis
    using all [of "map snd (srv_sessions st)"]
    by (auto simp: server_stop_def Let_def st'_def [symmetric] store_ok_def)
qed

lemma server_step_store_ok: "store_ok st \<Longrightarrow> store_ok (fst (server_step env st e))"
  by (cases e)
     (auto simp: send_waypoint_def send_go_def send_wait_def send_stop_def send_reset_def
        send_set_mode_def rx_chunk_def Let_def split_def
        intro: inv_intro handshake_line_store_ok rx_lines_store_ok server_stop_store_ok)

interpretation server_sys: step_system "\<lambda>st e. fst (server_step env st e)" store_ok for env
  by unfold_locales (rule server_step_store_ok)

text \<open>C6: at most one connection speaks for a car. After any sequence of handshakes, reconnections,
  received bytes, commands and timer iterations, two sessions of the same car that are alive are the
  same session, and it is the one commands are sent to; a reconnection kills the old one first.\<close>

theorem one_live_session_per_car:
  assumes "st = foldl (\<lambda>st e. fst (server_step env st e)) (server_new known) es"
    and "srv_heap st r1 = Some s1" "srv_heap st r2 = Some s2"
    and "vs_alive s1" "vs_alive s2" "vs_car_id s1 = vs_car_id s2"
  shows "r1 = r2 \<and> active st (vs_car_id s1) = Some (r1, s1)"
proof -
  have "store_ok st" unfolding assms(1) by (rule server_sys.run_inv [OF store_ok_new])
  then have "map_of (srv_sessions st) (vs_car_id s1) = Some r1"
    "map_of (srv_sessions st) (vs_car_id s2) = Some r2"
    using assms(2-5) by (auto simp: store_ok_def)
  then show ?thesis using assms(2,6) by (simp add: active_def)
qed

text \<open>A concrete environment: every line is the \<open>HELLO\<close> of car 1.\<close>

definition hello_env :: server_env where
  "hello_env = \<lparr>env_fr = (\<lambda>_. ''0.0''),
     env_loads = (\<lambda>_. Some (JObj [(''version'', JInt 1), (''type'', JStr ''HELLO''), (''car_id'', JInt 1)])),
     env_boot_text = (\<lambda>_. ''B''), env_int_str = (\<lambda>_. None), env_hold_check = None\<rparr>"

lemma length_quote_plain:
  "list_all (\<lambda>c. 32 \<le> code c \<and> code c \<noteq> 34 \<and> code c \<noteq> 92) s \<Longrightarrow> length (quote_str s) = length s + 2"
proof -
  assume "list_all (\<lambda>c. 32 \<le> code c \<and> code c \<noteq> 34 \<and> code c \<noteq> 92) s"
  then have "concat (map esc_char s) = s" by (induction s) (auto simp: esc_char_def)
  then show ?thesis by (simp add: quote_str_def)
qed

lemma wire_car_1: "wire_car_id 1 = ''CAR_01''" "dec_int 1 = ''1''"
proof -
  show "dec_int 1 = ''1''"
    by (simp add: dec_int_def) (subst dec_nat.simps, simp add: chr_def char_of_def bit_0)
  then show "wire_car_id 1 = ''CAR_01''" by (simp add: wire_car_id_def pad2_def)
qed

lemma hello_ack_fits:
  "\<exists>data. encode fr (the_ack) = Inr data"
  if "make_hello_ack 1 ''S1'' ''READY_ALLOWED'' None ''B'' 1 = Inr the_ack"
proof -
  have "the_ack = [(''version'', JInt 1), (''type'', JStr ''HELLO_ACK''), (''car_id'', JStr ''CAR_01''),
     (''session_id'', JStr ''S1''), (''boot_id'', JStr ''B''), (''result'', JStr ''READY_ALLOWED''),
     (''command_seq_start'', JInt 1)]"
    using that by (simp add: make_hello_ack_def base_msg_def dset_def wire_car_1 PROTOCOL_VERSION_def Let_def)
  then show ?thesis
    by (simp add: encode_def MAX_MESSAGE_BYTES_def length_quote_plain code_def wire_car_1)
qed

lemma hello_env_opens:
  assumes "srv_known_car_ids st = [1, 2]"
  shows "active (fst (server_step hello_env st (HelloLine now ''S1'' conn 0 ''h''))) 1 =
     Some (srv_next st, new_session 1 ''S1'' ''B'' conn (set_seq_start (reliable_new 1) 1) now)"
proof -
  obtain ack where ack: "make_hello_ack 1 ''S1'' ''READY_ALLOWED'' None ''B'' 1 = Inr ack"
    by (simp add: make_hello_ack_def)
  obtain data where data: "encode (\<lambda>_. ''0.0'') ack = Inr data" using hello_ack_fits [OF ack] by blast
  define hello where "hello = [(''version'', JInt 1), (''type'', JStr ''HELLO''), (''car_id'', JInt 1)]"
  have "parse_message (env_loads hello_env) ''h'' = Inr hello"
    by (simp add: hello_env_def parse_message_def MAX_MESSAGE_BYTES_def hello_def dset_def)
  moreover have "judge_hello None st hello = (READY_ALLOWED, None)"
    using assms by (simp add: judge_hello_def hello_def PROTOCOL_VERSION_def)
  ultimately have "fst (server_step hello_env st (HelloLine now ''S1'' conn 0 ''h'')) =
     fst (open_session now conn ''S1'' ''B'' hello 1 st)"
    using ack data by (simp add: hello_env_def handshake_line_def split_def Let_def hello_def)
  moreover have "active (fst (open_session now conn ''S1'' ''B'' hello 1 st)) 1 =
     Some (srv_next st, new_session 1 ''S1'' ''B'' conn (set_seq_start (reliable_new 1) 1) now)"
    by (simp add: open_session_def Let_def active_def update_conv' split: option.splits)
  ultimately show ?thesis by simp
qed

theorem one_live_session_per_car_witness:
  "\<exists>s. active (fst (server_step hello_env (server_new []) (HelloLine 0 ''S1'' 7 0 ''h''))) 1 = Some (0, s) \<and>
     active (fst (server_step hello_env (server_new []) (HelloLine 0 ''S1'' 7 0 ''h''))) (vs_car_id s) = Some (0, s)"
proof -
  define st where "st = fst (server_step hello_env (server_new []) (HelloLine 0 ''S1'' 7 0 ''h''))"
  have act: "active st 1 = Some (0, new_session 1 ''S1'' ''B'' 7 (set_seq_start (reliable_new 1) 1) 0)"
    using hello_env_opens [of "server_new []" 0 7] by (simp add: st_def server_new_def)
  define s where "s = new_session 1 ''S1'' ''B'' 7 (set_seq_start (reliable_new 1) 1) 0"
  have run: "st = foldl (\<lambda>st e. fst (server_step hello_env st e)) (server_new []) [HelloLine 0 ''S1'' 7 0 ''h'']"
    by (simp add: st_def)
  have heap: "srv_heap st 0 = Some s" using act active_heap by (simp add: s_def)
  have "vs_alive s" by (simp add: s_def new_session_def)
  then have "active st (vs_car_id s) = Some (0, s)"
    using one_live_session_per_car [OF run heap heap] by blast
  then show ?thesis using act unfolding st_def [symmetric] s_def by blast
qed

section \<open>Fault notifications\<close>

text \<open>\<open>1\<close> while a fault of the car is notified and not yet recovered; the notifications of the car
  counted with their sign.\<close>

definition in_fault :: "vehicle_server \<Rightarrow> int \<Rightarrow> int" where
  "in_fault st c = (case active st c of Some (r, s) \<Rightarrow> (if vs_comm_failed s then 1 else 0) | None \<Rightarrow> 0)"

fun notice :: "int \<Rightarrow> server_out \<Rightarrow> int" where
  "notice c (OnCommFail c' m) = (if c' = c then 1 else 0)"
| "notice c (OnCommRecovered c') = (if c' = c then - 1 else 0)"
| "notice c _ = 0"

definition notices :: "int \<Rightarrow> server_out list \<Rightarrow> int" where
  "notices c out = sum_list (map (notice c) out)"

lemma notices_simps [simp]:
  "notices c [] = 0" "notices c (x # out) = notice c x + notices c out"
  "notices c (xs @ ys) = notices c xs + notices c ys"
  by (simp_all add: notices_def)

text \<open>The contract every operation meets: the notifications made are the change of \<open>in_fault\<close>.\<close>

definition balanced :: "int \<Rightarrow> vehicle_server \<Rightarrow> vehicle_server \<times> server_out list \<Rightarrow> bool" where
  "balanced c st res = (notices c (snd res) = in_fault (fst res) c - in_fault st c \<and>
     srv_sessions (fst res) = srv_sessions st)"

lemma balanced_seq:
  "balanced c st (st1, out1) \<Longrightarrow> balanced c st1 (st2, out2) \<Longrightarrow> balanced c st (st2, out1 @ out2)"
  by (simp add: balanced_def)

lemma balanced_refl [simp]: "balanced c st (st, [])"
  by (simp add: balanced_def)

lemma active_put:
  assumes "store_ok st" "map_of (srv_sessions st) c' = Some r" "srv_heap st r = Some s"
  shows "active (put r s' st) c = (if c = c' then Some (r, s') else active st c)"
proof (cases "c = c'")
  case True
  then show ?thesis using assms by (simp add: active_def)
next
  case False
  have "r0 \<noteq> r" if "map_of (srv_sessions st) c = Some r0" for r0
    using store_okD [OF assms(1) that] store_okD [OF assms(1,2)] False by auto
  then show ?thesis using False by (auto simp: active_def split: option.splits)
qed

lemma in_fault_put:
  assumes "store_ok st" "map_of (srv_sessions st) c' = Some r" "srv_heap st r = Some s"
  shows "in_fault (put r s' st) c = (if c = c' then if vs_comm_failed s' then 1 else 0 else in_fault st c)"
  using active_put [OF assms] by (simp add: in_fault_def)

lemma in_fault_active: "active st c = Some (r, s) \<Longrightarrow> in_fault st c = (if vs_comm_failed s then 1 else 0)"
  by (simp add: in_fault_def)

text \<open>Updates that leave \<open>comm_failed\<close> alone.\<close>

lemma balanced_put:
  assumes "store_ok st" "map_of (srv_sessions st) c' = Some r" "srv_heap st r = Some s"
    and "vs_comm_failed s' = vs_comm_failed s" "notices c out = 0"
  shows "balanced c st (put r s' st, out)"
proof -
  have "active st c' = Some (r, s)" using assms(2,3) by (simp add: active_def)
  then show ?thesis
    using assms in_fault_put [OF assms(1-3), of s' c] in_fault_active
    by (auto simp: balanced_def)
qed

lemma comm_fail_balanced:
  assumes "store_ok st" "active st c' \<noteq> None"
  shows "balanced c st (comm_fail c' m st)"
proof -
  obtain r s where act: "active st c' = Some (r, s)" using assms(2) by auto
  note h = active_heap [OF act]
  show ?thesis
    using act in_fault_put [OF assms(1) conjunct2 [OF h] conjunct1 [OF h]] in_fault_active [OF act]
    by (auto simp: comm_fail_def balanced_def)
qed

lemma comm_fail_sessions: "srv_sessions (fst (comm_fail c m st)) = srv_sessions st"
  by (auto simp: comm_fail_def split: option.splits)

lemma active_iff: "store_ok st \<Longrightarrow> active st c \<noteq> None \<longleftrightarrow> map_of (srv_sessions st) c \<noteq> None"
  unfolding active_def store_ok_def by (fastforce split: option.splits)

lemma sender_calls_balanced:
  "store_ok st \<Longrightarrow> map_of (srv_sessions st) c' \<noteq> None \<Longrightarrow> balanced c st (sender_calls c' conn out st)"
proof (induction out arbitrary: st)
  case Nil
  then show ?case by simp
next
  case (Cons x out)
  show ?case
  proof (cases x)
    case (OnFail m)
    obtain st1 o1 where 1: "comm_fail c' m st = (st1, o1)" by fastforce
    obtain st2 o2 where 2: "sender_calls c' conn out st1 = (st2, o2)" by fastforce
    have "balanced c st (st1, o1)"
      using comm_fail_balanced [of st c' c m] Cons.prems active_iff 1 by auto
    moreover have "balanced c st1 (st2, o2)"
      using Cons.IH [of st1] comm_fail_store_ok [of st c' m] comm_fail_sessions [of c' m st] Cons.prems 1 2
      by simp
    ultimately show ?thesis using balanced_seq OnFail 1 2 by simp
  qed (use Cons in \<open>auto simp: balanced_def split_def Let_def\<close>)
qed

lemma tick_session_balanced:
  assumes "store_ok st" "map_of (srv_sessions st) c' = Some r"
  shows "balanced c st (tick_session now r st)"
proof -
  obtain s where s: "srv_heap st r = Some s" "vs_car_id s = c'" using assms by (auto simp: store_ok_def)
  define st0 where "st0 = put r (s\<lparr>vs_sender := fst (rs_tick now (vs_sender s))\<rparr>) st"
  have st0: "store_ok st0" "srv_sessions st0 = srv_sessions st"
    unfolding st0_def by (auto intro!: store_ok_put [OF assms(1) s(1)] rs_tick_ok)
  have b0: "balanced c st (st0, [])"
    unfolding st0_def by (rule balanced_put [OF assms s(1)]) simp_all
  obtain st1 o1 where 1: "sender_calls c' (vs_conn s) (snd (rs_tick now (vs_sender s))) st0 = (st1, o1)"
    by fastforce
  have b1: "balanced c st (st1, o1)"
    using balanced_seq [OF b0] sender_calls_balanced [of st0 c'] st0 assms(2) 1 by (metis append_Nil option.simps(3))
  have st1: "store_ok st1" using sender_calls_store_ok [OF st0(1)] 1 by (metis fst_conv)
  have ses: "srv_sessions st1 = srv_sessions st" using b1 by (simp add: balanced_def)
  obtain st2 o2 where 2: "comm_fail c' [(''type'', JStr ''COMM_TIMEOUT'')] st1 = (st2, o2)" by fastforce
  have "active st1 c' \<noteq> None" using active_iff [OF st1] ses assms(2) by simp
  then have b2: "balanced c st (st2, o1 @ o2)"
    using balanced_seq [OF b1] comm_fail_balanced [OF st1] 2 by metis
  show ?thesis
    using b1 b2 s 1 2 by (simp add: tick_session_def split_def Let_def st0_def [symmetric])
qed

lemma heartbeat_balanced:
  assumes "store_ok st" "map_of (srv_sessions st) c' = Some r"
  shows "balanced c st (heartbeat_session r st)"
proof -
  obtain s where s: "srv_heap st r = Some s" using store_okD [OF assms] by blast
  show ?thesis
    using balanced_put [OF assms s] s by (auto simp: heartbeat_session_def Let_def)
qed

lemma stream_balanced: "balanced c st (stream_session latest r st)"
  by (auto simp: stream_session_def balanced_def split: option.splits)

lemma for_sessions_balanced:
  assumes "\<And>r st. store_ok st \<Longrightarrow> (\<exists>c'. map_of (srv_sessions st) c' = Some r) \<Longrightarrow> balanced c st (f r st)"
    and "\<And>r st. store_ok st \<Longrightarrow> store_ok (fst (f r st))"
  shows "store_ok st \<Longrightarrow> (\<forall>r \<in> set rs. \<exists>c'. map_of (srv_sessions st) c' = Some r) \<Longrightarrow>
     balanced c st (for_sessions f rs st)"
proof (induction rs arbitrary: st)
  case Nil
  then show ?case by simp
next
  case (Cons r rs)
  obtain st1 o1 where 1: "f r st = (st1, o1)" by fastforce
  obtain st2 o2 where 2: "for_sessions f rs st1 = (st2, o2)" by fastforce
  have b1: "balanced c st (st1, o1)" using assms(1) [of st r] Cons.prems 1 by simp
  have "store_ok st1" using assms(2) [of st r] Cons.prems 1 by simp
  then have "balanced c st1 (st2, o2)" using Cons.IH [of st1] Cons.prems b1 2 by (simp add: balanced_def)
  then show ?case using balanced_seq [OF b1] 1 2 by simp
qed

lemma consume_no_notice [simp]: "notices c (snd (consume_command_result msg s)) = 0"
  by (auto simp: consume_command_result_def Let_def split: option.splits)

text \<open>A dispatched message recovers the fault of its session, and notifies it, once.\<close>

lemma dispatch_notices:
  "\<not> vs_comm_failed (fst (dispatch int_str now msg s)) \<and>
   notices c (fst (snd (dispatch int_str now msg s))) =
     (if vs_comm_failed s \<and> vs_car_id s = c then - 1 else 0)"
  by (auto simp: dispatch_def Let_def split_def comm_recovered_def split: option.splits bool.splits)

lemma rx_lines_balanced:
  "store_ok st \<Longrightarrow> map_of (srv_sessions st) c' = Some r \<Longrightarrow>
     balanced c st (let (st', out, ok) = rx_lines loads int_str now r lines st in (st', out))"
proof (induction lines arbitrary: st)
  case Nil
  then show ?case by simp
next
  case (Cons line lines)
  obtain s where s: "srv_heap st r = Some s" "vs_car_id s = c'" using store_okD [OF Cons.prems] by blast
  show ?case
  proof (cases "list_all is_space line \<or> (\<exists>e. parse_message loads line = Inl e)")
    case True
    then show ?thesis using Cons by auto
  next
    case False
    then obtain msg where msg: "parse_message loads line = Inr msg" by (cases "parse_message loads line") auto
    obtain s' out ok where d: "dispatch int_str now msg s = (s', out, ok)" by (metis prod_cases3)
    define st1 where "st1 = put r s' st"
    have s': "vs_car_id s' = c'" "vs_alive s' = vs_alive s"
      "sender_ok (vs_sender s) \<Longrightarrow> sender_ok (vs_sender s')"
      using dispatch_keeps [of int_str now msg s] dispatch_sender_ok [of s int_str now msg] s d by simp_all
    have ok1: "store_ok st1" "srv_sessions st1 = srv_sessions st"
      unfolding st1_def by (auto intro!: store_ok_put [OF Cons.prems(1) s(1)] simp: s' s)
    have b1: "balanced c st (st1, out)"
      using in_fault_put [OF Cons.prems s(1), of s' c] dispatch_notices [of int_str now msg s c] d s
        in_fault_active [of st c' r s] Cons.prems(2)
      by (auto simp: balanced_def st1_def active_def)
    obtain st2 out2 ok2 where 2: "rx_lines loads int_str now r lines st1 = (st2, out2, ok2)"
      by (metis prod_cases3)
    have "balanced c st1 (st2, out2)" using Cons.IH [OF ok1(1)] ok1(2) Cons.prems(2) 2 by simp
    then have "balanced c st (st2, out @ out2)" using balanced_seq [OF b1] by blast
    then show ?thesis using False msg s d b1 2 by (simp add: st1_def [symmetric])
  qed
qed

lemma active_ref: "r \<in> snd ` set xs \<Longrightarrow> distinct (map fst xs) \<Longrightarrow> \<exists>c. map_of xs c = Some r"
  by (metis imageE map_of_eq_Some_iff prod.collapse)

lemma tick_iteration_balanced:
  assumes "store_ok st" "distinct (map fst (srv_sessions st))"
  shows "balanced c st (let (st', tt', out) = tick_iteration now tt st in (st', out))"
proof -
  define rs where "rs = map snd (srv_sessions st)"
  have rs: "\<forall>r \<in> set rs. \<exists>c'. map_of (srv_sessions st') c' = Some r"
    if "srv_sessions st' = srv_sessions st" for st'
    using active_ref [OF _ assms(2)] that by (auto simp: rs_def)
  have tick: "balanced c st' (for_sessions (tick_session now) rs st')"
    and beat: "balanced c st' (for_sessions heartbeat_session rs st')"
    and stream: "balanced c st' (for_sessions (stream_session f) rs st')"
    if "store_ok st'" "srv_sessions st' = srv_sessions st" for st' f
    using for_sessions_balanced [OF _ _ that(1) rs [OF that(2)]]
      tick_session_balanced tick_session_store_ok heartbeat_balanced heartbeat_store_ok stream_balanced
    by (metis stream_store)+
  obtain st1 o1 where 1: "for_sessions (tick_session now) rs st = (st1, o1)" by fastforce
  have b1: "balanced c st (st1, o1)" "store_ok st1" "srv_sessions st1 = srv_sessions st"
    using tick [OF assms(1)] for_sessions_store_ok [of "tick_session now" st rs] tick_session_store_ok assms(1) 1
    by (auto simp: balanced_def)
  obtain st2 o2 where 2: "(if now * 1000 - last_hb_ms tt \<ge> HEARTBEAT_INTERVAL TIMING
      then for_sessions heartbeat_session rs st1 else (st1, [])) = (st2, o2)" by fastforce
  have b2: "balanced c st1 (st2, o2)" "store_ok st2" "srv_sessions st2 = srv_sessions st"
    using beat [OF b1(2,3)] for_sessions_store_ok [of heartbeat_session st1 rs] heartbeat_store_ok 2 b1(2,3)
    by (auto simp: balanced_def split: if_splits)
  obtain st3 o3 where 3: "(if srv_direct_control_enabled st2 \<and>
        now * 1000 - last_control_ms tt \<ge> CONTROL_INTERVAL TIMING
      then for_sessions (stream_session vs_latest_control) rs st2 else (st2, [])) = (st3, o3)" by fastforce
  have b3: "balanced c st2 (st3, o3)"
    using stream [OF b2(2,3), of vs_latest_control] 3 by (auto split: if_splits)
  have "balanced c st (st3, o1 @ o2 @ o3)"
    using balanced_seq [OF b1(1) balanced_seq [OF b2(1) b3]] .
  then show ?thesis
    using 1 2 3
    by (auto simp: tick_iteration_def rs_def [symmetric] POSE_UPDATE_ENABLED_def Let_def split_def
        split: if_splits)
qed

text \<open>The events of an uninterrupted stretch of operation: no new handshake, no shutdown, bytes only on
  connections of active sessions.\<close>

fun link_op :: "(int \<times> nat) list \<Rightarrow> server_op \<Rightarrow> bool" where
  "link_op ses (HelloLine now token conn holds line) = False"
| "link_op ses StopServer = False"
| "link_op ses (Chunk now r buf chunk) = (r \<in> snd ` set ses)"
| "link_op ses _ = True"

lemma active_update_balanced:
  assumes "store_ok st" "active st c' = Some (r, s)" "vs_comm_failed s' = vs_comm_failed s"
    and "notices c out = 0"
  shows "balanced c st (put r s' st, out)"
  using active_heap [OF assms(2)] balanced_put [OF assms(1) _ _ assms(3,4)] by blast

lemma notices_sends [simp]: "notices c (map (SafeSend conn) ms) = 0"
  by (induction ms) simp_all

lemma reliable_balanced: "store_ok st \<Longrightarrow> balanced c st (applied st (reliable now c' build st))"
proof (cases "session_of st c'")
  case (Inr x)
  assume ok: "store_ok st"
  obtain r s where x: "x = (r, s)" by fastforce
  have act: "active st c' = Some (r, s)"
    using Inr x by (auto simp: session_of_def split: option.splits if_splits)
  show ?thesis
    using Inr x active_update_balanced [OF ok act]
    by (auto simp: reliable_def applied_def split: sum.splits)
qed (simp add: reliable_def applied_def)

lemma checked_send_balanced: "store_ok st \<Longrightarrow> balanced c st (applied st (checked_send now c' build st))"
  using reliable_balanced [of st c now c']
  by (fastforce simp: checked_send_def applied_def split: sum.splits prod.splits)

lemma push_balanced:
  assumes "store_ok st"
  shows "balanced c st (push_control c' thr str st, [])"
    "balanced c st (push_pose c' x y h src pc hc age v st, [])"
    "balanced c st (srv_clear_outstanding c' st, [])"
  using active_update_balanced [OF assms, of c']
  by (auto simp: push_control_def push_pose_def srv_clear_outstanding_def Let_def split: option.splits)

lemma rx_end_balanced:
  assumes "store_ok st" shows "balanced c st (rx_end r st, [])"
proof (cases "srv_heap st r")
  case None
  then show ?thesis by (simp add: rx_end_def)
next
  case (Some s)
  have "in_fault (put r (s\<lparr>vs_alive := False\<rparr>) st) c = in_fault st c"
    using Some by (auto simp: in_fault_def active_def split: option.splits)
  then show ?thesis using Some by (simp add: rx_end_def balanced_def)
qed

lemma server_step_balanced:
  assumes "store_ok st" "distinct (map fst (srv_sessions st))" "link_op (srv_sessions st) e"
  shows "balanced c st (server_step env st e)"
proof (cases e)
  case (Chunk now r buf chunk)
  then obtain c' where "map_of (srv_sessions st) c' = Some r" using assms active_ref by auto
  then show ?thesis
    using Chunk rx_lines_balanced [OF assms(1)] by (auto simp: rx_chunk_def split_def Let_def)
next
  case (TickIteration now tt)
  then show ?thesis using tick_iteration_balanced [OF assms(1,2), of c now tt] by simp
qed (use assms in \<open>simp_all add: send_waypoint_def send_go_def send_wait_def send_stop_def
    send_reset_def send_set_mode_def reliable_balanced checked_send_balanced push_balanced rx_end_balanced\<close>)

text \<open>C14: a communication fault is reported once, and its end once. Over every uninterrupted stretch of
  operation the layers above are told of a fault of the car and of its recovery in balance: the
  number of \<open>on_comm_fail\<close> minus the number of \<open>on_comm_recovered\<close> is \<open>1\<close> if the car is in a fault at
  the end and was not at the start, \<open>-1\<close> in the opposite case, and \<open>0\<close> otherwise; the timer repeats
  nothing while a fault lasts.\<close>

theorem fault_reported_once:
  assumes "store_ok st" "distinct (map fst (srv_sessions st))"
    and "list_all (link_op (srv_sessions st)) es"
    and "run_out (server_step env) st es = (st', out)"
  shows "notices c out = in_fault st' c - in_fault st c"
proof -
  have "balanced c st (st', out)"
    using assms
  proof (induction es arbitrary: st out)
    case Nil
    then show ?case by simp
  next
    case (Cons e es)
    obtain st1 o1 where 1: "server_step env st e = (st1, o1)" by fastforce
    obtain st2 o2 where 2: "run_out (server_step env) st1 es = (st2, o2)" by fastforce
    have b: "balanced c st (st1, o1)" using server_step_balanced [of st e c env] Cons.prems 1 by simp
    have "store_ok st1" using server_step_store_ok [OF Cons.prems(1), of env e] 1 by simp
    then have "balanced c st1 (st2, o2)"
      using Cons.IH [of st1 o2] Cons.prems 1 2 b by (simp add: balanced_def)
    then have "balanced c st (st2, o1 @ o2)" by (rule balanced_seq [OF b])
    then show ?case using Cons.prems(4) 1 2 by simp
  qed
  then show ?thesis by (simp add: balanced_def)
qed

theorem fault_reported_once_witness:
  "let st = \<lparr>srv_known_car_ids = [1], srv_heap = [0 \<mapsto> new_session 1 ''S1'' ''B'' 0 (reliable_new 1) 0],
       srv_next = 1, srv_sessions = [(1, 0)], srv_direct_control_enabled = False, srv_max_hold_retries = 20\<rparr>;
     tt = \<lparr>last_pose_ms = 0, last_hb_ms = 0, last_control_ms = 0\<rparr>;
     (st', out) = run_out (server_step hello_env) st [TickIteration 5 tt, TickIteration 6 tt]
   in notices 1 out = in_fault st' 1"
proof -
  define st where "st = \<lparr>srv_known_car_ids = [1],
       srv_heap = [0 \<mapsto> new_session 1 ''S1'' ''B'' 0 (reliable_new 1) 0],
       srv_next = 1, srv_sessions = [(1, 0)], srv_direct_control_enabled = False, srv_max_hold_retries = 20\<rparr>"
  define tt where "tt = \<lparr>last_pose_ms = 0, last_hb_ms = 0, last_control_ms = 0\<rparr>"
  have "store_ok st" "distinct (map fst (srv_sessions st))" "in_fault st 1 = 0"
    by (auto simp: st_def store_ok_def new_session_def reliable_new_def sender_ok_def in_fault_def
        active_def split: if_splits)
  moreover obtain st' out where run: "run_out (server_step hello_env) st
      [TickIteration 5 tt, TickIteration 6 tt] = (st', out)" by fastforce
  ultimately have "notices 1 out = in_fault st' 1 - 0"
    using fault_reported_once [OF _ _ _ run, of 1] by simp
  then show ?thesis unfolding Let_def st_def [symmetric] tt_def [symmetric] run by simp
qed

section \<open>The handshake\<close>

text \<open>What a \<open>HELLO\<close> must say for its vehicle to be released.\<close>

definition clean_hello :: "vehicle_server \<Rightarrow> pydict \<Rightarrow> bool" where
  "clean_hello st hello =
     (dget hello ''type'' = JStr ''HELLO'' \<and> py_eq_int (dget hello ''version'') 1 \<and>
      (\<exists>n \<in> set (srv_known_car_ids st). py_eq_int (dget hello ''car_id'') n) \<and>
      dget_or hello ''error_code'' (JStr ''NONE'') \<in> {JStr ''NONE'', JStr ''''} \<and>
      dget hello ''previous_state'' \<noteq> JStr ''EMERGENCY_STOP'')"

lemma judge_ready_clean: "fst (judge_hello hc st hello) = READY_ALLOWED \<Longrightarrow> clean_hello st hello"
proof -
  assume a: "fst (judge_hello hc st hello) = READY_ALLOWED"
  have w: "str_word v = Some t \<longleftrightarrow> v = JStr t" for v t by (cases v) auto
  show ?thesis
    using a by (auto simp: judge_hello_def clean_hello_def PROTOCOL_VERSION_def w split: if_splits)
qed

definition holds_sent :: "server_out list \<Rightarrow> nat" where
  "holds_sent out = length (filter (\<lambda>x. case x of OnHold c w \<Rightarrow> True | _ \<Rightarrow> False) out)"

lemma holds_sent_append [simp]: "holds_sent (xs @ ys) = holds_sent xs + holds_sent ys"
  by (simp add: holds_sent_def)

lemma open_session_no_hold: "holds_sent (snd (snd (open_session now conn sid boot hello c st))) = 0"
  by (auto simp: open_session_def holds_sent_def Let_def split: option.splits)

lemma handshake_line_cases:
  assumes "handshake_line fr loads bt hc now token conn k line st = (st', h, out)"
    and "k < srv_max_hold_retries st"
  shows "(case h of
       Reading k' \<Rightarrow> st' = st \<and> k' < srv_max_hold_retries st \<and> k' = k + holds_sent out
     | Finished \<Rightarrow> st' = st \<and> k + holds_sent out \<le> srv_max_hold_retries st
     | Crashed \<Rightarrow> st' = st \<and> holds_sent out = 0
     | Opened r \<Rightarrow> holds_sent out = 0 \<and>
         (\<exists>hello. parse_message loads line = Inr hello \<and> clean_hello st hello))"
proof (cases "parse_message loads line")
  case (Inl e)
  then show ?thesis using assms by (auto simp: handshake_line_def holds_sent_def)
next
  case (Inr hello)
  obtain res why where j: "judge_hello hc st hello = (res, why)" by fastforce
  have clean: "res = READY_ALLOWED \<Longrightarrow> clean_hello st hello" using judge_ready_clean [of hc st hello] j by simp
  show ?thesis
    using assms Inr j clean open_session_no_hold
    by (auto simp: handshake_line_def holds_sent_def Let_def split_def
        split: if_splits sum.splits hello_result.splits)
qed

lemma handshake_run_cases:
  assumes "handshake_run fr loads bt hc conn k lines st = (st', h, out)"
    and "k < srv_max_hold_retries st"
  shows "(case h of
       Opened r \<Rightarrow> \<exists>line \<in> set lines. \<exists>hello.
         parse_message loads (snd (snd line)) = Inr hello \<and> clean_hello st hello
     | Reading k' \<Rightarrow> k' = k + holds_sent out \<and> k' < srv_max_hold_retries st \<and> st' = st
     | _ \<Rightarrow> st' = st) \<and> k + holds_sent out \<le> srv_max_hold_retries st"
  using assms
proof (induction lines arbitrary: k st' out)
  case Nil
  then show ?case by (auto simp: holds_sent_def)
next
  case (Cons x lines)
  obtain now token line where x: "x = (now, token, line)" by (metis prod_cases3)
  obtain st1 h1 o1 where 1: "handshake_line fr loads bt hc now token conn k line st = (st1, h1, o1)"
    by (metis prod_cases3)
  note c = handshake_line_cases [OF 1 Cons.prems(2)]
  show ?case
  proof (cases h1)
    case (Reading k1)
    then have st1: "st1 = st" "k1 < srv_max_hold_retries st" "k1 = k + holds_sent o1" using c by simp_all
    obtain st2 h2 o2 where 2: "handshake_run fr loads bt hc conn k1 lines st = (st2, h2, o2)"
      by (metis prod_cases3)
    have res: "st' = st2" "h = h2" "out = o1 @ o2" using Cons.prems(1) x 1 2 Reading st1(1) by simp_all
    then have "handshake_run fr loads bt hc conn k1 lines st = (st', h, o2)" using 2 by simp
    from Cons.IH [OF this st1(2)] show ?thesis using st1(3) res by (auto split: handshake.splits)
  qed (use Cons.prems x 1 c in \<open>auto simp: holds_sent_def\<close>)
qed

text \<open>C15: no unsafe release. A handshake opens a session only for a \<open>HELLO\<close> of the right protocol version
  from a known car that reports no error and did not come out of an emergency stop; and it never
  waits for ever: it answers \<open>HOLD\<close> at most \<open>max_hold_retries\<close> times, is still waiting only
  below that number, and changes no state unless it opens a session.\<close>

theorem handshake_releases_safely:
  assumes "handshake_run fr loads bt hc conn 0 lines st = (st', h, out)"
    and "0 < srv_max_hold_retries st"
  shows "(case h of
       Opened r \<Rightarrow> \<exists>line \<in> set lines. \<exists>hello.
         parse_message loads (snd (snd line)) = Inr hello \<and> clean_hello st hello
     | Reading k' \<Rightarrow> k' = holds_sent out \<and> k' < srv_max_hold_retries st \<and> st' = st
     | _ \<Rightarrow> st' = st) \<and> holds_sent out \<le> srv_max_hold_retries st"
  using handshake_run_cases [OF assms] unfolding add_0_left .

theorem handshake_releases_safely_witness:
  "let loads = (\<lambda>_. Some (JObj [(''version'', JInt 1), (''type'', JStr ''HELLO''), (''car_id'', JInt 1),
       (''previous_state'', JStr ''EMERGENCY_STOP'')]));
     (st', h, out) = handshake_run (\<lambda>_. ''0.0'') loads (\<lambda>_. ''B'') None 0 0
       (replicate 30 (0, ''S1'', ''h'')) (server_new [1])
   in holds_sent out \<le> 20"
proof -
  define loads where "loads = (\<lambda>_ :: string. Some (JObj [(''version'', JInt 1), (''type'', JStr ''HELLO''),
     (''car_id'', JInt 1), (''previous_state'', JStr ''EMERGENCY_STOP'')]))"
  define lines :: "(real \<times> string \<times> string) list" where "lines = replicate 30 (0, ''S1'', ''h'')"
  obtain st' h out where run: "handshake_run (\<lambda>_. ''0.0'') loads (\<lambda>_. ''B'') None 0 0 lines
      (server_new [1]) = (st', h, out)" by (metis prod_cases3)
  have max: "srv_max_hold_retries (server_new [1]) = 20" by (simp add: server_new_def)
  have "holds_sent out \<le> 20"
    using handshake_releases_safely [OF run] unfolding max by simp
  then show ?thesis unfolding Let_def loads_def [symmetric] lines_def [symmetric] run by simp
qed

end
