(* ===== verification/Parking_Map.thy ===== *)
theory Parking_Map
  imports Prelude
begin

text \<open>
  The map of the lot, the constants of \<open>integrated/host/rl/parking_env.py\<close>: slots, nodes, routes in
  and out. A \<open>dict\<close> is an association list in the source's order.
\<close>

definition NUM_SLOTS :: nat where "NUM_SLOTS = 8"

definition SLOT_NAMES :: "string list" where
  "SLOT_NAMES = [''B4'', ''B3'', ''B2'', ''B1'', ''A4'', ''A3'', ''A2'', ''A1'']"

definition SLOT_COORDINATES :: "(string \<times> real \<times> real) list" where
  "SLOT_COORDINATES =
     [(''A1'', 425, 150), (''A2'', 650, 150), (''A3'', 875, 150), (''A4'', 1100, 150),
      (''B1'', 425, 1050), (''B2'', 650, 1050), (''B3'', 875, 1050), (''B4'', 1100, 1050)]"

definition ENTRY_POINT :: "real \<times> real" where "ENTRY_POINT = (150, 600)"

definition MAX_DISTANCE :: real where "MAX_DISTANCE = hypot 1200 1200"

definition SLOT_ROUTES :: "(string \<times> string list) list" where
  "SLOT_ROUTES =
     [(''B1'', [''entrance'', ''junction'', ''lane_pt_4'', ''B1_front'']),
      (''B2'', [''entrance'', ''junction'', ''lane_pt_4'', ''lane_pt_3'', ''B2_front'']),
      (''B3'', [''entrance'', ''junction'', ''lane_pt_4'', ''lane_pt_3'', ''lane_pt_2'', ''B3_front'']),
      (''B4'', [''entrance'', ''junction'', ''lane_pt_4'', ''lane_pt_3'', ''lane_pt_2'', ''lane_pt_1'', ''B4_front'']),
      (''A1'', [''entrance'', ''junction'', ''lane_pt_4'', ''A1_front'']),
      (''A2'', [''entrance'', ''junction'', ''lane_pt_4'', ''lane_pt_3'', ''A2_front'']),
      (''A3'', [''entrance'', ''junction'', ''lane_pt_4'', ''lane_pt_3'', ''lane_pt_2'', ''A3_front'']),
      (''A4'', [''entrance'', ''junction'', ''lane_pt_4'', ''lane_pt_3'', ''lane_pt_2'', ''lane_pt_1'', ''A4_front''])]"

definition BOTTLENECK_NODES :: "string list" where
  "BOTTLENECK_NODES = [''junction'', ''lane_pt_4'', ''lane_pt_3'']"

definition EXIT_ROUTES :: "(string \<times> string list) list" where
  "EXIT_ROUTES =
     [(''B1'', [''B1_front'', ''lane_pt_4'', ''junction'', ''exit'']),
      (''B2'', [''B2_front'', ''lane_pt_3'', ''lane_pt_4'', ''junction'', ''exit'']),
      (''B3'', [''B3_front'', ''lane_pt_2'', ''lane_pt_3'', ''lane_pt_4'', ''junction'', ''exit'']),
      (''B4'', [''B4_front'', ''lane_pt_1'', ''lane_pt_2'', ''lane_pt_3'', ''lane_pt_4'', ''junction'', ''exit'']),
      (''A1'', [''A1_front'', ''lane_pt_4'', ''junction'', ''exit'']),
      (''A2'', [''A2_front'', ''lane_pt_3'', ''lane_pt_4'', ''junction'', ''exit'']),
      (''A3'', [''A3_front'', ''lane_pt_2'', ''lane_pt_3'', ''lane_pt_4'', ''junction'', ''exit'']),
      (''A4'', [''A4_front'', ''lane_pt_1'', ''lane_pt_2'', ''lane_pt_3'', ''lane_pt_4'', ''junction'', ''exit''])]"

definition NODE_COORDINATES :: "(string \<times> real \<times> real) list" where
  "NODE_COORDINATES =
     [(''entrance'', 150, 100), (''junction'', 150, 600), (''exit'', 150, 1200),
      (''lane_pt_4'', 425, 600), (''lane_pt_3'', 650, 600), (''lane_pt_2'', 875, 600), (''lane_pt_1'', 1100, 600),
      (''A1_front'', 425, 150), (''A2_front'', 650, 150), (''A3_front'', 875, 150), (''A4_front'', 1100, 150),
      (''B1_front'', 425, 1050), (''B2_front'', 650, 1050), (''B3_front'', 875, 1050), (''B4_front'', 1100, 1050)]"

definition ALL_NODES :: "string list" where
  "ALL_NODES =
     [''A1_front'', ''A2_front'', ''A3_front'', ''A4_front'', ''B1_front'', ''B2_front'', ''B3_front'',
      ''B4_front'', ''entrance'', ''exit'', ''junction'', ''lane_pt_1'', ''lane_pt_2'', ''lane_pt_3'', ''lane_pt_4'']"

definition MAX_ROUTE_LEN :: nat where
  "MAX_ROUTE_LEN = fold max (map (length \<circ> snd) SLOT_ROUTES) 0"

definition slot_route :: "string \<Rightarrow> string list option" where
  "slot_route slot = map_of SLOT_ROUTES slot"

definition exit_route :: "string \<Rightarrow> string list option" where
  "exit_route slot = map_of EXIT_ROUTES slot"

definition node_at :: "string \<Rightarrow> (real \<times> real) option" where
  "node_at node = map_of NODE_COORDINATES node"

text \<open>Axis-parallel neighbours: the lanes of the lot run along the axes.\<close>

definition aligned :: "string \<Rightarrow> string \<Rightarrow> bool" where
  "aligned a b = (case (node_at a, node_at b) of
       (Some (x1, y1), Some (x2, y2)) \<Rightarrow> x1 = x2 \<or> y1 = y2
     | _ \<Rightarrow> False)"

definition route_ok :: "string \<Rightarrow> bool" where
  "route_ok slot = (case (slot_route slot, exit_route slot) of
       (Some r, Some e) \<Rightarrow>
         distinct r \<and> distinct e \<and> set r \<subseteq> set ALL_NODES \<and> set e \<subseteq> set ALL_NODES \<and>
         hd r = ''entrance'' \<and> last r = slot @ ''_front'' \<and> hd e = slot @ ''_front'' \<and> last e = ''exit'' \<and>
         4 \<le> length r \<and> length r \<le> 7 \<and> successively aligned r \<and> successively aligned e
         \<and> tl (rev e) = tl r
     | _ \<Rightarrow> False)"

lemma routes_ok: "list_all route_ok SLOT_NAMES"
  by (simp add: SLOT_NAMES_def route_ok_def slot_route_def exit_route_def SLOT_ROUTES_def EXIT_ROUTES_def
      ALL_NODES_def aligned_def node_at_def NODE_COORDINATES_def)

lemma MAX_ROUTE_LEN_7: "MAX_ROUTE_LEN = 7"
  by (simp add: MAX_ROUTE_LEN_def SLOT_ROUTES_def)

text \<open>The map is consistent. Every slot has an entry route from the entrance to the slot's front
  and an exit route back over the same nodes to the exit; neither visits a node twice, every
  node exists, and consecutive nodes lie on one lane; no route has more than 7 nodes.\<close>

theorem map_consistent:
  "list_all route_ok SLOT_NAMES \<and> length SLOT_NAMES = NUM_SLOTS \<and> distinct SLOT_NAMES \<and>
   set SLOT_NAMES = set (map fst SLOT_COORDINATES) \<and>
   list_all (\<lambda>(s, x, y). node_at (s @ ''_front'') = Some (x, y)) SLOT_COORDINATES \<and> MAX_ROUTE_LEN = 7"
  using routes_ok MAX_ROUTE_LEN_7
  by (auto simp: SLOT_NAMES_def NUM_SLOTS_def SLOT_COORDINATES_def node_at_def NODE_COORDINATES_def)

end
