(* ===== verification/Waypoints.thy ===== *)
theory Waypoints
  imports Parking_Map Py_Json
begin

text \<open>
  \<open>integrated/host/parking/waypoints.py\<close>: slot templates, the generator of the
  CRUISE .. FINAL waypoints, their wire form and the arrival test. Coordinates in mm.
\<close>

section \<open>Data\<close>

datatype phase = CRUISE | APPROACH | ALIGN | ENTRY | FINAL

fun phase_name :: "phase \<Rightarrow> string" where
  "phase_name CRUISE = ''CRUISE''"
| "phase_name APPROACH = ''APPROACH''"
| "phase_name ALIGN = ''ALIGN''"
| "phase_name ENTRY = ''ENTRY''"
| "phase_name FINAL = ''FINAL''"

record phase_defaults =
  pd_speed_cm_s :: real
  pd_position_tolerance_cm :: real
  pd_heading_tolerance_deg :: real

fun PHASE_DEFAULTS :: "phase \<Rightarrow> phase_defaults" where
  "PHASE_DEFAULTS CRUISE =
     \<lparr>pd_speed_cm_s = 12, pd_position_tolerance_cm = 8, pd_heading_tolerance_deg = 30\<rparr>"
| "PHASE_DEFAULTS APPROACH =
     \<lparr>pd_speed_cm_s = 8, pd_position_tolerance_cm = 6, pd_heading_tolerance_deg = 20\<rparr>"
| "PHASE_DEFAULTS ALIGN =
     \<lparr>pd_speed_cm_s = 5, pd_position_tolerance_cm = 5, pd_heading_tolerance_deg = 12\<rparr>"
| "PHASE_DEFAULTS ENTRY =
     \<lparr>pd_speed_cm_s = 5, pd_position_tolerance_cm = 4, pd_heading_tolerance_deg = 12\<rparr>"
| "PHASE_DEFAULTS FINAL =
     \<lparr>pd_speed_cm_s = 4, pd_position_tolerance_cm = 5, pd_heading_tolerance_deg = 12\<rparr>"

datatype side = TOP | BOTTOM

record slot_spec =
  ss_slot_id :: string
  ss_center_x :: real
  ss_center_y :: real
  ss_target_heading_deg :: real
  ss_width :: real
  ss_length :: real
  ss_entry_side :: side

record waypoint =
  wp_route_id :: int
  wp_waypoint_id :: int
  wp_phase :: phase
  wp_x :: real
  wp_y :: real
  wp_target_heading_deg :: "real option"
  wp_speed_cm_s :: real
  wp_position_tolerance_cm :: real
  wp_heading_tolerance_deg :: real
  wp_heading_required :: bool
  wp_is_final :: bool

section \<open>The wire form\<close>

definition jreal :: "real \<Rightarrow> json" where "jreal x = JFloat (Fin x)"

lemma jreal_eq [simp]: "jreal x = jreal y \<longleftrightarrow> x = y"
  by (simp add: jreal_def)

text \<open>\<open>asdict\<close>, the added centimetre fields, and \<open>x\<close>, \<open>y\<close> removed.\<close>

definition to_wire :: "waypoint \<Rightarrow> pydict" where
  "to_wire w =
     (let d = [(''route_id'', JInt (wp_route_id w)), (''waypoint_id'', JInt (wp_waypoint_id w)),
               (''phase'', JStr (phase_name (wp_phase w))), (''x'', jreal (wp_x w)), (''y'', jreal (wp_y w)),
               (''target_heading_deg'',
                  case wp_target_heading_deg w of None \<Rightarrow> JNull | Some h \<Rightarrow> jreal h),
               (''speed_cm_s'', jreal (wp_speed_cm_s w)),
               (''position_tolerance_cm'', jreal (wp_position_tolerance_cm w)),
               (''heading_tolerance_deg'', jreal (wp_heading_tolerance_deg w)),
               (''heading_required'', JBool (wp_heading_required w)),
               (''is_final'', JBool (wp_is_final w))];
          d = dset d ''x_cm'' (jreal (round_dec 1 (wp_x w / 10)));
          d = dset d ''y_cm'' (jreal (round_dec 1 (wp_y w / 10)));
          d = dset d ''target_heading_deg'' (jreal
                (case wp_target_heading_deg w of
                   Some h \<Rightarrow> round_dec 3 (pymod h 360)
                 | None \<Rightarrow> 0));
          d = dsetdefault d ''motion_direction'' (JStr ''FORWARD'');
          d = dsetdefault d ''arrival_mode'' (JStr ''STOP'')
      in ddel (ddel d ''x'') ''y'')"

section \<open>Slot templates and waypoint generation\<close>

definition default_slot_specs :: "(string \<times> slot_spec) list" where
  "default_slot_specs =
     map (\<lambda>(name, x, y). (name,
       if take 1 name = ''A''
       then \<lparr>ss_slot_id = name, ss_center_x = x, ss_center_y = y, ss_target_heading_deg = 270,
             ss_width = 200, ss_length = 300, ss_entry_side = TOP\<rparr>
       else \<lparr>ss_slot_id = name, ss_center_x = x, ss_center_y = y, ss_target_heading_deg = 90,
             ss_width = 200, ss_length = 300, ss_entry_side = BOTTOM\<rparr>)) SLOT_COORDINATES"

definition make_wp :: "int \<Rightarrow> int \<Rightarrow> phase \<Rightarrow> real \<Rightarrow> real \<Rightarrow> real option \<Rightarrow> bool \<Rightarrow> waypoint" where
  "make_wp route_id wp_id ph x y heading is_final =
     \<lparr>wp_route_id = route_id, wp_waypoint_id = wp_id, wp_phase = ph, wp_x = x, wp_y = y,
      wp_target_heading_deg = heading, wp_speed_cm_s = pd_speed_cm_s (PHASE_DEFAULTS ph),
      wp_position_tolerance_cm = pd_position_tolerance_cm (PHASE_DEFAULTS ph),
      wp_heading_tolerance_deg = pd_heading_tolerance_deg (PHASE_DEFAULTS ph),
      wp_heading_required = (heading \<noteq> None), wp_is_final = is_final\<rparr>"

datatype build_error = EmptyRoute | UnknownNode string | UnknownSlot string

text \<open>The loop over the lane nodes; a node without coordinates is a \<open>KeyError\<close>.\<close>

fun cruise_wps :: "int \<Rightarrow> int \<Rightarrow> string list \<Rightarrow> build_error + (waypoint list \<times> int)" where
  "cruise_wps route_id wp_id [] = Inr ([], wp_id)"
| "cruise_wps route_id wp_id (node # nodes) = (case node_at node of
       None \<Rightarrow> Inl (UnknownNode node)
     | Some (nx, ny) \<Rightarrow>
         (case cruise_wps route_id (wp_id + 1) nodes of
            Inl e \<Rightarrow> Inl e
          | Inr (wps, n) \<Rightarrow> Inr (make_wp route_id wp_id CRUISE nx ny None False # wps, n)))"

definition dir_y :: "slot_spec \<Rightarrow> real" where
  "dir_y slot = (if ss_entry_side slot = BOTTOM then 1 else - 1)"

definition entry_y :: "slot_spec \<Rightarrow> real" where
  "entry_y slot = ss_center_y slot - dir_y slot * (ss_length slot / 2)"

definition align_y :: "slot_spec \<Rightarrow> real" where
  "align_y slot = entry_y slot - dir_y slot * (ss_length slot * (5 / 10))"

definition approach_y :: "slot_spec \<Rightarrow> real" where
  "approach_y slot = entry_y slot - dir_y slot * (ss_length slot * (9 / 10))"

definition build_waypoints ::
  "slot_spec \<Rightarrow> int \<Rightarrow> string list option \<Rightarrow> build_error + waypoint list" where
  "build_waypoints slot route_id route_nodes =
     (case (case route_nodes of Some ns \<Rightarrow> Some ns | None \<Rightarrow> slot_route (ss_slot_id slot)) of
        None \<Rightarrow> Inl (UnknownSlot (ss_slot_id slot))
      | Some nodes \<Rightarrow>
          if nodes = [] then Inl EmptyRoute
          else (case cruise_wps route_id 1 (butlast nodes) of
              Inl e \<Rightarrow> Inl e
            | Inr (wps, wp_id) \<Rightarrow>
                let x = ss_center_x slot; heading = Some (ss_target_heading_deg slot)
                in Inr (wps @
                  [make_wp route_id wp_id APPROACH x (approach_y slot) None False,
                   make_wp route_id (wp_id + 1) ALIGN x (align_y slot) heading False,
                   make_wp route_id (wp_id + 2) ENTRY x (entry_y slot) heading False,
                   make_wp route_id (wp_id + 3) FINAL x (ss_center_y slot) heading True])))"

section \<open>Arrival\<close>

text \<open>The angular distance \<open>abs((h - t + 180) % 360 - 180)\<close>.\<close>

definition angle_off :: "real \<Rightarrow> real \<Rightarrow> real" where
  "angle_off h t = \<bar>pymod (h - t + 180) 360 - 180\<bar>"

definition heading_met :: "waypoint \<Rightarrow> real option \<Rightarrow> bool" where
  "heading_met w heading_deg =
     (\<not> wp_heading_required w \<or>
      (case heading_deg of
         None \<Rightarrow> False
       | Some h \<Rightarrow>
           angle_off h (case wp_target_heading_deg w of Some t \<Rightarrow> t | None \<Rightarrow> 0) \<le> wp_heading_tolerance_deg w))"

definition is_waypoint_reached :: "waypoint \<Rightarrow> real \<times> real \<Rightarrow> real option \<Rightarrow> bool" where
  "is_waypoint_reached w position heading_deg =
     (if hypot (fst position - wp_x w) (snd position - wp_y w) > wp_position_tolerance_cm w * 10 then False
      else heading_met w heading_deg)"

lemma angle_off_bounds: "0 \<le> angle_off h t \<and> angle_off h t \<le> 180"
  using pymod_bounds [of 360 "h - t + 180"] by (auto simp: angle_off_def abs_le_iff)

lemma angle_off_turns: "angle_off (h + 360 * of_int k) t = angle_off h t"
proof -
  have eq: "h + 360 * of_int k - t + 180 = (h - t + 180) + 360 * of_int k" by simp
  show ?thesis unfolding angle_off_def eq by (simp only: pymod_shift zero_less_numeral)
qed

section \<open>Properties\<close>

lemma map_const_replicate: "\<forall>x \<in> set xs. f x = c \<Longrightarrow> map f xs = replicate (length xs) c"
  by (induction xs) simp_all

lemma cruise_wps_Inr:
  "cruise_wps rid n nodes = Inr (wps, m) \<Longrightarrow>
     m = n + int (length nodes) \<and> length wps = length nodes \<and>
     map wp_waypoint_id wps = map (\<lambda>i. n + int i) [0..<length nodes] \<and>
     list_all (\<lambda>w. wp_route_id w = rid \<and> wp_phase w = CRUISE \<and> \<not> wp_is_final w \<and> \<not> wp_heading_required w) wps"
proof (induction rid n nodes arbitrary: wps m rule: cruise_wps.induct)
  case (1 rid n)
  then show ?case by simp
next
  case (2 rid n node nodes)
  obtain p q w' m' where *: "node_at node = Some (p, q)" "cruise_wps rid (n + 1) nodes = Inr (w', m')"
    "wps = make_wp rid n CRUISE p q None False # w'" "m = m'"
    using "2.prems" by (auto split: option.splits sum.splits)
  have "map (\<lambda>i. n + int i) [0..<Suc (length nodes)] = n # map (\<lambda>i. n + 1 + int i) [0..<length nodes]"
    by (simp add: upt_conv_Cons map_Suc_upt [symmetric] comp_def del: upt_Suc)
  then show ?case using "2.IH" [OF *(1) refl *(2)] * by (simp add: make_wp_def del: upt_Suc)
qed

text \<open>A generated route is one the vehicle can run. Its waypoint ids count up from 1 (the firmware
  refuses 0), all carry the route's id, the phases are \<open>CRUISE\<close>* then \<open>APPROACH\<close>, \<open>ALIGN\<close>, \<open>ENTRY\<close>,
  \<open>FINAL\<close>, only the last is final, and exactly the last three fix a heading, the slot's.\<close>

theorem build_waypoints_shape:
  assumes "build_waypoints slot route_id route_nodes = Inr wps"
  shows "map wp_waypoint_id wps = map (\<lambda>i. 1 + int i) [0..<length wps]
     \<and> list_all (\<lambda>w. wp_route_id w = route_id) wps
     \<and> (\<exists>cr. map wp_phase wps = replicate cr CRUISE @ [APPROACH, ALIGN, ENTRY, FINAL])
     \<and> map wp_is_final wps = replicate (length wps - 1) False @ [True]
     \<and> list_all (\<lambda>w. wp_target_heading_deg w = (if wp_heading_required w
            then Some (ss_target_heading_deg slot) else None) \<or> wp_phase w = CRUISE) wps
     \<and> wp_x (last wps) = ss_center_x slot \<and> wp_y (last wps) = ss_center_y slot"
proof -
  obtain nodes cr n where *: "nodes \<noteq> []" "cruise_wps route_id 1 (butlast nodes) = Inr (cr, n)"
    "wps = cr @ [make_wp route_id n APPROACH (ss_center_x slot) (approach_y slot) None False,
       make_wp route_id (n + 1) ALIGN (ss_center_x slot) (align_y slot) (Some (ss_target_heading_deg slot)) False,
       make_wp route_id (n + 2) ENTRY (ss_center_x slot) (entry_y slot) (Some (ss_target_heading_deg slot)) False,
       make_wp route_id (n + 3) FINAL (ss_center_x slot) (ss_center_y slot) (Some (ss_target_heading_deg slot)) True]"
    using assms by (auto simp: build_waypoints_def Let_def split: option.splits sum.splits if_splits)
  note c = cruise_wps_Inr [OF *(2)]
  have len: "length wps = length cr + 4" "n = 1 + int (length cr)" using *(3) c by simp_all
  have "[0..<length cr + 4] = [0..<length cr] @ [length cr, length cr + 1, length cr + 2, length cr + 3]"
    by (simp add: numeral_eq_Suc)
  then have ids: "map (\<lambda>i. 1 + int i) [0..<length wps] =
     map (\<lambda>i. 1 + int i) [0..<length cr] @ [n, n + 1, n + 2, n + 3]"
    unfolding len by simp
  have ph: "map wp_phase cr = replicate (length cr) CRUISE" "map wp_is_final cr = replicate (length cr) False"
    using c map_const_replicate [of cr wp_phase CRUISE] map_const_replicate [of cr wp_is_final False]
    by (simp_all add: list_all_iff)
  have cr: "list_all (\<lambda>w. wp_route_id w = route_id \<and> wp_phase w = CRUISE) cr"
    using c by (auto simp: list_all_iff)
  have "map wp_waypoint_id wps = map (\<lambda>i. 1 + int i) [0..<length wps]"
    unfolding ids using c by (simp add: *(3) make_wp_def)
  moreover have "list_all (\<lambda>w. wp_route_id w = route_id) wps"
    using cr by (simp add: *(3) make_wp_def list_all_iff)
  moreover have "map wp_phase wps = replicate (length cr) CRUISE @ [APPROACH, ALIGN, ENTRY, FINAL]"
    using ph(1) by (simp add: *(3) make_wp_def)
  moreover have "map wp_is_final wps = replicate (length wps - 1) False @ [True]"
    using ph(2) len by (simp add: *(3) make_wp_def numeral_eq_Suc replicate_app_Cons_same)
  moreover have "list_all (\<lambda>w. wp_target_heading_deg w = (if wp_heading_required w
            then Some (ss_target_heading_deg slot) else None) \<or> wp_phase w = CRUISE) wps"
    using cr by (simp add: *(3) make_wp_def list_all_iff)
  moreover have "wp_x (last wps) = ss_center_x slot" "wp_y (last wps) = ss_center_y slot"
    by (simp_all add: *(3) make_wp_def)
  ultimately show ?thesis by blast
qed

theorem build_waypoints_shape_witness:
  "\<exists>wps. build_waypoints (the (map_of default_slot_specs ''A1'')) 7 None = Inr wps \<and>
     map wp_waypoint_id wps = [1, 2, 3, 4, 5, 6, 7]"
proof -
  obtain wps where wps: "build_waypoints (the (map_of default_slot_specs ''A1'')) 7 None = Inr wps"
    "length wps = 7"
    by (auto simp: default_slot_specs_def SLOT_COORDINATES_def build_waypoints_def slot_route_def
        SLOT_ROUTES_def node_at_def NODE_COORDINATES_def Let_def)
  have "map wp_waypoint_id wps = map (\<lambda>i. 1 + int i) [0..<7]"
    using build_waypoints_shape [OF wps(1)] wps(2) by simp
  then show ?thesis using wps(1) by (simp add: upt_rec)
qed

definition wire_heading :: "waypoint \<Rightarrow> real" where
  "wire_heading w = (case wp_target_heading_deg w of Some h \<Rightarrow> round_dec 3 (pymod h 360) | None \<Rightarrow> 0)"

lemma to_wire_explicit:
  "to_wire w = [(''route_id'', JInt (wp_route_id w)), (''waypoint_id'', JInt (wp_waypoint_id w)),
      (''phase'', JStr (phase_name (wp_phase w))), (''target_heading_deg'', jreal (wire_heading w)),
      (''speed_cm_s'', jreal (wp_speed_cm_s w)),
      (''position_tolerance_cm'', jreal (wp_position_tolerance_cm w)),
      (''heading_tolerance_deg'', jreal (wp_heading_tolerance_deg w)),
      (''heading_required'', JBool (wp_heading_required w)), (''is_final'', JBool (wp_is_final w)),
      (''x_cm'', jreal (round_dec 1 (wp_x w / 10))), (''y_cm'', jreal (round_dec 1 (wp_y w / 10))),
      (''motion_direction'', JStr ''FORWARD''), (''arrival_mode'', JStr ''STOP'')]"
  by (simp add: to_wire_def Let_def dset_def dsetdefault_def ddel_def wire_heading_def split: option.splits)

lemma wire_heading_range: "0 \<le> wire_heading w \<and> wire_heading w \<le> 360"
proof -
  have "0 \<le> round_dec 3 (pymod t 360) \<and> round_dec 3 (pymod t 360) \<le> 360" for t
    using round_dec_bounds [of 0 "pymod t 360" 360 3] pymod_bounds [of 360 t] by simp
  then show ?thesis by (simp add: wire_heading_def split: option.splits)
qed

lemma wire_heading_full: "wp_target_heading_deg w = Some (3599996 / 10000) \<Longrightarrow> wire_heading w = 360"
proof -
  have "py_round (3599996 / 10) = 360000"
    by (simp add: py_round_def Let_def)
  then have "round_dec 3 (3599996 / 10000) = 360" by (simp add: round_dec_def)
  then show "wp_target_heading_deg w = Some (3599996 / 10000) \<Longrightarrow> wire_heading w = 360"
    by (simp add: wire_heading_def pymod_id)
qed

text \<open>What goes on the wire is complete and canonical. Every waypoint message carries centimetre
  coordinates within 0.05 cm of the planned millimetre ones, the default manoeuvre, no \<open>x\<close>/\<open>y\<close>,
  and a heading in \<open>[0, 360]\<close> even where no heading is required; 360.0 itself is sent for targets
  that round up to it, although the firmware's range ends below it.\<close>

theorem to_wire_fields:
  "(\<exists>x y h. dget (to_wire w) ''x_cm'' = jreal x \<and> \<bar>x - wp_x w / 10\<bar> \<le> 1 / 20
     \<and> dget (to_wire w) ''y_cm'' = jreal y \<and> \<bar>y - wp_y w / 10\<bar> \<le> 1 / 20
     \<and> dget (to_wire w) ''target_heading_deg'' = jreal h \<and> 0 \<le> h \<and> h \<le> 360)
   \<and> dget (to_wire w) ''motion_direction'' = JStr ''FORWARD''
   \<and> dget (to_wire w) ''arrival_mode'' = JStr ''STOP''
   \<and> \<not> dhas (to_wire w) ''x'' \<and> \<not> dhas (to_wire w) ''y''
   \<and> dget (to_wire (w\<lparr>wp_target_heading_deg := Some (3599996 / 10000)\<rparr>)) ''target_heading_deg'' = jreal 360"
  using round_dec_near [of 1 "wp_x w / 10"] round_dec_near [of 1 "wp_y w / 10"] wire_heading_range [of w]
    wire_heading_full [of "w\<lparr>wp_target_heading_deg := Some (3599996 / 10000)\<rparr>"]
  by (simp add: to_wire_explicit)

end
