(* ===== verification/Orchestrator.thy ===== *)
theory Orchestrator
  imports Comm_Server Waypoints
begin

text \<open>
  \<open>integrated/host/comm/orchestrator.py\<close>: the mission of every car as a state machine over the server.
  A call works on the orchestrator and the server together and gives, besides them, what it did in
  order and the exception it ended with, if any; what was done before the exception stays done.
\<close>

section \<open>State\<close>

datatype mission_state = IDLE | DRIVING | SWITCHING | LOADING | RESUMING | HELD | PARKED_CHECK | DONE

record mission =
  m_car_id :: int
  m_route_id :: int
  m_waypoints :: "waypoint list"
  m_index :: nat
  m_state :: mission_state
  m_slot_id :: "string option"

definition current :: "mission \<Rightarrow> waypoint option" where
  "current m = (if m_index m < length (m_waypoints m) then Some (m_waypoints m ! m_index m) else None)"

record orchestrator =
  o_camera_lead_cm :: real
  o_missions :: "int \<Rightarrow> mission option"
  o_route_counter :: int

datatype exn = RuntimeErr | ValueErr | IndexErr | AttributeErr

datatype orch_out = Net server_out | OnParked int string | OnReplanRequired int string

type_synonym world = "orchestrator \<times> vehicle_server"
type_synonym outcome = "world \<times> orch_out list \<times> exn option"

definition orch_new :: "real \<Rightarrow> orchestrator" where
  "orch_new lead = \<lparr>o_camera_lead_cm = lead, o_missions = (\<lambda>_. None), o_route_counter = 0\<rparr>"

definition set_mission :: "mission \<Rightarrow> int \<Rightarrow> world \<Rightarrow> world" where
  "set_mission m c w = ((fst w)\<lparr>o_missions := (o_missions (fst w))(c \<mapsto> m)\<rparr>, snd w)"

definition next_route_id :: "orchestrator \<Rightarrow> orchestrator \<times> int" where
  "next_route_id orch =
     (orch\<lparr>o_route_counter := o_route_counter orch + 1\<rparr>, o_route_counter orch + 1)"

section \<open>Commands through the server\<close>

text \<open>A send, then the change of the mission that follows it; an exception skips the change.\<close>

definition after_send ::
  "('e \<Rightarrow> exn) \<Rightarrow> 'e + (vehicle_server \<times> server_out list \<times> int) \<Rightarrow> world \<Rightarrow> (world \<Rightarrow> world) \<Rightarrow> outcome" where
  "after_send err res w k = (case res of
       Inl e \<Rightarrow> (w, [], Some (err e))
     | Inr (srv, out, _) \<Rightarrow> (k (fst w, srv), map Net out, None))"

definition runtime :: "runtime_error \<Rightarrow> exn" where
  "runtime e = RuntimeErr"

definition wait_err :: "runtime_error + value_error \<Rightarrow> exn" where
  "wait_err e = (case e of Inl _ \<Rightarrow> RuntimeErr | Inr _ \<Rightarrow> ValueErr)"

definition load_current :: "real \<Rightarrow> int \<Rightarrow> mission \<Rightarrow> world \<Rightarrow> outcome" where
  "load_current now c m w = (case current m of
       None \<Rightarrow> (w, [], Some AttributeErr)
     | Some wp \<Rightarrow>
         after_send runtime (send_waypoint now (m_car_id m) (to_wire wp) (snd w)) w
           (set_mission (m\<lparr>m_state := LOADING\<rparr>) c))"

section \<open>Operations\<close>

definition start_mission :: "real \<Rightarrow> int \<Rightarrow> waypoint list \<Rightarrow> string option \<Rightarrow> world \<Rightarrow> outcome" where
  "start_mission now c waypoints slot_id w =
     (if waypoints = [] then (w, [], Some ValueErr)
      else
        let m = \<lparr>m_car_id = c, m_route_id = wp_route_id (hd waypoints), m_waypoints = waypoints,
                 m_index = 0, m_state = IDLE, m_slot_id = slot_id\<rparr>
        in load_current now c m (set_mission m c w))"

definition hold :: "real \<Rightarrow> int \<Rightarrow> string \<Rightarrow> world \<Rightarrow> outcome" where
  "hold now c reason w = (case o_missions (fst w) c of
       None \<Rightarrow> (w, [], None)
     | Some m \<Rightarrow>
         if m_state m \<in> {DONE, IDLE} then (w, [], None)
         else after_send wait_err
           (send_wait now c reason (m_route_id m)
              (case current m of Some wp \<Rightarrow> wp_waypoint_id wp | None \<Rightarrow> 0) (snd w))
           w (set_mission (m\<lparr>m_state := HELD\<rparr>) c))"

definition mark_link_lost :: "int \<Rightarrow> world \<Rightarrow> world \<times> bool" where
  "mark_link_lost c w = (case o_missions (fst w) c of
       None \<Rightarrow> (w, False)
     | Some m \<Rightarrow>
         if m_state m \<in> {DONE, IDLE} then (w, False)
         else (set_mission (m\<lparr>m_state := HELD\<rparr>) c w, True))"

definition resume :: "real \<Rightarrow> int \<Rightarrow> world \<Rightarrow> outcome" where
  "resume now c w = (case o_missions (fst w) c of
       None \<Rightarrow> (w, [], None)
     | Some m \<Rightarrow>
         (case current m of
            None \<Rightarrow> (w, [], None)
          | Some wp \<Rightarrow>
              if m_state m \<noteq> HELD then (w, [], None)
              else after_send runtime (send_go now c (m_route_id m) (wp_waypoint_id wp) (snd w)) w
                (set_mission (m\<lparr>m_state := RESUMING\<rparr>) c)))"

text \<open>\<open>new_waypoints[0]\<close> on an empty list is an \<open>IndexError\<close>, after the outstanding command is discarded.\<close>

definition regenerate :: "real \<Rightarrow> int \<Rightarrow> waypoint list \<Rightarrow> world \<Rightarrow> outcome" where
  "regenerate now c new_waypoints w = (case o_missions (fst w) c of
       None \<Rightarrow> (w, [], None)
     | Some m \<Rightarrow>
         let w1 = (fst w, srv_clear_outstanding c (snd w))
         in if new_waypoints = [] then (w1, [], Some IndexErr)
            else
              let m1 = m\<lparr>m_route_id := wp_route_id (hd new_waypoints), m_waypoints := new_waypoints, m_index := 0\<rparr>
              in load_current now c m1 (set_mission m1 c w1))"

text \<open>The arrival test with the lead that compensates the camera's delay.\<close>

definition reached_lead :: "real \<Rightarrow> waypoint \<Rightarrow> real \<times> real \<Rightarrow> real option \<Rightarrow> bool" where
  "reached_lead lead_cm wp pos heading =
     (if hypot (fst pos - wp_x wp) (snd pos - wp_y wp) > wp_position_tolerance_cm wp * 10 + lead_cm * 10
      then False else heading_met wp heading)"

definition update_pose :: "real \<Rightarrow> int \<Rightarrow> real \<times> real \<Rightarrow> real option \<Rightarrow> world \<Rightarrow> outcome" where
  "update_pose now c pos heading w = (case o_missions (fst w) c of
       None \<Rightarrow> (w, [], None)
     | Some m \<Rightarrow>
         (case current m of
            None \<Rightarrow> (w, [], None)
          | Some wp \<Rightarrow>
              if m_state m = DRIVING \<and> reached_lead (o_camera_lead_cm (fst w)) wp pos heading then
                (if wp_is_final wp
                 then after_send wait_err
                   (send_wait now c ''FINAL_WAYPOINT_REACHED'' (m_route_id m) (wp_waypoint_id wp) (snd w))
                   w (set_mission (m\<lparr>m_state := PARKED_CHECK\<rparr>) c)
                 else after_send wait_err
                   (send_wait now c ''WAYPOINT_REACHED'' (m_route_id m) (wp_waypoint_id wp) (snd w))
                   w (set_mission (m\<lparr>m_state := SWITCHING\<rparr>) c))
              else if m_state m = PARKED_CHECK then
                (if is_waypoint_reached wp pos heading
                 then (set_mission (m\<lparr>m_state := DONE\<rparr>) c w,
                       (case m_slot_id m of Some slot \<Rightarrow> [OnParked c slot] | None \<Rightarrow> []), None)
                 else (w, [], None))
              else (w, [], None)))"

definition target_confirmed :: "mission \<Rightarrow> pydict \<Rightarrow> bool" where
  "target_confirmed m status =
     (truthy (dget status ''target_loaded'') \<and>
      py_eq_int (dget status ''route_id'') (m_route_id m) \<and>
      py_eq_int (dget status ''waypoint_id'')
        (case current m of Some wp \<Rightarrow> wp_waypoint_id wp | None \<Rightarrow> - 1))"

definition on_vehicle_status :: "real \<Rightarrow> int \<Rightarrow> pydict \<Rightarrow> world \<Rightarrow> outcome" where
  "on_vehicle_status now c status w = (case o_missions (fst w) c of
       None \<Rightarrow> (w, [], None)
     | Some m \<Rightarrow>
         let state = dget status ''state''
         in if m_state m = SWITCHING \<and> state = JStr ''WAITING'' then
              (let m1 = m\<lparr>m_index := m_index m + 1\<rparr>
               in case current m1 of
                    None \<Rightarrow> (set_mission (m1\<lparr>m_state := DONE\<rparr>) c w, [], None)
                  | Some wp \<Rightarrow> load_current now c m1 (set_mission m1 c w))
            else if m_state m = LOADING \<and> state = JStr ''WAITING'' \<and> target_confirmed m status then
              (case current m of
                 None \<Rightarrow> (w, [], Some AttributeErr)
               | Some wp \<Rightarrow>
                   after_send runtime (send_go now c (m_route_id m) (wp_waypoint_id wp) (snd w)) w
                     (set_mission (m\<lparr>m_state := RESUMING\<rparr>) c))
            else if m_state m = RESUMING \<and> state = JStr ''MOVING''
              then (set_mission (m\<lparr>m_state := DRIVING\<rparr>) c w, [], None)
            else if m_state m = LOADING \<and> state = JStr ''READY'' then (w, [], None)
            else if m_state m = LOADING \<and> state = JStr ''MOVING''
              then (set_mission (m\<lparr>m_state := DRIVING\<rparr>) c w, [], None)
            else (w, [], None))"

definition ROUTE_RESULTS :: "string list" where
  "ROUTE_RESULTS = [''STALE_ROUTE'', ''NEW_ROUTE_REQUIRED'', ''TARGET_MISMATCH'', ''TARGET_NOT_LOADED'']"

definition CONDITION_RESULTS :: "string list" where
  "CONDITION_RESULTS = [''POSE_REQUIRED'', ''INVALID_STATE'']"

definition OPERATOR_RESULTS :: "string list" where
  "OPERATOR_RESULTS = [''LOCKED_STATE'', ''SESSION_MISMATCH'', ''PROTOCOL_ERROR'', ''SEQ_CONFLICT'', ''STALE_SEQ'']"

definition on_command_rejected :: "int \<Rightarrow> string \<Rightarrow> world \<Rightarrow> outcome" where
  "on_command_rejected c result w = (case o_missions (fst w) c of
       None \<Rightarrow> (w, [], None)
     | Some m \<Rightarrow>
         let held = set_mission (m\<lparr>m_state := HELD\<rparr>) c w
         in if result \<in> set ROUTE_RESULTS
            then (held, [OnReplanRequired c result], None)
            else if result \<in> set CONDITION_RESULTS then (held, [], None)
            else if result \<in> set OPERATOR_RESULTS
            then (held, [OnReplanRequired c result], None)
            else (w, [], None))"

section \<open>Runs\<close>

text \<open>The calls of the layers around it; \<open>ServerWork\<close> is anything the server does on its own.\<close>

datatype orch_op =
    StartMission real int "waypoint list" "string option"
  | Hold real int string
  | LinkLost int
  | Resume real int
  | Regenerate real int "waypoint list"
  | UpdatePose real int "real \<times> real" "real option"
  | VehicleStatus real int pydict
  | CommandRejected int string
  | ServerWork vehicle_server

fun orch_step :: "world \<Rightarrow> orch_op \<Rightarrow> outcome" where
  "orch_step w (StartMission now c wps slot) = start_mission now c wps slot w"
| "orch_step w (Hold now c reason) = hold now c reason w"
| "orch_step w (LinkLost c) = (fst (mark_link_lost c w), [], None)"
| "orch_step w (Resume now c) = resume now c w"
| "orch_step w (Regenerate now c wps) = regenerate now c wps w"
| "orch_step w (UpdatePose now c pos h) = update_pose now c pos h w"
| "orch_step w (VehicleStatus now c status) = on_vehicle_status now c status w"
| "orch_step w (CommandRejected c result) = on_command_rejected c result w"
| "orch_step w (ServerWork srv) = ((fst w, srv), [], None)"

section \<open>What a command puts on the wire\<close>

lemma reliable_out:
  assumes "reliable now c build srv = Inr (srv', out, n)"
  shows "\<exists>conn sid k. out = [SafeSend conn (dset (build sid) ''seq'' (JInt k))]"
proof -
  obtain r s rs o1 where "session_of srv c = Inr (r, s)"
    and send: "rs_send now (build (vs_session_id s)) (vs_sender s) = Inr (rs, o1)"
    and out: "out = map (SafeSend (vs_conn s)) (raw_sent o1)"
    using assms by (auto simp: reliable_def split: sum.splits)
  have "sender_accepts (vs_sender s) (msg_type (build (vs_session_id s)))"
    using rs_send_refused [of "vs_sender s" "build (vs_session_id s)" now] send by auto
  then have "raw_sent o1 = [dset (build (vs_session_id s)) ''seq'' (JInt (rs_seq (vs_sender s) + 1))]"
    using send by (auto simp: rs_send_accepted)
  then show ?thesis using out by auto
qed

lemma send_go_out:
  "send_go now c rid wid srv = Inr (srv', out, n) \<Longrightarrow>
     \<exists>conn msg. out = [SafeSend conn msg] \<and> dget msg ''type'' = JStr ''GO'' \<and>
       dget msg ''route_id'' = JInt rid \<and> dget msg ''waypoint_id'' = JInt wid"
  by (auto simp: send_go_def make_go_def dest!: reliable_out)

lemma base_msg_type: "dget (dupdate (base_msg t c s) [(''seq'', a), (''route_id'', b), (''waypoint_id'', d),
    (''reason'', e)]) ''type'' = JStr t"
  by simp

lemma send_wait_out:
  assumes "send_wait now c reason rid wid srv = Inr (srv', out, n)"
  shows "\<exists>conn msg. out = [SafeSend conn msg] \<and> dget msg ''type'' = JStr ''WAIT''"
proof -
  obtain r s msg where "session_of srv c = Inr (r, s)"
    and msg: "make_wait c (vs_session_id s) 0 rid wid reason = Inr msg"
    and rel: "reliable now c (\<lambda>_. msg) srv = Inr (srv', out, n)"
    using assms by (auto simp: send_wait_def checked_send_def split: sum.splits)
  have "dget msg ''type'' = JStr ''WAIT''"
    using msg by (auto simp: make_wait_def split: if_splits)
  then show ?thesis using reliable_out [OF rel] by auto
qed

lemma make_waypoint_type:
  "dget (dset (make_waypoint c sid n (to_wire wp)) ''seq'' v) ''type'' = JStr ''WAYPOINT''"
proof -
  have "map_of (dupdate d (to_wire wp)) ''type'' = map_of d ''type''" for d
    by (rule map_of_dupdate_notin) (simp add: to_wire_explicit)
  then have "dget (dupdate d (to_wire wp)) ''type'' = dget d ''type''" for d
    by (simp add: dget_def dget_or_def)
  then show ?thesis by (simp add: make_waypoint_def Let_def)
qed

lemma send_waypoint_out:
  "send_waypoint now c (to_wire wp) srv = Inr (srv', out, n) \<Longrightarrow>
     \<exists>conn msg. out = [SafeSend conn msg] \<and> dget msg ''type'' = JStr ''WAYPOINT''"
  using make_waypoint_type [of c _ 0 wp] by (auto simp: send_waypoint_def dest!: reliable_out)

text \<open>The orchestrator's outputs of one type.\<close>

definition has_type :: "string \<Rightarrow> orch_out \<Rightarrow> bool" where
  "has_type t out = (case out of Net (SafeSend conn msg) \<Rightarrow> dget msg ''type'' = JStr t | _ \<Rightarrow> False)"

lemma load_current_types:
  "load_current now c m w = (w', out, e) \<Longrightarrow> x \<in> set out \<Longrightarrow> has_type ''WAYPOINT'' x"
  by (auto simp: load_current_def after_send_def has_type_def split: option.splits sum.splits
      dest!: send_waypoint_out)

lemma has_type_unique: "has_type s x \<Longrightarrow> has_type t x \<Longrightarrow> s = t"
  by (auto simp: has_type_def split: orch_out.splits server_out.splits)

lemma start_mission_types:
  "start_mission now c wps slot w = (w', out, e) \<Longrightarrow> x \<in> set out \<Longrightarrow> has_type ''WAYPOINT'' x"
  by (auto simp: start_mission_def Let_def split: if_splits dest: load_current_types)

lemma regenerate_types:
  "regenerate now c wps w = (w', out, e) \<Longrightarrow> x \<in> set out \<Longrightarrow> has_type ''WAYPOINT'' x"
  by (auto simp: regenerate_def Let_def split: if_splits option.splits dest: load_current_types)

lemma hold_types:
  "hold now c reason w = (w', out, e) \<Longrightarrow> x \<in> set out \<Longrightarrow> has_type ''WAIT'' x"
  by (auto simp: hold_def after_send_def has_type_def split: option.splits if_splits sum.splits
      dest!: send_wait_out)

lemma update_pose_types:
  "update_pose now c pos h w = (w', out, e) \<Longrightarrow> x \<in> set out \<Longrightarrow>
     has_type ''WAIT'' x \<or> (\<exists>slot. x = OnParked c slot)"
  by (auto simp: update_pose_def after_send_def has_type_def split: option.splits if_splits sum.splits
      dest!: send_wait_out)

lemma resume_types:
  "resume now c w = (w', out, e) \<Longrightarrow> x \<in> set out \<Longrightarrow>
     has_type ''GO'' x \<and> (\<exists>m wp. o_missions (fst w) c = Some m \<and> current m = Some wp \<and> m_state m = HELD \<and>
       (\<exists>conn msg. x = Net (SafeSend conn msg) \<and> dget msg ''route_id'' = JInt (m_route_id m) \<and>
          dget msg ''waypoint_id'' = JInt (wp_waypoint_id wp)))"
  by (auto simp: resume_def after_send_def has_type_def split: option.splits if_splits sum.splits
      dest!: send_go_out)

lemma status_types:
  assumes "on_vehicle_status now c status w = (w', out, e)" "x \<in> set out"
  shows "has_type ''WAYPOINT'' x \<or>
     has_type ''GO'' x \<and> (\<exists>m wp. o_missions (fst w) c = Some m \<and> current m = Some wp \<and> m_state m = LOADING \<and>
       dget status ''state'' = JStr ''WAITING'' \<and> target_confirmed m status \<and>
       (\<exists>conn msg. x = Net (SafeSend conn msg) \<and> dget msg ''route_id'' = JInt (m_route_id m) \<and>
          dget msg ''waypoint_id'' = JInt (wp_waypoint_id wp)))"
proof (cases "o_missions (fst w) c")
  case None
  then show ?thesis using assms by (simp add: on_vehicle_status_def)
next
  case (Some m)
  show ?thesis
  proof (cases "m_state m = SWITCHING \<and> dget status ''state'' = JStr ''WAITING''")
    case True
    then show ?thesis using assms Some load_current_types
      by (auto simp: on_vehicle_status_def Let_def split: option.splits)
  next
    case False
    then show ?thesis using assms Some
      by (auto simp: on_vehicle_status_def Let_def after_send_def has_type_def
          split: option.splits if_splits sum.splits dest!: send_go_out)
  qed
qed

lemma rejected_types:
  "on_command_rejected c result w = (w', out, e) \<Longrightarrow> x \<in> set out \<Longrightarrow> \<not> has_type t x"
  by (auto simp: on_command_rejected_def has_type_def Let_def split: option.splits if_splits)

text \<open>C12: the vehicle is told to go only for a target it has. Every \<open>GO\<close> the orchestrator sends names
  the current route and waypoint of the mission, and is sent either on a \<open>WAITING\<close> status in which
  the vehicle itself reports exactly this target as loaded, or by an explicit resume of a held
  mission.\<close>

theorem go_only_for_loaded_target:
  assumes "orch_step w op = (w', out, e)" "Net (SafeSend conn msg) \<in> set out"
    and "dget msg ''type'' = JStr ''GO''"
  shows "\<exists>c m wp. o_missions (fst w) c = Some m \<and> current m = Some wp \<and>
      dget msg ''route_id'' = JInt (m_route_id m) \<and> dget msg ''waypoint_id'' = JInt (wp_waypoint_id wp) \<and>
      ((\<exists>now status. op = VehicleStatus now c status \<and> m_state m = LOADING \<and>
          dget status ''state'' = JStr ''WAITING'' \<and> target_confirmed m status) \<or>
       (\<exists>now. op = Resume now c \<and> m_state m = HELD))"
proof -
  define x where "x = Net (SafeSend conn msg)"
  have x: "x \<in> set out" "has_type ''GO'' x" using assms(2,3) by (simp_all add: x_def has_type_def)
  have no: "has_type t x \<Longrightarrow> t = ''GO''" for t using has_type_unique [OF x(2)] by blast
  show ?thesis
  proof (cases op)
    case (StartMission now c wps slot)
    then show ?thesis using assms(1) start_mission_types x(1) no by fastforce
  next
    case (Hold now c reason)
    then show ?thesis using assms(1) hold_types x(1) no by fastforce
  next
    case (LinkLost c)
    then show ?thesis using assms(1) x(1) by simp
  next
    case (Resume now c)
    then show ?thesis using assms(1) resume_types [of now c w w' out e x] x(1) by (auto simp: x_def)
  next
    case (Regenerate now c wps)
    then show ?thesis using assms(1) regenerate_types x(1) no by fastforce
  next
    case (UpdatePose now c pos h)
    then show ?thesis using assms(1) update_pose_types [of now c pos h w w' out e x] x(1) no
      by (auto simp: x_def)
  next
    case (VehicleStatus now c status)
    then show ?thesis using assms(1) status_types [of now c status w w' out e x] x(1) no
      by (fastforce simp: x_def)
  next
    case (CommandRejected c result)
    then show ?thesis using assms(1) rejected_types [of c result w w' out e x] x by auto
  next
    case (ServerWork srv)
    then show ?thesis using assms(1) x(1) by simp
  qed
qed

section \<open>Held missions\<close>

fun op_car :: "orch_op \<Rightarrow> int option" where
  "op_car (StartMission now c wps slot) = Some c"
| "op_car (Hold now c reason) = Some c"
| "op_car (LinkLost c) = Some c"
| "op_car (Resume now c) = Some c"
| "op_car (Regenerate now c wps) = Some c"
| "op_car (UpdatePose now c pos h) = Some c"
| "op_car (VehicleStatus now c status) = Some c"
| "op_car (CommandRejected c result) = Some c"
| "op_car (ServerWork srv) = None"

text \<open>Each output with the car the call was for; an exception ends the call, not the run.\<close>

definition labelled_step :: "world \<Rightarrow> orch_op \<Rightarrow> world \<times> (int option \<times> orch_out) list" where
  "labelled_step w op = (let (w', out, e) = orch_step w op in (w', map (Pair (op_car op)) out))"

definition held :: "int \<Rightarrow> world \<Rightarrow> bool" where
  "held c w = (\<exists>m. o_missions (fst w) c = Some m \<and> m_state m = HELD)"

fun releases :: "int \<Rightarrow> orch_op \<Rightarrow> bool" where
  "releases c (StartMission now c' wps slot) = (c' = c)"
| "releases c (Resume now c') = (c' = c)"
| "releases c (Regenerate now c' wps) = (c' = c)"
| "releases c _ = False"

definition no_motion :: "int \<Rightarrow> int option \<times> orch_out \<Rightarrow> bool" where
  "no_motion c x = (fst x = Some c \<longrightarrow> \<not> has_type ''WAYPOINT'' (snd x) \<and> \<not> has_type ''GO'' (snd x))"

lemma set_mission_simps [simp]:
  "o_missions (fst (set_mission m c w)) = (o_missions (fst w))(c \<mapsto> m)"
  "snd (set_mission m c w) = snd w"
  "o_camera_lead_cm (fst (set_mission m c w)) = o_camera_lead_cm (fst w)"
  by (simp_all add: set_mission_def)

lemma after_send_mission:
  "after_send err res w k = (w', out, e) \<Longrightarrow>
     (w' = w \<and> out = [] \<and> e \<noteq> None) \<or> (\<exists>srv. w' = k (fst w, srv) \<and> e = None)"
  by (auto simp: after_send_def split: sum.splits)

lemma load_current_missions:
  "load_current now c m w = (w', out, e) \<Longrightarrow>
     o_missions (fst w') = o_missions (fst w) \<or>
     (e = None \<and> o_missions (fst w') = (o_missions (fst w))(c \<mapsto> m\<lparr>m_state := LOADING\<rparr>))"
  by (auto simp: load_current_def split: option.splits dest!: after_send_mission)

text \<open>A call for another car leaves a car's mission alone.\<close>

lemma orch_step_other:
  assumes "orch_step w op = (w', out, e)" "op_car op \<noteq> Some c"
  shows "o_missions (fst w') c = o_missions (fst w) c"
proof (cases op)
  case (StartMission now c' wps slot)
  then show ?thesis using assms
    by (auto simp: start_mission_def Let_def split: if_splits dest!: load_current_missions)
next
  case (Regenerate now c' wps)
  then show ?thesis using assms
    by (auto simp: regenerate_def Let_def split: option.splits if_splits dest!: load_current_missions)
next
  case (VehicleStatus now c' status)
  then show ?thesis using assms
    by (auto simp: on_vehicle_status_def Let_def split: option.splits if_splits
        dest!: load_current_missions after_send_mission)
qed (use assms in \<open>auto simp: hold_def mark_link_lost_def resume_def update_pose_def
    on_command_rejected_def Let_def split: option.splits if_splits dest!: after_send_mission\<close>)

lemma held_step:
  assumes "held c w" "\<not> releases c op" "orch_step w op = (w', out, e)"
  shows "held c w' \<and> (op_car op = Some c \<longrightarrow>
     (\<forall>x \<in> set out. \<not> has_type ''WAYPOINT'' x \<and> \<not> has_type ''GO'' x))"
proof (cases "op_car op = Some c")
  case False
  then show ?thesis using orch_step_other [OF assms(3), of c] assms(1) by (simp add: held_def)
next
  case True
  obtain m where m: "o_missions (fst w) c = Some m" "m_state m = HELD"
    using assms(1) by (auto simp: held_def)
  show ?thesis
  proof (cases op)
    case (Hold now c' reason)
    have "x \<in> set out \<Longrightarrow> has_type ''WAIT'' x" for x
      using hold_types [of now c' reason w] Hold assms(3) by auto
    then have "x \<in> set out \<Longrightarrow> \<not> has_type ''WAYPOINT'' x \<and> \<not> has_type ''GO'' x" for x
      using has_type_unique by fastforce
    moreover have "held c w'"
      using Hold True m assms(3)
      by (auto simp: hold_def held_def split: if_splits dest!: after_send_mission)
    ultimately show ?thesis by blast
  next
    case (CommandRejected c' result)
    then show ?thesis using True m assms(3) rejected_types [of c result w w' out e]
      by (auto simp: on_command_rejected_def held_def Let_def split: if_splits)
  qed (use True m assms in \<open>auto simp: held_def mark_link_lost_def update_pose_def on_vehicle_status_def
      split: option.splits\<close>)
qed

interpretation held_latch: quiet_latch labelled_step "held c" "releases c" "no_motion c" for c
proof
  fix w op w' out
  assume a: "held c w" "\<not> releases c op" "labelled_step w op = (w', out)"
  obtain w1 out1 e where 1: "orch_step w op = (w1, out1, e)" by (metis prod_cases3)
  then have eqs: "w' = w1" "out = map (Pair (op_car op)) out1" using a(3) by (simp_all add: labelled_step_def)
  show "held c w' \<and> list_all (no_motion c) out"
    using held_step [OF a(1,2) 1] by (auto simp: eqs no_motion_def list_all_iff)
qed



theorem go_only_for_loaded_target_witness:
  "\<exists>w' out conn msg.
     let s = new_session 1 ''S1'' ''B'' 7 (reliable_new 1) 0;
         srv = (server_new [1])\<lparr>srv_heap := [0 \<mapsto> s], srv_sessions := [(1, 0)]\<rparr>;
         m = \<lparr>m_car_id = 1, m_route_id = 4, m_waypoints = [make_wp 4 1 FINAL 0 0 None True], m_index = 0,
              m_state = HELD, m_slot_id = None\<rparr>;
         w = ((orch_new 2)\<lparr>o_missions := [1 \<mapsto> m]\<rparr>, srv)
     in orch_step w (Resume 0 1) = (w', out, None) \<and> Net (SafeSend conn msg) \<in> set out \<and>
        dget msg ''route_id'' = JInt 4"
proof -
  define s where "s = new_session 1 ''S1'' ''B'' 7 (reliable_new 1) 0"
  define srv where "srv = (server_new [1])\<lparr>srv_heap := [0 \<mapsto> s], srv_sessions := [(1, 0)]\<rparr>"
  define m where "m = \<lparr>m_car_id = 1, m_route_id = 4, m_waypoints = [make_wp 4 1 FINAL 0 0 None True],
     m_index = 0, m_state = HELD, m_slot_id = None\<rparr>"
  define w where "w = ((orch_new 2)\<lparr>o_missions := [1 \<mapsto> m]\<rparr>, srv)"
  have act: "session_of srv 1 = Inr (0, s)"
    by (simp add: session_of_def active_def srv_def s_def new_session_def)
  have "sender_accepts (vs_sender s) t" for t
    by (simp add: s_def new_session_def reliable_new_def sender_accepts_def)
  then obtain srv' out n where go: "send_go 0 1 4 1 srv = Inr (srv', out, n)"
    using act by (auto simp: send_go_def reliable_def rs_send_accepted)
  obtain conn msg where out: "out = [SafeSend conn msg]" "dget msg ''type'' = JStr ''GO''"
    using send_go_out [OF go] by blast
  have step: "orch_step w (Resume 0 1) =
      (set_mission (m\<lparr>m_state := RESUMING\<rparr>) 1 (fst w, srv'), [Net (SafeSend conn msg)], None)"
    using go by (simp add: resume_def w_def m_def current_def make_wp_def after_send_def out)
  have "dget msg ''route_id'' = JInt 4"
    using go_only_for_loaded_target [OF step _ out(2)] by (auto simp: w_def m_def)
  then show ?thesis
    using step unfolding Let_def s_def [symmetric] srv_def [symmetric] m_def [symmetric] w_def [symmetric]
    by auto
qed

section \<open>Reachable worlds\<close>

text \<open>A planned route: the last waypoint, and only it, is final.\<close>

definition route_wf :: "waypoint list \<Rightarrow> bool" where
  "route_wf wps = (wps \<noteq> [] \<and> (\<forall>i < length wps. wp_is_final (wps ! i) = (Suc i = length wps)))"

fun planned :: "orch_op \<Rightarrow> bool" where
  "planned (StartMission now c wps slot) = route_wf wps"
| "planned (Regenerate now c wps) = route_wf wps"
| "planned op = True"

text \<open>The transitions of the system: calls on planned routes that return without an exception.\<close>

inductive orch_trans :: "world \<Rightarrow> orch_op \<Rightarrow> orch_out list \<Rightarrow> world \<Rightarrow> bool" where
  call: "orch_step w op = (w', out, None) \<Longrightarrow> planned op \<Longrightarrow> orch_trans w op out w'"

inductive reachable :: "world \<Rightarrow> bool" where
  init: "reachable (orch_new lead, srv)"
| step: "reachable w \<Longrightarrow> orch_trans w op out w' \<Longrightarrow> reachable w'"

inductive_cases orch_transE: "orch_trans w op out w'"

inductive_simps orch_trans_iff: "orch_trans w op out w'"

definition mission_ok :: "mission \<Rightarrow> bool" where
  "mission_ok m = (route_wf (m_waypoints m) \<and> m_index m < length (m_waypoints m) \<and>
     (m_state m = SWITCHING \<longrightarrow> Suc (m_index m) < length (m_waypoints m)) \<and>
     (m_state m \<in> {PARKED_CHECK, DONE} \<longrightarrow> Suc (m_index m) = length (m_waypoints m)))"

definition missions_ok :: "world \<Rightarrow> bool" where
  "missions_ok w = (\<forall>c m. o_missions (fst w) c = Some m \<longrightarrow> mission_ok m)"

lemma missions_okD: "missions_ok w \<Longrightarrow> o_missions (fst w) c = Some m \<Longrightarrow> mission_ok m"
  by (simp add: missions_ok_def)

lemma missions_ok_set [inv_intro]:
  "missions_ok w \<Longrightarrow> mission_ok m \<Longrightarrow> missions_ok (set_mission m c w)"
  by (simp add: missions_ok_def)

lemma missions_ok_server [simp]: "missions_ok (o', srv) \<longleftrightarrow> missions_ok (o', srv')"
  by (simp add: missions_ok_def)

lemma mission_ok_state:
  "mission_ok m \<Longrightarrow> s \<notin> {SWITCHING, PARKED_CHECK, DONE} \<Longrightarrow> mission_ok (m\<lparr>m_state := s\<rparr>)"
  by (auto simp: mission_ok_def)

lemma mission_ok_final:
  "mission_ok m \<Longrightarrow> current m = Some wp \<Longrightarrow> wp_is_final wp = (Suc (m_index m) = length (m_waypoints m))"
  by (auto simp: mission_ok_def current_def route_wf_def)

lemma mission_ok_current: "mission_ok m \<Longrightarrow> current m = Some (m_waypoints m ! m_index m)"
  by (simp add: mission_ok_def current_def)

lemma missions_ok_upd:
  "missions_ok w \<Longrightarrow> mission_ok m \<Longrightarrow> o_missions (fst w') = (o_missions (fst w))(c \<mapsto> m) \<Longrightarrow> missions_ok w'"
  by (simp add: missions_ok_def)

lemma after_send_done:
  "after_send err res w (set_mission m c) = (w', out, None) \<Longrightarrow>
     o_missions (fst w') = (o_missions (fst w))(c \<mapsto> m)"
  by (auto dest!: after_send_mission)

lemma load_current_done:
  "load_current now c m w = (w', out, None) \<Longrightarrow>
     o_missions (fst w') = (o_missions (fst w))(c \<mapsto> m\<lparr>m_state := LOADING\<rparr>)"
  by (auto simp: load_current_def split: option.splits dest!: after_send_done)

lemma fresh_mission_ok:
  "route_wf wps \<Longrightarrow> m_index m = 0 \<Longrightarrow> m_waypoints m = wps \<Longrightarrow> m_state m \<notin> {SWITCHING, PARKED_CHECK, DONE}
    \<Longrightarrow> mission_ok m"
  by (auto simp: mission_ok_def route_wf_def)

lemma orch_trans_ok:
  assumes "missions_ok w" "orch_trans w op out w'"
  shows "missions_ok w'"
proof -
  from assms(2) have st: "orch_step w op = (w', out, None)" and pl: "planned op"
    by (auto elim: orch_transE)
  show ?thesis
  proof (cases op)
    case (StartMission now c wps slot)
    define m where "m = \<lparr>m_car_id = c, m_route_id = wp_route_id (hd wps), m_waypoints = wps,
                 m_index = 0, m_state = IDLE, m_slot_id = slot\<rparr>"
    have "load_current now c m (set_mission m c w) = (w', out, None)"
      using st StartMission by (auto simp: start_mission_def m_def Let_def split: if_splits)
    from load_current_done [OF this]
    have "o_missions (fst w') = (o_missions (fst w))(c \<mapsto> m\<lparr>m_state := LOADING\<rparr>)" by simp
    moreover have "mission_ok (m\<lparr>m_state := LOADING\<rparr>)"
      using pl StartMission by (intro fresh_mission_ok) (simp_all add: m_def)
    ultimately show ?thesis using missions_ok_upd [OF assms(1)] by blast
  next
    case (Hold now c reason)
    show ?thesis
    proof (cases "o_missions (fst w) c")
      case None
      then show ?thesis using st Hold assms(1) by (simp add: hold_def)
    next
      case (Some m)
      then have "mission_ok (m\<lparr>m_state := HELD\<rparr>)" using missions_okD [OF assms(1)] mission_ok_state by blast
      then show ?thesis using st Hold Some assms(1) missions_ok_upd [OF assms(1), of _ w' c]
        by (auto simp: hold_def split: if_splits dest!: after_send_done)
    qed
  next
    case (LinkLost c)
    then show ?thesis using st assms(1)
      by (auto simp: mark_link_lost_def split: option.splits if_splits
          intro!: missions_ok_set mission_ok_state dest: missions_okD)
  next
    case (Resume now c)
    show ?thesis
    proof (cases "o_missions (fst w) c")
      case None
      then show ?thesis using st Resume assms(1) by (simp add: resume_def)
    next
      case (Some m)
      then have "mission_ok (m\<lparr>m_state := RESUMING\<rparr>)" using missions_okD [OF assms(1)] mission_ok_state by blast
      then show ?thesis using st Resume Some assms(1) missions_ok_upd [OF assms(1), of _ w' c]
        by (auto simp: resume_def split: if_splits option.splits dest!: after_send_done)
    qed
  next
    case (Regenerate now c wps)
    show ?thesis
    proof (cases "o_missions (fst w) c")
      case None
      then show ?thesis using st Regenerate assms(1) by (simp add: regenerate_def)
    next
      case (Some m)
      define m1 where "m1 = m\<lparr>m_route_id := wp_route_id (hd wps), m_waypoints := wps, m_index := 0\<rparr>"
      have "load_current now c m1 (set_mission m1 c (fst w, srv_clear_outstanding c (snd w))) = (w', out, None)"
        using st Regenerate Some by (auto simp: regenerate_def m1_def Let_def split: if_splits)
      from load_current_done [OF this]
      have "o_missions (fst w') = (o_missions (fst w))(c \<mapsto> m1\<lparr>m_state := LOADING\<rparr>)"
        by (simp add: set_mission_def)
      moreover have "mission_ok (m1\<lparr>m_state := LOADING\<rparr>)"
        using pl Regenerate by (intro fresh_mission_ok) (simp_all add: m1_def)
      ultimately show ?thesis using missions_ok_upd [OF assms(1)] by blast
    qed
  next
    case (UpdatePose now c pos h)
    show ?thesis
    proof (cases "o_missions (fst w) c")
      case None
      then show ?thesis using st UpdatePose assms(1) by (simp add: update_pose_def)
    next
      case (Some m)
      have ok: "mission_ok m" using missions_okD [OF assms(1) Some] .
      obtain wp where wp: "current m = Some wp" using mission_ok_current [OF ok] by blast
      have fin: "mission_ok (m\<lparr>m_state := PARKED_CHECK\<rparr>)" if "wp_is_final wp"
        using ok mission_ok_final [OF ok wp] that by (simp add: mission_ok_def)
      have sw: "mission_ok (m\<lparr>m_state := SWITCHING\<rparr>)" if "\<not> wp_is_final wp"
        using ok mission_ok_final [OF ok wp] that by (simp add: mission_ok_def)
      have dn: "mission_ok (m\<lparr>m_state := DONE\<rparr>)" if "m_state m = PARKED_CHECK"
        using ok that by (simp add: mission_ok_def)
      show ?thesis
        using st UpdatePose Some wp assms(1) fin sw missions_ok_set [OF assms(1) dn, of c]
          missions_ok_upd [OF assms(1) fin, of w' c] missions_ok_upd [OF assms(1) sw, of w' c]
        by (auto simp: update_pose_def split: if_splits dest!: after_send_done)
    qed
  next
    case (VehicleStatus now c status)
    show ?thesis
    proof (cases "o_missions (fst w) c")
      case None
      then show ?thesis using st VehicleStatus assms(1) by (simp add: on_vehicle_status_def)
    next
      case (Some m)
      have ok: "mission_ok m" using missions_okD [OF assms(1) Some] .
      define m1 where "m1 = m\<lparr>m_index := m_index m + 1\<rparr>"
      have next_ok: "mission_ok (m1\<lparr>m_state := LOADING\<rparr>)" "current m1 \<noteq> None" if "m_state m = SWITCHING"
        using ok that by (auto simp: mission_ok_def m1_def current_def)
      show ?thesis
      proof (cases "m_state m = SWITCHING \<and> dget status ''state'' = JStr ''WAITING''")
        case True
        then have "load_current now c m1 (set_mission m1 c w) = (w', out, None)"
          using st VehicleStatus Some next_ok(2) by (auto simp: on_vehicle_status_def m1_def Let_def)
        from load_current_done [OF this]
        have "o_missions (fst w') = (o_missions (fst w))(c \<mapsto> m1\<lparr>m_state := LOADING\<rparr>)" by simp
        then show ?thesis using missions_ok_upd [OF assms(1)] next_ok(1) True by blast
      next
        case False
        have drv: "mission_ok (m\<lparr>m_state := DRIVING\<rparr>)" "mission_ok (m\<lparr>m_state := RESUMING\<rparr>)"
          using ok by (simp_all add: mission_ok_state)
        then show ?thesis
          using st VehicleStatus Some False assms(1) missions_ok_upd [OF assms(1) drv(2), of w' c]
            missions_ok_set [OF assms(1) drv(1), of c]
          by (auto simp: on_vehicle_status_def Let_def split: if_splits option.splits dest!: after_send_done)
      qed
    qed
  next
    case (CommandRejected c result)
    then show ?thesis using st assms(1)
      by (auto simp: on_command_rejected_def Let_def split: option.splits if_splits
          intro!: missions_ok_set mission_ok_state dest: missions_okD)
  next
    case (ServerWork srv)
    then show ?thesis using st assms(1) missions_ok_server [of "fst w" srv "snd w"] by simp
  qed
qed

lemma reachable_ok: "reachable w \<Longrightarrow> missions_ok w"
proof (induction rule: reachable.induct)
  case (init lead srv)
  then show ?case by (simp add: missions_ok_def orch_new_def)
next
  case (step w op out w')
  then show ?case using orch_trans_ok by blast
qed


lemma reachable_call:
  "reachable w \<Longrightarrow> orch_step w op = (w', out, None) \<Longrightarrow> planned op \<Longrightarrow> reachable w'"
  by (rule reachable.step [OF _ orch_trans.call])

text \<open>A server with an idle live session accepts every command.\<close>

definition idle_server :: vehicle_server where
  "idle_server = (server_new [1])\<lparr>srv_heap := [0 \<mapsto> new_session 1 ''S1'' ''B'' 7 (reliable_new 1) 0],
     srv_sessions := [(1, 0)]\<rparr>"

lemma idle_server_sends:
  "\<exists>srv' out n. send_waypoint now 1 wire idle_server = Inr (srv', out, n)"
  "reason \<in> set WAIT_REASONS \<Longrightarrow> \<exists>srv' out n. send_wait now 1 reason rid wid idle_server = Inr (srv', out, n)"
proof -
  have act: "session_of idle_server 1 = Inr (0, new_session 1 ''S1'' ''B'' 7 (reliable_new 1) 0)"
    by (simp add: session_of_def active_def idle_server_def new_session_def)
  have "sender_accepts (vs_sender (new_session 1 ''S1'' ''B'' 7 (reliable_new 1) 0)) t" for t
    by (simp add: new_session_def reliable_new_def sender_accepts_def)
  then have rel: "\<exists>srv' out n. reliable now 1 build idle_server = Inr (srv', out, n)" for build
    using act by (simp add: reliable_def rs_send_accepted)
  show "\<exists>srv' out n. send_waypoint now 1 wire idle_server = Inr (srv', out, n)"
    using rel by (simp add: send_waypoint_def)
  show "\<exists>srv' out n. send_wait now 1 reason rid wid idle_server = Inr (srv', out, n)"
    if r: "reason \<in> set WAIT_REASONS"
  proof -
    obtain msg where msg: "make_wait 1 ''S1'' 0 rid wid reason = Inr msg" using r by (simp add: make_wait_def)
    have sid: "vs_session_id (new_session 1 ''S1'' ''B'' 7 (reliable_new 1) 0) = ''S1''"
      by (simp add: new_session_def)
    obtain srv' out n where "reliable now 1 (\<lambda>_. msg) idle_server = Inr (srv', out, n)" using rel by blast
    then show ?thesis using msg by (simp add: send_wait_def checked_send_def act sid)
  qed
qed


text \<open>The switch to the next waypoint is not atomic. When the \<open>WAYPOINT\<close> of a switch cannot be sent
  (its \<open>WAIT\<close> still unanswered, or no live session), the index has already moved on; the next
  \<open>WAITING\<close> status moves it again, so the final waypoint is skipped and the mission becomes \<open>DONE\<close>
  without the car having driven there and without any camera check.\<close>

theorem failed_switch_skips_waypoint:
  assumes "o_missions (fst w) c = Some m" "m_state m = SWITCHING"
    and "m_index m + 2 = length (m_waypoints m)" "dget status ''state'' = JStr ''WAITING''"
    and "send_waypoint now (m_car_id m) (to_wire (last (m_waypoints m))) (snd w) = Inl err"
  shows "\<exists>w1 w2 m2. orch_step w (VehicleStatus now c status) = (w1, [], Some RuntimeErr) \<and>
     orch_step w1 (VehicleStatus now' c status) = (w2, [], None) \<and>
     o_missions (fst w2) c = Some m2 \<and> m_state m2 = DONE"
proof -
  define m1 where "m1 = m\<lparr>m_index := Suc (m_index m)\<rparr>"
  have "m_waypoints m ! Suc (m_index m) = last (m_waypoints m)"
    using assms(3) by (cases "m_waypoints m" rule: rev_cases) auto
  then have cur: "current m1 = Some (last (m_waypoints m))" using assms(3) by (simp add: current_def m1_def)
  have 1: "orch_step w (VehicleStatus now c status) = (set_mission m1 c w, [], Some RuntimeErr)"
    using assms(1,2,4,5) cur
    by (simp add: on_vehicle_status_def m1_def [symmetric] load_current_def after_send_def runtime_def)
       (simp add: m1_def runtime_def)
  have "orch_step (set_mission m1 c w) (VehicleStatus now' c status) =
     (set_mission (m1\<lparr>m_index := Suc (m_index m1), m_state := DONE\<rparr>) c (set_mission m1 c w), [], None)"
    using assms(2,3,4) by (simp add: on_vehicle_status_def m1_def current_def)
  then show ?thesis using 1 by (intro exI conjI) (auto simp: m1_def)
qed

theorem failed_switch_skips_waypoint_witness:
  "\<exists>w1 w2 m2. orch_step ((orch_new 2)\<lparr>o_missions := [1 \<mapsto> \<lparr>m_car_id = 1, m_route_id = 4,
       m_waypoints = [make_wp 4 1 CRUISE 0 0 None False, make_wp 4 2 FINAL 900 900 None True], m_index = 0,
       m_state = SWITCHING, m_slot_id = Some ''A1''\<rparr>]\<rparr>, server_new [1])
       (VehicleStatus 0 1 [(''state'', JStr ''WAITING'')]) = (w1, [], Some RuntimeErr) \<and>
     orch_step w1 (VehicleStatus 1 1 [(''state'', JStr ''WAITING'')]) = (w2, [], None) \<and>
     o_missions (fst w2) 1 = Some m2 \<and> m_state m2 = DONE"
proof -
  define m where "m = \<lparr>m_car_id = 1, m_route_id = 4,
       m_waypoints = [make_wp 4 1 CRUISE 0 0 None False, make_wp 4 2 FINAL 900 900 None True], m_index = 0,
       m_state = SWITCHING, m_slot_id = Some ''A1''\<rparr>"
  have s: "send_waypoint 0 (m_car_id m) wire (server_new [1]) = Inl (RuntimeError ''no active session'')" for wire
    by (simp add: send_waypoint_def reliable_def session_of_def active_def server_new_def)
  show ?thesis unfolding m_def [symmetric]
    by (rule failed_switch_skips_waypoint [of _ 1 m _ 0])
      (use s in \<open>simp_all add: m_def orch_new_def\<close>)
qed

end
