(* ===== verification/Safety.thy ===== *)
theory Safety
  imports Waypoints
begin

text \<open>
  \<open>integrated/host/parking/safety.py\<close>: the collision monitor. It only decides; sending the \<open>WAIT\<close> is
  the caller's.
\<close>

section \<open>Data\<close>

type_synonym point = "real \<times> real"

definition SAFETY_DISTANCE_MM :: real where "SAFETY_DISTANCE_MM = 350"

definition PATH_CLEARANCE_MM :: real where "PATH_CLEARANCE_MM = 250"

record vehicle_pose =
  vp_car_id :: int
  vp_position :: point
  vp_next_waypoint :: "waypoint option"
  vp_progress :: real
  vp_is_moving :: bool

datatype risk = PROXIMITY | PATH_CONFLICT

record safety_event =
  se_stop_car_id :: int
  se_keep_car_id :: int
  se_reason :: risk
  se_distance_mm :: real

record collision_monitor =
  cm_safety_distance_mm :: real
  cm_path_clearance_mm :: real

definition monitor_default :: collision_monitor where
  "monitor_default = \<lparr>cm_safety_distance_mm = SAFETY_DISTANCE_MM, cm_path_clearance_mm = PATH_CLEARANCE_MM\<rparr>"

section \<open>Geometry\<close>

definition dot :: "point \<Rightarrow> point \<Rightarrow> real" where
  "dot a b = fst a * fst b + snd a * snd b"

definition sub :: "point \<Rightarrow> point \<Rightarrow> point" where
  "sub a b = (fst a - fst b, snd a - snd b)"

definition norm2 :: "point \<Rightarrow> real" where
  "norm2 p = hypot (fst p) (snd p)"

definition point_seg :: "point \<Rightarrow> point \<Rightarrow> point \<Rightarrow> real" where
  "point_seg p a b =
     (let ab = sub b a; denom = dot ab ab
      in if denom = 0 then norm2 (sub p a)
         else
           let t = max 0 (min 1 (dot (sub p a) ab / denom));
               proj = (fst a + t * fst ab, snd a + t * snd ab)
           in norm2 (sub p proj))"

definition ccw :: "point \<Rightarrow> point \<Rightarrow> point \<Rightarrow> real" where
  "ccw a b c = (fst b - fst a) * (snd c - snd a) - (snd b - snd a) * (fst c - fst a)"

definition seg_seg_distance :: "point \<Rightarrow> point \<Rightarrow> point \<Rightarrow> point \<Rightarrow> real" where
  "seg_seg_distance p1 p2 q1 q2 =
     (let d1 = ccw p1 p2 q1; d2 = ccw p1 p2 q2; d3 = ccw q1 q2 p1; d4 = ccw q1 q2 p2
      in if (0 < d1) \<noteq> (0 < d2) \<and> (0 < d3) \<noteq> (0 < d4) then 0
         else min (min (min (point_seg q1 p1 p2) (point_seg q2 p1 p2)) (point_seg p1 q1 q2)) (point_seg p2 q1 q2))"

section \<open>Decision\<close>

definition pick_waiter :: "vehicle_pose \<Rightarrow> vehicle_pose \<Rightarrow> int \<times> int" where
  "pick_waiter a b =
     (if vp_progress a = vp_progress b
      then (max (vp_car_id a) (vp_car_id b), min (vp_car_id a) (vp_car_id b))
      else if vp_progress a < vp_progress b then (vp_car_id a, vp_car_id b)
      else (vp_car_id b, vp_car_id a))"

definition pick_moving_waiter :: "vehicle_pose \<Rightarrow> vehicle_pose \<Rightarrow> int \<times> int" where
  "pick_moving_waiter a b =
     (if \<not> vp_is_moving a then (vp_car_id b, vp_car_id a)
      else if \<not> vp_is_moving b then (vp_car_id a, vp_car_id b)
      else pick_waiter a b)"

definition gap :: "vehicle_pose \<Rightarrow> vehicle_pose \<Rightarrow> real" where
  "gap a b = norm2 (sub (vp_position a) (vp_position b))"

definition check_pair :: "collision_monitor \<Rightarrow> vehicle_pose \<Rightarrow> vehicle_pose \<Rightarrow> safety_event option" where
  "check_pair cm a b =
     (if gap a b < cm_safety_distance_mm cm \<and> (vp_is_moving a \<or> vp_is_moving b) then
        (let (stop_id, keep_id) = pick_moving_waiter a b
         in Some \<lparr>se_stop_car_id = stop_id, se_keep_car_id = keep_id, se_reason = PROXIMITY,
                  se_distance_mm = round_dec 1 (gap a b)\<rparr>)
      else if vp_is_moving a \<and> vp_is_moving b then
        (case (vp_next_waypoint a, vp_next_waypoint b) of
           (Some wa, Some wb) \<Rightarrow>
             let seg_gap = seg_seg_distance (vp_position a) (wp_x wa, wp_y wa) (vp_position b) (wp_x wb, wp_y wb)
             in if seg_gap < cm_path_clearance_mm cm then
                  (let (stop_id, keep_id) = pick_waiter a b
                   in Some \<lparr>se_stop_car_id = stop_id, se_keep_car_id = keep_id, se_reason = PATH_CONFLICT,
                            se_distance_mm = round_dec 1 seg_gap\<rparr>)
                else None
         | _ \<Rightarrow> None)
      else None)"

text \<open>The pairs \<open>i < j\<close> in order.\<close>

fun check :: "collision_monitor \<Rightarrow> vehicle_pose list \<Rightarrow> safety_event list" where
  "check cm [] = []"
| "check cm (a # poses) = List.map_filter (check_pair cm a) poses @ check cm poses"

section \<open>The distance of two segments\<close>

definition on_seg :: "point \<Rightarrow> point \<Rightarrow> real \<Rightarrow> point" where
  "on_seg a b t = (fst a + t * (fst b - fst a), snd a + t * (snd b - snd a))"

lemma norm2_minus: "norm2 (sub a b) = norm2 (sub b a)"
  by (simp add: norm2_def sub_def hypot_diff_commute)

lemma point_seg_attained: "\<exists>t. 0 \<le> t \<and> t \<le> 1 \<and> point_seg p a b = norm2 (sub p (on_seg a b t))"
proof (cases "dot (sub b a) (sub b a) = 0")
  case True
  then have "point_seg p a b = norm2 (sub p (on_seg a b 0))"
    by (simp add: point_seg_def on_seg_def)
  then show ?thesis by (intro exI [of _ 0]) simp
next
  case False
  define t where "t = max 0 (min 1 (dot (sub p a) (sub b a) / dot (sub b a) (sub b a)))"
  have "point_seg p a b = norm2 (sub p (on_seg a b t))"
    using False by (simp add: point_seg_def on_seg_def t_def sub_def Let_def)
  moreover have "0 \<le> t" "t \<le> 1" by (simp_all add: t_def)
  ultimately show ?thesis by blast
qed

lemma crossing_meets:
  assumes "(0 < ccw p1 p2 q1) \<noteq> (0 < ccw p1 p2 q2)" "(0 < ccw q1 q2 p1) \<noteq> (0 < ccw q1 q2 p2)"
  shows "\<exists>s t. 0 \<le> s \<and> s \<le> 1 \<and> 0 \<le> t \<and> t \<le> 1 \<and> on_seg p1 p2 s = on_seg q1 q2 t"
proof -
  define d1 where "d1 = ccw p1 p2 q1"
  define d2 where "d2 = ccw p1 p2 q2"
  define d3 where "d3 = ccw q1 q2 p1"
  define d4 where "d4 = ccw q1 q2 p2"
  define D where "D = (fst p2 - fst p1) * (snd q2 - snd q1) - (snd p2 - snd p1) * (fst q2 - fst q1)"
  have D1: "d1 - d2 = - D" and D3: "d3 - d4 = D"
    by (simp_all add: d1_def d2_def d3_def d4_def D_def ccw_def algebra_simps)
  have ne: "D \<noteq> 0" using assms(1) D1 by (auto simp: d1_def d2_def)
  define t where "t = - d1 / D"
  define s where "s = d3 / D"
  have unit: "0 \<le> x / y \<and> x / y \<le> 1" if "y = x - z" "(0 < x) \<noteq> (0 < z)" for x y z :: real
    using that by (auto simp: zero_le_divide_iff divide_le_eq_1)
  have "0 \<le> t \<and> t \<le> 1"
    using unit [of "d1 - d2" d1 d2] assms(1) D1 by (simp add: t_def d1_def d2_def)
  moreover have "0 \<le> s \<and> s \<le> 1"
    using unit [of "d3 - d4" d3 d4] assms(2) D3 by (simp add: s_def d3_def d4_def)
  moreover have "on_seg p1 p2 s = on_seg q1 q2 t"
  proof -
    have st: "s * D = d3" "t * D = - d1" using ne by (simp_all add: s_def t_def)
    have lin: "D * (a + r * x) = D * a + (r * D) * x" for a r x :: real by (simp add: algebra_simps)
    have "D * (fst p1 + s * (fst p2 - fst p1)) = D * fst p1 + d3 * (fst p2 - fst p1)"
      unfolding lin st ..
    also have "\<dots> = D * fst q1 - d1 * (fst q2 - fst q1)"
      by (simp add: d1_def d3_def D_def ccw_def algebra_simps)
    also have "\<dots> = D * (fst q1 + t * (fst q2 - fst q1))"
      unfolding lin st by simp
    finally have x: "fst p1 + s * (fst p2 - fst p1) = fst q1 + t * (fst q2 - fst q1)" using ne by simp
    have "D * (snd p1 + s * (snd p2 - snd p1)) = D * snd p1 + d3 * (snd p2 - snd p1)"
      unfolding lin st ..
    also have "\<dots> = D * snd q1 - d1 * (snd q2 - snd q1)"
      by (simp add: d1_def d3_def D_def ccw_def algebra_simps)
    also have "\<dots> = D * (snd q1 + t * (snd q2 - snd q1))"
      unfolding lin st by simp
    finally have y: "snd p1 + s * (snd p2 - snd p1) = snd q1 + t * (snd q2 - snd q1)" using ne by simp
    show ?thesis using x y by (simp add: on_seg_def)
  qed
  ultimately show ?thesis by blast
qed

lemma on_seg_ends: "on_seg a b 0 = a" "on_seg a b 1 = b"
  by (simp_all add: on_seg_def)

lemma seg_gap_attained:
  "\<exists>s t. 0 \<le> s \<and> s \<le> 1 \<and> 0 \<le> t \<and> t \<le> 1 \<and>
     seg_seg_distance p1 p2 q1 q2 = norm2 (sub (on_seg p1 p2 s) (on_seg q1 q2 t))"
proof (cases "(0 < ccw p1 p2 q1) \<noteq> (0 < ccw p1 p2 q2) \<and> (0 < ccw q1 q2 p1) \<noteq> (0 < ccw q1 q2 p2)")
  case True
  then obtain s t where "0 \<le> s" "s \<le> 1" "0 \<le> t" "t \<le> 1" "on_seg p1 p2 s = on_seg q1 q2 t"
    using crossing_meets by blast
  moreover have "seg_seg_distance p1 p2 q1 q2 = 0" using True by (simp add: seg_seg_distance_def Let_def)
  ultimately show ?thesis by (intro exI [of _ s] exI [of _ t]) (simp add: norm2_def sub_def)
next
  case False
  have q: "\<exists>s t. 0 \<le> s \<and> s \<le> 1 \<and> 0 \<le> t \<and> t \<le> 1 \<and>
      point_seg x p1 p2 = norm2 (sub (on_seg p1 p2 s) (on_seg q1 q2 t))" if "x = q1 \<or> x = q2" for x
    using that point_seg_attained [of x p1 p2] on_seg_ends [of q1 q2] norm2_minus
    by (metis zero_le_one order_refl)
  have p: "\<exists>s t. 0 \<le> s \<and> s \<le> 1 \<and> 0 \<le> t \<and> t \<le> 1 \<and>
      point_seg x q1 q2 = norm2 (sub (on_seg p1 p2 s) (on_seg q1 q2 t))" if "x = p1 \<or> x = p2" for x
    using that point_seg_attained [of x q1 q2] on_seg_ends [of p1 p2]
    by (metis zero_le_one order_refl)
  have "seg_seg_distance p1 p2 q1 q2 \<in>
      {point_seg q1 p1 p2, point_seg q2 p1 p2, point_seg p1 q1 q2, point_seg p2 q1 q2}"
    using False by (auto simp: seg_seg_distance_def Let_def min_def)
  then consider "seg_seg_distance p1 p2 q1 q2 = point_seg q1 p1 p2"
    | "seg_seg_distance p1 p2 q1 q2 = point_seg q2 p1 p2"
    | "seg_seg_distance p1 p2 q1 q2 = point_seg p1 q1 q2"
    | "seg_seg_distance p1 p2 q1 q2 = point_seg p2 q1 q2" by blast
  then show ?thesis using q [of q1] q [of q2] p [of p1] p [of p2] by cases simp_all
qed

text \<open>The clamped projection is the nearest point of the segment.\<close>

lemma norm2_le: "(fst p)\<^sup>2 + (snd p)\<^sup>2 \<le> (fst q)\<^sup>2 + (snd q)\<^sup>2 \<Longrightarrow> norm2 p \<le> norm2 q"
  by (simp add: norm2_def hypot_def)

lemma quadratic_clamp:
  fixes C B t :: real
  assumes "0 < C" "0 \<le> t" "t \<le> 1"
  shows "(max 0 (min 1 (B / C)))\<^sup>2 * C - 2 * max 0 (min 1 (B / C)) * B \<le> t\<^sup>2 * C - 2 * t * B"
proof -
  define r where "r = B / C"
  define u where "u = max 0 (min 1 r)"
  have B: "B = r * C" using assms(1) by (simp add: r_def)
  have "0 \<le> (t - u) * (t + u - 2 * r)"
  proof -
    consider "u = r" | "u = 0" "r \<le> 0" | "u = 1" "1 \<le> r" by (fastforce simp: u_def)
    then show ?thesis
    proof cases
      case 1
      then show ?thesis by (simp add: algebra_simps power2_eq_square [symmetric])
    next
      case 2
      then show ?thesis using assms(2) by (intro mult_nonneg_nonneg) simp_all
    next
      case 3
      then show ?thesis using assms(3) by (intro mult_nonpos_nonpos) simp_all
    qed
  qed
  then have "0 \<le> C * ((t - u) * (t + u - 2 * r))" using assms(1) by simp
  then show ?thesis
    unfolding r_def [symmetric] u_def [symmetric] by (simp add: B power2_eq_square algebra_simps)
qed

lemma point_seg_le:
  assumes "0 \<le> t" "t \<le> 1" shows "point_seg p a b \<le> norm2 (sub p (on_seg a b t))"
proof -
  define ab where "ab = sub b a"
  define B where "B = dot (sub p a) ab"
  define C where "C = dot ab ab"
  have sq: "(fst (sub p (on_seg a b u)))\<^sup>2 + (snd (sub p (on_seg a b u)))\<^sup>2 =
      dot (sub p a) (sub p a) + (u\<^sup>2 * C - 2 * u * B)" for u
    by (simp add: on_seg_def sub_def dot_def B_def C_def ab_def power2_eq_square algebra_simps)
  show ?thesis
  proof (cases "C = 0")
    case True
    then have "fst ab = 0" "snd ab = 0" by (simp_all add: C_def dot_def sum_squares_eq_zero_iff)
    then show ?thesis by (simp add: point_seg_def on_seg_def ab_def dot_def sub_def)
  next
    case False
    have "0 \<le> C" by (simp add: C_def dot_def)
    then have pos: "0 < C" using False by simp
    define u where "u = max 0 (min 1 (B / C))"
    have "point_seg p a b = norm2 (sub p (on_seg a b u))"
      using False by (simp add: point_seg_def on_seg_def u_def B_def C_def ab_def sub_def Let_def)
    also have "\<dots> \<le> norm2 (sub p (on_seg a b t))"
      using quadratic_clamp [OF pos assms, of B] by (intro norm2_le) (simp only: sq u_def [symmetric])
    finally show ?thesis .
  qed
qed

text \<open>The four end-point distances bound every pair with one parameter at an end.\<close>

definition end_gap :: "point \<Rightarrow> point \<Rightarrow> point \<Rightarrow> point \<Rightarrow> real" where
  "end_gap p1 p2 q1 q2 =
     min (min (min (point_seg q1 p1 p2) (point_seg q2 p1 p2)) (point_seg p1 q1 q2)) (point_seg p2 q1 q2)"

lemma end_gap_le:
  assumes "0 \<le> s" "s \<le> 1" "0 \<le> t" "t \<le> 1" "s \<in> {0, 1} \<or> t \<in> {0, 1}"
  shows "end_gap p1 p2 q1 q2 \<le> norm2 (sub (on_seg p1 p2 s) (on_seg q1 q2 t))"
proof -
  have "point_seg p1 q1 q2 \<le> norm2 (sub (on_seg p1 p2 0) (on_seg q1 q2 t))"
    "point_seg p2 q1 q2 \<le> norm2 (sub (on_seg p1 p2 1) (on_seg q1 q2 t))"
    "point_seg q1 p1 p2 \<le> norm2 (sub (on_seg p1 p2 s) (on_seg q1 q2 0))"
    "point_seg q2 p1 p2 \<le> norm2 (sub (on_seg p1 p2 s) (on_seg q1 q2 1))"
    using point_seg_le [OF assms(3,4), of p1 q1 q2] point_seg_le [OF assms(3,4), of p2 q1 q2]
      point_seg_le [OF assms(1,2), of q1 p1 p2] point_seg_le [OF assms(1,2), of q2 p1 p2]
    unfolding on_seg_ends by (simp_all only: norm2_minus [of q1] norm2_minus [of q2])
  then show ?thesis using assms(5) by (auto simp: end_gap_def min_le_iff_disj)
qed

text \<open>Leaving the unit square on the straight way to a point outside it.\<close>

lemma exit_unit:
  fixes x y :: real
  assumes "0 \<le> x" "x \<le> 1"
  shows "\<exists>l. 0 \<le> l \<and> l \<le> 1 \<and> (\<forall>m. 0 \<le> m \<and> m \<le> l \<longrightarrow> 0 \<le> x + m * (y - x) \<and> x + m * (y - x) \<le> 1) \<and>
     (if 0 \<le> y \<and> y \<le> 1 then l = 1 else x + l * (y - x) \<in> {0, 1})"
proof -
  have conv: "x + m * (y - x) = (1 - m) * x + m * y" for m by (simp add: algebra_simps)
  consider "0 \<le> y" "y \<le> 1" | "1 < y" | "y < 0" by linarith
  then show ?thesis
  proof cases
    case 1
    have "0 \<le> (1 - m) * x + m * y \<and> (1 - m) * x + m * y \<le> 1" if "0 \<le> m" "m \<le> 1" for m
    proof
      show "0 \<le> (1 - m) * x + m * y" using that assms 1 by simp
      have "(1 - m) * x \<le> (1 - m) * 1" "m * y \<le> m * 1" using that assms 1 by (intro mult_left_mono; simp)+
      then show "(1 - m) * x + m * y \<le> 1" by simp
    qed
    then show ?thesis using 1 by (intro exI [of _ 1]) (simp add: conv)
  next
    case 2
    define l where "l = (1 - x) / (y - x)"
    have l: "0 \<le> l" "l \<le> 1" "l * (y - x) = 1 - x" using 2 assms by (simp_all add: l_def field_simps)
    have "0 \<le> x + m * (y - x) \<and> x + m * (y - x) \<le> 1" if "0 \<le> m" "m \<le> l" for m
    proof -
      have "0 \<le> m * (y - x)" "m * (y - x) \<le> l * (y - x)"
        using that 2 assms by (simp_all add: mult_right_mono)
      then show ?thesis using l(3) assms by linarith
    qed
    then show ?thesis using l 2 by (intro exI [of _ l]) auto
  next
    case 3
    define l where "l = x / (x - y)"
    have l: "0 \<le> l" "l \<le> 1" using 3 assms by (simp_all add: l_def field_simps)
    have lx: "l * (y - x) = - x" using 3 assms by (simp add: l_def field_simps)
    have "0 \<le> x + m * (y - x) \<and> x + m * (y - x) \<le> 1" if "0 \<le> m" "m \<le> l" for m
    proof -
      have "m * (y - x) \<le> 0" "l * (y - x) \<le> m * (y - x)"
        using that 3 assms by (simp_all add: mult_nonneg_nonpos mult_right_mono_neg)
      then show ?thesis using lx assms by linarith
    qed
    then show ?thesis using l lx 3 by (intro exI [of _ l]) auto
  qed
qed

lemma exit_square:
  fixes s t s' t' :: real
  assumes "0 \<le> s" "s \<le> 1" "0 \<le> t" "t \<le> 1" "\<not> (0 \<le> s' \<and> s' \<le> 1 \<and> 0 \<le> t' \<and> t' \<le> 1)"
  shows "\<exists>l. 0 \<le> l \<and> l \<le> 1 \<and> 0 \<le> s + l * (s' - s) \<and> s + l * (s' - s) \<le> 1 \<and>
     0 \<le> t + l * (t' - t) \<and> t + l * (t' - t) \<le> 1 \<and>
     (s + l * (s' - s) \<in> {0, 1} \<or> t + l * (t' - t) \<in> {0, 1})"
proof -
  obtain a where a: "0 \<le> a" "a \<le> 1" "\<And>m. 0 \<le> m \<Longrightarrow> m \<le> a \<Longrightarrow> 0 \<le> s + m * (s' - s) \<and> s + m * (s' - s) \<le> 1"
    "if 0 \<le> s' \<and> s' \<le> 1 then a = 1 else s + a * (s' - s) \<in> {0, 1}"
    using exit_unit [OF assms(1,2), of s'] by blast
  obtain b where b: "0 \<le> b" "b \<le> 1" "\<And>m. 0 \<le> m \<Longrightarrow> m \<le> b \<Longrightarrow> 0 \<le> t + m * (t' - t) \<and> t + m * (t' - t) \<le> 1"
    "if 0 \<le> t' \<and> t' \<le> 1 then b = 1 else t + b * (t' - t) \<in> {0, 1}"
    using exit_unit [OF assms(3,4), of t'] by blast
  define l where "l = min a b"
  have "s + l * (s' - s) \<in> {0, 1} \<or> t + l * (t' - t) \<in> {0, 1}"
    using a(2,4) b(2,4) assms(5) by (cases "a \<le> b") (auto simp: l_def min_def split: if_splits)
  then show ?thesis using a(1-3) b(1-3) by (intro exI [of _ l]) (auto simp: l_def)
qed

text \<open>The offset of two points that move along their segments.\<close>

lemma offset_move:
  "sub (on_seg p1 p2 (s + l * ds)) (on_seg q1 q2 (t + l * dt)) =
     (fst (sub (on_seg p1 p2 s) (on_seg q1 q2 t)) + l * (ds * (fst p2 - fst p1) - dt * (fst q2 - fst q1)),
      snd (sub (on_seg p1 p2 s) (on_seg q1 q2 t)) + l * (ds * (snd p2 - snd p1) - dt * (snd q2 - snd q1)))"
  by (simp add: sub_def on_seg_def algebra_simps)

lemma norm2_scale: "norm2 (k * x, k * y) = \<bar>k\<bar> * norm2 (x, y)"
proof -
  have "(k * x)\<^sup>2 + (k * y)\<^sup>2 = k\<^sup>2 * (x\<^sup>2 + y\<^sup>2)" by (simp add: power2_eq_square algebra_simps)
  then show ?thesis by (simp add: norm2_def hypot_def real_sqrt_mult)
qed

lemma end_gap_le_interior_cross:
  assumes "0 \<le> s" "s \<le> 1" "0 \<le> t" "t \<le> 1"
    and meet: "on_seg p1 p2 s' = on_seg q1 q2 t'"
    and out: "\<not> (0 \<le> s' \<and> s' \<le> 1 \<and> 0 \<le> t' \<and> t' \<le> 1)"
  shows "end_gap p1 p2 q1 q2 \<le> norm2 (sub (on_seg p1 p2 s) (on_seg q1 q2 t))"
proof -
  obtain l where l: "0 \<le> l" "l \<le> 1" "0 \<le> s + l * (s' - s)" "s + l * (s' - s) \<le> 1"
    "0 \<le> t + l * (t' - t)" "t + l * (t' - t) \<le> 1"
    "s + l * (s' - s) \<in> {0, 1} \<or> t + l * (t' - t) \<in> {0, 1}"
    using exit_square [OF assms(1-4) out] by blast
  define wx where "wx = fst (sub (on_seg p1 p2 s) (on_seg q1 q2 t))"
  define wy where "wy = snd (sub (on_seg p1 p2 s) (on_seg q1 q2 t))"
  have end0: "wx + ((s' - s) * (fst p2 - fst p1) - (t' - t) * (fst q2 - fst q1)) = 0"
    "wy + ((s' - s) * (snd p2 - snd p1) - (t' - t) * (snd q2 - snd q1)) = 0"
    using meet by (simp_all add: wx_def wy_def sub_def on_seg_def prod_eq_iff algebra_simps)
  then have d: "(s' - s) * (fst p2 - fst p1) - (t' - t) * (fst q2 - fst q1) = - wx"
    "(s' - s) * (snd p2 - snd p1) - (t' - t) * (snd q2 - snd q1) = - wy" by linarith+
  have "sub (on_seg p1 p2 (s + l * (s' - s))) (on_seg q1 q2 (t + l * (t' - t))) = ((1 - l) * wx, (1 - l) * wy)"
    unfolding offset_move d wx_def [symmetric] wy_def [symmetric] by (simp add: algebra_simps)
  then have "norm2 (sub (on_seg p1 p2 (s + l * (s' - s))) (on_seg q1 q2 (t + l * (t' - t)))) =
      (1 - l) * norm2 (wx, wy)"
    using l(2) by (simp add: norm2_scale)
  also have "\<dots> \<le> norm2 (wx, wy)"
    using l(1,2) mult_right_mono [of "1 - l" 1 "norm2 (wx, wy)"] by (simp add: norm2_def)
  finally show ?thesis
    using end_gap_le [OF l(3-6) l(7), of p1 p2 q1 q2] by (simp add: wx_def wy_def)
qed

lemma end_gap_le_parallel:
  assumes "0 \<le> s" "s \<le> 1" "0 \<le> t" "t \<le> 1"
    and par: "ds * (fst p2 - fst p1) = dt * (fst q2 - fst q1)" "ds * (snd p2 - snd p1) = dt * (snd q2 - snd q1)"
    and move: "2 \<le> \<bar>ds\<bar> \<or> 2 \<le> \<bar>dt\<bar>"
  shows "end_gap p1 p2 q1 q2 \<le> norm2 (sub (on_seg p1 p2 s) (on_seg q1 q2 t))"
proof -
  have "\<not> (0 \<le> s + ds \<and> s + ds \<le> 1 \<and> 0 \<le> t + dt \<and> t + dt \<le> 1)" using assms(1-4) move by linarith
  then obtain l where l: "0 \<le> s + l * ds" "s + l * ds \<le> 1" "0 \<le> t + l * dt" "t + l * dt \<le> 1"
    "s + l * ds \<in> {0, 1} \<or> t + l * dt \<in> {0, 1}"
    using exit_square [OF assms(1-4), of "s + ds" "t + dt"] by auto
  have "sub (on_seg p1 p2 (s + l * ds)) (on_seg q1 q2 (t + l * dt)) = sub (on_seg p1 p2 s) (on_seg q1 q2 t)"
    unfolding offset_move using par by simp
  then show ?thesis using end_gap_le [OF l(1-4) l(5), of p1 p2 q1 q2] by simp
qed

lemma end_gap_le_any:
  assumes "0 \<le> s" "s \<le> 1" "0 \<le> t" "t \<le> 1"
    and undetected: "\<not> ((0 < ccw p1 p2 q1) \<noteq> (0 < ccw p1 p2 q2) \<and> (0 < ccw q1 q2 p1) \<noteq> (0 < ccw q1 q2 p2))"
  shows "end_gap p1 p2 q1 q2 \<le> norm2 (sub (on_seg p1 p2 s) (on_seg q1 q2 t))"
proof -
  define Px where "Px = fst p2 - fst p1"
  define Py where "Py = snd p2 - snd p1"
  define Qx where "Qx = fst q2 - fst q1"
  define Qy where "Qy = snd q2 - snd q1"
  define D where "D = Px * Qy - Py * Qx"
  define d1 where "d1 = ccw p1 p2 q1"
  define d2 where "d2 = ccw p1 p2 q2"
  define d3 where "d3 = ccw q1 q2 p1"
  define d4 where "d4 = ccw q1 q2 p2"
  have D1: "d2 = d1 + D" and D3: "d4 = d3 - D"
    by (simp_all add: d1_def d2_def d3_def d4_def D_def Px_def Py_def Qx_def Qy_def ccw_def algebra_simps)
  show ?thesis
  proof (cases "D = 0")
    case False
    define t' where "t' = - d1 / D"
    define s' where "s' = d3 / D"
    have st: "s' * D = d3" "t' * D = - d1" using False by (simp_all add: s'_def t'_def)
    have lin: "D * (a + r * x) = D * a + (r * D) * x" for a r x :: real by (simp add: algebra_simps)
    have "D * (fst p1 + s' * Px) = D * (fst q1 + t' * Qx)" "D * (snd p1 + s' * Py) = D * (snd q1 + t' * Qy)"
      unfolding lin st
      by (simp_all add: d1_def d3_def D_def Px_def Py_def Qx_def Qy_def ccw_def algebra_simps)
    then have meet: "on_seg p1 p2 s' = on_seg q1 q2 t'"
      using False by (simp add: on_seg_def Px_def Py_def Qx_def Qy_def)
    show ?thesis
    proof (cases "0 \<le> s' \<and> s' \<le> 1 \<and> 0 \<le> t' \<and> t' \<le> 1")
      case out: False
      show ?thesis by (rule end_gap_le_interior_cross [OF assms(1-4) meet out])
    next
      case True
      have "s' \<in> {0, 1} \<or> t' \<in> {0, 1}"
      proof (rule ccontr)
        assume "\<not> (s' \<in> {0, 1} \<or> t' \<in> {0, 1})"
        then have in': "0 < s'" "s' < 1" "0 < t'" "t' < 1" using True by auto
        have "d1 * d2 < 0"
        proof -
          have e: "d1 = - t' * D" "d2 = (1 - t') * D" using st(2) D1 by (simp_all add: algebra_simps)
          have "d1 * d2 = - (t' * (1 - t') * D\<^sup>2)"
            unfolding e by (simp add: power2_eq_square algebra_simps)
          then show ?thesis using in' False by simp
        qed
        moreover have "d3 * d4 < 0"
        proof -
          have e: "d3 = s' * D" "d4 = (s' - 1) * D" using st(1) D3 by (simp_all add: algebra_simps)
          have "d3 * d4 = - (s' * (1 - s') * D\<^sup>2)"
            unfolding e by (simp add: power2_eq_square algebra_simps)
          then show ?thesis using in' False by simp
        qed
        ultimately show False
          using undetected unfolding d1_def [symmetric] d2_def [symmetric] d3_def [symmetric] d4_def [symmetric]
          by (auto simp: mult_less_0_iff)
      qed
      then have "end_gap p1 p2 q1 q2 \<le> norm2 (sub (on_seg p1 p2 s') (on_seg q1 q2 t'))"
        using True by (intro end_gap_le) auto
      also have "\<dots> = 0" by (simp add: meet norm2_def sub_def)
      also have "0 \<le> norm2 (sub (on_seg p1 p2 s) (on_seg q1 q2 t))" by (simp add: norm2_def)
      finally show ?thesis .
    qed
  next
    case True
    then have par: "Px * Qy = Py * Qx" by (simp add: D_def)
    have "\<exists>ds dt. ds * Px = dt * Qx \<and> ds * Py = dt * Qy \<and> (2 \<le> \<bar>ds\<bar> \<or> 2 \<le> \<bar>dt\<bar>)"
    proof (cases "Px = 0 \<and> Py = 0")
      case True
      then show ?thesis by (intro exI [of _ 2] exI [of _ 0]) simp
    next
      case False
      show ?thesis
      proof (cases "Px = 0")
        case True
        then have "Qx = 0" "Py \<noteq> 0" using par False by auto
        then show ?thesis using True by (intro exI [of _ "2 * Qy / Py"] exI [of _ 2]) simp
      next
        case x: False
        then have "2 * Qx / Px * Py = 2 * Qy" using par by (simp add: field_simps)
        then show ?thesis using x by (intro exI [of _ "2 * Qx / Px"] exI [of _ 2]) simp
      qed
    qed
    then show ?thesis
      using end_gap_le_parallel [OF assms(1-4)] unfolding Px_def Py_def Qx_def Qy_def by blast
  qed
qed

text \<open>C26: \<open>_seg_seg_distance\<close> is the distance of the two segments: no pair of points on them is nearer,
  and some pair is exactly that near; crossing, touching, parallel and degenerate segments included.\<close>

theorem seg_seg_distance_exact:
  "(\<exists>s\<in>{0..1}. \<exists>t\<in>{0..1}. seg_seg_distance p1 p2 q1 q2 = norm2 (sub (on_seg p1 p2 s) (on_seg q1 q2 t)))
   \<and> (\<forall>s\<in>{0..1}. \<forall>t\<in>{0..1}. seg_seg_distance p1 p2 q1 q2 \<le> norm2 (sub (on_seg p1 p2 s) (on_seg q1 q2 t)))"
proof
  show "\<exists>s\<in>{0..1}. \<exists>t\<in>{0..1}. seg_seg_distance p1 p2 q1 q2 = norm2 (sub (on_seg p1 p2 s) (on_seg q1 q2 t))"
    using seg_gap_attained [of p1 p2 q1 q2] by (simp add: Bex_def)
  have nonneg: "0 \<le> norm2 p" for p by (simp add: norm2_def)
  show "\<forall>s\<in>{0..1}. \<forall>t\<in>{0..1}. seg_seg_distance p1 p2 q1 q2 \<le> norm2 (sub (on_seg p1 p2 s) (on_seg q1 q2 t))"
  proof (intro ballI)
    fix s t :: real assume "s \<in> {0..1}" "t \<in> {0..1}"
    then show "seg_seg_distance p1 p2 q1 q2 \<le> norm2 (sub (on_seg p1 p2 s) (on_seg q1 q2 t))"
      using end_gap_le_any [of s t p1 p2 q1 q2] nonneg
      by (cases "(0 < ccw p1 p2 q1) \<noteq> (0 < ccw p1 p2 q2) \<and> (0 < ccw q1 q2 p1) \<noteq> (0 < ccw q1 q2 p2)")
         (simp_all add: seg_seg_distance_def Let_def end_gap_def)
  qed
qed

theorem seg_seg_distance_exact_witness: "seg_seg_distance (0, 0) (2, 0) (1, - 1) (1, 1) \<le> 0"
proof -
  have "seg_seg_distance (0, 0) (2, 0) (1, - 1) (1, 1) \<le>
      norm2 (sub (on_seg (0, 0) (2, 0) (1 / 2)) (on_seg (1, - 1) (1, 1) (1 / 2)))"
    using conjunct2 [OF seg_seg_distance_exact [of "(0, 0)" "(2, 0)" "(1, - 1)" "(1, 1)"]] by simp
  then show ?thesis by (simp add: on_seg_def sub_def norm2_def)
qed

section \<open>The monitor\<close>

lemma pick_waiter_sym: "vp_car_id a \<noteq> vp_car_id b \<Longrightarrow> pick_waiter a b = pick_waiter b a"
  by (auto simp: pick_waiter_def max_def min_def)

lemma gap_sym: "gap a b = gap b a"
  by (simp add: gap_def norm2_minus)

text \<open>The straight paths of two cars to their next waypoints.\<close>

definition path_point :: "vehicle_pose \<Rightarrow> waypoint \<Rightarrow> real \<Rightarrow> point" where
  "path_point v w t = on_seg (vp_position v) (wp_x w, wp_y w) t"

lemma check_pair_sym:
  assumes "vp_car_id a \<noteq> vp_car_id b" shows "check_pair cm a b = check_pair cm b a"
proof -
  have seg: "seg_seg_distance p1 p2 q1 q2 = seg_seg_distance q1 q2 p1 p2" for p1 p2 q1 q2
    by (auto simp: seg_seg_distance_def Let_def min_def)
  have mw: "pick_moving_waiter a b = pick_moving_waiter b a" if "vp_is_moving a \<or> vp_is_moving b"
    using that pick_waiter_sym [OF assms] by (auto simp: pick_moving_waiter_def)
  show ?thesis
    using mw pick_waiter_sym [OF assms] gap_sym [of a b] seg
    by (auto simp: check_pair_def Let_def split: option.splits)
qed

lemma check_mem:
  "e \<in> set (check cm poses) \<longleftrightarrow>
     (\<exists>i j. i < j \<and> j < length poses \<and> check_pair cm (poses ! i) (poses ! j) = Some e)"
proof (induction poses)
  case Nil
  then show ?case by simp
next
  case (Cons a poses)
  have hd: "e \<in> set (List.map_filter (check_pair cm a) poses) \<longleftrightarrow>
      (\<exists>j < length poses. check_pair cm a (poses ! j) = Some e)"
    by (force simp: List.map_filter_def in_set_conv_nth)
  show ?case (is "?l = ?r")
  proof
    assume ?l
    then consider j where "j < length poses" "check_pair cm a (poses ! j) = Some e"
      | i j where "i < j" "j < length poses" "check_pair cm (poses ! i) (poses ! j) = Some e"
      using hd Cons.IH by auto
    then show ?r
    proof cases
      case 1
      then show ?thesis by (intro exI [of _ 0] exI [of _ "Suc j"]) simp
    next
      case 2
      then show ?thesis by (intro exI [of _ "Suc i"] exI [of _ "Suc j"]) simp
    qed
  next
    assume ?r
    then obtain i j where ij: "i < j" "j < length (a # poses)"
      "check_pair cm ((a # poses) ! i) ((a # poses) ! j) = Some e" by blast
    then obtain k where k: "j = Suc k" by (cases j) auto
    show ?l
      using ij k hd Cons.IH by (cases i) auto
  qed
qed

text \<open>When two cars are in each other's way: nearer than the safety distance while one moves, or both
  moving with points of their straight paths nearer than the clearance.\<close>

definition in_conflict :: "collision_monitor \<Rightarrow> vehicle_pose \<Rightarrow> vehicle_pose \<Rightarrow> bool" where
  "in_conflict cm a b =
     (gap a b < cm_safety_distance_mm cm \<and> (vp_is_moving a \<or> vp_is_moving b) \<or>
      vp_is_moving a \<and> vp_is_moving b \<and>
      (\<exists>wa wb s t. vp_next_waypoint a = Some wa \<and> vp_next_waypoint b = Some wb \<and>
         0 \<le> s \<and> s \<le> 1 \<and> 0 \<le> t \<and> t \<le> 1 \<and>
         norm2 (sub (path_point a wa s) (path_point b wb t)) < cm_path_clearance_mm cm))"

lemma seg_lt_iff:
  "seg_seg_distance p1 p2 q1 q2 < c \<longleftrightarrow>
     (\<exists>s t. 0 \<le> s \<and> s \<le> 1 \<and> 0 \<le> t \<and> t \<le> 1 \<and> norm2 (sub (on_seg p1 p2 s) (on_seg q1 q2 t)) < c)"
proof
  assume "seg_seg_distance p1 p2 q1 q2 < c"
  then show "\<exists>s t. 0 \<le> s \<and> s \<le> 1 \<and> 0 \<le> t \<and> t \<le> 1 \<and> norm2 (sub (on_seg p1 p2 s) (on_seg q1 q2 t)) < c"
    using seg_gap_attained [of p1 p2 q1 q2] by metis
next
  assume "\<exists>s t. 0 \<le> s \<and> s \<le> 1 \<and> 0 \<le> t \<and> t \<le> 1 \<and> norm2 (sub (on_seg p1 p2 s) (on_seg q1 q2 t)) < c"
  then obtain s t where "0 \<le> s" "s \<le> 1" "0 \<le> t" "t \<le> 1"
    "norm2 (sub (on_seg p1 p2 s) (on_seg q1 q2 t)) < c" by blast
  moreover have "seg_seg_distance p1 p2 q1 q2 \<le> norm2 (sub (on_seg p1 p2 s) (on_seg q1 q2 t))"
  proof -
    have "0 \<le> norm2 (sub (on_seg p1 p2 s) (on_seg q1 q2 t))" by (simp add: norm2_def)
    then show ?thesis
      using end_gap_le_any [OF calculation(1-4), of p1 p2 q1 q2]
      by (cases "(0 < ccw p1 p2 q1) \<noteq> (0 < ccw p1 p2 q2) \<and> (0 < ccw q1 q2 p1) \<noteq> (0 < ccw q1 q2 p2)")
         (simp_all add: seg_seg_distance_def Let_def end_gap_def)
  qed
  ultimately show "seg_seg_distance p1 p2 q1 q2 < c" by linarith
qed

lemma check_pair_iff: "check_pair cm a b \<noteq> None \<longleftrightarrow> in_conflict cm a b"
  by (auto simp: check_pair_def in_conflict_def Let_def split_def seg_lt_iff path_point_def
      split: option.splits)

lemma check_pair_choice:
  assumes "check_pair cm a b = Some e"
  shows "{se_stop_car_id e, se_keep_car_id e} = {vp_car_id a, vp_car_id b} \<and>
     (\<exists>v. (v = a \<or> v = b) \<and> vp_car_id v = se_stop_car_id e \<and> vp_is_moving v)"
proof -
  have pw: "pick_waiter a b \<in> {(vp_car_id a, vp_car_id b), (vp_car_id b, vp_car_id a)}"
    by (auto simp: pick_waiter_def max_def min_def)
  show ?thesis
    using assms pw
    by (auto simp: check_pair_def pick_moving_waiter_def Let_def split_def split: if_splits option.splits)
qed



end
