(* ===== verification/Parking_Env.thy ===== *)
theory Parking_Env
  imports Parking_Map
begin

text \<open>
  \<open>integrated/host/rl/parking_env.py\<close> and \<open>rl/reward.py\<close>: the slot allocation environment: the
  reservation table with its safety shield, the traffic simulator, departures, action masks,
  observation and reward. Random draws (\<open>np_random.uniform\<close>, \<open>integers\<close>, \<open>choice\<close>) are arguments.
\<close>

section \<open>Constants\<close>

definition MAX_ACTIVE_VEHICLES :: nat where "MAX_ACTIVE_VEHICLES = 3"
definition STATE_DIM :: nat where "STATE_DIM = NUM_SLOTS + MAX_ACTIVE_VEHICLES * 3 + 3 + 1"
definition NODE_TRAVEL_TIME :: real where "NODE_TRAVEL_TIME = 1"
definition SAFETY_MARGIN :: real where "SAFETY_MARGIN = 1 / 2"
definition ARRIVAL_MIN :: real where "ARRIVAL_MIN = 8 / 10"
definition ARRIVAL_MAX :: real where "ARRIVAL_MAX = 22 / 10"
definition PARK_DURATION_MIN :: real where "PARK_DURATION_MIN = 8"
definition PARK_DURATION_MAX :: real where "PARK_DURATION_MAX = 20"
definition INITIAL_OCCUPANCY_MAX :: nat where "INITIAL_OCCUPANCY_MAX = 4"
definition MAX_STEPS :: nat where "MAX_STEPS = 64"
definition WAIT_ACTION :: nat where "WAIT_ACTION = NUM_SLOTS"
definition WAIT_TIME :: real where "WAIT_TIME = 1"
definition WAIT_PENALTY_BASE :: real where "WAIT_PENALTY_BASE = - (2 / 10)"
definition WAIT_PENALTY_INCREMENT :: real where "WAIT_PENALTY_INCREMENT = 1 / 10"
definition MAX_CONSECUTIVE_WAITS :: nat where "MAX_CONSECUTIVE_WAITS = 5"

section \<open>State\<close>

datatype res_kind = R_entering | R_parked | R_exiting

record reservation =
  r_vehicle_id :: int
  r_kind :: res_kind
  r_start :: real
  r_end :: real

datatype veh_status = Moving | Exiting

record vehicle =
  v_id :: int
  v_slot :: string
  v_slot_idx :: "nat option"
  v_route :: "string list"
  v_intervals :: "(real \<times> real) list"
  v_route_index :: nat
  v_segment_start :: real
  v_segment_end :: real
  v_current_node :: string
  v_next_node :: string
  v_position :: "real \<times> real"
  v_remaining_eta :: real
  v_status :: veh_status
  v_enter_time :: real

record parked =
  pv_id :: int
  pv_slot :: string
  pv_slot_idx :: nat
  pv_depart_time :: real

record exit_entry =
  x_id :: int
  x_slot :: string
  x_slot_idx :: nat
  x_route :: "string list"
  x_intervals :: "(real \<times> real) list"
  x_enter_time :: real

record env_config =
  wait_penalty_base :: real
  wait_penalty_increment :: real
  wait_time :: real
  max_consecutive_waits :: nat
  assignment_bonus :: real

definition env_config_default :: env_config where
  "env_config_default =
     \<lparr>wait_penalty_base = WAIT_PENALTY_BASE, wait_penalty_increment = WAIT_PENALTY_INCREMENT,
      wait_time = WAIT_TIME, max_consecutive_waits = MAX_CONSECUTIVE_WAITS, assignment_bonus = 0\<rparr>"

record penv =
  e_taken :: "bool list"
  e_active :: "vehicle list"
  e_parked :: "parked list"
  e_reservations :: "string \<Rightarrow> reservation list"
  e_time :: real
  e_iat :: real
  e_step_count :: nat
  e_terminated :: bool
  e_vehicle_id_counter :: int
  e_fallback_triggers :: nat
  e_departure_count :: nat
  e_fast_forward_count :: nat
  e_consecutive_waits :: nat
  e_wait_count :: nat
  e_slot_use_counts :: "nat list"
  e_exiting_log :: "exit_entry list"

definition init_state :: penv where
  "init_state =
     \<lparr>e_taken = replicate NUM_SLOTS False, e_active = [], e_parked = [], e_reservations = (\<lambda>_. []),
      e_time = 0, e_iat = (ARRIVAL_MIN + ARRIVAL_MAX) / 2, e_step_count = 0, e_terminated = False,
      e_vehicle_id_counter = 0, e_fallback_triggers = 0, e_departure_count = 0, e_fast_forward_count = 0,
      e_consecutive_waits = 0, e_wait_count = 0, e_slot_use_counts = replicate NUM_SLOTS 0,
      e_exiting_log = []\<rparr>"

definition entry_route :: "nat \<Rightarrow> string list" where
  "entry_route i = the (slot_route (SLOT_NAMES ! i))"

definition leave_route :: "string \<Rightarrow> string list" where
  "leave_route slot = the (exit_route slot)"

section \<open>Safety shield\<close>

fun build_intervals :: "string list \<Rightarrow> real \<Rightarrow> (real \<times> real) list" where
  "build_intervals [] t = []"
| "build_intervals (n # route) t =
     (t, t + NODE_TRAVEL_TIME) # build_intervals route (t + NODE_TRAVEL_TIME)"

text \<open>A reservation against a visit of the same node, widened by the margin.\<close>

definition clashes :: "real \<times> real \<Rightarrow> reservation \<Rightarrow> bool" where
  "clashes iv res =
     (max (fst iv - SAFETY_MARGIN) (r_start res) < min (snd iv + SAFETY_MARGIN) (r_end res))"

definition check_conflict_excluding ::
  "penv \<Rightarrow> string list \<Rightarrow> (real \<times> real) list \<Rightarrow> int option \<Rightarrow> bool" where
  "check_conflict_excluding e route intervals vehicle_id =
     list_ex (\<lambda>(node, iv). list_ex (\<lambda>res. Some (r_vehicle_id res) \<noteq> vehicle_id \<and> clashes iv res)
       (e_reservations e node)) (zip route intervals)"

definition check_conflict :: "penv \<Rightarrow> string list \<Rightarrow> (real \<times> real) list \<Rightarrow> bool" where
  "check_conflict e route intervals =
     list_ex (\<lambda>(node, iv). list_ex (clashes iv) (e_reservations e node)) (zip route intervals)"

definition quick_conflict_check :: "penv \<Rightarrow> nat \<Rightarrow> bool" where
  "quick_conflict_check e i =
     check_conflict e (entry_route i) (build_intervals (entry_route i) (e_time e))"

definition add_reservation :: "string \<Rightarrow> reservation \<Rightarrow> penv \<Rightarrow> penv" where
  "add_reservation node res e =
     e\<lparr>e_reservations := (e_reservations e)(node := e_reservations e node @ [res])\<rparr>"

fun register_reservation ::
  "(string \<times> real \<times> real) list \<Rightarrow> int \<Rightarrow> res_kind \<Rightarrow> penv \<Rightarrow> penv" where
  "register_reservation [] vid kind e = e"
| "register_reservation ((node, t_start, t_end) # rest) vid kind e =
     register_reservation rest vid kind
       (add_reservation node \<lparr>r_vehicle_id = vid, r_kind = kind, r_start = t_start, r_end = t_end\<rparr> e)"

definition remove_reservations_for_vehicle :: "int \<Rightarrow> penv \<Rightarrow> penv" where
  "remove_reservations_for_vehicle vid e =
     e\<lparr>e_reservations := (\<lambda>node. filter (\<lambda>r. r_vehicle_id r \<noteq> vid) (e_reservations e node))\<rparr>"

section \<open>Vehicles\<close>

definition node_pos :: "string \<Rightarrow> (real \<times> real) \<Rightarrow> real \<times> real" where
  "node_pos node dflt = (case node_at node of Some p \<Rightarrow> p | None \<Rightarrow> dflt)"

definition new_vehicle ::
  "int \<Rightarrow> string \<Rightarrow> nat option \<Rightarrow> string list \<Rightarrow> (real \<times> real) list \<Rightarrow> real \<Rightarrow> veh_status \<Rightarrow> vehicle" where
  "new_vehicle vid slot slot_idx route intervals t_start status =
     \<lparr>v_id = vid, v_slot = slot, v_slot_idx = slot_idx, v_route = route, v_intervals = intervals, v_route_index = 0,
      v_segment_start = fst (hd intervals), v_segment_end = snd (hd intervals),
      v_current_node = hd route, v_next_node = (if length route > 1 then route ! 1 else hd route),
      v_position = node_pos (hd route) ENTRY_POINT, v_remaining_eta = snd (last intervals) - t_start,
      v_status = status, v_enter_time = t_start\<rparr>"

definition spawn_vehicle :: "int \<Rightarrow> string \<Rightarrow> string list \<Rightarrow> (real \<times> real) list \<Rightarrow> real \<Rightarrow> penv \<Rightarrow> penv" where
  "spawn_vehicle vid slot route intervals t_arrive e =
     e\<lparr>e_active := e_active e @ [new_vehicle vid slot None route intervals t_arrive Moving]\<rparr>"

definition spawn_exiting_vehicle :: "parked \<Rightarrow> penv \<Rightarrow> penv" where
  "spawn_exiting_vehicle pv e =
     (let route = leave_route (pv_slot pv);
          intervals = build_intervals route (e_time e);
          e1 = register_reservation (zip route intervals) (pv_id pv) R_exiting e;
          v = new_vehicle (pv_id pv) (pv_slot pv) (Some (pv_slot_idx pv)) route intervals (e_time e) Exiting
      in e1\<lparr>e_active := e_active e1 @ [v], e_exiting_log := e_exiting_log e1 @ [
           \<lparr>x_id = pv_id pv, x_slot = pv_slot pv, x_slot_idx = pv_slot_idx pv, x_route = route,
            x_intervals = intervals, x_enter_time = e_time e\<rparr>]\<rparr>)"

text \<open>\<open>while ri < len(intervals) - 1 and t >= intervals[ri][1]: ri += 1\<close>\<close>

function advance_index :: "(real \<times> real) list \<Rightarrow> real \<Rightarrow> nat \<Rightarrow> nat" where
  "advance_index intervals t ri =
     (if Suc ri < length intervals \<and> t \<ge> snd (intervals ! ri) then advance_index intervals t (Suc ri) else ri)"
  by pat_completeness auto
termination by (relation "measure (\<lambda>(ivs, t, ri). length ivs - ri)") auto

declare advance_index.simps [simp del]

definition clip01 :: "real \<Rightarrow> real" where "clip01 x = max 0 (min 1 x)"

definition move_vehicle :: "real \<Rightarrow> vehicle \<Rightarrow> vehicle" where
  "move_vehicle t v =
     (let route = v_route v; intervals = v_intervals v;
          ri = advance_index intervals t (v_route_index v);
          cur = route ! ri;
          nxt = (if ri + 1 < length route then route ! (ri + 1) else route ! ri);
          (t_enter, t_exit) = intervals ! ri;
          frac = clip01 ((t - t_enter) / max (t_exit - t_enter) (1 / 10 ^ 9));
          p1 = node_pos cur ENTRY_POINT; p2 = node_pos nxt p1
      in v\<lparr>v_route_index := ri, v_current_node := cur, v_next_node := nxt,
           v_segment_start := t_enter, v_segment_end := t_exit,
           v_position := (fst p1 + frac * (fst p2 - fst p1), snd p1 + frac * (snd p2 - snd p1)),
           v_remaining_eta := max 0 (snd (last intervals) - t)\<rparr>)"

text \<open>The loop over the active vehicles: the ones still on the way, and the cleared reservations.\<close>

fun move_all :: "real \<Rightarrow> vehicle list \<Rightarrow> penv \<Rightarrow> vehicle list \<times> penv" where
  "move_all t [] e = ([], e)"
| "move_all t (v # vs) e =
     (let v' = move_vehicle t v
      in if t < snd (last (v_intervals v')) then
           (let (rest, e') = move_all t vs e in (v' # rest, e'))
         else move_all t vs
           (if v_status v' = Exiting then remove_reservations_for_vehicle (v_id v') e else e))"

section \<open>Departures\<close>

definition start_exit :: "parked \<Rightarrow> penv \<Rightarrow> penv" where
  "start_exit pv e =
     (let e1 = e\<lparr>e_taken := (e_taken e)[pv_slot_idx pv := False]\<rparr>;
          e2 = remove_reservations_for_vehicle (pv_id pv) e1;
          e3 = spawn_exiting_vehicle pv e2
      in e3\<lparr>e_departure_count := e_departure_count e3 + 1\<rparr>)"

fun departures :: "parked list \<Rightarrow> penv \<Rightarrow> parked list \<times> penv" where
  "departures [] e = ([], e)"
| "departures (pv # pvs) e =
     (let route = leave_route (pv_slot pv); intervals = build_intervals route (e_time e)
      in if e_time e < pv_depart_time pv \<or> check_conflict_excluding e route intervals (Some (pv_id pv))
         then (let (still, e') = departures pvs e in (pv # still, e'))
         else departures pvs (start_exit pv e))"

definition process_departures :: "penv \<Rightarrow> penv" where
  "process_departures e = (let (still, e') = departures (e_parked e) e in e'\<lparr>e_parked := still\<rparr>)"

definition advance_time :: "real \<Rightarrow> penv \<Rightarrow> penv" where
  "advance_time dt e =
     (let e1 = e\<lparr>e_time := e_time e + dt\<rparr>;
          (still, e2) = move_all (e_time e1) (e_active e1) e1
      in process_departures (e2\<lparr>e_active := still\<rparr>))"

definition ensure_free_slot :: "penv \<Rightarrow> penv" where
  "ensure_free_slot e =
     (if list_ex Not (e_taken e) \<or> e_parked e = [] then e
      else
        let earliest = Min (set (map pv_depart_time (e_parked e)));
            dt_ff = max 0 (earliest - e_time e);
            e' = advance_time dt_ff e
        in if 0 < dt_ff then e'\<lparr>e_fast_forward_count := e_fast_forward_count e' + 1\<rparr> else e')"

section \<open>Masks\<close>

definition slot_masks :: "penv \<Rightarrow> bool list" where
  "slot_masks e = map (\<lambda>i. \<not> e_taken e ! i \<and> \<not> quick_conflict_check e i) [0..<NUM_SLOTS]"

definition entry_distance :: "nat \<Rightarrow> real" where
  "entry_distance i = (case map_of SLOT_COORDINATES (SLOT_NAMES ! i) of
       Some (x, y) \<Rightarrow> hypot (x - fst ENTRY_POINT) (y - snd ENTRY_POINT) | None \<Rightarrow> 0)"

text \<open>\<open>min(xs, key=f)\<close>: the first minimum.\<close>

fun arg_min_list1 :: "(nat \<Rightarrow> real) \<Rightarrow> nat \<Rightarrow> nat list \<Rightarrow> nat" where
  "arg_min_list1 f best [] = best"
| "arg_min_list1 f best (x # xs) = arg_min_list1 f (if f x < f best then x else best) xs"

definition action_masks :: "env_config \<Rightarrow> penv \<Rightarrow> penv \<times> bool list" where
  "action_masks cfg e =
     (let masks = slot_masks e @ [\<not> e_terminated e \<and> e_consecutive_waits e < max_consecutive_waits cfg]
      in if list_ex id masks \<or> e_terminated e then (e, masks)
         else
           let e1 = ensure_free_slot e; masks1 = slot_masks e1 @ [False]
           in if list_ex id masks1 then (e1, masks1)
              else
                let e2 = e1\<lparr>e_fallback_triggers := e_fallback_triggers e1 + 1\<rparr>;
                    free = filter (\<lambda>i. \<not> e_taken e2 ! i) [0..<NUM_SLOTS]
                in (case free of
                      [] \<Rightarrow> (e2, masks1)
                    | i # is \<Rightarrow> (e2, masks1[arg_min_list1 entry_distance i is := True])))"

section \<open>Reward\<close>

definition CONFLICT_PENALTY :: real where "CONFLICT_PENALTY = - 5"
definition SLOT_REUSE_BONUS :: real where "SLOT_REUSE_BONUS = 5 / 10"
definition FREE_SLOT_BONUS_MAX :: real where "FREE_SLOT_BONUS_MAX = 3 / 10"

definition efficiency_reward :: "real \<times> real \<Rightarrow> real \<times> real \<Rightarrow> real \<Rightarrow> real" where
  "efficiency_reward slot_xy entry_point max_distance =
     1 - min (hypot (fst slot_xy - fst entry_point) (snd slot_xy - snd entry_point) / max_distance) 1"

definition congestion_reward :: "string list \<Rightarrow> string list \<Rightarrow> (string \<Rightarrow> reservation list) \<Rightarrow> real" where
  "congestion_reward route bottleneck_nodes reservations =
     (if bottleneck_nodes = [] then 0
      else
        let total_load = sum_list (map (\<lambda>n. length (reservations n)) (filter (\<lambda>n. n \<in> set bottleneck_nodes) route));
            worst_case = real (length bottleneck_nodes * 5)
        in - min (real total_load / worst_case) 1)"

definition flow_reward :: "nat \<Rightarrow> nat \<Rightarrow> nat \<Rightarrow> real" where
  "flow_reward slot_use_count free_slot_count num_slots =
     (if 1 \<le> slot_use_count then SLOT_REUSE_BONUS else 0)
     + FREE_SLOT_BONUS_MAX * (real free_slot_count / real (max num_slots 1))"

definition compute_reward ::
  "real \<times> real \<Rightarrow> string list \<Rightarrow> bool \<Rightarrow> (string \<Rightarrow> reservation list) \<Rightarrow> nat \<Rightarrow> nat \<Rightarrow> real" where
  "compute_reward slot_xy route conflict reservations slot_use_count free_slot_count =
     (if conflict then 1 * CONFLICT_PENALTY
      else 1 * efficiency_reward slot_xy ENTRY_POINT MAX_DISTANCE
         + 5 / 10 * congestion_reward route BOTTLENECK_NODES reservations
         + 8 / 10 * flow_reward slot_use_count free_slot_count NUM_SLOTS)"


section \<open>Observation and episode\<close>

definition node_index :: "string \<Rightarrow> nat" where
  "node_index node = (if node \<in> set ALL_NODES then length (takeWhile (\<lambda>n. n \<noteq> node) ALL_NODES) else 0)"

definition vehicle_features :: "vehicle \<Rightarrow> real list" where
  "vehicle_features v =
     [real (node_index (v_current_node v)) / real (max (length ALL_NODES) 1),
      real (node_index (v_next_node v)) / real (max (length ALL_NODES) 1),
      clip01 (v_remaining_eta v / (real MAX_ROUTE_LEN * NODE_TRAVEL_TIME))]"

definition get_obs :: "penv \<Rightarrow> real list" where
  "get_obs e =
     (let entering = take MAX_ACTIVE_VEHICLES (filter (\<lambda>v. v_status v = Moving) (e_active e));
          feats = concat (map vehicle_features entering)
      in map (\<lambda>b. if b then 1 else 0) (e_taken e)
         @ feats @ replicate (MAX_ACTIVE_VEHICLES * 3 - length feats) 0
         @ map (\<lambda>n. min (real (length (e_reservations e n)) / real (max MAX_ACTIVE_VEHICLES 1)) 1) BOTTLENECK_NODES
         @ [(e_iat e - ARRIVAL_MIN) / (ARRIVAL_MAX - ARRIVAL_MIN)])"

definition check_done :: "penv \<Rightarrow> bool" where
  "check_done e = (MAX_STEPS \<le> e_step_count e \<or> list_all id (e_taken e) \<and> e_parked e = [])"

definition free_slot_count :: "penv \<Rightarrow> nat" where
  "free_slot_count e = length (filter Not (e_taken e))"

record info_metrics =
  m_parked_vehicle_count :: nat
  m_departure_count :: nat
  m_free_slot_count :: nat
  m_fast_forward_count :: nat
  m_current_time :: real
  m_wait_count :: nat
  m_consecutive_waits :: nat

definition build_info_metrics :: "penv \<Rightarrow> info_metrics" where
  "build_info_metrics e =
     \<lparr>m_parked_vehicle_count = length (e_parked e), m_departure_count = e_departure_count e,
      m_free_slot_count = free_slot_count e, m_fast_forward_count = e_fast_forward_count e,
      m_current_time = e_time e, m_wait_count = e_wait_count e, m_consecutive_waits = e_consecutive_waits e\<rparr>"

record step_info =
  i_slot :: "string option"
  i_conflict :: bool
  i_wait :: bool
  i_step :: nat
  i_inter_arrival_time :: real
  i_reason :: "string option"
  i_metrics :: info_metrics

datatype env_error = Episode_over | Action_out_of_range

text \<open>\<open>np_random.uniform(lo, hi)\<close> at the generator's draw \<open>u\<close> of \<open>[0, 1)\<close>.\<close>

definition uniform :: "real \<Rightarrow> real \<Rightarrow> real \<Rightarrow> real" where
  "uniform lo hi u = lo + (hi - lo) * u"

definition sample_iat :: "real \<Rightarrow> penv \<Rightarrow> real \<times> penv" where
  "sample_iat u e = (let iat = uniform ARRIVAL_MIN ARRIVAL_MAX u in (iat, e\<lparr>e_iat := iat\<rparr>))"

text \<open>The end of every branch of \<open>step\<close>: the clock, the end of the episode, the result.\<close>

definition finish_step ::
  "real \<Rightarrow> real \<Rightarrow> step_info \<Rightarrow> penv \<Rightarrow> penv \<times> real list \<times> real \<times> bool \<times> bool \<times> step_info" where
  "finish_step dt reward info e =
     (let e1 = advance_time dt (e\<lparr>e_step_count := e_step_count e + 1\<rparr>);
          e2 = e1\<lparr>e_terminated := check_done e1\<rparr>
      in (e2, get_obs e2, reward, e_terminated e2, False, info\<lparr>i_metrics := build_info_metrics e2\<rparr>))"

definition commit :: "nat \<Rightarrow> real \<Rightarrow> penv \<Rightarrow> penv" where
  "commit i u e =
     (let route = entry_route i; t_arrive = e_time e; intervals = build_intervals route t_arrive;
          vid = e_vehicle_id_counter e + 1;
          e1 = e\<lparr>e_slot_use_counts := (e_slot_use_counts e)[i := e_slot_use_counts e ! i + 1],
                 e_vehicle_id_counter := vid\<rparr>;
          e2 = register_reservation (zip route intervals) vid R_entering e1;
          e3 = e2\<lparr>e_taken := (e_taken e2)[i := True]\<rparr>;
          parking_complete_time = snd (last intervals);
          depart_time = uniform (parking_complete_time + PARK_DURATION_MIN)
            (parking_complete_time + PARK_DURATION_MAX) u;
          e4 = add_reservation (last route) \<lparr>r_vehicle_id = vid, r_kind = R_parked,
            r_start = parking_complete_time, r_end = depart_time\<rparr> e3;
          e5 = e4\<lparr>e_parked := e_parked e4 @
            [\<lparr>pv_id = vid, pv_slot = SLOT_NAMES ! i, pv_slot_idx = i, pv_depart_time = depart_time\<rparr>]\<rparr>
      in spawn_vehicle vid (SLOT_NAMES ! i) route intervals t_arrive e5)"

definition step_wait :: "env_config \<Rightarrow> penv \<Rightarrow> penv \<times> real list \<times> real \<times> bool \<times> bool \<times> step_info" where
  "step_wait cfg e =
     (let penalty = wait_penalty_base cfg - wait_penalty_increment cfg * real (e_consecutive_waits e);
          info = \<lparr>i_slot = None, i_conflict = False, i_wait = True, i_step = e_step_count e + 1,
                  i_inter_arrival_time = e_iat e, i_reason = None, i_metrics = build_info_metrics e\<rparr>
      in finish_step (wait_time cfg) penalty info
           (e\<lparr>e_consecutive_waits := e_consecutive_waits e + 1, e_wait_count := e_wait_count e + 1\<rparr>))"

definition step_slot ::
  "env_config \<Rightarrow> real \<Rightarrow> real \<Rightarrow> nat \<Rightarrow> penv \<Rightarrow> penv \<times> real list \<times> real \<times> bool \<times> bool \<times> step_info" where
  "step_slot cfg u_depart u_iat i e0 =
     (let e = e0\<lparr>e_consecutive_waits := 0\<rparr>;
          info = \<lparr>i_slot = Some (SLOT_NAMES ! i), i_conflict = False, i_wait = False, i_step = e_step_count e,
                  i_inter_arrival_time = e_iat e, i_reason = None, i_metrics = build_info_metrics e\<rparr>
      in if e_taken e ! i then
           let (iat, e1) = sample_iat u_iat e
           in finish_step iat (-10) (info\<lparr>i_reason := Some ''slot_already_taken''\<rparr>) e1
         else
           let route = entry_route i;
               conflict = check_conflict e route (build_intervals route (e_time e));
               slot_xy = the (map_of SLOT_COORDINATES (SLOT_NAMES ! i));
               reward = compute_reward slot_xy route conflict (e_reservations e)
                 (e_slot_use_counts e ! i) (free_slot_count e);
               (reward', e1) = (if conflict then (reward, e)
                 else (if assignment_bonus cfg \<noteq> 0 then reward + assignment_bonus cfg else reward, commit i u_depart e));
               (iat, e2) = sample_iat u_iat e1
           in finish_step iat reward' (info\<lparr>i_conflict := conflict\<rparr>) e2)"

definition step ::
  "env_config \<Rightarrow> real \<Rightarrow> real \<Rightarrow> int \<Rightarrow> penv
     \<Rightarrow> env_error + (penv \<times> real list \<times> real \<times> bool \<times> bool \<times> step_info)" where
  "step cfg u_depart u_iat action e =
     (if e_terminated e then Inl Episode_over
      else if \<not> (0 \<le> action \<and> action < int NUM_SLOTS + 1) then Inl Action_out_of_range
      else if nat action = WAIT_ACTION then Inr (step_wait cfg e)
      else Inr (step_slot cfg u_depart u_iat (nat action) e))"

text \<open>\<open>reset\<close>: \<open>chosen\<close> are the slots \<open>choice(8, size=n_pre, replace=False)\<close> draws, each with the
  draw of its departure time.\<close>

fun pre_park :: "(nat \<times> real) list \<Rightarrow> penv \<Rightarrow> penv" where
  "pre_park [] e = e"
| "pre_park ((idx, u) # chosen) e =
     (let vid = e_vehicle_id_counter e + 1;
          depart_time = uniform PARK_DURATION_MIN PARK_DURATION_MAX u;
          e1 = e\<lparr>e_vehicle_id_counter := vid, e_taken := (e_taken e)[idx := True]\<rparr>;
          e2 = add_reservation (last (entry_route idx))
            \<lparr>r_vehicle_id = vid, r_kind = R_parked, r_start = 0, r_end = depart_time\<rparr> e1
      in pre_park chosen (e2\<lparr>e_parked := e_parked e2 @
           [\<lparr>pv_id = vid, pv_slot = SLOT_NAMES ! idx, pv_slot_idx = idx, pv_depart_time = depart_time\<rparr>]\<rparr>))"

definition reset :: "real \<Rightarrow> (nat \<times> real) list \<Rightarrow> penv \<times> real list" where
  "reset u_iat chosen =
     (let e = pre_park chosen (init_state\<lparr>e_iat := uniform ARRIVAL_MIN ARRIVAL_MAX u_iat\<rparr>) in (e, get_obs e))"

end
