(* ===== verification/Parking_Shield.thy ===== *)
theory Parking_Shield
  imports Parking_Env
begin

text \<open>
  What the safety shield of \<open>rl/parking_env.py\<close> gives over a whole episode: the invariant of the
  reservation table and of the slots, kept by every operation of the environment.
\<close>

section \<open>Routes and intervals\<close>

definition front :: "nat \<Rightarrow> string" where "front i = (SLOT_NAMES ! i) @ ''_front''"

definition routes_at :: "nat \<Rightarrow> bool" where
  "routes_at i =
     (distinct (entry_route i) \<and> distinct (leave_route (SLOT_NAMES ! i)) \<and>
      4 \<le> length (entry_route i) \<and> length (entry_route i) \<le> 7 \<and> last (entry_route i) = front i \<and>
      hd (leave_route (SLOT_NAMES ! i)) = front i \<and> 4 \<le> length (leave_route (SLOT_NAMES ! i)) \<and>
      set (entry_route i) \<subseteq> set ALL_NODES \<and> set (leave_route (SLOT_NAMES ! i)) \<subseteq> set ALL_NODES \<and>
      list_all (\<lambda>j. j = i \<or> front j \<notin> set (entry_route i) \<and> front j \<notin> set (leave_route (SLOT_NAMES ! i)))
        [0..<NUM_SLOTS])"

lemma routes_at_all: "list_all routes_at [0..<NUM_SLOTS]"
  by (simp add: NUM_SLOTS_def upt_rec routes_at_def front_def SLOT_NAMES_def entry_route_def leave_route_def
      slot_route_def exit_route_def SLOT_ROUTES_def EXIT_ROUTES_def ALL_NODES_def)

lemma routes:
  assumes "i < NUM_SLOTS"
  shows "distinct (entry_route i)" "distinct (leave_route (SLOT_NAMES ! i))"
    "4 \<le> length (entry_route i)" "length (entry_route i) \<le> 7" "last (entry_route i) = front i"
    "hd (leave_route (SLOT_NAMES ! i)) = front i" "4 \<le> length (leave_route (SLOT_NAMES ! i))"
    "set (entry_route i) \<subseteq> set ALL_NODES" "set (leave_route (SLOT_NAMES ! i)) \<subseteq> set ALL_NODES"
    "j < NUM_SLOTS \<Longrightarrow> front j \<in> set (entry_route i) \<Longrightarrow> j = i"
    "j < NUM_SLOTS \<Longrightarrow> front j \<in> set (leave_route (SLOT_NAMES ! i)) \<Longrightarrow> j = i"
proof -
  have "routes_at i" using routes_at_all assms by (simp add: list_all_iff)
  then show "distinct (entry_route i)" "distinct (leave_route (SLOT_NAMES ! i))"
    "4 \<le> length (entry_route i)" "length (entry_route i) \<le> 7" "last (entry_route i) = front i"
    "hd (leave_route (SLOT_NAMES ! i)) = front i" "4 \<le> length (leave_route (SLOT_NAMES ! i))"
    "set (entry_route i) \<subseteq> set ALL_NODES" "set (leave_route (SLOT_NAMES ! i)) \<subseteq> set ALL_NODES"
    "j < NUM_SLOTS \<Longrightarrow> front j \<in> set (entry_route i) \<Longrightarrow> j = i"
    "j < NUM_SLOTS \<Longrightarrow> front j \<in> set (leave_route (SLOT_NAMES ! i)) \<Longrightarrow> j = i"
    unfolding routes_at_def list_all_iff by auto
qed

lemma routes_nonempty:
  "i < NUM_SLOTS \<Longrightarrow> entry_route i \<noteq> []" "i < NUM_SLOTS \<Longrightarrow> leave_route (SLOT_NAMES ! i) \<noteq> []"
  using routes(3) [of i] routes(7) [of i] by auto

lemma length_build_intervals [simp]: "length (build_intervals route t) = length route"
  by (induction route arbitrary: t) auto

lemma nth_build_intervals:
  "k < length route \<Longrightarrow> build_intervals route t ! k = (t + real k, t + real k + 1)"
  by (induction route arbitrary: t k) (auto simp: nth_Cons NODE_TRAVEL_TIME_def split: nat.splits)

lemma build_intervals_nil [simp]: "build_intervals route t = [] \<longleftrightarrow> route = []"
  by (cases route) auto

lemma last_build_intervals:
  "route \<noteq> [] \<Longrightarrow> last (build_intervals route t) = (t + real (length route) - 1, t + real (length route))"
  by (cases route rule: rev_cases) (simp_all add: last_conv_nth nth_build_intervals)

lemma hd_build_intervals: "route \<noteq> [] \<Longrightarrow> hd (build_intervals route t) = (t, t + 1)"
  by (cases route) (simp_all add: NODE_TRAVEL_TIME_def)

lemma zip_intervals_iff:
  "(node, a, b) \<in> set (zip route (build_intervals route t)) \<longleftrightarrow>
     (\<exists>k < length route. node = route ! k \<and> a = t + real k \<and> b = a + 1)"
  by (auto simp: set_zip nth_build_intervals)

section \<open>The reservation table\<close>

text \<open>The entries a route's intervals add at a node.\<close>

definition route_entries :: "(string \<times> real \<times> real) list \<Rightarrow> int \<Rightarrow> res_kind \<Rightarrow> string \<Rightarrow> reservation list" where
  "route_entries xs vid kind n =
     map (\<lambda>(m, s, t). \<lparr>r_vehicle_id = vid, r_kind = kind, r_start = s, r_end = t\<rparr>) (filter (\<lambda>x. fst x = n) xs)"

lemma register_reservation_eq:
  "register_reservation xs vid kind e =
     e\<lparr>e_reservations := (\<lambda>n. e_reservations e n @ route_entries xs vid kind n)\<rparr>"
  by (induction xs vid kind e rule: register_reservation.induct)
    (auto simp: route_entries_def add_reservation_def fun_eq_iff)

lemma route_entries_iff:
  "r \<in> set (route_entries xs vid kind n) \<longleftrightarrow>
     r_vehicle_id r = vid \<and> r_kind r = kind \<and> (n, r_start r, r_end r) \<in> set xs"
  by (cases r) (force simp: route_entries_def)

lemma check_conflict_None: "check_conflict e route ivs = check_conflict_excluding e route ivs None"
  by (simp add: check_conflict_def check_conflict_excluding_def)

text \<open>Two reservations of different vehicles are apart when half a second lies between them.\<close>

definition apart :: "reservation \<Rightarrow> reservation \<Rightarrow> bool" where
  "apart r1 r2 \<longleftrightarrow> r_end r1 + SAFETY_MARGIN \<le> r_start r2 \<or> r_end r2 + SAFETY_MARGIN \<le> r_start r1"

lemma apart_sym: "apart r1 r2 \<longleftrightarrow> apart r2 r1"
  by (auto simp: apart_def)

lemma not_clashes_apart:
  "\<not> clashes (s, s + 1) r \<Longrightarrow> r_start r < r_end r \<Longrightarrow> r_start r' = s \<Longrightarrow> r_end r' = s + 1 \<Longrightarrow> apart r' r"
  by (auto simp: clashes_def apart_def SAFETY_MARGIN_def)

definition table_ok :: "(string \<Rightarrow> reservation list) \<Rightarrow> bool" where
  "table_ok table \<longleftrightarrow> (\<forall>n. \<forall>r1 \<in> set (table n). r_start r1 < r_end r1 \<and>
     (\<forall>r2 \<in> set (table n). r_vehicle_id r1 \<noteq> r_vehicle_id r2 \<longrightarrow> apart r1 r2))"

lemma table_ok_filter [inv_intro]: "table_ok table \<Longrightarrow> table_ok (\<lambda>n. filter (P n) (table n))"
  by (auto simp: table_ok_def)

lemma table_ok_add:
  assumes "table_ok table"
    and "\<And>n r. r \<in> set (extra n) \<Longrightarrow> r_vehicle_id r = vid \<and> r_start r < r_end r"
    and "\<And>n r r'. r \<in> set (extra n) \<Longrightarrow> r' \<in> set (table n) \<Longrightarrow> r_vehicle_id r' \<noteq> vid \<Longrightarrow> apart r r'"
  shows "table_ok (\<lambda>n. table n @ extra n)"
  using assms unfolding table_ok_def by (auto simp: apart_sym) (metis apart_sym)+

lemma shield_apart:
  assumes "table_ok (e_reservations e)"
    and "\<not> check_conflict_excluding e route (build_intervals route t) x"
    and "r \<in> set (route_entries (zip route (build_intervals route t)) vid kind n)"
    and "r' \<in> set (e_reservations e n)" "Some (r_vehicle_id r') \<noteq> x"
  shows "apart r r'"
proof -
  have r: "(n, r_start r, r_end r) \<in> set (zip route (build_intervals route t))"
    using assms(3) by (simp add: route_entries_iff)
  then have "\<not> clashes (r_start r, r_end r) r'"
    using assms(2,4,5) unfolding check_conflict_excluding_def list_ex_iff by fastforce
  then show ?thesis
    using r assms(1,4) not_clashes_apart [of "r_start r" r' r]
    unfolding zip_intervals_iff table_ok_def by auto
qed

section \<open>The invariant of the lot\<close>

text \<open>
  While the loop over the parked vehicles runs, the parked ones are the list \<open>ps\<close> of those kept
  and those still to visit; \<open>e_parked\<close> is assigned at the end.
\<close>

definition fronts_ok :: "parked list \<Rightarrow> real \<Rightarrow> (string \<Rightarrow> reservation list) \<Rightarrow> bool" where
  "fronts_ok ps now table \<longleftrightarrow> (\<forall>i < NUM_SLOTS. \<forall>r \<in> set (table (front i)).
     r_end r \<le> now + 1 \<or> (\<exists>pv \<in> set ps. pv_slot_idx pv = i \<and> pv_id pv = r_vehicle_id r))"

definition slots_ok :: "parked list \<Rightarrow> bool list \<Rightarrow> bool" where
  "slots_ok ps taken \<longleftrightarrow> length taken = NUM_SLOTS \<and> distinct (map pv_slot_idx ps) \<and>
     (\<forall>pv \<in> set ps. pv_slot_idx pv < NUM_SLOTS \<and> pv_slot pv = SLOT_NAMES ! pv_slot_idx pv) \<and>
     (\<forall>i < NUM_SLOTS. taken ! i \<longleftrightarrow> i \<in> pv_slot_idx ` set ps)"

text \<open>A vehicle under way holds a reservation for every node of its route.\<close>

definition on_route :: "(string \<Rightarrow> reservation list) \<Rightarrow> vehicle \<Rightarrow> bool" where
  "on_route table v \<longleftrightarrow> v_route v \<noteq> [] \<and> set (v_route v) \<subseteq> set ALL_NODES \<and> length (v_route v) \<le> 8 \<and>
     v_intervals v = build_intervals (v_route v) (v_enter_time v) \<and>
     (\<forall>k < length (v_route v). \<exists>r \<in> set (table (v_route v ! k)).
        r_vehicle_id r = v_id v \<and> r_start r = v_enter_time v + real k \<and> r_end r = v_enter_time v + real k + 1)"

definition placed :: "real \<Rightarrow> vehicle \<Rightarrow> bool" where
  "placed now v \<longleftrightarrow> v_route_index v < length (v_route v) \<and> v_enter_time v + real (v_route_index v) \<le> now \<and>
     now < v_enter_time v + real (v_route_index v) + 1 \<and> v_current_node v = v_route v ! v_route_index v \<and>
     v_next_node v \<in> set (v_route v)"

definition started :: "real \<Rightarrow> vehicle \<Rightarrow> bool" where
  "started now v \<longleftrightarrow> v_route_index v < length (v_route v) \<and> v_enter_time v + real (v_route_index v) \<le> now"

definition ids_ok :: "parked list \<Rightarrow> int \<Rightarrow> vehicle list \<Rightarrow> bool" where
  "ids_ok ps counter vs \<longleftrightarrow> distinct (map v_id vs) \<and> distinct (map pv_id ps) \<and>
     (\<forall>v \<in> set vs. v_id v \<le> counter) \<and> (\<forall>pv \<in> set ps. pv_id pv \<le> counter) \<and>
     (\<forall>v \<in> set vs. \<forall>pv \<in> set ps. v_id v = pv_id pv \<longrightarrow>
        v_status v = Moving \<and> v_enter_time v + real (length (v_route v)) \<le> pv_depart_time pv)"

definition lot_inv :: "parked list \<Rightarrow> penv \<Rightarrow> bool" where
  "lot_inv ps e \<longleftrightarrow> table_ok (e_reservations e) \<and> fronts_ok ps (e_time e) (e_reservations e) \<and>
     slots_ok ps (e_taken e)"

definition traffic_inv :: "parked list \<Rightarrow> penv \<Rightarrow> bool" where
  "traffic_inv ps e \<longleftrightarrow> ids_ok ps (e_vehicle_id_counter e) (e_active e) \<and>
     (\<forall>v \<in> set (e_active e). on_route (e_reservations e) v \<and> placed (e_time e) v)"

lemma remove_table:
  "e_reservations (remove_reservations_for_vehicle vid e) =
     (\<lambda>n. filter (\<lambda>r. r_vehicle_id r \<noteq> vid) (e_reservations e n))"
  by (simp add: remove_reservations_for_vehicle_def)

lemma slots_ok_remove:
  assumes "slots_ok (qs @ pv # ps) taken"
  shows "slots_ok (qs @ ps) (taken[pv_slot_idx pv := False])"
proof -
  have "taken[pv_slot_idx pv := False] ! i \<longleftrightarrow> i \<in> pv_slot_idx ` set (qs @ ps)" if "i < NUM_SLOTS" for i
    using assms that unfolding slots_ok_def by (cases "i = pv_slot_idx pv") auto
  then show ?thesis using assms unfolding slots_ok_def by simp
qed

lemma slots_ok_add:
  assumes "slots_ok ps taken" "i < NUM_SLOTS" "\<not> taken ! i" "pv_slot_idx pv = i" "pv_slot pv = SLOT_NAMES ! i"
  shows "slots_ok (ps @ [pv]) (taken[i := True])"
proof -
  have "taken[i := True] ! j \<longleftrightarrow> j \<in> pv_slot_idx ` set (ps @ [pv])" if "j < NUM_SLOTS" for j
    using assms that unfolding slots_ok_def by (cases "j = i") auto
  then show ?thesis using assms unfolding slots_ok_def by auto
qed

subsection \<open>A departure\<close>

lemma start_exit_table:
  "e_reservations (start_exit pv e) =
     (\<lambda>n. filter (\<lambda>r. r_vehicle_id r \<noteq> pv_id pv) (e_reservations e n) @
        route_entries (zip (leave_route (pv_slot pv)) (build_intervals (leave_route (pv_slot pv)) (e_time e)))
          (pv_id pv) R_exiting n)"
  by (simp add: start_exit_def spawn_exiting_vehicle_def register_reservation_eq Let_def
      remove_reservations_for_vehicle_def)

lemma start_exit_fields [simp]:
  "e_time (start_exit pv e) = e_time e" "e_taken (start_exit pv e) = (e_taken e)[pv_slot_idx pv := False]"
  "e_vehicle_id_counter (start_exit pv e) = e_vehicle_id_counter e"
  "e_step_count (start_exit pv e) = e_step_count e" "e_iat (start_exit pv e) = e_iat e"
  "e_terminated (start_exit pv e) = e_terminated e" "e_fallback_triggers (start_exit pv e) = e_fallback_triggers e"
  "e_consecutive_waits (start_exit pv e) = e_consecutive_waits e"
  by (simp_all add: start_exit_def spawn_exiting_vehicle_def register_reservation_eq Let_def
      remove_reservations_for_vehicle_def)

lemma start_exit_active:
  "e_active (start_exit pv e) = e_active e @
     [new_vehicle (pv_id pv) (pv_slot pv) (Some (pv_slot_idx pv)) (leave_route (pv_slot pv))
        (build_intervals (leave_route (pv_slot pv)) (e_time e)) (e_time e) Exiting]"
  by (simp add: start_exit_def spawn_exiting_vehicle_def register_reservation_eq Let_def
      remove_reservations_for_vehicle_def)

lemma start_exit_lot:
  assumes I: "lot_inv (qs @ pv # ps) e"
    and free: "\<not> check_conflict_excluding e (leave_route (pv_slot pv))
      (build_intervals (leave_route (pv_slot pv)) (e_time e)) (Some (pv_id pv))"
  shows "lot_inv (qs @ ps) (start_exit pv e)"
proof -
  let ?route = "leave_route (pv_slot pv)"
  let ?xs = "zip ?route (build_intervals ?route (e_time e))"
  let ?old = "\<lambda>n. filter (\<lambda>r. r_vehicle_id r \<noteq> pv_id pv) (e_reservations e n)"
  have T: "table_ok (e_reservations e)" and F: "fronts_ok (qs @ pv # ps) (e_time e) (e_reservations e)"
    and S: "slots_ok (qs @ pv # ps) (e_taken e)" using I by (simp_all add: lot_inv_def)
  have idx: "pv_slot_idx pv < NUM_SLOTS" and name: "pv_slot pv = SLOT_NAMES ! pv_slot_idx pv"
    using S by (simp_all add: slots_ok_def)
  have "table_ok (e_reservations (start_exit pv e))"
    unfolding start_exit_table
    by (rule table_ok_add [OF table_ok_filter [OF T], of _ "pv_id pv"])
      (auto simp: route_entries_iff zip_intervals_iff intro!: shield_apart [OF T free])
  moreover have "fronts_ok (qs @ ps) (e_time e) (e_reservations (start_exit pv e))"
    unfolding fronts_ok_def
  proof (intro allI impI ballI)
    fix i r assume i: "i < NUM_SLOTS" and r: "r \<in> set (e_reservations (start_exit pv e) (front i))"
    show "r_end r \<le> e_time e + 1 \<or> (\<exists>pv \<in> set (qs @ ps). pv_slot_idx pv = i \<and> pv_id pv = r_vehicle_id r)"
    proof (cases "r \<in> set (?old (front i))")
      case True
      then show ?thesis using F i unfolding fronts_ok_def by fastforce
    next
      case False
      then have "(front i, r_start r, r_end r) \<in> set ?xs"
        using r by (auto simp: start_exit_table route_entries_iff)
      then obtain k where k: "k < length ?route" "front i = ?route ! k" "r_end r = e_time e + real k + 1"
        by (auto simp: zip_intervals_iff)
      then have "i = pv_slot_idx pv"
        using routes(11) [OF idx i] nth_mem [OF k(1)] by (simp add: name)
      then have "?route ! k = ?route ! 0"
        using k(2) routes(6) [OF idx] routes_nonempty(2) [OF idx] by (simp add: name hd_conv_nth)
      then have "k = 0"
        using nth_eq_iff_index_eq [OF routes(2) [OF idx], of k 0] k(1) routes_nonempty(2) [OF idx] by (simp add: name)
      then show ?thesis using k(3) by simp
    qed
  qed
  ultimately show ?thesis
    using slots_ok_remove [OF S] by (simp add: lot_inv_def)
qed

lemma new_vehicle_on_route:
  assumes "route \<noteq> []" "set route \<subseteq> set ALL_NODES" "length route \<le> 8"
    and "\<And>n r. r_vehicle_id r = vid \<Longrightarrow> r_kind r = kind \<Longrightarrow>
      (n, r_start r, r_end r) \<in> set (zip route (build_intervals route t)) \<Longrightarrow> r \<in> set (table n)"
  shows "on_route table (new_vehicle vid slot idx route (build_intervals route t) t status)"
  unfolding on_route_def
proof (intro conjI allI impI)
  let ?v = "new_vehicle vid slot idx route (build_intervals route t) t status"
  fix k assume k: "k < length (v_route ?v)"
  let ?r = "\<lparr>r_vehicle_id = vid, r_kind = kind, r_start = t + real k, r_end = t + real k + 1\<rparr>"
  have "?r \<in> set (table (route ! k))"
    using k by (intro assms(4)) (auto simp: new_vehicle_def zip_intervals_iff)
  then show "\<exists>r \<in> set (table (v_route ?v ! k)). r_vehicle_id r = v_id ?v \<and>
      r_start r = v_enter_time ?v + real k \<and> r_end r = v_enter_time ?v + real k + 1"
    by (intro bexI [of _ ?r]) (simp_all add: new_vehicle_def)
qed (use assms in \<open>simp_all add: new_vehicle_def\<close>)

lemma new_vehicle_placed:
  "route \<noteq> [] \<Longrightarrow> placed t (new_vehicle vid slot idx route (build_intervals route t) t status)"
  by (auto simp: placed_def new_vehicle_def hd_conv_nth)

lemma on_route_mono:
  assumes "on_route table v" "\<And>n r. r \<in> set (table n) \<Longrightarrow> r_vehicle_id r = v_id v \<Longrightarrow> r \<in> set (table' n)"
  shows "on_route table' v"
  using assms unfolding on_route_def by meson

lemma on_route_last:
  assumes "on_route table v"
  shows "snd (last (v_intervals v)) = v_enter_time v + real (length (v_route v))"
  using assms by (simp add: on_route_def last_build_intervals)

lemma placed_end: "placed now v \<Longrightarrow> now < v_enter_time v + real (length (v_route v))"
  by (auto simp: placed_def)

lemma start_exit_traffic:
  assumes I: "lot_inv (qs @ pv # ps) e" and T: "traffic_inv (qs @ pv # ps) e"
    and due: "pv_depart_time pv \<le> e_time e"
  shows "traffic_inv (qs @ ps) (start_exit pv e)"
proof -
  let ?route = "leave_route (pv_slot pv)"
  let ?v = "new_vehicle (pv_id pv) (pv_slot pv) (Some (pv_slot_idx pv)) ?route
    (build_intervals ?route (e_time e)) (e_time e) Exiting"
  let ?e = "start_exit pv e"
  have idx: "pv_slot_idx pv < NUM_SLOTS" and name: "pv_slot pv = SLOT_NAMES ! pv_slot_idx pv"
    using I by (simp_all add: lot_inv_def slots_ok_def)
  have ids: "ids_ok (qs @ pv # ps) (e_vehicle_id_counter e) (e_active e)"
    and act: "\<And>v. v \<in> set (e_active e) \<Longrightarrow> on_route (e_reservations e) v \<and> placed (e_time e) v"
    using T by (simp_all add: traffic_inv_def)
  have new: "v_id v \<noteq> pv_id pv" if v: "v \<in> set (e_active e)" for v
  proof
    assume "v_id v = pv_id pv"
    then have "v_enter_time v + real (length (v_route v)) \<le> pv_depart_time pv"
      using ids v by (auto simp: ids_ok_def)
    then show False using act [OF v] placed_end [of "e_time e" v] due by simp
  qed
  have new_ids: "pv_id pv \<notin> v_id ` set (e_active e)" using new by (metis imageE)
  have old: "on_route (e_reservations ?e) v" if "v \<in> set (e_active e)" for v
    by (rule on_route_mono [of "e_reservations e"]) (use act new that in \<open>auto simp: start_exit_table\<close>)
  have len: "length ?route \<le> 8" using routes_at_all idx
    by (simp add: name) (simp add: NUM_SLOTS_def leave_route_def exit_route_def less_Suc_eq numeral_eq_Suc
        SLOT_NAMES_def EXIT_ROUTES_def, elim disjE; simp)
  have "on_route (e_reservations ?e) ?v"
    by (rule new_vehicle_on_route [where kind = R_exiting])
      (use routes_nonempty [OF idx] routes(9) [OF idx] len in
        \<open>auto simp: name start_exit_table route_entries_iff\<close>)
  moreover have "placed (e_time e) ?v"
    by (rule new_vehicle_placed) (use routes_nonempty [OF idx] in \<open>simp add: name\<close>)
  moreover have "ids_ok (qs @ ps) (e_vehicle_id_counter e) (e_active e @ [?v])"
    using ids new_ids by (auto simp: ids_ok_def new_vehicle_def)
  ultimately show ?thesis
    using old act by (auto simp: traffic_inv_def start_exit_active)
qed

lemma departures_inv:
  assumes "departures pvs e = (still, e')" "lot_inv (qs @ pvs) e" "traffic_inv (qs @ pvs) e"
  shows "lot_inv (qs @ still) e' \<and> traffic_inv (qs @ still) e' \<and> e_time e' = e_time e \<and>
    e_step_count e' = e_step_count e \<and> e_iat e' = e_iat e \<and> e_terminated e' = e_terminated e \<and>
    e_fallback_triggers e' = e_fallback_triggers e \<and> e_consecutive_waits e' = e_consecutive_waits e"
  using assms
proof (induction pvs e arbitrary: qs still e' rule: departures.induct)
  case (1 e)
  then show ?case by simp
next
  case (2 pv pvs e)
  let ?keep = "e_time e < pv_depart_time pv \<or> check_conflict_excluding e (leave_route (pv_slot pv))
    (build_intervals (leave_route (pv_slot pv)) (e_time e)) (Some (pv_id pv))"
  show ?case
  proof (cases ?keep)
    case True
    then obtain still1 where "departures pvs e = (still1, e')" "still = pv # still1"
      using 2(3) by (auto simp: Let_def split: prod.splits)
    then show ?thesis using 2(1) [OF refl refl, of still1 e' "qs @ [pv]"] True 2(4,5) by simp
  next
    case False
    then have d: "departures pvs (start_exit pv e) = (still, e')" using 2(3) by (simp add: Let_def)
    show ?thesis
      using 2(2) [OF refl refl, of still e' qs] False d start_exit_lot [OF 2(4)] start_exit_traffic [OF 2(4,5)]
      by auto
  qed
qed

subsection \<open>The clock\<close>

lemma advance_index_props:
  assumes "\<And>k. k < length ivs \<Longrightarrow> snd (ivs ! k) = t0 + real k + 1" "ri < length ivs" "t0 + real ri \<le> t"
  shows "advance_index ivs t ri < length ivs \<and> t0 + real (advance_index ivs t ri) \<le> t \<and>
    (t < t0 + real (length ivs) \<longrightarrow> t < t0 + real (advance_index ivs t ri) + 1)"
  using assms
proof (induction ivs t ri rule: advance_index.induct)
  case (1 ivs t ri)
  show ?case
  proof (cases "Suc ri < length ivs \<and> t \<ge> snd (ivs ! ri)")
    case True
    then have "t0 + real (Suc ri) \<le> t" using 1(2) [OF 1(3)] by simp
    note IH = 1(1) [OF True 1(2) conjunct1 [OF True] this]
    have "advance_index ivs t ri = advance_index ivs t (Suc ri)"
      using True by (simp add: advance_index.simps [of ivs t ri])
    then show ?thesis using IH by simp
  next
    case False
    have stay: "advance_index ivs t ri = ri"
      by (subst advance_index.simps) (rule if_not_P [OF False])
    show ?thesis
    proof (cases "Suc ri < length ivs")
      case True
      then have "t < t0 + real ri + 1" using False 1(2) [OF 1(3)] by simp
      then show ?thesis using stay 1(3,4) by simp
    next
      case last: False
      then have "length ivs = Suc ri" using 1(3) by simp
      then show ?thesis using stay 1(3,4) by simp
    qed
  qed
qed

lemma move_vehicle_fields [simp]:
  "v_id (move_vehicle t v) = v_id v" "v_route (move_vehicle t v) = v_route v"
  "v_intervals (move_vehicle t v) = v_intervals v" "v_enter_time (move_vehicle t v) = v_enter_time v"
  "v_status (move_vehicle t v) = v_status v"
  "v_route_index (move_vehicle t v) = advance_index (v_intervals v) t (v_route_index v)"
  by (simp_all add: move_vehicle_def Let_def split: prod.splits)

lemma move_vehicle_nodes:
  "v_current_node (move_vehicle t v) = v_route v ! advance_index (v_intervals v) t (v_route_index v)"
  "v_next_node (move_vehicle t v) =
     (if advance_index (v_intervals v) t (v_route_index v) + 1 < length (v_route v)
      then v_route v ! (advance_index (v_intervals v) t (v_route_index v) + 1)
      else v_route v ! advance_index (v_intervals v) t (v_route_index v))"
  by (simp_all add: move_vehicle_def Let_def split: prod.splits)

lemma move_vehicle_on_route: "on_route table (move_vehicle t v) = on_route table v"
  by (simp add: on_route_def)

lemma move_vehicle_placed:
  assumes "on_route table v" "started t v" "t < snd (last (v_intervals v))"
  shows "placed t (move_vehicle t v)"
proof -
  have ivs: "v_intervals v = build_intervals (v_route v) (v_enter_time v)"
    using assms(1) by (simp add: on_route_def)
  have "advance_index (v_intervals v) t (v_route_index v) < length (v_route v) \<and>
      v_enter_time v + real (advance_index (v_intervals v) t (v_route_index v)) \<le> t \<and>
      t < v_enter_time v + real (advance_index (v_intervals v) t (v_route_index v)) + 1"
    using advance_index_props [of "v_intervals v" "v_enter_time v" "v_route_index v" t] assms(2,3)
      on_route_last [OF assms(1)]
    by (simp add: ivs started_def nth_build_intervals)
  then show ?thesis by (simp add: placed_def move_vehicle_nodes)
qed

lemma lot_inv_remove:
  assumes "lot_inv ps e" shows "lot_inv ps (remove_reservations_for_vehicle vid e)"
proof -
  have "e_time (remove_reservations_for_vehicle vid e) = e_time e"
    "e_taken (remove_reservations_for_vehicle vid e) = e_taken e"
    by (simp_all add: remove_reservations_for_vehicle_def)
  then show ?thesis
    using assms unfolding lot_inv_def remove_table by (auto simp: fronts_ok_def intro: table_ok_filter)
qed

lemma move_all_inv:
  assumes "move_all t vs e = (still, e')" "lot_inv ps e" "ids_ok ps (e_vehicle_id_counter e) (us @ vs)"
    and "\<And>v. v \<in> set us \<Longrightarrow> on_route (e_reservations e) v"
    and "\<And>v. v \<in> set vs \<Longrightarrow> on_route (e_reservations e) v \<and> started t v"
  shows "lot_inv ps e' \<and> ids_ok ps (e_vehicle_id_counter e') (us @ still) \<and>
    (\<forall>v \<in> set us. on_route (e_reservations e') v) \<and>
    (\<forall>v \<in> set still. on_route (e_reservations e') v \<and> placed t v) \<and>
    (\<exists>table. e' = e\<lparr>e_reservations := table\<rparr>)"
  using assms
proof (induction t vs e arbitrary: us still e' rule: move_all.induct)
  case (1 t e)
  then show ?case by (auto intro: exI [of _ "e_reservations e"])
next
  case (2 t v vs e)
  note v = 2(7) [of v, simplified]
  show ?case
  proof (cases "t < snd (last (v_intervals v))")
    case True
    then obtain s1 where s1: "move_all t vs e = (s1, e')" "still = move_vehicle t v # s1"
      using 2(3) by (auto simp: Let_def split: prod.splits)
    have ids: "ids_ok ps (e_vehicle_id_counter e) ((us @ [move_vehicle t v]) @ vs)"
      using 2(5) by (auto simp: ids_ok_def)
    have us: "on_route (e_reservations e) w" if "w \<in> set (us @ [move_vehicle t v])" for w
      using that 2(6) v by (auto simp: move_vehicle_on_route)
    have "placed t (move_vehicle t v)"
      using move_vehicle_placed [of "e_reservations e" v t] v True by simp
    then show ?thesis
      using 2(1) [OF refl _ s1(1) 2(4) ids us] 2(7) True by (simp add: s1(2))
  next
    case False
    let ?e = "if v_status v = Exiting then remove_reservations_for_vehicle (v_id v) e else e"
    have m: "move_all t vs ?e = (still, e')" using 2(3) False by (simp add: Let_def split: if_splits)
    have L: "lot_inv ps ?e" using 2(4) by (simp add: lot_inv_remove)
    have cnt: "e_vehicle_id_counter ?e = e_vehicle_id_counter e"
      by (simp add: remove_reservations_for_vehicle_def)
    have ids: "ids_ok ps (e_vehicle_id_counter ?e) (us @ vs)"
      using 2(5) unfolding cnt by (auto simp: ids_ok_def)
    have keep: "on_route (e_reservations ?e) w" if w: "w \<in> set us \<union> set vs" for w
    proof (rule on_route_mono [of "e_reservations e"])
      show "on_route (e_reservations e) w" using 2(6,7) w by auto
      have "v_id v \<notin> v_id ` (set us \<union> set vs)" using 2(5) by (auto simp: ids_ok_def)
      then have "v_id w \<noteq> v_id v" using imageI [OF w, of v_id] by force
      then show "\<And>n r. r \<in> set (e_reservations e n) \<Longrightarrow> r_vehicle_id r = v_id w \<Longrightarrow> r \<in> set (e_reservations ?e n)"
        by (simp add: remove_table)
    qed
    have eq: "\<exists>table. ?e = e\<lparr>e_reservations := table\<rparr>"
      by (auto simp: remove_reservations_for_vehicle_def intro: exI [of _ "e_reservations e"])
    have us: "on_route (e_reservations ?e) w" if "w \<in> set us" for w using keep that by blast
    have vs: "on_route (e_reservations ?e) w \<and> started t w" if "w \<in> set vs" for w
      using keep [of w] 2(7) [of w] that by simp
    obtain table where "?e = e\<lparr>e_reservations := table\<rparr>" using eq by blast
    then show ?thesis
      using 2(2) [OF refl, unfolded move_vehicle_fields, OF False m L ids us vs] by auto
  qed
qed

lemma traffic_inv_started:
  assumes "v \<in> set (e_active e)" "traffic_inv ps e" "0 \<le> dt"
  shows "on_route (e_reservations e) v \<and> started (e_time e + dt) v"
  using assms by (auto simp: traffic_inv_def placed_def started_def)

lemma lot_inv_later: "lot_inv ps e \<Longrightarrow> 0 \<le> dt \<Longrightarrow> lot_inv ps (e\<lparr>e_time := e_time e + dt\<rparr>)"
  by (force simp: lot_inv_def fronts_ok_def)

definition env_inv :: "penv \<Rightarrow> bool" where
  "env_inv e \<longleftrightarrow> lot_inv (e_parked e) e \<and> traffic_inv (e_parked e) e \<and>
     ARRIVAL_MIN \<le> e_iat e \<and> e_iat e \<le> ARRIVAL_MAX"

lemma process_departures_inv:
  assumes "lot_inv (e_parked e) e" "traffic_inv (e_parked e) e"
  shows "lot_inv (e_parked (process_departures e)) (process_departures e) \<and>
    traffic_inv (e_parked (process_departures e)) (process_departures e) \<and>
    e_time (process_departures e) = e_time e \<and>
    e_step_count (process_departures e) = e_step_count e \<and> e_iat (process_departures e) = e_iat e \<and>
    e_terminated (process_departures e) = e_terminated e \<and>
    e_fallback_triggers (process_departures e) = e_fallback_triggers e \<and>
    e_consecutive_waits (process_departures e) = e_consecutive_waits e"
proof -
  obtain still e' where d: "departures (e_parked e) e = (still, e')" by fastforce
  show ?thesis
    using departures_inv [OF d, of "[]"] assms
    by (auto simp: process_departures_def d lot_inv_def traffic_inv_def)
qed

lemma advance_time_inv:
  assumes I: "lot_inv (e_parked e) e" "traffic_inv (e_parked e) e" and dt: "0 \<le> dt"
  shows "lot_inv (e_parked (advance_time dt e)) (advance_time dt e) \<and>
    traffic_inv (e_parked (advance_time dt e)) (advance_time dt e) \<and>
    e_time (advance_time dt e) = e_time e + dt \<and>
    e_step_count (advance_time dt e) = e_step_count e \<and> e_iat (advance_time dt e) = e_iat e \<and>
    e_terminated (advance_time dt e) = e_terminated e \<and>
    e_fallback_triggers (advance_time dt e) = e_fallback_triggers e \<and>
    e_consecutive_waits (advance_time dt e) = e_consecutive_waits e"
proof -
  let ?e1 = "e\<lparr>e_time := e_time e + dt\<rparr>"
  obtain still e2 where m: "move_all (e_time ?e1) (e_active ?e1) ?e1 = (still, e2)" by fastforce
  have L: "lot_inv (e_parked e) ?e1" by (rule lot_inv_later [OF I(1) dt])
  have ids: "ids_ok (e_parked e) (e_vehicle_id_counter ?e1) ([] @ e_active ?e1)"
    using I(2) by (simp add: traffic_inv_def)
  have act: "on_route (e_reservations ?e1) v \<and> started (e_time ?e1) v" if "v \<in> set (e_active ?e1)" for v
    using traffic_inv_started [OF _ I(2) dt, of v] that by simp
  note M = move_all_inv [OF m L ids _ act, simplified]
  then obtain table where t: "e2 = ?e1\<lparr>e_reservations := table\<rparr>" by blast
  let ?e3 = "e2\<lparr>e_active := still\<rparr>"
  have "lot_inv (e_parked ?e3) ?e3" "traffic_inv (e_parked ?e3) ?e3"
    using M t by (simp_all add: lot_inv_def traffic_inv_def)
  then show ?thesis
    using process_departures_inv [of ?e3] t m by (simp add: advance_time_def Let_def)
qed

lemma lot_inv_cong:
  "e_reservations e' = e_reservations e \<Longrightarrow> e_time e' = e_time e \<Longrightarrow> e_taken e' = e_taken e \<Longrightarrow>
     lot_inv ps e' = lot_inv ps e"
  by (simp add: lot_inv_def)

lemma traffic_inv_cong:
  "e_reservations e' = e_reservations e \<Longrightarrow> e_time e' = e_time e \<Longrightarrow> e_active e' = e_active e \<Longrightarrow>
     e_vehicle_id_counter e' = e_vehicle_id_counter e \<Longrightarrow> traffic_inv ps e' = traffic_inv ps e"
  by (simp add: traffic_inv_def)

subsection \<open>An assignment\<close>

lemma commit_table:
  "e_reservations (commit i u e) n = e_reservations e n @
     route_entries (zip (entry_route i) (build_intervals (entry_route i) (e_time e))) (e_vehicle_id_counter e + 1)
       R_entering n @
     (if n = last (entry_route i)
      then [\<lparr>r_vehicle_id = e_vehicle_id_counter e + 1, r_kind = R_parked,
        r_start = snd (last (build_intervals (entry_route i) (e_time e))),
        r_end = uniform (snd (last (build_intervals (entry_route i) (e_time e))) + PARK_DURATION_MIN)
          (snd (last (build_intervals (entry_route i) (e_time e))) + PARK_DURATION_MAX) u\<rparr>] else [])"
  by (simp add: commit_def Let_def spawn_vehicle_def register_reservation_eq add_reservation_def)

lemma commit_fields [simp]:
  "e_time (commit i u e) = e_time e" "e_taken (commit i u e) = (e_taken e)[i := True]"
  "e_vehicle_id_counter (commit i u e) = e_vehicle_id_counter e + 1"
  "e_step_count (commit i u e) = e_step_count e" "e_iat (commit i u e) = e_iat e"
  "e_terminated (commit i u e) = e_terminated e" "e_fallback_triggers (commit i u e) = e_fallback_triggers e"
  "e_consecutive_waits (commit i u e) = e_consecutive_waits e"
  "e_active (commit i u e) = e_active e @ [new_vehicle (e_vehicle_id_counter e + 1) (SLOT_NAMES ! i) None
     (entry_route i) (build_intervals (entry_route i) (e_time e)) (e_time e) Moving]"
  "e_parked (commit i u e) = e_parked e @ [\<lparr>pv_id = e_vehicle_id_counter e + 1, pv_slot = SLOT_NAMES ! i,
     pv_slot_idx = i, pv_depart_time =
       uniform (snd (last (build_intervals (entry_route i) (e_time e))) + PARK_DURATION_MIN)
          (snd (last (build_intervals (entry_route i) (e_time e))) + PARK_DURATION_MAX) u\<rparr>]"
  by (simp_all add: commit_def Let_def spawn_vehicle_def register_reservation_eq add_reservation_def)

lemma uniform_bounds:
  "lo \<le> hi \<Longrightarrow> 0 \<le> u \<Longrightarrow> u < 1 \<Longrightarrow> lo \<le> uniform lo hi u \<and> uniform lo hi u \<le> hi"
proof -
  assume a: "lo \<le> hi" "0 \<le> u" "u < 1"
  then have "0 \<le> (hi - lo) * u" "(hi - lo) * u \<le> (hi - lo) * 1"
    using mult_left_mono [of u 1 "hi - lo"] by simp_all
  then show ?thesis by (simp add: uniform_def)
qed

lemma park_time_bounds:
  "0 \<le> u \<Longrightarrow> u < 1 \<Longrightarrow>
     a + 8 \<le> uniform (a + PARK_DURATION_MIN) (a + PARK_DURATION_MAX) u"
  using uniform_bounds [of "a + PARK_DURATION_MIN" "a + PARK_DURATION_MAX" u]
  by (simp add: PARK_DURATION_MIN_def PARK_DURATION_MAX_def)

text \<open>A free slot's front is released within one second, so nothing meets the parked phase.\<close>

lemma free_front:
  assumes "lot_inv ps e" "i < NUM_SLOTS" "\<not> e_taken e ! i" "r \<in> set (e_reservations e (front i))"
  shows "r_end r \<le> e_time e + 1"
  using assms unfolding lot_inv_def fronts_ok_def slots_ok_def by fastforce

lemma commit_lot:
  assumes I: "lot_inv (e_parked e) e" and i: "i < NUM_SLOTS" and free: "\<not> e_taken e ! i"
    and shield: "\<not> check_conflict e (entry_route i) (build_intervals (entry_route i) (e_time e))"
    and u: "0 \<le> u" "u < 1"
  shows "lot_inv (e_parked (commit i u e)) (commit i u e)"
proof -
  let ?route = "entry_route i" and ?vid = "e_vehicle_id_counter e + 1"
  let ?ivs = "build_intervals ?route (e_time e)"
  let ?pc = "e_time e + real (length ?route)"
  let ?dep = "uniform (?pc + PARK_DURATION_MIN) (?pc + PARK_DURATION_MAX) u"
  let ?park = "\<lparr>r_vehicle_id = ?vid, r_kind = R_parked, r_start = ?pc, r_end = ?dep\<rparr>"
  let ?extra = "\<lambda>n. route_entries (zip ?route ?ivs) ?vid R_entering n @ (if n = front i then [?park] else [])"
  have T: "table_ok (e_reservations e)" and S: "slots_ok (e_parked e) (e_taken e)"
    and F: "fronts_ok (e_parked e) (e_time e) (e_reservations e)" using I by (simp_all add: lot_inv_def)
  have pc: "snd (last ?ivs) = ?pc" using routes_nonempty [OF i] by (simp add: last_build_intervals)
  have tab: "e_reservations (commit i u e) = (\<lambda>n. e_reservations e n @ ?extra n)"
    by (rule ext) (simp add: commit_table pc routes(5) [OF i])
  have len: "?pc \<ge> e_time e + 4" using routes(3) [OF i] by simp
  have shield': "\<not> check_conflict_excluding e ?route ?ivs None" using shield by (simp add: check_conflict_None)
  have "table_ok (e_reservations (commit i u e))"
    unfolding tab
  proof (rule table_ok_add [OF T, where vid = ?vid])
    show "r_vehicle_id r = ?vid \<and> r_start r < r_end r" if "r \<in> set (?extra n)" for n r
      using that park_time_bounds [OF u, of ?pc]
      by (auto simp: route_entries_iff zip_intervals_iff split: if_splits)
    show "apart r r'" if r: "r \<in> set (?extra n)" and r': "r' \<in> set (e_reservations e n)" for n r r'
    proof (cases "r \<in> set (route_entries (zip ?route ?ivs) ?vid R_entering n)")
      case True
      show ?thesis by (rule shield_apart [OF T shield' True r']) simp
    next
      case False
      then have "r = ?park" "n = front i" using r by (auto split: if_splits)
      then show ?thesis
        using free_front [OF I i free, of r'] r' len by (simp add: apart_def SAFETY_MARGIN_def)
    qed
  qed
  moreover have "fronts_ok (e_parked (commit i u e)) (e_time e) (e_reservations (commit i u e))"
    unfolding fronts_ok_def
  proof (intro allI impI ballI)
    fix j r assume j: "j < NUM_SLOTS" and r: "r \<in> set (e_reservations (commit i u e) (front j))"
    show "r_end r \<le> e_time e + 1 \<or>
      (\<exists>pv \<in> set (e_parked (commit i u e)). pv_slot_idx pv = j \<and> pv_id pv = r_vehicle_id r)"
    proof (cases "r \<in> set (e_reservations e (front j))")
      case True
      then show ?thesis using F j unfolding fronts_ok_def by fastforce
    next
      case False
      then have new: "r_vehicle_id r = ?vid \<and> (front j \<in> set ?route \<or> front j = front i)"
        using r by (auto simp: tab route_entries_iff dest: set_zip_leftD split: if_splits)
      have "front i \<in> set ?route" using routes(5) [OF i] routes_nonempty(1) [OF i] last_in_set by metis
      then have "j = i" using new routes(10) [OF i j] by metis
      then show ?thesis using new by simp
    qed
  qed
  moreover have "slots_ok (e_parked (commit i u e)) (e_taken (commit i u e))"
    using slots_ok_add [OF S i free] by simp
  ultimately show ?thesis by (simp add: lot_inv_def)
qed

lemma commit_traffic:
  assumes T: "traffic_inv (e_parked e) e" and i: "i < NUM_SLOTS" and u: "0 \<le> u" "u < 1"
  shows "traffic_inv (e_parked (commit i u e)) (commit i u e)"
proof -
  let ?vid = "e_vehicle_id_counter e + 1"
  let ?v = "new_vehicle ?vid (SLOT_NAMES ! i) None (entry_route i)
     (build_intervals (entry_route i) (e_time e)) (e_time e) Moving"
  have ids: "ids_ok (e_parked e) (e_vehicle_id_counter e) (e_active e)"
    and act: "\<And>v. v \<in> set (e_active e) \<Longrightarrow> on_route (e_reservations e) v \<and> placed (e_time e) v"
    using T by (simp_all add: traffic_inv_def)
  have old: "on_route (e_reservations (commit i u e)) v" if "v \<in> set (e_active e)" for v
    by (rule on_route_mono [of "e_reservations e"]) (use act that in \<open>auto simp: commit_table\<close>)
  have "on_route (e_reservations (commit i u e)) ?v"
    by (rule new_vehicle_on_route [where kind = R_entering])
      (use routes_nonempty [OF i] routes [OF i] in \<open>auto simp: commit_table route_entries_iff\<close>)
  moreover have "placed (e_time e) ?v"
    by (rule new_vehicle_placed) (use routes_nonempty [OF i] in simp)
  moreover have fresh: "\<forall>v \<in> set (e_active e). v_id v < ?vid" "\<forall>pv \<in> set (e_parked e). pv_id pv < ?vid"
    using ids by (auto simp: ids_ok_def)
  moreover have "ids_ok (e_parked (commit i u e)) ?vid (e_active e @ [?v])"
    using ids fresh park_time_bounds [OF u, of "e_time e + real (length (entry_route i))"] routes_nonempty [OF i]
    by (fastforce simp: ids_ok_def new_vehicle_def last_build_intervals)
  ultimately show ?thesis using old act by (auto simp: traffic_inv_def)
qed

end
