(* ===== verification/Parking_Episode.thy ===== *)
theory Parking_Episode
  imports Parking_Shield
begin

text \<open>
  Whole episodes of \<open>rl/parking_env.py\<close>: every public operation keeps the invariant of
  \<open>Parking_Shield\<close>, and what follows for all runs from a reset.
\<close>

section \<open>Every operation\<close>

definition draw :: "real \<Rightarrow> bool" where "draw u \<longleftrightarrow> 0 \<le> u \<and> u < 1"

lemma iat_bounds: "draw u \<Longrightarrow> ARRIVAL_MIN \<le> uniform ARRIVAL_MIN ARRIVAL_MAX u \<and>
    uniform ARRIVAL_MIN ARRIVAL_MAX u \<le> ARRIVAL_MAX"
  using uniform_bounds [of ARRIVAL_MIN ARRIVAL_MAX u] by (simp add: draw_def ARRIVAL_MIN_def ARRIVAL_MAX_def)

lemma env_inv_cong:
  "e_reservations e' = e_reservations e \<Longrightarrow> e_time e' = e_time e \<Longrightarrow> e_active e' = e_active e \<Longrightarrow>
     e_vehicle_id_counter e' = e_vehicle_id_counter e \<Longrightarrow> e_taken e' = e_taken e \<Longrightarrow>
     e_parked e' = e_parked e \<Longrightarrow> e_iat e' = e_iat e \<Longrightarrow> env_inv e' = env_inv e"
  by (simp add: env_inv_def lot_inv_def traffic_inv_def)

lemma advance_env_inv [inv_intro]:
  "env_inv e \<Longrightarrow> 0 \<le> dt \<Longrightarrow> env_inv (advance_time dt e)"
  using advance_time_inv [of e dt] by (simp add: env_inv_def)

lemma commit_env_inv [inv_intro]:
  "env_inv e \<Longrightarrow> i < NUM_SLOTS \<Longrightarrow> \<not> e_taken e ! i \<Longrightarrow>
     \<not> check_conflict e (entry_route i) (build_intervals (entry_route i) (e_time e)) \<Longrightarrow> draw u \<Longrightarrow>
     env_inv (commit i u e)"
  using commit_lot [of e i u] commit_traffic [of e i u] by (simp add: env_inv_def draw_def)

lemma slots_never_deadlock:
  assumes "env_inv e" shows "\<not> (list_all id (e_taken e) \<and> e_parked e = [])"
proof
  assume a: "list_all id (e_taken e) \<and> e_parked e = []"
  have "length (e_taken e) = NUM_SLOTS" "e_taken e ! 0 \<longleftrightarrow> 0 \<in> pv_slot_idx ` set (e_parked e)"
    using assms by (simp_all add: env_inv_def lot_inv_def slots_ok_def NUM_SLOTS_def)
  then show False using a by (auto simp: list_all_length NUM_SLOTS_def)
qed

lemma finish_step_inv:
  assumes "env_inv e" "0 \<le> dt" "finish_step dt reward info e = (e', out)"
  shows "env_inv e' \<and> e_step_count e' = e_step_count e + 1 \<and> e_time e' = e_time e + dt \<and>
    e_terminated e' = (MAX_STEPS \<le> e_step_count e + 1) \<and> e_fallback_triggers e' = e_fallback_triggers e \<and>
    e_consecutive_waits e' = e_consecutive_waits e"
proof -
  let ?e0 = "e\<lparr>e_step_count := e_step_count e + 1\<rparr>"
  have "env_inv ?e0" using assms(1) env_inv_cong [of ?e0 e] by simp
  then have A: "env_inv (advance_time dt ?e0)" by (rule advance_env_inv) (rule assms(2))
  have B: "e_step_count (advance_time dt ?e0) = e_step_count e + 1" "e_time (advance_time dt ?e0) = e_time e + dt"
    "e_fallback_triggers (advance_time dt ?e0) = e_fallback_triggers e"
    "e_consecutive_waits (advance_time dt ?e0) = e_consecutive_waits e"
    using advance_time_inv [of ?e0 dt] \<open>env_inv ?e0\<close> assms(2) by (simp_all add: env_inv_def)
  have e': "e' = (advance_time dt ?e0)\<lparr>e_terminated := check_done (advance_time dt ?e0)\<rparr>"
    using assms(3) by (simp add: finish_step_def Let_def)
  have "env_inv e'" using A env_inv_cong [of e' "advance_time dt ?e0"] by (simp add: e')
  moreover have "check_done (advance_time dt ?e0) = (MAX_STEPS \<le> e_step_count e + 1)"
    using slots_never_deadlock [OF A] B by (auto simp: check_done_def)
  ultimately show ?thesis using B by (simp add: e')
qed

definition config_ok :: "env_config \<Rightarrow> bool" where "config_ok cfg \<longleftrightarrow> 0 \<le> wait_time cfg"

lemma step_wait_inv:
  assumes "env_inv e" "config_ok cfg" "step_wait cfg e = (e', out)"
  shows "env_inv e' \<and> e_step_count e' = e_step_count e + 1 \<and> e_time e' = e_time e + wait_time cfg \<and>
    e_terminated e' = (MAX_STEPS \<le> e_step_count e + 1) \<and> e_fallback_triggers e' = e_fallback_triggers e \<and>
    e_consecutive_waits e' = e_consecutive_waits e + 1"
proof -
  let ?e = "e\<lparr>e_consecutive_waits := e_consecutive_waits e + 1, e_wait_count := e_wait_count e + 1\<rparr>"
  have "env_inv ?e" using assms(1) env_inv_cong [of ?e e] by simp
  moreover have "0 \<le> wait_time cfg" using assms(2) by (simp add: config_ok_def)
  moreover obtain p info where "finish_step (wait_time cfg) p info ?e = (e', out)"
    using assms(3) unfolding step_wait_def Let_def by blast
  ultimately have "env_inv e' \<and> e_step_count e' = e_step_count ?e + 1 \<and> e_time e' = e_time ?e + wait_time cfg \<and>
    e_terminated e' = (MAX_STEPS \<le> e_step_count ?e + 1) \<and> e_fallback_triggers e' = e_fallback_triggers ?e \<and>
    e_consecutive_waits e' = e_consecutive_waits ?e"
    by (rule finish_step_inv)
  then show ?thesis by simp
qed

text \<open>The state a slot action leaves before the clock runs.\<close>

definition chosen_state :: "real \<Rightarrow> real \<Rightarrow> nat \<Rightarrow> penv \<Rightarrow> penv" where
  "chosen_state u_depart u_iat i e =
     (let e0 = e\<lparr>e_consecutive_waits := 0\<rparr>
      in (if e_taken e ! i \<or> check_conflict e (entry_route i) (build_intervals (entry_route i) (e_time e))
          then e0 else commit i u_depart e0)\<lparr>e_iat := uniform ARRIVAL_MIN ARRIVAL_MAX u_iat\<rparr>)"

lemma check_conflict_cong:
  "e_reservations e' = e_reservations e \<Longrightarrow> check_conflict e' r ivs = check_conflict e r ivs"
  by (simp add: check_conflict_def)

lemma step_slot_eq:
  "\<exists>reward info. step_slot cfg u_depart u_iat i e =
     finish_step (uniform ARRIVAL_MIN ARRIVAL_MAX u_iat) reward info (chosen_state u_depart u_iat i e) \<and>
     i_conflict info = (\<not> e_taken e ! i \<and>
       check_conflict e (entry_route i) (build_intervals (entry_route i) (e_time e))) \<and>
     i_slot info = Some (SLOT_NAMES ! i) \<and>
     (i_reason info = None \<longleftrightarrow> \<not> e_taken e ! i)"
proof (cases "e_taken e ! i")
  case True
  show ?thesis
    unfolding step_slot_def chosen_state_def sample_iat_def Let_def
    by (simp add: True, intro exI conjI, rule refl, simp_all)
next
  case False
  note cc = check_conflict_cong [of "e\<lparr>e_consecutive_waits := 0\<rparr>" e, simplified]
  show ?thesis
  proof (cases "check_conflict e (entry_route i) (build_intervals (entry_route i) (e_time e))")
    case yes: True
    show ?thesis
      unfolding step_slot_def chosen_state_def sample_iat_def Let_def
      by (simp add: False cc yes, intro exI conjI, rule refl, simp_all)
  next
    case no: False
    show ?thesis
      unfolding step_slot_def chosen_state_def sample_iat_def Let_def
      by (cases "assignment_bonus cfg = 0"; (simp add: False cc no, intro exI conjI, rule refl, simp_all))
  qed
qed

lemma chosen_state_inv:
  assumes I: "env_inv e" and i: "i < NUM_SLOTS" and u: "draw u_depart" "draw u_iat"
  shows "env_inv (chosen_state u_depart u_iat i e)"
proof -
  let ?e0 = "e\<lparr>e_consecutive_waits := 0\<rparr>"
  let ?skip = "e_taken e ! i \<or> check_conflict e (entry_route i) (build_intervals (entry_route i) (e_time e))"
  let ?e1 = "if ?skip then ?e0 else commit i u_depart ?e0"
  have "env_inv ?e0" using I env_inv_cong [of ?e0 e] by simp
  then have "env_inv ?e1"
    using commit_env_inv [of ?e0 i u_depart] i u check_conflict_cong [of ?e0 e] by auto
  then have "env_inv (?e1\<lparr>e_iat := uniform ARRIVAL_MIN ARRIVAL_MAX u_iat\<rparr>)"
    using iat_bounds [OF u(2)] by (simp add: env_inv_def lot_inv_def traffic_inv_def)
  then show ?thesis by (simp add: chosen_state_def Let_def)
qed

lemma chosen_state_fields [simp]:
  "e_time (chosen_state u_depart u_iat i e) = e_time e"
  "e_step_count (chosen_state u_depart u_iat i e) = e_step_count e"
  "e_fallback_triggers (chosen_state u_depart u_iat i e) = e_fallback_triggers e"
  "e_consecutive_waits (chosen_state u_depart u_iat i e) = 0"
  by (simp_all add: chosen_state_def Let_def)

lemma step_inv:
  assumes I: "env_inv e" and cfg: "config_ok cfg" and u: "draw u_depart" "draw u_iat"
    and st: "step cfg u_depart u_iat a e = Inr (e', out)"
  shows "env_inv e' \<and> e_step_count e' = e_step_count e + 1 \<and>
    e_terminated e' = (MAX_STEPS \<le> e_step_count e + 1) \<and> e_fallback_triggers e' = e_fallback_triggers e"
proof (cases "nat a = WAIT_ACTION")
  case True
  then have "step_wait cfg e = (e', out)" using st by (auto simp: step_def split: if_splits)
  then show ?thesis using step_wait_inv [OF I cfg] by blast
next
  case False
  then have st1: "step_slot cfg u_depart u_iat (nat a) e = (e', out)" and a: "nat a < NUM_SLOTS"
    using st by (auto simp: step_def WAIT_ACTION_def split: if_splits)
  obtain reward info where
    f: "finish_step (uniform ARRIVAL_MIN ARRIVAL_MAX u_iat) reward info (chosen_state u_depart u_iat (nat a) e) = (e', out)"
    using step_slot_eq [of cfg u_depart u_iat "nat a" e] st1 by metis
  have "0 \<le> uniform ARRIVAL_MIN ARRIVAL_MAX u_iat"
    using iat_bounds [OF u(2)] by (simp add: ARRIVAL_MIN_def)
  then show ?thesis using finish_step_inv [OF chosen_state_inv [OF I a u] _ f] by simp
qed

lemma step_total:
  assumes "\<not> e_terminated e" "0 \<le> a" "a \<le> 8"
  shows "\<exists>e' out. step cfg u_depart u_iat a e = Inr (e', out)"
proof -
  have "step cfg u_depart u_iat a e =
      Inr (if nat a = WAIT_ACTION then step_wait cfg e else step_slot cfg u_depart u_iat (nat a) e)"
    using assms by (simp add: step_def NUM_SLOTS_def)
  then show ?thesis by (metis surj_pair)
qed

section \<open>Masks\<close>

lemma ensure_free_slot_inv:
  assumes "env_inv e"
  shows "env_inv (ensure_free_slot e) \<and> e_terminated (ensure_free_slot e) = e_terminated e \<and>
    e_step_count (ensure_free_slot e) = e_step_count e \<and>
    e_fallback_triggers (ensure_free_slot e) = e_fallback_triggers e \<and>
    e_consecutive_waits (ensure_free_slot e) = e_consecutive_waits e"
proof (cases "list_ex Not (e_taken e) \<or> e_parked e = []")
  case True
  then show ?thesis using assms by (simp add: ensure_free_slot_def)
next
  case False
  define dt where "dt = max 0 (Min (set (map pv_depart_time (e_parked e))) - e_time e)"
  have "0 \<le> dt" by (simp add: dt_def)
  note A = advance_env_inv [OF assms this] advance_time_inv [of e dt, OF _ _ this]
  have "ensure_free_slot e = advance_time dt e \<or>
      ensure_free_slot e = (advance_time dt e)\<lparr>e_fast_forward_count := e_fast_forward_count (advance_time dt e) + 1\<rparr>"
    using False by (simp add: ensure_free_slot_def Let_def dt_def)
  then show ?thesis
    using A assms env_inv_cong [of "(advance_time dt e)\<lparr>e_fast_forward_count := e_fast_forward_count (advance_time dt e) + 1\<rparr>"
        "advance_time dt e"] by (auto simp: env_inv_def)
qed

lemma action_masks_inv:
  assumes "env_inv e"
  shows "env_inv (fst (action_masks cfg e)) \<and> e_terminated (fst (action_masks cfg e)) = e_terminated e \<and>
    e_step_count (fst (action_masks cfg e)) = e_step_count e"
proof -
  have "env_inv (e1\<lparr>e_fallback_triggers := k\<rparr>) = env_inv e1" for e1 k
    by (rule env_inv_cong) simp_all
  then show ?thesis
    using ensure_free_slot_inv [OF assms] assms by (simp add: action_masks_def Let_def split: list.splits)
qed

text \<open>A slot the mask offers, unless the fallback forced it, is free and passes the shield.\<close>

lemma length_slot_masks [simp]: "length (slot_masks e) = NUM_SLOTS"
  by (simp add: slot_masks_def)

lemma slot_masks_nth:
  "i < NUM_SLOTS \<Longrightarrow> slot_masks e ! i \<longleftrightarrow> \<not> e_taken e ! i \<and> \<not> quick_conflict_check e i"
  by (simp add: slot_masks_def)

lemma action_masks_sound:
  assumes "action_masks cfg e = (e', masks)" "env_inv e" "i < NUM_SLOTS" "masks ! i"
    and "e_fallback_triggers e' = e_fallback_triggers e"
  shows "\<not> e_taken e' ! i \<and> \<not> quick_conflict_check e' i"
proof -
  consider (plain) "e' = e" "\<exists>x. masks = slot_masks e @ [x]"
    | (forward) "e' = ensure_free_slot e" "masks = slot_masks (ensure_free_slot e) @ [False]"
    | (fallback) "e_fallback_triggers e' = e_fallback_triggers (ensure_free_slot e) + 1"
    using assms(1) by (auto simp: action_masks_def Let_def split: if_splits list.splits)
  then show ?thesis
  proof cases
    case plain
    then show ?thesis using assms(3,4) by (auto simp: nth_append slot_masks_nth)
  next
    case forward
    then show ?thesis using assms(3,4) by (simp add: nth_append slot_masks_nth)
  next
    case fallback
    then show ?thesis using assms(2,5) ensure_free_slot_inv by simp
  qed
qed

section \<open>Reset and runs\<close>

definition reset_ok :: "real \<Rightarrow> (nat \<times> real) list \<Rightarrow> bool" where
  "reset_ok u_iat chosen \<longleftrightarrow> draw u_iat \<and> length chosen \<le> INITIAL_OCCUPANCY_MAX \<and> distinct (map fst chosen) \<and>
     list_all (\<lambda>(i, u). i < NUM_SLOTS \<and> draw u) chosen"

lemma front_inj:
  assumes "i < NUM_SLOTS" "j < NUM_SLOTS" "front i = front j" shows "i = j"
proof -
  have "front j \<in> set (entry_route j)"
    using routes(5) [OF assms(2)] routes_nonempty(1) [OF assms(2)] last_in_set by metis
  then show ?thesis using routes(10) [OF assms(2,1)] assms(3) by simp
qed

text \<open>One car parked before the episode starts.\<close>

definition pre_parked :: "nat \<Rightarrow> real \<Rightarrow> penv \<Rightarrow> penv" where
  "pre_parked idx u e =
     e\<lparr>e_vehicle_id_counter := e_vehicle_id_counter e + 1, e_taken := (e_taken e)[idx := True],
       e_reservations := (\<lambda>n. e_reservations e n @ (if n = front idx
         then [\<lparr>r_vehicle_id = e_vehicle_id_counter e + 1, r_kind = R_parked, r_start = 0,
                r_end = uniform PARK_DURATION_MIN PARK_DURATION_MAX u\<rparr>] else [])),
       e_parked := e_parked e @ [\<lparr>pv_id = e_vehicle_id_counter e + 1, pv_slot = SLOT_NAMES ! idx,
         pv_slot_idx = idx, pv_depart_time = uniform PARK_DURATION_MIN PARK_DURATION_MAX u\<rparr>]\<rparr>"

lemma pre_park_Cons:
  "idx < NUM_SLOTS \<Longrightarrow> pre_park ((idx, u) # chosen) e = pre_park chosen (pre_parked idx u e)"
  by (simp add: pre_parked_def Let_def add_reservation_def routes(5) fun_upd_def if_distrib cong: if_cong)

lemma pre_parked_inv:
  assumes I: "env_inv e" and act: "e_active e = []" and idx: "idx < NUM_SLOTS" and u: "draw u"
    and free: "\<not> e_taken e ! idx" and front: "e_reservations e (front idx) = []"
  shows "env_inv (pre_parked idx u e)"
proof -
  let ?vid = "e_vehicle_id_counter e + 1" and ?dep = "uniform PARK_DURATION_MIN PARK_DURATION_MAX u"
  let ?e = "pre_parked idx u e"
  have T: "table_ok (e_reservations e)" and S: "slots_ok (e_parked e) (e_taken e)"
    and F: "fronts_ok (e_parked e) (e_time e) (e_reservations e)"
    and D: "ids_ok (e_parked e) (e_vehicle_id_counter e) []"
    using I act by (simp_all add: env_inv_def lot_inv_def traffic_inv_def)
  have dep: "0 < ?dep"
    using uniform_bounds [of PARK_DURATION_MIN PARK_DURATION_MAX u] u
    by (simp add: draw_def PARK_DURATION_MIN_def PARK_DURATION_MAX_def)
  have "table_ok (e_reservations ?e)"
    unfolding pre_parked_def
    by (simp, rule table_ok_add [OF T, where vid = ?vid]) (auto simp: front dep split: if_splits)
  moreover have "fronts_ok (e_parked ?e) (e_time e) (e_reservations ?e)"
    using F front_inj [OF _ idx] unfolding fronts_ok_def pre_parked_def
    by (fastforce split: if_splits)
  moreover have "slots_ok (e_parked ?e) (e_taken ?e)"
    using slots_ok_add [OF S idx free] by (simp add: pre_parked_def)
  moreover have "ids_ok (e_parked ?e) ?vid []"
    using D by (fastforce simp: ids_ok_def pre_parked_def)
  ultimately show ?thesis
    using I act by (simp add: env_inv_def lot_inv_def traffic_inv_def) (simp add: pre_parked_def)
qed

lemma pre_park_inv:
  assumes "env_inv e" "e_active e = []" "e_time e = 0" "distinct (map fst chosen)"
    "list_all (\<lambda>(i, u). i < NUM_SLOTS \<and> draw u \<and> \<not> e_taken e ! i) chosen"
    "\<And>i. i < NUM_SLOTS \<Longrightarrow> \<not> e_taken e ! i \<Longrightarrow> e_reservations e (front i) = []"
  shows "env_inv (pre_park chosen e) \<and> e_active (pre_park chosen e) = [] \<and> e_time (pre_park chosen e) = 0 \<and>
    e_step_count (pre_park chosen e) = e_step_count e \<and> e_terminated (pre_park chosen e) = e_terminated e"
  using assms
proof (induction chosen arbitrary: e)
  case Nil
  then show ?case by simp
next
  case (Cons c chosen)
  obtain idx u where c: "c = (idx, u)" by fastforce
  let ?e = "pre_parked idx u e"
  have idx: "idx < NUM_SLOTS" and u: "draw u" and free: "\<not> e_taken e ! idx"
    using Cons.prems(5) by (simp_all add: c)
  have inv: "env_inv ?e"
    by (rule pre_parked_inv [OF Cons.prems(1,2) idx u free]) (rule Cons.prems(6) [OF idx free])
  have len: "length (e_taken e) = NUM_SLOTS"
    using Cons.prems(1) by (simp add: env_inv_def lot_inv_def slots_ok_def)
  have taken: "e_taken ?e = (e_taken e)[idx := True]" by (simp add: pre_parked_def)
  have rest: "list_all (\<lambda>(i, u). i < NUM_SLOTS \<and> draw u \<and> \<not> e_taken ?e ! i) chosen"
    unfolding list_all_iff
  proof clarify
    fix i w assume m: "(i, w) \<in> set chosen"
    then have "i \<in> fst ` set chosen" by (metis fst_conv imageI)
    then have "i \<noteq> idx" using Cons.prems(4) by (auto simp: c)
    then show "i < NUM_SLOTS \<and> draw w \<and> \<not> e_taken ?e ! i"
      using Cons.prems(5) m by (auto simp: taken list_all_iff)
  qed
  have empty: "e_reservations ?e (front i) = []" if i: "i < NUM_SLOTS" "\<not> e_taken ?e ! i" for i
  proof -
    have ne: "i \<noteq> idx" using i len by (auto simp: taken)
    then have "e_reservations e (front i) = []" using i Cons.prems(6) [of i] by (simp add: taken)
    then show ?thesis using front_inj [OF i(1) idx] ne by (auto simp: pre_parked_def)
  qed
  have "e_active ?e = []" "e_time ?e = 0" "e_step_count ?e = e_step_count e" "e_terminated ?e = e_terminated e"
    using Cons.prems(2,3) by (simp_all add: pre_parked_def)
  then show ?case
    using Cons.IH [OF inv _ _ _ rest empty] Cons.prems(4) pre_park_Cons [OF idx] by (simp add: c)
qed

lemma reset_inv:
  assumes "reset_ok u_iat chosen"
  shows "env_inv (fst (reset u_iat chosen)) \<and> e_step_count (fst (reset u_iat chosen)) = 0 \<and>
    \<not> e_terminated (fst (reset u_iat chosen))"
proof -
  let ?e = "init_state\<lparr>e_iat := uniform ARRIVAL_MIN ARRIVAL_MAX u_iat\<rparr>"
  have "env_inv ?e"
    using iat_bounds [of u_iat] assms
    by (simp add: env_inv_def init_state_def lot_inv_def traffic_inv_def table_ok_def fronts_ok_def slots_ok_def
        ids_ok_def reset_ok_def)
  moreover have "list_all (\<lambda>(i, u). i < NUM_SLOTS \<and> draw u \<and> \<not> e_taken ?e ! i) chosen"
    using assms by (auto simp: reset_ok_def list_all_iff init_state_def)
  ultimately show ?thesis
    using pre_park_inv [of ?e chosen] assms by (simp add: reset_def Let_def reset_ok_def init_state_def)
qed

datatype env_op = Act int real real | Masks

fun env_step :: "env_config \<Rightarrow> penv \<Rightarrow> env_op \<Rightarrow> penv" where
  "env_step cfg e (Act a u_depart u_iat) =
     (case step cfg u_depart u_iat a e of Inl err \<Rightarrow> e | Inr (e', out) \<Rightarrow> e')"
| "env_step cfg e Masks = fst (action_masks cfg e)"

fun good_op :: "env_op \<Rightarrow> bool" where
  "good_op (Act a u_depart u_iat) = (draw u_depart \<and> draw u_iat)"
| "good_op Masks = True"

lemma env_step_inv:
  assumes "config_ok cfg" "env_inv e" "good_op p" shows "env_inv (env_step cfg e p)"
proof (cases p)
  case (Act a u_depart u_iat)
  then show ?thesis
    using step_inv [OF assms(2,1)] assms(2,3) by (auto split: sum.splits)
next
  case Masks
  then show ?thesis using action_masks_inv [OF assms(2)] by simp
qed

interpretation env_sys: guarded_system "env_step cfg" "\<lambda>e. config_ok cfg \<longrightarrow> env_inv e" good_op for cfg
  by unfold_locales (auto intro: env_step_inv)

definition episode :: "env_config \<Rightarrow> real \<Rightarrow> (nat \<times> real) list \<Rightarrow> env_op list \<Rightarrow> penv" where
  "episode cfg u_iat chosen ops = foldl (env_step cfg) (fst (reset u_iat chosen)) ops"

lemma episode_inv:
  "reset_ok u_iat chosen \<Longrightarrow> config_ok cfg \<Longrightarrow> list_all good_op ops \<Longrightarrow> env_inv (episode cfg u_iat chosen ops)"
  using env_sys.guarded_run_inv [of cfg "fst (reset u_iat chosen)" ops] reset_inv [of u_iat chosen]
  by (simp add: episode_def)

section \<open>What holds in every episode\<close>

definition sample_ops :: "env_op list" where
  "sample_ops = [Masks, Act 7 0 0, Act 8 0 0, Act 3 (1 / 2) (1 / 2)]"

lemma sample_run:
  "reset_ok 0 [(0, 0), (5, 1 / 2)]" "config_ok env_config_default" "list_all good_op sample_ops"
  by (simp_all add: reset_ok_def draw_def INITIAL_OCCUPANCY_MAX_def NUM_SLOTS_def config_ok_def
      env_config_default_def WAIT_TIME_def sample_ops_def)

text \<open>C3: the safety shield keeps vehicles apart. In every episode (any reset, any sequence of
  assignments, waits and mask queries, whatever the policy chooses) any two reservations of different
  vehicles at the same node lie at least half a second (\<open>SAFETY_MARGIN\<close>) apart, for entering,
  parked and exiting vehicles alike.\<close>

theorem shield_separates:
  assumes "reset_ok u_iat chosen" "config_ok cfg" "list_all good_op ops"
  shows "list_all (\<lambda>r1. list_all (\<lambda>r2. r_vehicle_id r1 = r_vehicle_id r2 \<or>
       r_end r1 + 1 / 2 \<le> r_start r2 \<or> r_end r2 + 1 / 2 \<le> r_start r1)
       (e_reservations (episode cfg u_iat chosen ops) n)) (e_reservations (episode cfg u_iat chosen ops) n)"
  using episode_inv [OF assms]
  by (auto simp: env_inv_def lot_inv_def table_ok_def apart_def SAFETY_MARGIN_def list_all_iff)

lemma shield_separates_witness:
  "list_all (\<lambda>r1. list_all (\<lambda>r2. r_vehicle_id r1 = r_vehicle_id r2 \<or>
       r_end r1 + 1 / 2 \<le> r_start r2 \<or> r_end r2 + 1 / 2 \<le> r_start r1)
       (e_reservations (episode env_config_default 0 [(0, 0), (5, 1 / 2)] sample_ops) ''junction''))
     (e_reservations (episode env_config_default 0 [(0, 0), (5, 1 / 2)] sample_ops) ''junction'')"
  by (rule shield_separates [OF sample_run])

text \<open>No two vehicles under way are ever shown at the same node: whatever the clock did, the
  nodes of the moving and leaving vehicles of the simulator are pairwise different.\<close>

theorem one_vehicle_per_node:
  assumes "reset_ok u_iat chosen" "config_ok cfg" "list_all good_op ops"
  shows "distinct (map v_current_node (e_active (episode cfg u_iat chosen ops)))"
proof -
  define e where "e = episode cfg u_iat chosen ops"
  have T: "table_ok (e_reservations e)" and ids: "distinct (map v_id (e_active e))"
    and act: "\<And>v. v \<in> set (e_active e) \<Longrightarrow> on_route (e_reservations e) v \<and> placed (e_time e) v"
    using episode_inv [OF assms]
    by (simp_all add: e_def env_inv_def lot_inv_def traffic_inv_def ids_ok_def)
  have "v_current_node v \<noteq> v_current_node w"
    if v: "v \<in> set (e_active e)" and w: "w \<in> set (e_active e)" and ne: "v_id v \<noteq> v_id w" for v w
  proof
    assume same: "v_current_node v = v_current_node w"
    obtain r where r: "r \<in> set (e_reservations e (v_current_node v))" "r_vehicle_id r = v_id v"
        "r_start r \<le> e_time e" "e_time e < r_end r"
      using act [OF v] by (auto simp: on_route_def placed_def)
    obtain q where q: "q \<in> set (e_reservations e (v_current_node w))" "r_vehicle_id q = v_id w"
        "r_start q \<le> e_time e" "e_time e < r_end q"
      using act [OF w] by (auto simp: on_route_def placed_def)
    have "apart r q" using T r q ne same unfolding table_ok_def by metis
    then show False using r(3,4) q(3,4) by (auto simp: apart_def SAFETY_MARGIN_def)
  qed
  then have "inj_on v_current_node (set (e_active e))" using ids
    by (auto simp: inj_on_def distinct_map)
  then show ?thesis using ids by (simp add: e_def distinct_map)
qed

lemma one_vehicle_per_node_witness:
  "distinct (map v_current_node (e_active (episode env_config_default 0 [(0, 0), (5, 1 / 2)] sample_ops)))"
  by (rule one_vehicle_per_node [OF sample_run])

fun is_act :: "env_op \<Rightarrow> bool" where
  "is_act (Act a u v) = True" | "is_act Masks = False"

fun in_range :: "env_op \<Rightarrow> bool" where
  "in_range (Act a u v) = (0 \<le> a \<and> a \<le> 8)" | "in_range Masks = True"

lemma env_step_counts:
  assumes "config_ok cfg" "env_inv e" "good_op p" "in_range p"
    and T: "e_terminated e = (MAX_STEPS \<le> e_step_count e)"
  shows "e_step_count (env_step cfg e p) =
      (if is_act p \<and> e_step_count e < MAX_STEPS then e_step_count e + 1 else e_step_count e) \<and>
    e_terminated (env_step cfg e p) = (MAX_STEPS \<le> e_step_count (env_step cfg e p))"
proof (cases p)
  case (Act a u_depart u_iat)
  show ?thesis
  proof (cases "e_terminated e")
    case True
    then show ?thesis using T by (simp add: Act step_def)
  next
    case False
    then obtain e' out where s: "step cfg u_depart u_iat a e = Inr (e', out)"
      using step_total [of e a cfg u_depart u_iat] assms(4) by (auto simp: Act)
    have "e_step_count e' = e_step_count e + 1 \<and> e_terminated e' = (MAX_STEPS \<le> e_step_count e + 1)"
      using step_inv [OF assms(2,1) _ _ s] assms(3) by (simp add: Act)
    then show ?thesis using T False s by (simp add: Act)
  qed
next
  case Masks
  then show ?thesis using action_masks_inv [OF assms(2), of cfg] T by simp
qed

lemma run_counts:
  assumes "config_ok cfg" "env_inv e" "list_all good_op ops" "list_all in_range ops"
    and "e_terminated e = (MAX_STEPS \<le> e_step_count e)" "e_step_count e \<le> MAX_STEPS"
  shows "e_step_count (foldl (env_step cfg) e ops) = min MAX_STEPS (e_step_count e + length (filter is_act ops)) \<and>
    e_terminated (foldl (env_step cfg) e ops) = (MAX_STEPS \<le> e_step_count e + length (filter is_act ops))"
  using assms
proof (induction ops arbitrary: e)
  case Nil
  then show ?case by simp
next
  case (Cons p ops)
  have "env_inv (env_step cfg e p)" using env_step_inv [OF Cons.prems(1,2)] Cons.prems(3) by simp
  moreover note C = env_step_counts [OF Cons.prems(1,2) _ _ Cons.prems(5), of p]
  ultimately show ?case using Cons.IH [of "env_step cfg e p"] Cons.prems by (auto split: if_splits)
qed

text \<open>C27: an episode ends after exactly 64 steps. With valid actions every call of \<open>step\<close> before the
  end succeeds and counts one; the episode is over exactly when 64 of them were made, mask queries
  in between not counting. The other ending the code foresees, every slot taken with no vehicle
  parked, cannot happen.\<close>

theorem episode_length:
  assumes "reset_ok u_iat chosen" "config_ok cfg" "list_all good_op ops" "list_all in_range ops"
  shows "e_step_count (episode cfg u_iat chosen ops) = min 64 (length (filter is_act ops)) \<and>
    (e_terminated (episode cfg u_iat chosen ops) \<longleftrightarrow> 64 \<le> length (filter is_act ops)) \<and>
    \<not> (list_all id (e_taken (episode cfg u_iat chosen ops)) \<and> e_parked (episode cfg u_iat chosen ops) = [])"
  using run_counts [OF assms(2) _ assms(3,4), of "fst (reset u_iat chosen)"] reset_inv [OF assms(1)]
    slots_never_deadlock [OF episode_inv [OF assms(1,2,3)]]
  by (simp add: episode_def MAX_STEPS_def)

lemma episode_length_witness:
  "e_step_count (episode env_config_default 0 [(0, 0), (5, 1 / 2)] sample_ops) = 3 \<and>
   \<not> e_terminated (episode env_config_default 0 [(0, 0), (5, 1 / 2)] sample_ops)"
  using episode_length [OF sample_run] by (simp add: sample_ops_def)

text \<open>The mask is sound. A slot that \<open>action_masks\<close> offers without its forced fallback is free
  and passes the shield: assigning it succeeds without a conflict, and the assignment is carried
  out (the new vehicle gets the next id).\<close>

theorem masked_action_commits:
  assumes "reset_ok u0 chosen" "config_ok cfg" "list_all good_op ops" "draw u_depart" "draw u_iat"
    and "action_masks cfg (episode cfg u0 chosen ops) = (e', masks)"
    and "\<not> e_terminated (episode cfg u0 chosen ops)"
    and "e_fallback_triggers e' = e_fallback_triggers (episode cfg u0 chosen ops)"
    and "i < 8" "masks ! i"
  shows "\<exists>e'' obs reward term info. step cfg u_depart u_iat (int i) e' = Inr (e'', obs, reward, term, False, info) \<and>
    \<not> i_conflict info \<and> i_reason info = None \<and> i_slot info = Some (SLOT_NAMES ! i) \<and>
    e_vehicle_id_counter (chosen_state u_depart u_iat i e') = e_vehicle_id_counter e' + 1"
proof -
  let ?e = "episode cfg u0 chosen ops"
  have inv: "env_inv ?e" by (rule episode_inv [OF assms(1-3)])
  have i: "i < NUM_SLOTS" using assms(9) by (simp add: NUM_SLOTS_def)
  have free: "\<not> e_taken e' ! i"
    and shield: "\<not> check_conflict e' (entry_route i) (build_intervals (entry_route i) (e_time e'))"
    using action_masks_sound [OF assms(6) inv i assms(10,8)] by (simp_all add: quick_conflict_check_def)
  have alive: "\<not> e_terminated e'" using action_masks_inv [OF inv, of cfg] assms(6,7) by simp
  obtain reward info where s: "step_slot cfg u_depart u_iat i e' =
      finish_step (uniform ARRIVAL_MIN ARRIVAL_MAX u_iat) reward info (chosen_state u_depart u_iat i e')"
    and info: "\<not> i_conflict info" "i_slot info = Some (SLOT_NAMES ! i)" "i_reason info = None"
    using step_slot_eq [of cfg u_depart u_iat i e'] free shield by blast
  have "step cfg u_depart u_iat (int i) e' = Inr (step_slot cfg u_depart u_iat i e')"
    using alive i by (simp add: step_def WAIT_ACTION_def NUM_SLOTS_def)
  moreover have "e_vehicle_id_counter (chosen_state u_depart u_iat i e') = e_vehicle_id_counter e' + 1"
    using free shield by (simp add: chosen_state_def Let_def)
  ultimately show ?thesis
    using info unfolding s finish_step_def Let_def by (intro exI conjI) (assumption | simp)+
qed

lemma no_reservations_no_conflict:
  "(\<And>n. e_reservations e n = []) \<Longrightarrow> \<not> check_conflict e route ivs"
  by (auto simp: check_conflict_def list_ex_iff)

lemma fresh_masks:
  "action_masks env_config_default (episode env_config_default 0 [] []) =
     (episode env_config_default 0 [] [], replicate 9 True)"
proof -
  let ?e = "episode env_config_default 0 [] []"
  have e: "?e = init_state\<lparr>e_iat := uniform ARRIVAL_MIN ARRIVAL_MAX 0\<rparr>" by (simp add: episode_def reset_def Let_def)
  have "slot_masks ?e = replicate NUM_SLOTS True"
    by (rule nth_equalityI)
      (simp_all add: slot_masks_nth quick_conflict_check_def no_reservations_no_conflict e init_state_def)
  moreover have "\<not> e_terminated ?e \<and> e_consecutive_waits ?e = 0" by (simp add: e init_state_def)
  ultimately show ?thesis
    by (simp add: action_masks_def Let_def env_config_default_def MAX_CONSECUTIVE_WAITS_def NUM_SLOTS_def
        eval_nat_numeral)
qed

lemma masked_action_commits_witness:
  "\<exists>e'' obs reward term info.
     step env_config_default 0 0 7 (episode env_config_default 0 [] []) = Inr (e'', obs, reward, term, False, info) \<and>
     \<not> i_conflict info \<and> i_slot info = Some ''A1''"
proof -
  have h: "reset_ok 0 []" "config_ok env_config_default" "list_all good_op []" "draw 0"
    by (simp_all add: reset_ok_def draw_def config_ok_def env_config_default_def WAIT_TIME_def)
  have t: "\<not> e_terminated (episode env_config_default 0 [] [])"
    by (simp add: episode_def reset_def init_state_def Let_def)
  show ?thesis
    using masked_action_commits [OF h(1,2,3,4,4) fresh_masks t refl, of 7]
    by (simp add: SLOT_NAMES_def) blast
qed

lemma node_index_less: "node_index n < 15"
proof -
  have "length (takeWhile (\<lambda>m. m \<noteq> n) ALL_NODES) < length ALL_NODES" if "n \<in> set ALL_NODES"
    using that by (metis (mono_tags, lifting) length_takeWhile_le nat_less_le nth_length_takeWhile takeWhile_eq_all_conv
        takeWhile_eq_take take_all)
  then show ?thesis by (simp add: node_index_def ALL_NODES_def)
qed

lemma vehicle_features_range: "length (vehicle_features v) = 3" "x \<in> set (vehicle_features v) \<Longrightarrow> 0 \<le> x \<and> x \<le> 1"
  using node_index_less [of "v_current_node v"] node_index_less [of "v_next_node v"]
  by (auto simp: vehicle_features_def ALL_NODES_def clip01_def)

text \<open>C28: every observation the policy sees is well formed: 21 numbers, each within 0 and 1, as the
  declared observation space requires.\<close>

theorem observation_in_space:
  assumes "reset_ok u0 chosen" "config_ok cfg" "list_all good_op ops"
  shows "length (get_obs (episode cfg u0 chosen ops)) = 21 \<and>
    list_all (\<lambda>x. 0 \<le> x \<and> x \<le> 1) (get_obs (episode cfg u0 chosen ops))"
proof -
  define e where "e = episode cfg u0 chosen ops"
  have inv: "env_inv e" unfolding e_def by (rule episode_inv [OF assms])
  define ent where "ent = take MAX_ACTIVE_VEHICLES (filter (\<lambda>v. v_status v = Moving) (e_active e))"
  define feats where "feats = concat (map vehicle_features ent)"
  have n: "length ent \<le> 3" by (simp add: ent_def MAX_ACTIVE_VEHICLES_def)
  have len: "length feats = 3 * length ent"
    unfolding feats_def by (induction ent) (simp_all add: vehicle_features_range)
  have "length (e_taken e) = 8" using inv by (simp add: env_inv_def lot_inv_def slots_ok_def NUM_SLOTS_def)
  moreover have "0 \<le> (e_iat e - ARRIVAL_MIN) / (ARRIVAL_MAX - ARRIVAL_MIN)"
      "(e_iat e - ARRIVAL_MIN) / (ARRIVAL_MAX - ARRIVAL_MIN) \<le> 1"
    using inv by (simp_all add: env_inv_def ARRIVAL_MIN_def ARRIVAL_MAX_def)
  moreover have "list_all (\<lambda>x. 0 \<le> x \<and> x \<le> 1) feats"
    using vehicle_features_range by (auto simp: feats_def list_all_iff)
  moreover have "get_obs e = map (\<lambda>b. if b then 1 else 0) (e_taken e) @ feats @ replicate (9 - length feats) 0
      @ map (\<lambda>n. min (real (length (e_reservations e n)) / real (max MAX_ACTIVE_VEHICLES 1)) 1) BOTTLENECK_NODES
      @ [(e_iat e - ARRIVAL_MIN) / (ARRIVAL_MAX - ARRIVAL_MIN)]"
    by (simp add: get_obs_def Let_def feats_def ent_def MAX_ACTIVE_VEHICLES_def)
  ultimately show ?thesis
    using len n unfolding e_def [symmetric]
    by (auto simp: BOTTLENECK_NODES_def list_all_iff min_def)
qed

lemma observation_in_space_witness:
  "list_all (\<lambda>x. 0 \<le> x \<and> x \<le> 1) (get_obs (episode env_config_default 0 [(0, 0), (5, 1 / 2)] sample_ops))"
  using observation_in_space [OF sample_run] by simp

end
