(* ===== verification/Bridge_Protocol.thy ===== *)
theory Bridge_Protocol
  imports Framing
begin

text \<open>
  \<open>remote-direct-bridge/config.py\<close>, \<open>protocol.py\<close> and \<open>session.py\<close>: the constants, the messages
  and the session of the stand-alone bridge that drives one car. A \<open>ProtocolError\<close> is an \<open>Inl\<close>.
\<close>

section \<open>Configuration\<close>

definition BR_CAR_ID :: string where "BR_CAR_ID = ''CAR_01''"
definition TX_MAX_LINE_BYTES :: nat where "TX_MAX_LINE_BYTES = 512"
definition RX_MAX_LINE_BYTES :: nat where "RX_MAX_LINE_BYTES = 512"
definition STREAM_BUFFER_LIMIT :: nat where "STREAM_BUFFER_LIMIT = 4096"
definition RELIABLE_RESEND_TIMEOUT_S :: real where "RELIABLE_RESEND_TIMEOUT_S = 30 / 100"
definition STOP_RESEND_TIMEOUT_S :: real where "STOP_RESEND_TIMEOUT_S = 10 / 100"
definition WAIT_RESEND_TIMEOUT_S :: real where "WAIT_RESEND_TIMEOUT_S = 10 / 100"
definition RELIABLE_MAX_RESENDS :: nat where "RELIABLE_MAX_RESENDS = 5"
definition THROTTLE_MIN :: real where "THROTTLE_MIN = - 1"
definition THROTTLE_MAX :: real where "THROTTLE_MAX = 1"
definition STEERING_MIN :: real where "STEERING_MIN = - 1"
definition STEERING_MAX :: real where "STEERING_MAX = 1"
definition THROTTLE_STEP :: real where "THROTTLE_STEP = 5 / 100"
definition STEERING_STEP :: real where "STEERING_STEP = 10 / 100"

section \<open>Messages\<close>

datatype protocol_error = ProtocolError string

definition encode_line :: "(pyfloat \<Rightarrow> string) \<Rightarrow> pydict \<Rightarrow> protocol_error + string" where
  "encode_line fr message =
     (let raw = dumps fr (JObj message) @ [newline]
      in if length raw > TX_MAX_LINE_BYTES then Inl (ProtocolError ''outbound line exceeds TX limit'')
         else Inr raw)"

text \<open>\<open>str.strip()\<close>; white space beyond ASCII is left to \<open>loads\<close>.\<close>

definition py_space :: "char \<Rightarrow> bool" where
  "py_space c = (code c = 32 \<or> (9 \<le> code c \<and> code c \<le> 13) \<or> (28 \<le> code c \<and> code c \<le> 31))"

definition strip :: "string \<Rightarrow> string" where
  "strip s = rev (dropWhile py_space (rev (dropWhile py_space s)))"

text \<open>\<open>loads\<close> is \<open>json.loads\<close>, \<open>None\<close> for a \<open>JSONDecodeError\<close>.\<close>

definition parse_line :: "(string \<Rightarrow> json option) \<Rightarrow> string \<Rightarrow> protocol_error + pydict" where
  "parse_line loads line =
     (let line = strip line
      in if line = [] then Inl (ProtocolError ''empty line'')
         else case loads line of
           None \<Rightarrow> Inl (ProtocolError ''invalid JSON'')
         | Some (JObj obj) \<Rightarrow>
             if \<not> py_eq_int (dget obj ''version'') PROTOCOL_VERSION
             then Inl (ProtocolError ''unsupported/missing version'')
             else (case dget obj ''type'' of
                 JStr t \<Rightarrow>
                   if t = '''' then Inl (ProtocolError ''missing/invalid type'')
                   else if dget obj ''car_id'' \<noteq> JStr BR_CAR_ID then Inl (ProtocolError ''car_id mismatch'')
                   else Inr obj
               | _ \<Rightarrow> Inl (ProtocolError ''missing/invalid type''))
         | Some _ \<Rightarrow> Inl (ProtocolError ''top-level JSON is not an object''))"

definition clamp_finite :: "pyfloat \<Rightarrow> real \<Rightarrow> real \<Rightarrow> protocol_error + real" where
  "clamp_finite value low high = (case value of
       Fin v \<Rightarrow> Inr (max low (min high v))
     | _ \<Rightarrow> Inl (ProtocolError ''non-finite control value''))"

definition build_hello_ack :: "string \<Rightarrow> string \<Rightarrow> int \<Rightarrow> string \<Rightarrow> string \<Rightarrow> pydict" where
  "build_hello_ack session_id boot_id command_seq_start result reason =
     (let message = [(''version'', JInt PROTOCOL_VERSION), (''type'', JStr ''HELLO_ACK''),
          (''car_id'', JStr BR_CAR_ID), (''boot_id'', JStr boot_id), (''session_id'', JStr session_id),
          (''result'', JStr result), (''command_seq_start'', JInt command_seq_start)]
      in if reason = '''' then message
         else if result = ''HOLD'' then dset message ''hold_reason'' (JStr reason)
         else if result = ''REJECTED'' then dset message ''reject_reason'' (JStr reason)
         else message)"

definition build_heartbeat :: "string \<Rightarrow> int \<Rightarrow> pydict" where
  "build_heartbeat session_id heartbeat_seq =
     [(''version'', JInt PROTOCOL_VERSION), (''type'', JStr ''HEARTBEAT''), (''car_id'', JStr BR_CAR_ID),
      (''session_id'', JStr session_id), (''heartbeat_seq'', JInt heartbeat_seq)]"

definition build_set_mode :: "string \<Rightarrow> int \<Rightarrow> string \<Rightarrow> pydict" where
  "build_set_mode session_id seq mode =
     [(''version'', JInt PROTOCOL_VERSION), (''type'', JStr ''SET_MODE''), (''car_id'', JStr BR_CAR_ID),
      (''session_id'', JStr session_id), (''seq'', JInt seq), (''mode'', JStr mode)]"

definition build_direct_control ::
  "string \<Rightarrow> int \<Rightarrow> pyfloat \<Rightarrow> pyfloat \<Rightarrow> protocol_error + pydict" where
  "build_direct_control session_id control_seq throttle steering =
     (case clamp_finite throttle THROTTLE_MIN THROTTLE_MAX of
        Inl e \<Rightarrow> Inl e
      | Inr t \<Rightarrow>
          (case clamp_finite steering STEERING_MIN STEERING_MAX of
             Inl e \<Rightarrow> Inl e
           | Inr s \<Rightarrow> Inr
               [(''version'', JInt PROTOCOL_VERSION), (''type'', JStr ''DIRECT_CONTROL''),
                (''car_id'', JStr BR_CAR_ID), (''session_id'', JStr session_id),
                (''control_seq'', JInt control_seq), (''throttle'', JFloat (Fin (round_dec 4 t))),
                (''steering'', JFloat (Fin (round_dec 4 s)))]))"

definition build_stop :: "string \<Rightarrow> int \<Rightarrow> string \<Rightarrow> pydict" where
  "build_stop session_id seq reason =
     [(''version'', JInt PROTOCOL_VERSION), (''type'', JStr ''STOP''), (''car_id'', JStr BR_CAR_ID),
      (''session_id'', JStr session_id), (''seq'', JInt seq), (''reason'', JStr reason)]"

definition build_reset :: "string \<Rightarrow> int \<Rightarrow> pydict" where
  "build_reset session_id seq =
     [(''version'', JInt PROTOCOL_VERSION), (''type'', JStr ''RESET''), (''car_id'', JStr BR_CAR_ID),
      (''session_id'', JStr session_id), (''seq'', JInt seq)]"

text \<open>
  \<open>pstr\<close> is \<open>str\<close> of a JSON value. A message without the fields read by subscript raises \<open>KeyError\<close>:
  \<open>None\<close>.
\<close>

definition WAYPOINT_FIELDS :: "string list" where
  "WAYPOINT_FIELDS = [''route_id'', ''waypoint_id'', ''phase'', ''x_cm'', ''y_cm'', ''target_heading_deg'',
     ''motion_direction'', ''arrival_mode'', ''speed_cm_s'', ''position_tolerance_cm'',
     ''heading_tolerance_deg'', ''heading_required'', ''is_final'']"

definition reliable_fingerprint :: "(json \<Rightarrow> string) \<Rightarrow> pydict \<Rightarrow> string option" where
  "reliable_fingerprint pstr message =
     (let fields = (\<lambda>ks. join ''|'' (map (\<lambda>k. pstr (dget message k)) ks))
      in case map_of message ''type'' of
        None \<Rightarrow> None
      | Some t \<Rightarrow>
          if t = JStr ''SET_MODE'' then
            (case map_of message ''mode'' of None \<Rightarrow> None | Some m \<Rightarrow> Some (''SET_MODE|'' @ pstr m))
          else if t = JStr ''STOP'' then Some (''STOP|'' @ pstr (dget_or message ''reason'' (JStr ''EMERGENCY'')))
          else if t = JStr ''RESET'' then Some ''RESET''
          else if t = JStr ''WAYPOINT'' then Some (''WAYPOINT|'' @ fields WAYPOINT_FIELDS)
          else if t = JStr ''WAIT'' then Some (''WAIT|'' @ fields [''route_id'', ''waypoint_id'', ''reason''])
          else if t = JStr ''GO'' then Some (''GO|'' @ fields [''route_id'', ''waypoint_id''])
          else Some (pstr t))"

section \<open>Session\<close>

record outstanding_command =
  oc_seq :: int
  oc_message :: pydict
  oc_fingerprint :: string
  oc_sent_at :: real
  oc_resend_timeout_s :: real
  oc_resends :: nat

record bridge_session =
  bs_session_id :: string
  bs_boot_id :: string
  bs_command_seq_start :: int
  bs_seq_counter :: int
  bs_outstanding :: "outstanding_command option"
  bs_control_seq_counter :: int
  bs_heartbeat_counter :: int
  bs_desired_throttle :: real
  bs_desired_steering :: real
  bs_last_status :: "pydict option"
  bs_last_status_at :: real
  bs_last_status_seq :: int

definition new_bridge_session :: "string \<Rightarrow> string \<Rightarrow> int \<Rightarrow> bridge_session" where
  "new_bridge_session session_id boot_id command_seq_start =
     \<lparr>bs_session_id = session_id, bs_boot_id = boot_id, bs_command_seq_start = command_seq_start,
      bs_seq_counter = command_seq_start, bs_outstanding = None, bs_control_seq_counter = 1,
      bs_heartbeat_counter = 1, bs_desired_throttle = 0, bs_desired_steering = 0, bs_last_status = None,
      bs_last_status_at = 0, bs_last_status_seq = - 1\<rparr>"

definition next_seq :: "bridge_session \<Rightarrow> int \<times> bridge_session" where
  "next_seq s = (bs_seq_counter s, s\<lparr>bs_seq_counter := bs_seq_counter s + 1\<rparr>)"

definition next_control_seq :: "bridge_session \<Rightarrow> int \<times> bridge_session" where
  "next_control_seq s = (bs_control_seq_counter s, s\<lparr>bs_control_seq_counter := bs_control_seq_counter s + 1\<rparr>)"

definition next_heartbeat_seq :: "bridge_session \<Rightarrow> int \<times> bridge_session" where
  "next_heartbeat_seq s = (bs_heartbeat_counter s, s\<lparr>bs_heartbeat_counter := bs_heartbeat_counter s + 1\<rparr>)"

definition set_outstanding :: "outstanding_command \<Rightarrow> bridge_session \<Rightarrow> bridge_session" where
  "set_outstanding cmd s = s\<lparr>bs_outstanding := Some cmd\<rparr>"

definition clear_outstanding :: "bridge_session \<Rightarrow> bridge_session" where
  "clear_outstanding s = s\<lparr>bs_outstanding := None\<rparr>"

definition has_outstanding :: "bridge_session \<Rightarrow> bool" where
  "has_outstanding s = (bs_outstanding s \<noteq> None)"

definition terminal_result_matches :: "pydict \<Rightarrow> int \<Rightarrow> bool" where
  "terminal_result_matches status seq =
     (case str_word (dget_or status ''command_result'' (JStr ''NONE'')) of
        None \<Rightarrow> False
      | Some result \<Rightarrow>
          result \<in> set TERMINAL_RESULTS \<and>
          (as_int (dget status ''last_processed_cmd_seq'') = Some seq \<or>
           as_int (dget status ''rejected_seq'') = Some seq))"

definition consume_terminal_result ::
  "pydict \<Rightarrow> bridge_session \<Rightarrow> outstanding_command option \<times> bridge_session" where
  "consume_terminal_result status s = (case bs_outstanding s of
       None \<Rightarrow> (None, s)
     | Some cmd \<Rightarrow>
         if \<not> terminal_result_matches status (oc_seq cmd) then (None, s)
         else (Some cmd, s\<lparr>bs_outstanding := None\<rparr>))"

definition is_stale_snapshot :: "pydict \<Rightarrow> bridge_session \<Rightarrow> bool" where
  "is_stale_snapshot status s = (case as_int (dget status ''status_seq'') of
       None \<Rightarrow> False
     | Some seq \<Rightarrow> seq \<le> bs_last_status_seq s)"

definition record_snapshot :: "real \<Rightarrow> pydict \<Rightarrow> bridge_session \<Rightarrow> bridge_session" where
  "record_snapshot now status s =
     (let s = s\<lparr>bs_last_status := Some status, bs_last_status_at := now\<rparr>
      in case as_int (dget status ''status_seq'') of
           None \<Rightarrow> s
         | Some seq \<Rightarrow> if bs_last_status_seq s < seq then s\<lparr>bs_last_status_seq := seq\<rparr> else s)"

section \<open>What the messages guarantee\<close>

text \<open>The bridge never sends a control value the firmware could misread: a NaN or an infinity
  raises an error instead of being clamped, and what is built is within \<open>[-1, 1]\<close> and equals the
  wanted value up to the fourth decimal when that is in range.\<close>

theorem bridge_control_values:
  "(build_direct_control sid n thr str = Inl (ProtocolError ''non-finite control value'') \<longleftrightarrow>
      \<not> isfinite thr \<or> \<not> isfinite str) \<and>
   (\<forall>msg. build_direct_control sid n thr str = Inr msg \<longrightarrow>
      (\<exists>t s. thr = Fin t \<and> str = Fin s \<and>
        (\<exists>t' s'. dget msg ''throttle'' = JFloat (Fin t') \<and> dget msg ''steering'' = JFloat (Fin s') \<and>
          \<bar>t'\<bar> \<le> 1 \<and> \<bar>s'\<bar> \<le> 1 \<and> (\<bar>t\<bar> \<le> 1 \<longrightarrow> \<bar>t' - t\<bar> \<le> 1 / 20000) \<and> (\<bar>s\<bar> \<le> 1 \<longrightarrow> \<bar>s' - s\<bar> \<le> 1 / 20000))))"
proof -
  have r: "\<bar>round_dec 4 (max (- 1) (min 1 x))\<bar> \<le> 1 \<and>
      (\<bar>x\<bar> \<le> 1 \<longrightarrow> \<bar>round_dec 4 (max (- 1) (min 1 x)) - x\<bar> \<le> 1 / 20000)" for x :: real
    using round_dec_unit [of "max (- 1) (min 1 x)" 4] round_dec_near [of 4 x]
    by (auto simp: abs_le_iff max_def min_def)
  show ?thesis
    using r by (cases thr; cases str)
      (simp_all add: build_direct_control_def clamp_finite_def THROTTLE_MIN_def THROTTLE_MAX_def
        STEERING_MIN_def STEERING_MAX_def)
qed

lemma bridge_control_values_witness:
  "build_direct_control ''S1'' 1 NaN (Fin 0) = Inl (ProtocolError ''non-finite control value'')"
  using bridge_control_values [of "''S1''" 1 NaN "Fin 0"] by simp

lemma map_of_seq_irrelevant:
  "k \<noteq> ''seq'' \<Longrightarrow> map_of (dset m ''seq'' v) k = map_of m k"
  by simp

text \<open>The fingerprint of a command does not depend on its number.\<close>

lemma fingerprint_ignores_seq:
  "reliable_fingerprint pstr (dset m ''seq'' v) = reliable_fingerprint pstr m"
  by (simp add: reliable_fingerprint_def Let_def WAYPOINT_FIELDS_def split: option.split)

end
