(* ===== verification/Bridge_Controller.thy ===== *)
theory Bridge_Controller
  imports Bridge_Protocol
begin

text \<open>
  \<open>remote-direct-bridge/controller.py\<close>: the handlers and loops of the asyncio bridge. A handler that
  awaits while it holds state is split at the await (\<open>_begin\<close>, the send, \<open>_end\<close>), so a run may
  interleave them with every other event. Log lines are left out; listeners never raise.
\<close>

record bridge =
  ct_session :: "bridge_session option"
  ct_sender :: bool
  ct_direct_streaming :: bool
  ct_pending_mode_seq :: "int option"
  ct_hello_result :: string
  ct_hello_reason :: string
  ct_last_encoder_count :: "int option"

datatype ctl_out = Sent pydict | Connection bool | Published pydict

definition bridge_init :: bridge where
  "bridge_init = \<lparr>ct_session = None, ct_sender = False, ct_direct_streaming = False,
     ct_pending_mode_seq = None, ct_hello_result = '''', ct_hello_reason = '''', ct_last_encoder_count = None\<rparr>"

section \<open>Transport wiring\<close>

definition BRIDGE_BUILD_ID :: string where "BRIDGE_BUILD_ID = ''v5.3-logic-hardening''"

definition notify_status :: "pydict \<Rightarrow> bridge \<Rightarrow> ctl_out list" where
  "notify_status message c =
     [Published (dset (dset (dset message ''bridge_build'' (JStr BRIDGE_BUILD_ID))
        ''bridge_direct_streaming'' (JBool (ct_direct_streaming c)))
        ''bridge_pending_mode_seq'' (case ct_pending_mode_seq c of None \<Rightarrow> JNull | Some n \<Rightarrow> JInt n))]"

definition attach :: "bridge \<Rightarrow> bridge \<times> ctl_out list" where
  "attach c = (c\<lparr>ct_sender := True\<rparr>, [Connection True])"

definition neutralize_desired :: "bridge \<Rightarrow> bridge" where
  "neutralize_desired c = c\<lparr>ct_session :=
     map_option (\<lambda>s. s\<lparr>bs_desired_throttle := 0, bs_desired_steering := 0\<rparr>) (ct_session c)\<rparr>"

definition detach :: "bridge \<Rightarrow> bridge \<times> ctl_out list" where
  "detach c =
     ((neutralize_desired c)\<lparr>ct_sender := False, ct_direct_streaming := False, ct_pending_mode_seq := None,
        ct_hello_result := '''', ct_hello_reason := '''', ct_last_encoder_count := None,
        ct_session := None\<rparr>, [Connection False])"

definition ctl_send :: "pydict \<Rightarrow> bridge \<Rightarrow> ctl_out list" where
  "ctl_send message c = (if ct_sender c then [Sent message] else [])"

text \<open>Motion off: the three assignments every stopping path makes.\<close>

definition disarm_stream :: "bridge \<Rightarrow> bridge" where
  "disarm_stream c = neutralize_desired (c\<lparr>ct_direct_streaming := False, ct_pending_mode_seq := None\<rparr>)"

section \<open>HELLO\<close>

definition bridge_hello_verdict :: "(json \<Rightarrow> string) \<Rightarrow> pydict \<Rightarrow> string \<times> string" where
  "bridge_hello_verdict pstr message =
     (let previous_state = dget message ''previous_state'';
          error_code = dget message ''error_code''
      in if previous_state \<in> {JStr ''ERROR'', JStr ''EMERGENCY_STOP''}
           then (''HOLD'', ''PREVIOUS_STATE_'' @ pstr previous_state)
         else if dget message ''motor_stopped'' \<noteq> JBool True then (''HOLD'', ''MOTOR_NOT_CONFIRMED_STOPPED'')
         else if error_code \<notin> {JNull, JStr '''', JStr ''NONE''} then (''HOLD'', ''ERROR_'' @ pstr error_code)
         else (''READY_ALLOWED'', ''''))"

definition hello_again :: "pydict \<Rightarrow> string \<Rightarrow> bridge \<Rightarrow> bridge_session option" where
  "hello_again message boot_id c = (case ct_session c of
       None \<Rightarrow> None
     | Some s \<Rightarrow>
         if bs_boot_id s = boot_id \<and> dget message ''previous_session_id'' \<noteq> JStr (bs_session_id s)
         then Some s else None)"

text \<open>\<open>token\<close> is the fresh session id.\<close>

definition on_hello :: "(json \<Rightarrow> string) \<Rightarrow> string \<Rightarrow> pydict \<Rightarrow> bridge \<Rightarrow> bridge \<times> ctl_out list" where
  "on_hello pstr token message c = (case dget message ''boot_id'' of
       JStr boot_id \<Rightarrow>
         if boot_id = '''' then (c, [])
         else (case hello_again message boot_id c of
             Some s \<Rightarrow>
               (c, ctl_send (build_hello_ack (bs_session_id s) boot_id (bs_command_seq_start s)
                 (if ct_hello_result c = '''' then ''READY_ALLOWED'' else ct_hello_result c) (ct_hello_reason c)) c)
           | None \<Rightarrow>
               let (result, reason) = bridge_hello_verdict pstr message;
                   c' = c\<lparr>ct_session := Some (new_bridge_session token boot_id 1), ct_direct_streaming := False,
                          ct_pending_mode_seq := None, ct_hello_result := result, ct_hello_reason := reason,
                          ct_last_encoder_count := None\<rparr>
               in (c', ctl_send (build_hello_ack token boot_id 1 result reason) c'))
     | _ \<Rightarrow> (c, []))"

section \<open>STATUS\<close>

definition result_matches_seq :: "pydict \<Rightarrow> int \<Rightarrow> bool" where
  "result_matches_seq message seq =
     (str_word (dget_or message ''command_result'' (JStr ''NONE'')) \<noteq> Some ''NONE'' \<and>
      (py_eq_int (dget message ''last_processed_cmd_seq'') seq \<or> py_eq_int (dget message ''rejected_seq'') seq))"

definition finish_pending_mode :: "pydict \<Rightarrow> bridge \<Rightarrow> bridge" where
  "finish_pending_mode message c = (case ct_pending_mode_seq c of
       None \<Rightarrow> c
     | Some pending_seq \<Rightarrow>
         if \<not> result_matches_seq message pending_seq then c
         else
           let result = str_word (dget_or message ''command_result'' (JStr ''NONE''));
               mode = dget message ''mode''
           in if result = Some ''ACCEPTED'' \<and> mode = JStr ''REMOTE_DIRECT''
                then c\<lparr>ct_direct_streaming := True, ct_pending_mode_seq := None\<rparr>
              else if result \<in> Some ` set NEGATIVE_RESULTS \<or> mode \<noteq> JStr ''REMOTE_DIRECT''
                then disarm_stream c
              else c)"

definition LOCKED_STATES :: "json list" where
  "LOCKED_STATES = [JStr ''EMERGENCY_STOP'', JStr ''ERROR'', JStr ''COMM_TIMEOUT'', JStr ''SYNCING'']"

definition upd_session :: "(bridge_session \<Rightarrow> bridge_session) \<Rightarrow> bridge \<Rightarrow> bridge" where
  "upd_session f c = c\<lparr>ct_session := map_option f (ct_session c)\<rparr>"

definition encoder_update :: "pydict \<Rightarrow> bridge \<Rightarrow> pydict \<times> bridge" where
  "encoder_update message c = (case as_int (dget message ''encoder_count'') of
       None \<Rightarrow> (message, c)
     | Some n \<Rightarrow>
         (dset message ''encoder_delta'' (JInt (case ct_last_encoder_count c of None \<Rightarrow> 0 | Some p \<Rightarrow> n - p)),
          c\<lparr>ct_last_encoder_count := Some n\<rparr>))"

fun unhashable :: "json \<Rightarrow> bool" where
  "unhashable (JList xs) = True"
| "unhashable (JObj d) = True"
| "unhashable v = False"

text \<open>
  The last component is \<open>False\<close> when the handler raises: a list or an object as \<open>state\<close> is
  unhashable and \<open>state in {...}\<close> raises \<open>TypeError\<close>.
\<close>

definition on_status :: "real \<Rightarrow> pydict \<Rightarrow> bridge \<Rightarrow> bridge \<times> ctl_out list \<times> bool" where
  "on_status now message c = (case ct_session c of
       None \<Rightarrow> (c, [], True)
     | Some s \<Rightarrow>
         if dget message ''session_id'' \<noteq> JStr (bs_session_id s) then (c, [], True)
         else
           let (completed, s1) = consume_terminal_result message s;
               c1 = finish_pending_mode message (c\<lparr>ct_session := Some s1\<rparr>)
           in if is_stale_snapshot message s1 then (c1, [], True)
              else
                let (message1, c2) = encoder_update message c1;
                    state = dget message1 ''state''; mode = dget message1 ''mode''
                in if unhashable state then (c2, [], False)
                   else
                     let c3 = (if state \<in> set LOCKED_STATES then disarm_stream c2
                               else if mode \<noteq> JStr ''REMOTE_DIRECT'' \<and> ct_direct_streaming c2
                                 then neutralize_desired (c2\<lparr>ct_direct_streaming := False\<rparr>)
                               else c2);
                         c4 = upd_session (record_snapshot now message1) c3
                     in (c4, notify_status message1 c4, True))"

definition on_message ::
  "(json \<Rightarrow> string) \<Rightarrow> real \<Rightarrow> string \<Rightarrow> pydict \<Rightarrow> bridge \<Rightarrow> bridge \<times> ctl_out list \<times> bool" where
  "on_message pstr now token message c =
     (if dget message ''type'' = JStr ''HELLO''
        then (let (c', out) = on_hello pstr token message c in (c', out, True))
      else if dget message ''type'' = JStr ''STATUS'' then on_status now message c
      else (c, [], True))"

section \<open>Reliable commands\<close>

definition bridge_resend_timeout :: "pydict \<Rightarrow> real" where
  "bridge_resend_timeout message =
     (if dget message ''type'' = JStr ''STOP'' then STOP_RESEND_TIMEOUT_S
      else if dget message ''type'' = JStr ''WAIT'' then WAIT_RESEND_TIMEOUT_S
      else RELIABLE_RESEND_TIMEOUT_S)"

text \<open>A builder's message always has its fields, so the fingerprint exists.\<close>

definition send_reliable ::
  "(json \<Rightarrow> string) \<Rightarrow> real \<Rightarrow> (string \<Rightarrow> int \<Rightarrow> pydict) \<Rightarrow> bool \<Rightarrow> bridge
     \<Rightarrow> bridge \<times> ctl_out list \<times> int option" where
  "send_reliable pstr now build preempt c = (case ct_session c of
       None \<Rightarrow> (c, [], None)
     | Some s \<Rightarrow>
         if has_outstanding s \<and> \<not> preempt then (c, [], None)
         else
           let (seq, s1) = next_seq s;
               message = build (bs_session_id s) seq;
               cmd = \<lparr>oc_seq = seq, oc_message = message,
                      oc_fingerprint = the (reliable_fingerprint pstr message), oc_sent_at = now,
                      oc_resend_timeout_s = bridge_resend_timeout message, oc_resends = 0\<rparr>;
               c' = c\<lparr>ct_session := Some (set_outstanding cmd s1)\<rparr>
           in (c', ctl_send message c', Some seq))"

definition latest_state_mode :: "bridge \<Rightarrow> json \<times> json" where
  "latest_state_mode c = (case ct_session c of
       None \<Rightarrow> (JNull, JNull)
     | Some s \<Rightarrow>
         (case bs_last_status s of
            None \<Rightarrow> (JNull, JNull)
          | Some status \<Rightarrow> (dget status ''state'', dget status ''mode'')))"

text \<open>\<open>cmd_mode_remote\<close>: up to the send (\<open>True\<close>: a command is to be sent), the send, and after it.\<close>

definition cmd_mode_begin :: "bridge \<Rightarrow> bridge \<times> bool" where
  "cmd_mode_begin c =
     (let (state, mode) = latest_state_mode c
      in if ct_session c = None then (c, False)
         else if ct_pending_mode_seq c \<noteq> None then (c, False)
         else if state \<noteq> JStr ''READY'' then (c, False)
         else if mode = JStr ''REMOTE_DIRECT''
           then ((neutralize_desired c)\<lparr>ct_direct_streaming := True\<rparr>, False)
         else (c, True))"

definition cmd_mode_end :: "int option \<Rightarrow> bridge \<Rightarrow> bridge" where
  "cmd_mode_end seq c = (case seq of
       None \<Rightarrow> c
     | Some n \<Rightarrow> (neutralize_desired c)\<lparr>ct_direct_streaming := False, ct_pending_mode_seq := Some n\<rparr>)"

definition send_mode :: "(json \<Rightarrow> string) \<Rightarrow> real \<Rightarrow> bridge \<Rightarrow> bridge \<times> ctl_out list \<times> int option" where
  "send_mode pstr now = send_reliable pstr now (\<lambda>sid n. build_set_mode sid n ''REMOTE_DIRECT'') False"

definition cmd_mode_remote :: "(json \<Rightarrow> string) \<Rightarrow> real \<Rightarrow> bridge \<Rightarrow> bridge \<times> ctl_out list" where
  "cmd_mode_remote pstr now c =
     (let (c1, go) = cmd_mode_begin c
      in if \<not> go then (c1, [])
         else let (c2, out, seq) = send_mode pstr now c1 in (cmd_mode_end seq c2, out))"

definition cmd_stop_begin :: "bridge \<Rightarrow> bridge \<times> bool" where
  "cmd_stop_begin c =
     (let (state, mode) = latest_state_mode c; c1 = disarm_stream c
      in (c1, \<not> (state = JStr ''EMERGENCY_STOP'' \<and>
            (case ct_session c1 of None \<Rightarrow> False | Some s \<Rightarrow> \<not> has_outstanding s))))"

definition send_stop_cmd :: "(json \<Rightarrow> string) \<Rightarrow> real \<Rightarrow> bridge \<Rightarrow> bridge \<times> ctl_out list \<times> int option" where
  "send_stop_cmd pstr now = send_reliable pstr now (\<lambda>sid n. build_stop sid n ''EMERGENCY'') True"

definition cmd_stop :: "(json \<Rightarrow> string) \<Rightarrow> real \<Rightarrow> bridge \<Rightarrow> bridge \<times> ctl_out list" where
  "cmd_stop pstr now c =
     (let (c1, go) = cmd_stop_begin c
      in if \<not> go then (c1, []) else let (c2, out, seq) = send_stop_cmd pstr now c1 in (c2, out))"

definition cmd_reset_begin :: "bridge \<Rightarrow> bridge \<times> bool" where
  "cmd_reset_begin c =
     (let (state, mode) = latest_state_mode c;
          allowed = (state \<in> {JStr ''EMERGENCY_STOP'', JStr ''ERROR''} \<or>
                     state = JStr ''SYNCING'' \<and> ct_hello_result c = ''HOLD'')
      in if \<not> allowed then (c, False) else (disarm_stream c, True))"

definition send_reset_cmd :: "(json \<Rightarrow> string) \<Rightarrow> real \<Rightarrow> bridge \<Rightarrow> bridge \<times> ctl_out list \<times> int option" where
  "send_reset_cmd pstr now = send_reliable pstr now build_reset False"

definition cmd_reset :: "(json \<Rightarrow> string) \<Rightarrow> real \<Rightarrow> bridge \<Rightarrow> bridge \<times> ctl_out list" where
  "cmd_reset pstr now c =
     (let (c1, go) = cmd_reset_begin c
      in if \<not> go then (c1, []) else let (c2, out, seq) = send_reset_cmd pstr now c1 in (c2, out))"

section \<open>Drive intents\<close>

text \<open>A non-finite value raises \<open>ProtocolError\<close> before anything changes.\<close>

definition cmd_set_throttle :: "pyfloat \<Rightarrow> bridge \<Rightarrow> protocol_error + bridge" where
  "cmd_set_throttle value c = (case ct_session c of
       None \<Rightarrow> Inr c
     | Some s \<Rightarrow>
         (case clamp_finite value THROTTLE_MIN THROTTLE_MAX of
            Inl e \<Rightarrow> Inl e
          | Inr v \<Rightarrow> Inr (c\<lparr>ct_session := Some (s\<lparr>bs_desired_throttle :=
              (if v \<noteq> 0 \<and> \<not> ct_direct_streaming c then 0 else v)\<rparr>)\<rparr>)))"

definition cmd_set_steering :: "pyfloat \<Rightarrow> bridge \<Rightarrow> protocol_error + bridge" where
  "cmd_set_steering value c = (case ct_session c of
       None \<Rightarrow> Inr c
     | Some s \<Rightarrow>
         (case clamp_finite value STEERING_MIN STEERING_MAX of
            Inl e \<Rightarrow> Inl e
          | Inr v \<Rightarrow> Inr (c\<lparr>ct_session := Some (s\<lparr>bs_desired_steering :=
              (if v \<noteq> 0 \<and> \<not> ct_direct_streaming c then 0 else v)\<rparr>)\<rparr>)))"

definition cmd_set_drive :: "pyfloat \<Rightarrow> pyfloat \<Rightarrow> bridge \<Rightarrow> protocol_error + bridge" where
  "cmd_set_drive throttle steering c = (case ct_session c of
       None \<Rightarrow> Inr c
     | Some s \<Rightarrow>
         (case (clamp_finite throttle THROTTLE_MIN THROTTLE_MAX, clamp_finite steering STEERING_MIN STEERING_MAX) of
            (Inl e, _) \<Rightarrow> Inl e
          | (_, Inl e) \<Rightarrow> Inl e
          | (Inr t, Inr v) \<Rightarrow>
              if \<not> ct_direct_streaming c \<and> (t \<noteq> 0 \<or> v \<noteq> 0) then Inr (neutralize_desired c)
              else Inr (c\<lparr>ct_session := Some (s\<lparr>bs_desired_throttle := t, bs_desired_steering := v\<rparr>)\<rparr>)))"

definition cmd_nudge_throttle :: "real \<Rightarrow> bridge \<Rightarrow> protocol_error + bridge" where
  "cmd_nudge_throttle delta c = (case ct_session c of
       None \<Rightarrow> Inr c | Some s \<Rightarrow> cmd_set_throttle (Fin (bs_desired_throttle s + delta)) c)"

definition cmd_nudge_steering :: "real \<Rightarrow> bridge \<Rightarrow> protocol_error + bridge" where
  "cmd_nudge_steering delta c = (case ct_session c of
       None \<Rightarrow> Inr c | Some s \<Rightarrow> cmd_set_steering (Fin (bs_desired_steering s + delta)) c)"

definition cmd_center :: "bridge \<Rightarrow> bridge" where
  "cmd_center = upd_session (\<lambda>s. s\<lparr>bs_desired_steering := 0\<rparr>)"

definition cmd_neutral :: "bridge \<Rightarrow> bridge" where
  "cmd_neutral = upd_session (\<lambda>s. s\<lparr>bs_desired_throttle := 0\<rparr>)"

definition cmd_pause_direct_stream :: "bridge \<Rightarrow> bridge" where
  "cmd_pause_direct_stream c = neutralize_desired (c\<lparr>ct_direct_streaming := False\<rparr>)"

definition cmd_resume_direct_stream :: "bridge \<Rightarrow> bridge" where
  "cmd_resume_direct_stream c =
     (let (state, mode) = latest_state_mode c
      in if mode \<noteq> JStr ''REMOTE_DIRECT'' \<or> state \<notin> {JStr ''READY'', JStr ''WAITING''} then c
         else (neutralize_desired c)\<lparr>ct_direct_streaming := True\<rparr>)"

section \<open>The loops\<close>

definition heartbeat_tick :: "bridge \<Rightarrow> bridge \<times> ctl_out list" where
  "heartbeat_tick c = (case ct_session c of
       None \<Rightarrow> (c, [])
     | Some s \<Rightarrow>
         if \<not> ct_sender c then (c, [])
         else let (n, s1) = next_heartbeat_seq s; c1 = c\<lparr>ct_session := Some s1\<rparr>
              in (c1, ctl_send (build_heartbeat (bs_session_id s) n) c1))"

definition NO_DRIVE_STATES :: "json list" where
  "NO_DRIVE_STATES = LOCKED_STATES @ [JStr ''BOOT'', JStr ''WIFI_CONNECTING'']"

definition direct_control_tick :: "bridge \<Rightarrow> bridge \<times> ctl_out list" where
  "direct_control_tick c = (case ct_session c of
       None \<Rightarrow> (c, [])
     | Some s \<Rightarrow>
         if \<not> ct_sender c \<or> \<not> ct_direct_streaming c then (c, [])
         else
           let (state, mode) = latest_state_mode c
           in if mode \<noteq> JStr ''REMOTE_DIRECT'' \<or> state \<in> set NO_DRIVE_STATES
                then (neutralize_desired (c\<lparr>ct_direct_streaming := False\<rparr>), [])
              else
                let (n, s1) = next_control_seq s; c1 = c\<lparr>ct_session := Some s1\<rparr>
                in (case build_direct_control (bs_session_id s) n (Fin (bs_desired_throttle s))
                        (Fin (bs_desired_steering s)) of
                      Inl e \<Rightarrow> (c1, [])
                    | Inr msg \<Rightarrow> (c1, ctl_send msg c1)))"

definition reliable_resend_tick :: "real \<Rightarrow> bridge \<Rightarrow> bridge \<times> ctl_out list" where
  "reliable_resend_tick now c = (case ct_session c of
       None \<Rightarrow> (c, [])
     | Some s \<Rightarrow>
         (case bs_outstanding s of
            None \<Rightarrow> (c, [])
          | Some cmd \<Rightarrow>
              if \<not> ct_sender c then (c, [])
              else if now - oc_sent_at cmd < oc_resend_timeout_s cmd then (c, [])
              else if oc_resends cmd \<ge> RELIABLE_MAX_RESENDS then
                let c1 = c\<lparr>ct_session := Some (clear_outstanding s)\<rparr>
                in (if ct_pending_mode_seq c = Some (oc_seq cmd) then (disarm_stream c1, []) else (c1, []))
              else
                let cmd' = cmd\<lparr>oc_resends := oc_resends cmd + 1, oc_sent_at := now\<rparr>;
                    c1 = c\<lparr>ct_session := Some (set_outstanding cmd' s)\<rparr>
                in (c1, ctl_send (oc_message cmd') c1)))"

end
