(* ===== verification/Bridge_Runs.thy ===== *)
theory Bridge_Runs
  imports Bridge_Controller
begin

text \<open>
  All interleavings of the bridge's handlers and loops: the guarantees of
  \<open>remote-direct-bridge/controller.py\<close> over every run.
\<close>

section \<open>Events\<close>

datatype bridge_event =
    Attach | Detach
  | Message real string pydict
  | ModeBegin | SendMode real | ModeEnd "int option"
  | StopBegin | SendStop real
  | ResetBegin | SendReset real
  | Throttle pyfloat | Steering pyfloat | Drive pyfloat pyfloat
  | NudgeThrottle real | NudgeSteering real | Center | Neutral
  | Pause | Resume
  | HeartbeatTick | ControlTick | ResendTick real

text \<open>An intent that raises leaves the state as it was.\<close>

definition intent :: "(bridge \<Rightarrow> protocol_error + bridge) \<Rightarrow> bridge \<Rightarrow> bridge \<times> ctl_out list" where
  "intent f c = (case f c of Inl e \<Rightarrow> (c, []) | Inr c' \<Rightarrow> (c', []))"

definition sent_by :: "bridge \<times> ctl_out list \<times> 'a \<Rightarrow> bridge \<times> ctl_out list" where
  "sent_by r = (fst r, fst (snd r))"

fun bridge_step :: "(json \<Rightarrow> string) \<Rightarrow> bridge \<Rightarrow> bridge_event \<Rightarrow> bridge \<times> ctl_out list" where
  "bridge_step pstr c Attach = attach c"
| "bridge_step pstr c Detach = detach c"
| "bridge_step pstr c (Message now token m) = sent_by (on_message pstr now token m c)"
| "bridge_step pstr c ModeBegin = (fst (cmd_mode_begin c), [])"
| "bridge_step pstr c (SendMode now) = sent_by (send_mode pstr now c)"
| "bridge_step pstr c (ModeEnd n) = (cmd_mode_end n c, [])"
| "bridge_step pstr c StopBegin = (fst (cmd_stop_begin c), [])"
| "bridge_step pstr c (SendStop now) = sent_by (send_stop_cmd pstr now c)"
| "bridge_step pstr c ResetBegin = (fst (cmd_reset_begin c), [])"
| "bridge_step pstr c (SendReset now) = sent_by (send_reset_cmd pstr now c)"
| "bridge_step pstr c (Throttle v) = intent (cmd_set_throttle v) c"
| "bridge_step pstr c (Steering v) = intent (cmd_set_steering v) c"
| "bridge_step pstr c (Drive t v) = intent (cmd_set_drive t v) c"
| "bridge_step pstr c (NudgeThrottle d) = intent (cmd_nudge_throttle d) c"
| "bridge_step pstr c (NudgeSteering d) = intent (cmd_nudge_steering d) c"
| "bridge_step pstr c Center = (cmd_center c, [])"
| "bridge_step pstr c Neutral = (cmd_neutral c, [])"
| "bridge_step pstr c Pause = (cmd_pause_direct_stream c, [])"
| "bridge_step pstr c Resume = (cmd_resume_direct_stream c, [])"
| "bridge_step pstr c HeartbeatTick = heartbeat_tick c"
| "bridge_step pstr c ControlTick = direct_control_tick c"
| "bridge_step pstr c (ResendTick now) = reliable_resend_tick now c"

section \<open>The drive values\<close>

definition desired :: "bridge \<Rightarrow> real \<times> real" where
  "desired c = (case ct_session c of None \<Rightarrow> (0, 0) | Some s \<Rightarrow> (bs_desired_throttle s, bs_desired_steering s))"

text \<open>Unarmed means neutral, and the wanted values are always in range.\<close>

definition bridge_ok :: "bridge \<Rightarrow> bool" where
  "bridge_ok c \<longleftrightarrow> (\<not> ct_direct_streaming c \<longrightarrow> desired c = (0, 0)) \<and>
     \<bar>fst (desired c)\<bar> \<le> 1 \<and> \<bar>snd (desired c)\<bar> \<le> 1"

named_theorems bridge_defs \<open>definitions of the bridge's operations\<close>

lemmas [bridge_defs] = attach_def detach_def neutralize_desired_def disarm_stream_def
  cmd_mode_begin_def cmd_mode_end_def cmd_stop_begin_def cmd_reset_begin_def
  cmd_center_def cmd_neutral_def cmd_pause_direct_stream_def cmd_resume_direct_stream_def upd_session_def
  heartbeat_tick_def direct_control_tick_def reliable_resend_tick_def send_reliable_def send_mode_def
  send_stop_cmd_def send_reset_cmd_def next_seq_def next_control_seq_def next_heartbeat_seq_def
  set_outstanding_def clear_outstanding_def sent_by_def intent_def

lemma desired_neutralize [simp]: "desired (neutralize_desired c) = (0, 0)"
  by (simp add: desired_def neutralize_desired_def split: option.split)

lemma neutralize_fields [simp]:
  "ct_direct_streaming (neutralize_desired c) = ct_direct_streaming c"
  "ct_pending_mode_seq (neutralize_desired c) = ct_pending_mode_seq c"
  "ct_sender (neutralize_desired c) = ct_sender c"
  by (simp_all add: neutralize_desired_def)

lemma desired_stream [simp]:
  "desired (c\<lparr>ct_direct_streaming := b\<rparr>) = desired c"
  "desired (c\<lparr>ct_pending_mode_seq := n\<rparr>) = desired c"
  "desired (c\<lparr>ct_last_encoder_count := k\<rparr>) = desired c"
  "desired (c\<lparr>ct_sender := b\<rparr>) = desired c"
  by (simp_all add: desired_def)

lemma neutral_ok [simp]: "desired c = (0, 0) \<Longrightarrow> bridge_ok c"
  by (simp add: bridge_ok_def)

lemma disarm_stream_facts [simp]:
  "desired (disarm_stream c) = (0, 0)" "\<not> ct_direct_streaming (disarm_stream c)"
  "ct_pending_mode_seq (disarm_stream c) = None"
  by (simp_all add: disarm_stream_def)

lemma bridge_ok_cong:
  "ct_direct_streaming c' = ct_direct_streaming c \<Longrightarrow> desired c' = desired c \<Longrightarrow> bridge_ok c' = bridge_ok c"
  by (simp add: bridge_ok_def)

lemma send_reliable_keeps:
  assumes "send_reliable pstr now build p c = (c', out, n)"
  shows "ct_direct_streaming c' = ct_direct_streaming c \<and> desired c' = desired c \<and>
    ct_pending_mode_seq c' = ct_pending_mode_seq c \<and> ct_sender c' = ct_sender c \<and>
    latest_state_mode c' = latest_state_mode c"
  using assms
  by (auto simp: send_reliable_def next_seq_def set_outstanding_def desired_def latest_state_mode_def Let_def
      split: option.splits if_splits)

lemma send_step_keeps:
  "ct_direct_streaming (fst (sent_by (send_reliable pstr now build p c))) = ct_direct_streaming c"
  "desired (fst (sent_by (send_reliable pstr now build p c))) = desired c"
  using send_reliable_keeps [of pstr now build p c]
  by (cases "send_reliable pstr now build p c"; simp add: sent_by_def)+

lemma clamp_unit: "clamp_finite v THROTTLE_MIN THROTTLE_MAX = Inr t \<Longrightarrow> \<bar>t\<bar> \<le> 1"
  "clamp_finite v STEERING_MIN STEERING_MAX = Inr t \<Longrightarrow> \<bar>t\<bar> \<le> 1"
  by (auto simp: clamp_finite_def THROTTLE_MIN_def THROTTLE_MAX_def STEERING_MIN_def STEERING_MAX_def
      split: pyfloat.splits)

lemma cmd_set_throttle_ok: "bridge_ok c \<Longrightarrow> cmd_set_throttle v c = Inr c' \<Longrightarrow>
    bridge_ok c' \<and> ct_direct_streaming c' = ct_direct_streaming c"
  using clamp_unit by (fastforce simp: cmd_set_throttle_def bridge_ok_def desired_def split: option.splits sum.splits)

lemma cmd_set_steering_ok: "bridge_ok c \<Longrightarrow> cmd_set_steering v c = Inr c' \<Longrightarrow>
    bridge_ok c' \<and> ct_direct_streaming c' = ct_direct_streaming c"
  using clamp_unit by (fastforce simp: cmd_set_steering_def bridge_ok_def desired_def split: option.splits sum.splits)

lemma cmd_set_drive_ok: "bridge_ok c \<Longrightarrow> cmd_set_drive t v c = Inr c' \<Longrightarrow>
    bridge_ok c' \<and> ct_direct_streaming c' = ct_direct_streaming c"
  using clamp_unit
  by (auto simp: cmd_set_drive_def bridge_ok_def desired_def split: option.splits sum.splits if_splits)
    (auto simp: neutralize_desired_def)

lemma intent_ok:
  assumes "\<And>c'. f c = Inr c' \<Longrightarrow> bridge_ok c' \<and> ct_direct_streaming c' = ct_direct_streaming c" "bridge_ok c"
  shows "bridge_ok (fst (intent f c)) \<and> ct_direct_streaming (fst (intent f c)) = ct_direct_streaming c"
  using assms by (simp add: intent_def split: sum.split)

section \<open>STATUS handling\<close>

lemma consume_keeps:
  assumes "consume_terminal_result m s = (cmd, s1)"
  shows "bs_desired_throttle s1 = bs_desired_throttle s \<and> bs_desired_steering s1 = bs_desired_steering s \<and>
    bs_last_status s1 = bs_last_status s \<and> bs_last_status_seq s1 = bs_last_status_seq s \<and>
    bs_session_id s1 = bs_session_id s"
  using assms by (auto simp: consume_terminal_result_def split: option.splits if_splits)

lemma record_keeps [simp]:
  "bs_desired_throttle (record_snapshot now m s) = bs_desired_throttle s"
  "bs_desired_steering (record_snapshot now m s) = bs_desired_steering s"
  "bs_outstanding (record_snapshot now m s) = bs_outstanding s"
  by (simp_all add: record_snapshot_def Let_def split: option.split)

lemma desired_record [simp]: "desired (upd_session (record_snapshot now m) c) = desired c"
  "ct_direct_streaming (upd_session f c) = ct_direct_streaming c"
  by (simp_all add: desired_def upd_session_def split: option.split)

lemma encoder_update_keeps [simp]:
  "desired (snd (encoder_update m c)) = desired c"
  "ct_direct_streaming (snd (encoder_update m c)) = ct_direct_streaming c"
  "ct_pending_mode_seq (snd (encoder_update m c)) = ct_pending_mode_seq c"
  "k \<noteq> ''encoder_delta'' \<Longrightarrow> dget (fst (encoder_update m c)) k = dget m k"
  by (simp_all add: encoder_update_def split: option.split)

text \<open>The answer that arms the stream: the positive result for the pending \<open>SET_MODE\<close>.\<close>

definition mode_accepted :: "pydict \<Rightarrow> bridge \<Rightarrow> bool" where
  "mode_accepted m c \<longleftrightarrow> (\<exists>n. ct_pending_mode_seq c = Some n \<and> result_matches_seq m n) \<and>
     dget_or m ''command_result'' (JStr ''NONE'') = JStr ''ACCEPTED'' \<and> dget m ''mode'' = JStr ''REMOTE_DIRECT''"

lemma str_word_Some: "str_word v = Some w \<longleftrightarrow> v = JStr w"
  by (cases v) auto

lemma finish_pending_cases:
  obtains (same) "finish_pending_mode m c = c"
  | (armed) "finish_pending_mode m c = c\<lparr>ct_direct_streaming := True, ct_pending_mode_seq := None\<rparr>" "mode_accepted m c"
  | (disarmed) "finish_pending_mode m c = disarm_stream c"
proof (cases "ct_pending_mode_seq c")
  case None
  then show ?thesis using same by (simp add: finish_pending_mode_def)
next
  case (Some n)
  show ?thesis
  proof (cases "result_matches_seq m n")
    case False
    then show ?thesis using same by (simp add: finish_pending_mode_def Some)
  next
    case True
    show ?thesis
    proof (cases "str_word (dget_or m ''command_result'' (JStr ''NONE'')) = Some ''ACCEPTED'' \<and>
        dget m ''mode'' = JStr ''REMOTE_DIRECT''")
      case acc: True
      then have "finish_pending_mode m c = c\<lparr>ct_direct_streaming := True, ct_pending_mode_seq := None\<rparr>"
        using True Some by (simp add: finish_pending_mode_def)
      then show ?thesis using armed acc True Some by (auto simp: mode_accepted_def str_word_Some)
    next
      case no: False
      then have "finish_pending_mode m c = c \<or> finish_pending_mode m c = disarm_stream c"
        unfolding finish_pending_mode_def Some Let_def option.case using True by (simp only: if_True if_False simp_thms split: if_split)
      then show ?thesis using same disarmed by blast
    qed
  qed
qed

lemma finish_pending_ok:
  assumes "bridge_ok c"
  shows "bridge_ok (finish_pending_mode m c) \<and>
    (\<not> ct_direct_streaming c \<and> ct_direct_streaming (finish_pending_mode m c) \<longrightarrow>
       desired (finish_pending_mode m c) = (0, 0) \<and> mode_accepted m c)"
  using assms by (cases rule: finish_pending_cases [of m c]) (auto simp: bridge_ok_def)

lemma mode_accepted_cong:
  "ct_pending_mode_seq c' = ct_pending_mode_seq c \<Longrightarrow> mode_accepted m c' = mode_accepted m c"
  by (simp add: mode_accepted_def)

lemma on_status_ok:
  assumes "bridge_ok c" "on_status now m c = (c', out, ok)"
  shows "bridge_ok c' \<and> (\<not> ct_direct_streaming c \<and> ct_direct_streaming c' \<longrightarrow> desired c' = (0, 0) \<and> mode_accepted m c)"
proof (cases "ct_session c")
  case None
  then show ?thesis using assms by (simp add: on_status_def)
next
  case (Some s)
  show ?thesis
  proof (cases "dget m ''session_id'' = JStr (bs_session_id s)")
    case False
    then show ?thesis using assms Some by (simp add: on_status_def)
  next
    case True
    obtain cmd s1 where s1: "consume_terminal_result m s = (cmd, s1)" by fastforce
    let ?c0 = "c\<lparr>ct_session := Some s1\<rparr>"
    let ?c1 = "finish_pending_mode m ?c0"
    let ?c2 = "snd (encoder_update m ?c1)"
    let ?c3 = "if dget m ''state'' \<in> set LOCKED_STATES then disarm_stream ?c2
      else if dget m ''mode'' \<noteq> JStr ''REMOTE_DIRECT'' \<and> ct_direct_streaming ?c2
        then neutralize_desired (?c2\<lparr>ct_direct_streaming := False\<rparr>) else ?c2"
    have 0: "bridge_ok ?c0" "ct_direct_streaming ?c0 = ct_direct_streaming c" "mode_accepted m ?c0 = mode_accepted m c"
      using assms(1) consume_keeps [OF s1] Some
      by (simp_all add: bridge_ok_def desired_def mode_accepted_def)
    note 1 = finish_pending_ok [OF 0(1), of m, unfolded 0]
    have c2: "bridge_ok ?c2 = bridge_ok ?c1" by (rule bridge_ok_cong) simp_all
    have 3: "bridge_ok ?c3 \<and> (ct_direct_streaming ?c3 \<longrightarrow> ct_direct_streaming ?c1 \<and> desired ?c3 = desired ?c1)"
      using 1 c2 by auto
    have "c' = ?c1 \<or> c' = ?c2 \<or> c' = upd_session (record_snapshot now (fst (encoder_update m ?c1))) ?c3"
      using assms(2) Some True s1
      by (auto simp: on_status_def Let_def split_def split: if_splits)
    moreover have "bridge_ok (upd_session f c4) = bridge_ok c4" if "desired (upd_session f c4) = desired c4" for f c4
      by (rule bridge_ok_cong) (simp_all add: that)
    ultimately show ?thesis using 1 c2 3 by fastforce
  qed
qed

lemma on_hello_ok:
  assumes "bridge_ok c" "on_hello pstr token m c = (c', out)"
  shows "bridge_ok c' \<and> (ct_direct_streaming c' \<longrightarrow> c' = c)"
proof -
  have "c' = c \<or> (\<not> ct_direct_streaming c' \<and> desired c' = (0, 0))"
    using assms(2) by (auto simp: on_hello_def new_bridge_session_def desired_def split_def Let_def
        split: json.splits if_splits option.splits)
  then show ?thesis using assms(1) by auto
qed

section \<open>Every event\<close>

fun arms :: "bridge_event \<Rightarrow> bridge \<Rightarrow> bool" where
  "arms (Message now token m) c = (dget m ''type'' = JStr ''STATUS'' \<and> mode_accepted m c)"
| "arms ModeBegin c = (latest_state_mode c = (JStr ''READY'', JStr ''REMOTE_DIRECT''))"
| "arms Resume c = (snd (latest_state_mode c) = JStr ''REMOTE_DIRECT'' \<and>
     fst (latest_state_mode c) \<in> {JStr ''READY'', JStr ''WAITING''})"
| "arms e c = False"

text \<open>What one event may do to the drive values.\<close>

definition careful :: "bridge_event \<Rightarrow> bridge \<Rightarrow> bridge \<Rightarrow> bool" where
  "careful e c c' \<longleftrightarrow> bridge_ok c' \<and>
     (\<not> ct_direct_streaming c \<and> ct_direct_streaming c' \<longrightarrow> desired c' = (0, 0) \<and> arms e c)"

lemma careful_same: "bridge_ok c \<Longrightarrow> desired c' = desired c \<Longrightarrow>
    ct_direct_streaming c' = ct_direct_streaming c \<Longrightarrow> careful e c c'"
  using bridge_ok_cong [of c' c] by (simp add: careful_def)

lemma careful_off: "desired c' = (0, 0) \<Longrightarrow> \<not> ct_direct_streaming c' \<Longrightarrow> careful e c c'"
  by (simp add: careful_def)

lemma careful_intent:
  assumes "\<And>c'. f c = Inr c' \<Longrightarrow> bridge_ok c' \<and> ct_direct_streaming c' = ct_direct_streaming c" "bridge_ok c"
  shows "careful e c (fst (intent f c))"
  using intent_ok [OF assms] by (simp add: careful_def)

lemma desired_put: "desired (c\<lparr>ct_session := Some s1\<rparr>) = (bs_desired_throttle s1, bs_desired_steering s1)"
  by (simp add: desired_def)

lemma careful_put:
  "bridge_ok c \<Longrightarrow> ct_session c = Some s \<Longrightarrow> bs_desired_throttle s1 = bs_desired_throttle s \<Longrightarrow>
     bs_desired_steering s1 = bs_desired_steering s \<Longrightarrow> careful e c (c\<lparr>ct_session := Some s1\<rparr>)"
  by (rule careful_same) (simp_all add: desired_def)

lemma heartbeat_careful: "bridge_ok c \<Longrightarrow> careful e c (fst (heartbeat_tick c))"
  by (auto simp: heartbeat_tick_def next_heartbeat_seq_def Let_def split: option.split intro: careful_put careful_same)

lemma control_careful: "bridge_ok c \<Longrightarrow> careful e c (fst (direct_control_tick c))"
  by (auto simp: direct_control_tick_def next_control_seq_def Let_def split_def
      split: option.split sum.split intro: careful_put careful_same careful_off)

lemma resend_careful: "bridge_ok c \<Longrightarrow> careful e c (fst (reliable_resend_tick now c))"
  by (auto simp: reliable_resend_tick_def set_outstanding_def clear_outstanding_def Let_def
      split: option.split intro: careful_put careful_same careful_off)

lemma step_careful:
  assumes ok: "bridge_ok c" shows "careful e c (fst (bridge_step pstr c e))"
proof (cases e)
  case Attach
  then show ?thesis using careful_same [OF ok] by (simp add: attach_def)
next
  case Detach
  then show ?thesis by (simp add: detach_def careful_off desired_def)
next
  case (Message now token m)
  show ?thesis
  proof (cases "dget m ''type'' = JStr ''HELLO''")
    case True
    obtain c' out where h: "on_hello pstr token m c = (c', out)" by fastforce
    then show ?thesis
      using on_hello_ok [OF ok h] True ok by (auto simp: Message sent_by_def on_message_def careful_def)
  next
    case False
    obtain c' out b where h: "on_status now m c = (c', out, b)" by (metis surj_pair)
    show ?thesis
      using on_status_ok [OF ok h] False ok h careful_same [OF ok refl refl]
      by (simp add: Message sent_by_def on_message_def careful_def)
  qed
next
  case ModeBegin
  then show ?thesis
    using careful_same [OF ok refl refl] by (auto simp: cmd_mode_begin_def split_def Let_def careful_def prod_eq_iff)
next
  case (SendMode now)
  then show ?thesis using careful_same [OF ok] by (simp add: send_mode_def send_step_keeps)
next
  case (ModeEnd n)
  then show ?thesis
    using careful_same [OF ok refl refl] by (auto simp: cmd_mode_end_def split: option.split intro: careful_off)
next
  case StopBegin
  then show ?thesis by (simp add: cmd_stop_begin_def split_def Let_def careful_off)
next
  case (SendStop now)
  then show ?thesis using careful_same [OF ok] by (simp add: send_stop_cmd_def send_step_keeps)
next
  case ResetBegin
  then show ?thesis
    using careful_same [OF ok refl refl] by (simp add: cmd_reset_begin_def split_def Let_def careful_off)
next
  case (SendReset now)
  then show ?thesis using careful_same [OF ok] by (simp add: send_reset_cmd_def send_step_keeps)
next
  case (Throttle v)
  then show ?thesis using careful_intent [OF cmd_set_throttle_ok] ok by simp
next
  case (Steering v)
  then show ?thesis using careful_intent [OF cmd_set_steering_ok] ok by simp
next
  case (Drive t v)
  then show ?thesis using careful_intent [OF cmd_set_drive_ok] ok by simp
next
  case (NudgeThrottle d)
  have "bridge_ok c' \<and> ct_direct_streaming c' = ct_direct_streaming c" if "cmd_nudge_throttle d c = Inr c'" for c'
    using that ok cmd_set_throttle_ok [OF ok] by (auto simp: cmd_nudge_throttle_def split: option.splits)
  then show ?thesis using careful_intent ok by (simp add: NudgeThrottle)
next
  case (NudgeSteering d)
  have "bridge_ok c' \<and> ct_direct_streaming c' = ct_direct_streaming c" if "cmd_nudge_steering d c = Inr c'" for c'
    using that ok cmd_set_steering_ok [OF ok] by (auto simp: cmd_nudge_steering_def split: option.splits)
  then show ?thesis using careful_intent ok by (simp add: NudgeSteering)
next
  case Center
  then show ?thesis
    using ok by (auto simp: careful_def bridge_ok_def desired_def cmd_center_def upd_session_def split: option.splits)
next
  case Neutral
  then show ?thesis
    using ok by (auto simp: careful_def bridge_ok_def desired_def cmd_neutral_def upd_session_def split: option.splits)
next
  case Pause
  then show ?thesis by (simp add: cmd_pause_direct_stream_def careful_off)
next
  case Resume
  then show ?thesis
    using careful_same [OF ok refl refl]
    by (auto simp: cmd_resume_direct_stream_def split_def Let_def careful_def)
next
  case HeartbeatTick
  then show ?thesis using heartbeat_careful [OF ok] by simp
next
  case ControlTick
  then show ?thesis using control_careful [OF ok] by simp
next
  case (ResendTick now)
  then show ?thesis using resend_careful [OF ok] by simp
qed

interpretation bridge_sys: step_system "\<lambda>c e. fst (bridge_step pstr c e)" bridge_ok for pstr
  by unfold_locales (use step_careful in \<open>auto simp: careful_def\<close>)

definition bridge_run :: "(json \<Rightarrow> string) \<Rightarrow> bridge_event list \<Rightarrow> bridge" where
  "bridge_run pstr es = foldl (\<lambda>c e. fst (bridge_step pstr c e)) bridge_init es"

lemma bridge_run_ok: "bridge_ok (bridge_run pstr es)"
  unfolding bridge_run_def by (rule bridge_sys.run_inv) (simp add: bridge_init_def desired_def)

section \<open>The outstanding command\<close>

definition outstanding_msg :: "bridge \<Rightarrow> pydict option" where
  "outstanding_msg c = (case ct_session c of None \<Rightarrow> None | Some s \<Rightarrow> map_option oc_message (bs_outstanding s))"

definition is_drive :: "pydict \<Rightarrow> bool" where "is_drive m \<longleftrightarrow> dget m ''type'' = JStr ''DIRECT_CONTROL''"

definition cmd_ok :: "bridge \<Rightarrow> bool" where
  "cmd_ok c \<longleftrightarrow> (\<forall>m. outstanding_msg c = Some m \<longrightarrow> \<not> is_drive m)"

fun no_drive :: "ctl_out \<Rightarrow> bool" where
  "no_drive (Sent m) = (\<not> is_drive m)"
| "no_drive (Connection b) = True"
| "no_drive (Published m) = True"

lemma ctl_send_no_drive [simp]: "list_all no_drive (ctl_send m c) \<longleftrightarrow> ct_sender c \<longrightarrow> \<not> is_drive m"
  by (simp add: ctl_send_def)

lemma builders_no_drive [simp]:
  "\<not> is_drive (build_hello_ack sid b n r re)" "\<not> is_drive (build_heartbeat sid k)"
  "\<not> is_drive (build_set_mode sid k md)" "\<not> is_drive (build_stop sid k rs)" "\<not> is_drive (build_reset sid k)"
  by (simp_all add: is_drive_def build_hello_ack_def build_heartbeat_def build_set_mode_def build_stop_def
      build_reset_def Let_def)

lemma outstanding_keeps [simp]:
  "outstanding_msg (neutralize_desired c) = outstanding_msg c"
  "outstanding_msg (c\<lparr>ct_direct_streaming := b\<rparr>) = outstanding_msg c"
  "outstanding_msg (c\<lparr>ct_pending_mode_seq := n\<rparr>) = outstanding_msg c"
  "outstanding_msg (c\<lparr>ct_sender := b\<rparr>) = outstanding_msg c"
  "outstanding_msg (disarm_stream c) = outstanding_msg c"
  "outstanding_msg (snd (encoder_update m c)) = outstanding_msg c"
  "outstanding_msg (upd_session (record_snapshot now m) c) = outstanding_msg c"
  "outstanding_msg (finish_pending_mode m c) = outstanding_msg c"
  "outstanding_msg (upd_session (\<lambda>s. s\<lparr>bs_desired_throttle := x\<rparr>) c) = outstanding_msg c"
  "outstanding_msg (upd_session (\<lambda>s. s\<lparr>bs_desired_steering := x\<rparr>) c) = outstanding_msg c"
proof -
  show neutral: "outstanding_msg (neutralize_desired c) = outstanding_msg c" for c
    by (simp add: outstanding_msg_def neutralize_desired_def split: option.split)
  show stream: "outstanding_msg (c\<lparr>ct_direct_streaming := b\<rparr>) = outstanding_msg c" for b c
    by (simp add: outstanding_msg_def)
  show pend: "outstanding_msg (c\<lparr>ct_pending_mode_seq := n\<rparr>) = outstanding_msg c" for n c
    by (simp add: outstanding_msg_def)
  show "outstanding_msg (c\<lparr>ct_sender := b\<rparr>) = outstanding_msg c" by (simp add: outstanding_msg_def)
  show dis: "outstanding_msg (disarm_stream c) = outstanding_msg c" for c
    unfolding disarm_stream_def neutral by (simp add: outstanding_msg_def)
  show "outstanding_msg (snd (encoder_update m c)) = outstanding_msg c"
    by (simp add: outstanding_msg_def encoder_update_def split: option.split)
  show "outstanding_msg (upd_session (record_snapshot now m) c) = outstanding_msg c"
    by (simp add: outstanding_msg_def upd_session_def split: option.split)
  show "outstanding_msg (finish_pending_mode m c) = outstanding_msg c"
    by (rule finish_pending_cases [of m c]) (simp_all add: dis, simp add: outstanding_msg_def)
  show "outstanding_msg (upd_session (\<lambda>s. s\<lparr>bs_desired_throttle := x\<rparr>) c) = outstanding_msg c"
    "outstanding_msg (upd_session (\<lambda>s. s\<lparr>bs_desired_steering := x\<rparr>) c) = outstanding_msg c"
    by (simp_all add: outstanding_msg_def upd_session_def split: option.split)
qed

text \<open>What one event may do to the outstanding command and what it may send.\<close>

definition tame :: "bridge \<Rightarrow> bridge \<times> ctl_out list \<Rightarrow> bool" where
  "tame c r \<longleftrightarrow> (outstanding_msg (fst r) = None \<or> outstanding_msg (fst r) = outstanding_msg c \<or>
      (\<exists>m. outstanding_msg (fst r) = Some m \<and> \<not> is_drive m)) \<and> list_all no_drive (snd r)"

lemma tame_same: "outstanding_msg c' = outstanding_msg c \<Longrightarrow> tame c (c', [])"
  by (simp add: tame_def)

lemma send_reliable_tame:
  "(\<And>sid n. \<not> is_drive (build sid n)) \<Longrightarrow> tame c (sent_by (send_reliable pstr now build p c))"
  by (simp add: tame_def send_reliable_def sent_by_def next_seq_def set_outstanding_def Let_def outstanding_msg_def
      split: option.split)

lemma on_status_tame: "tame c (sent_by (on_status now m c))"
proof (cases "ct_session c")
  case None
  then show ?thesis by (simp add: on_status_def sent_by_def tame_same)
next
  case (Some s)
  obtain cmd s1 where s1: "consume_terminal_result m s = (cmd, s1)" by fastforce
  let ?c0 = "c\<lparr>ct_session := Some s1\<rparr>"
  have 0: "outstanding_msg ?c0 = None \<or> outstanding_msg ?c0 = outstanding_msg c"
    using s1 Some by (auto simp: consume_terminal_result_def outstanding_msg_def split: option.splits if_splits)
  show ?thesis
    unfolding on_status_def Some option.case s1 Let_def split_def sent_by_def
    using 0 by (auto simp: tame_def notify_status_def)
qed

lemma on_hello_tame: "tame c (on_hello pstr token m c)"
  by (auto simp: on_hello_def tame_def split_def Let_def outstanding_msg_def new_bridge_session_def
      split: json.split option.split)

lemma intent_tame:
  "(\<And>c'. f c = Inr c' \<Longrightarrow> outstanding_msg c' = outstanding_msg c) \<Longrightarrow> tame c (intent f c)"
  by (simp add: intent_def tame_same split: sum.split)

lemma cmd_set_throttle_msg: "cmd_set_throttle v c = Inr c' \<Longrightarrow> outstanding_msg c' = outstanding_msg c"
  by (auto simp: cmd_set_throttle_def outstanding_msg_def split: option.splits sum.splits)

lemma cmd_set_steering_msg: "cmd_set_steering v c = Inr c' \<Longrightarrow> outstanding_msg c' = outstanding_msg c"
  by (auto simp: cmd_set_steering_def outstanding_msg_def split: option.splits sum.splits)

lemma cmd_set_drive_msg: "cmd_set_drive t v c = Inr c' \<Longrightarrow> outstanding_msg c' = outstanding_msg c"
  by (auto simp: cmd_set_drive_def neutralize_desired_def outstanding_msg_def
      split: option.splits sum.splits if_splits)

lemma step_tame:
  assumes "cmd_ok c" "e \<noteq> ControlTick" shows "tame c (bridge_step pstr c e)"
proof (cases e)
  case Attach
  then show ?thesis by (simp add: attach_def tame_def)
next
  case Detach
  then show ?thesis by (simp add: detach_def tame_def outstanding_msg_def)
next
  case (Message now token m)
  show ?thesis
    using on_hello_tame [of c pstr token m] on_status_tame [of c now m] tame_same [of c c]
    by (auto simp: Message on_message_def split_def sent_by_def Let_def)
next
  case (SendMode now)
  then show ?thesis by (simp add: send_mode_def send_reliable_tame)
next
  case (SendStop now)
  then show ?thesis by (simp add: send_stop_cmd_def send_reliable_tame)
next
  case (SendReset now)
  then show ?thesis by (simp add: send_reset_cmd_def send_reliable_tame)
next
  case (Throttle v)
  then show ?thesis by (simp add: intent_tame cmd_set_throttle_msg)
next
  case (Steering v)
  then show ?thesis by (simp add: intent_tame cmd_set_steering_msg)
next
  case (Drive t v)
  then show ?thesis by (simp add: intent_tame cmd_set_drive_msg)
next
  case (NudgeThrottle d)
  then show ?thesis
    by (auto simp: cmd_nudge_throttle_def dest: cmd_set_throttle_msg split: option.splits intro!: intent_tame)
next
  case (NudgeSteering d)
  then show ?thesis
    by (auto simp: cmd_nudge_steering_def dest: cmd_set_steering_msg split: option.splits intro!: intent_tame)
next
  case HeartbeatTick
  then show ?thesis
    by (auto simp: heartbeat_tick_def next_heartbeat_seq_def Let_def tame_def outstanding_msg_def split: option.split)
next
  case ControlTick
  then show ?thesis using assms(2) by simp
next
  case (ResendTick now)
  then show ?thesis using assms(1)
    by (auto simp: reliable_resend_tick_def Let_def tame_def cmd_ok_def set_outstanding_def clear_outstanding_def
        split: option.split) (auto simp: outstanding_msg_def)
qed (auto simp: tame_same cmd_mode_begin_def cmd_mode_end_def cmd_stop_begin_def cmd_reset_begin_def cmd_center_def
    cmd_neutral_def cmd_pause_direct_stream_def cmd_resume_direct_stream_def split_def Let_def split: option.split)

lemma control_outstanding: "outstanding_msg (fst (direct_control_tick c)) = outstanding_msg c"
proof (cases "ct_session c")
  case None
  then show ?thesis by (simp add: direct_control_tick_def)
next
  case (Some s)
  have "outstanding_msg (c\<lparr>ct_session := Some (snd (next_control_seq s))\<rparr>) = outstanding_msg c"
    by (simp add: outstanding_msg_def next_control_seq_def Some)
  then show ?thesis by (simp add: direct_control_tick_def Some Let_def split_def split: sum.split)
qed

lemma step_cmd_ok: "cmd_ok c \<Longrightarrow> cmd_ok (fst (bridge_step pstr c e))"
proof (cases "e = ControlTick")
  case True
  then show "cmd_ok c \<Longrightarrow> ?thesis" using control_outstanding [of c] by (simp add: cmd_ok_def)
next
  case False
  then show "cmd_ok c \<Longrightarrow> ?thesis" using step_tame [of c e pstr] by (auto simp: cmd_ok_def tame_def)
qed

interpretation bridge_cmds: step_system "\<lambda>c e. fst (bridge_step pstr c e)" cmd_ok for pstr
  by unfold_locales (rule step_cmd_ok)

lemma bridge_run_cmd_ok: "cmd_ok (bridge_run pstr es)"
  unfolding bridge_run_def
  by (rule bridge_cmds.run_inv) (simp add: bridge_init_def cmd_ok_def outstanding_msg_def)

section \<open>Driving\<close>

text \<open>C16: the bridge drives only while armed. Over every interleaving of its handlers and loops, a
  \<open>DIRECT_CONTROL\<close> message leaves only from the 10 Hz loop, while streaming is armed and the latest
  snapshot says \<open>REMOTE_DIRECT\<close> in a state that may drive, and it carries the wanted values rounded, within
  \<open>[-1, 1]\<close>.\<close>

theorem bridge_drives_only_armed:
  assumes "bridge_step pstr (bridge_run pstr es) e = (c', out)" "Sent m \<in> set out"
    and "dget m ''type'' = JStr ''DIRECT_CONTROL''"
  shows "e = ControlTick \<and> ct_direct_streaming (bridge_run pstr es) \<and>
    snd (latest_state_mode (bridge_run pstr es)) = JStr ''REMOTE_DIRECT'' \<and>
    fst (latest_state_mode (bridge_run pstr es)) \<notin> set NO_DRIVE_STATES \<and>
    dget m ''throttle'' = JFloat (Fin (round_dec 4 (fst (desired (bridge_run pstr es))))) \<and>
    dget m ''steering'' = JFloat (Fin (round_dec 4 (snd (desired (bridge_run pstr es))))) \<and>
    \<bar>fst (desired (bridge_run pstr es))\<bar> \<le> 1 \<and> \<bar>snd (desired (bridge_run pstr es))\<bar> \<le> 1"
proof -
  define c where "c = bridge_run pstr es"
  have e: "e = ControlTick"
  proof (rule ccontr)
    assume "e \<noteq> ControlTick"
    then have "tame c (bridge_step pstr c e)" by (rule step_tame [OF bridge_run_cmd_ok [of pstr es, folded c_def]])
    then show False using assms by (auto simp: c_def tame_def list_all_iff is_drive_def)
  qed
  have t: "\<bar>fst (desired c)\<bar> \<le> 1" "\<bar>snd (desired c)\<bar> \<le> 1"
    using bridge_run_ok [of pstr es] by (simp_all add: c_def bridge_ok_def)
  obtain s where s: "ct_session c = Some s" and on: "ct_direct_streaming c"
    using assms(1,2) by (cases "ct_session c"; cases "ct_direct_streaming c")
      (auto simp: e c_def direct_control_tick_def)
  have b: "build_direct_control (bs_session_id s) n (Fin (bs_desired_throttle s)) (Fin (bs_desired_steering s)) =
      Inr [(''version'', JInt PROTOCOL_VERSION), (''type'', JStr ''DIRECT_CONTROL''),
           (''car_id'', JStr BR_CAR_ID), (''session_id'', JStr (bs_session_id s)), (''control_seq'', JInt n),
           (''throttle'', JFloat (Fin (round_dec 4 (bs_desired_throttle s)))),
           (''steering'', JFloat (Fin (round_dec 4 (bs_desired_steering s))))]" for n
    using t s by (simp add: build_direct_control_def clamp_finite_def THROTTLE_MIN_def THROTTLE_MAX_def
        STEERING_MIN_def STEERING_MAX_def desired_def abs_le_iff)
  have "snd (latest_state_mode c) = JStr ''REMOTE_DIRECT'' \<and> fst (latest_state_mode c) \<notin> set NO_DRIVE_STATES \<and>
      dget m ''throttle'' = JFloat (Fin (round_dec 4 (fst (desired c)))) \<and>
      dget m ''steering'' = JFloat (Fin (round_dec 4 (snd (desired c))))"
    using assms(1,2) s on unfolding e c_def [symmetric]
    by (auto simp: direct_control_tick_def Let_def split_def b ctl_send_def desired_def split: if_splits)
  then show ?thesis using e on t by (simp add: c_def)
qed

text \<open>A vehicle that says hello, becomes ready and accepts remote control.\<close>

definition hello_line :: pydict where
  "hello_line = [(''type'', JStr ''HELLO''), (''boot_id'', JStr ''B''), (''motor_stopped'', JBool True)]"

definition ready_status :: "int \<Rightarrow> string \<Rightarrow> string \<Rightarrow> int \<Rightarrow> pydict" where
  "ready_status k mode result acked =
     [(''type'', JStr ''STATUS''), (''session_id'', JStr ''S''), (''status_seq'', JInt k), (''state'', JStr ''READY''),
      (''mode'', JStr mode), (''command_result'', JStr result), (''last_processed_cmd_seq'', JInt acked)]"

text \<open>The states this run goes through.\<close>

definition live :: "bridge_session \<Rightarrow> int option \<Rightarrow> bool \<Rightarrow> bridge" where
  "live s pending streaming = \<lparr>ct_session = Some s, ct_sender = True, ct_direct_streaming = streaming,
     ct_pending_mode_seq = pending, ct_hello_result = ''READY_ALLOWED'', ct_hello_reason = '''',
     ct_last_encoder_count = None\<rparr>"

definition idle_session :: bridge_session where
  "idle_session = (new_bridge_session ''S'' ''B'' 1)\<lparr>bs_last_status := Some (ready_status 1 ''WAYPOINT_AUTO'' ''NONE'' 0),
     bs_last_status_at := 1, bs_last_status_seq := 1\<rparr>"

definition asked_session :: "(json \<Rightarrow> string) \<Rightarrow> bridge_session" where
  "asked_session pstr = idle_session\<lparr>bs_seq_counter := 2, bs_outstanding := Some
     \<lparr>oc_seq = 1, oc_message = build_set_mode ''S'' 1 ''REMOTE_DIRECT'',
      oc_fingerprint = the (reliable_fingerprint pstr (build_set_mode ''S'' 1 ''REMOTE_DIRECT'')), oc_sent_at = 2,
      oc_resend_timeout_s = RELIABLE_RESEND_TIMEOUT_S, oc_resends = 0\<rparr>\<rparr>"

definition remote_session :: bridge_session where
  "remote_session = idle_session\<lparr>bs_seq_counter := 2, bs_outstanding := None,
     bs_last_status := Some (ready_status 2 ''REMOTE_DIRECT'' ''ACCEPTED'' 1), bs_last_status_at := 3,
     bs_last_status_seq := 2\<rparr>"

lemma ready_status_gets [simp]:
  "dget (ready_status k md r a) ''type'' = JStr ''STATUS''" "dget (ready_status k md r a) ''session_id'' = JStr ''S''"
  "dget (ready_status k md r a) ''status_seq'' = JInt k" "dget (ready_status k md r a) ''state'' = JStr ''READY''"
  "dget (ready_status k md r a) ''mode'' = JStr md" "dget (ready_status k md r a) ''encoder_count'' = JNull"
  "dget_or (ready_status k md r a) ''command_result'' w = JStr r" "dget (ready_status k md r a) ''rejected_seq'' = JNull"
  "dget (ready_status k md r a) ''last_processed_cmd_seq'' = JInt a"
  by (simp_all add: ready_status_def)

lemma idle_session_facts [simp]:
  "bs_session_id idle_session = ''S''" "bs_outstanding idle_session = None" "bs_seq_counter idle_session = 1"
  "bs_desired_throttle idle_session = 0" "bs_desired_steering idle_session = 0"
  "bs_last_status idle_session = Some (ready_status 1 ''WAYPOINT_AUTO'' ''NONE'' 0)" "bs_last_status_seq idle_session = 1"
  "bs_control_seq_counter idle_session = 1"
  by (simp_all add: idle_session_def new_bridge_session_def)

lemma hello_greets:
  "fst (bridge_step pstr (fst (bridge_step pstr bridge_init Attach)) (Message 0 ''S'' hello_line)) =
     live (new_bridge_session ''S'' ''B'' 1) None False"
  by (simp add: live_def attach_def bridge_init_def on_message_def hello_line_def on_hello_def hello_again_def
      bridge_hello_verdict_def sent_by_def Let_def)

lemma status_idles:
  "fst (bridge_step pstr (live (new_bridge_session ''S'' ''B'' 1) None False)
     (Message 1 '''' (ready_status 1 ''WAYPOINT_AUTO'' ''NONE'' 0))) = live idle_session None False"
  by (simp add: live_def idle_session_def new_bridge_session_def on_message_def on_status_def
      consume_terminal_result_def finish_pending_mode_def is_stale_snapshot_def encoder_update_def
      record_snapshot_def upd_session_def sent_by_def LOCKED_STATES_def Let_def)

lemma mode_begins: "cmd_mode_begin (live idle_session None False) = (live idle_session None False, True)"
  by (simp add: cmd_mode_begin_def latest_state_mode_def live_def Let_def)

lemma mode_asks: "fst (sent_by (send_mode pstr 2 (live idle_session None False))) = live (asked_session pstr) None False"
  by (simp add: live_def asked_session_def send_mode_def
      send_reliable_def has_outstanding_def next_seq_def set_outstanding_def sent_by_def
      bridge_resend_timeout_def Let_def) (simp add: build_set_mode_def)

lemma asked_session_facts [simp]:
  "bs_session_id (asked_session pstr) = ''S''" "bs_desired_throttle (asked_session pstr) = 0"
  "bs_desired_steering (asked_session pstr) = 0" "bs_last_status_seq (asked_session pstr) = 1"
  by (simp_all add: asked_session_def)

lemma neutral_session [simp]:
  "bs_desired_throttle s = 0 \<Longrightarrow> bs_desired_steering s = 0 \<Longrightarrow> s\<lparr>bs_desired_throttle := 0, bs_desired_steering := 0\<rparr> = s"
  by (cases s) simp

lemma mode_waits: "cmd_mode_end (Some 1) (live s p b) =
    live (s\<lparr>bs_desired_throttle := 0, bs_desired_steering := 0\<rparr>) (Some 1) False"
  by (simp add: cmd_mode_end_def neutralize_desired_def live_def)

lemma accepted_status:
  assumes p: "p \<in> {None, Some 1}"
  shows "fst (bridge_step pstr (live (asked_session pstr) p False)
       (Message 3 '''' (ready_status 2 ''REMOTE_DIRECT'' ''ACCEPTED'' 1))) = live remote_session None (p = Some 1)"
proof -
  have con: "consume_terminal_result (ready_status 2 ''REMOTE_DIRECT'' ''ACCEPTED'' 1) (asked_session pstr) =
     (bs_outstanding (asked_session pstr), (asked_session pstr)\<lparr>bs_outstanding := None\<rparr>)"
    by (simp add: consume_terminal_result_def asked_session_def terminal_result_matches_def TERMINAL_RESULTS_def)
  have f: "finish_pending_mode (ready_status 2 ''REMOTE_DIRECT'' ''ACCEPTED'' 1) (live s p False) = live s None (p = Some 1)" for s
    using p by (auto simp: finish_pending_mode_def result_matches_seq_def live_def)
  have live_put: "(live s q b)\<lparr>ct_session := Some s'\<rparr> = live s' q b" for s s' q b by (simp add: live_def)
  have live_get: "ct_session (live s q b) = Some s" for s q b by (simp add: live_def)
  have enc: "encoder_update (ready_status 2 md r a) c = (ready_status 2 md r a, c)" for md r a c
    by (simp add: encoder_update_def)
  have rec: "record_snapshot 3 (ready_status 2 ''REMOTE_DIRECT'' ''ACCEPTED'' 1)
      ((asked_session pstr)\<lparr>bs_outstanding := None\<rparr>) = remote_session"
    by (simp add: record_snapshot_def remote_session_def asked_session_def Let_def)
  show ?thesis
    by (simp add: on_message_def on_status_def sent_by_def live_get live_put con f enc is_stale_snapshot_def
        LOCKED_STATES_def upd_session_def rec Let_def)
qed

definition arming_run :: "bridge_event list" where
  "arming_run = [Attach, Message 0 ''S'' hello_line, Message 1 '''' (ready_status 1 ''WAYPOINT_AUTO'' ''NONE'' 0),
     ModeBegin, SendMode 2, ModeEnd (Some 1), Message 3 '''' (ready_status 2 ''REMOTE_DIRECT'' ''ACCEPTED'' 1)]"

lemma arming_run_state: "bridge_run pstr arming_run = live remote_session None True"
  unfolding bridge_run_def arming_run_def foldl.simps hello_greets status_idles bridge_step.simps(4,5,6)
  by (simp only: mode_begins mode_asks mode_waits fst_conv neutral_session asked_session_facts, rule trans,
      rule accepted_status) simp_all

lemma remote_session_facts [simp]:
  "bs_last_status remote_session = Some (ready_status 2 ''REMOTE_DIRECT'' ''ACCEPTED'' 1)"
  "bs_desired_throttle remote_session = 0" "bs_desired_steering remote_session = 0"
  "bs_session_id remote_session = ''S''" "bs_control_seq_counter remote_session = 1" "bs_outstanding remote_session = None"
  by (simp_all add: remote_session_def)

lemma bridge_drives_only_armed_witness:
  "\<exists>m. snd (bridge_step (\<lambda>_. []) (bridge_run (\<lambda>_. []) arming_run) ControlTick) = [Sent m] \<and>
     dget m ''throttle'' = JFloat (Fin 0)"
proof -
  obtain m where m: "snd (bridge_step (\<lambda>_. []) (bridge_run (\<lambda>_. []) arming_run) ControlTick) = [Sent m]"
      "dget m ''type'' = JStr ''DIRECT_CONTROL''"
    unfolding arming_run_state
    by (simp add: direct_control_tick_def live_def latest_state_mode_def NO_DRIVE_STATES_def LOCKED_STATES_def
        next_control_seq_def build_direct_control_def clamp_finite_def ctl_send_def Let_def)
  have d: "desired (bridge_run (\<lambda>_. []) arming_run) = (0, 0)"
    by (simp add: arming_run_state desired_def live_def)
  obtain c' where "bridge_step (\<lambda>_. []) (bridge_run (\<lambda>_. []) arming_run) ControlTick = (c', [Sent m])"
    using m(1) by (metis prod.collapse)
  then show ?thesis
    using bridge_drives_only_armed [of "\<lambda>_. []" arming_run ControlTick c' "[Sent m]" m] m d by simp
qed

text \<open>Arming is deliberate and neutral. Whatever interleaving led here, the one event that turns the
  drive stream on is a positive answer to the pending \<open>SET_MODE\<close>, a mode request to a vehicle that is
  already \<open>READY\<close> in \<open>REMOTE_DIRECT\<close>, or an explicit resume in that mode; and at that moment the wanted
  throttle and steering are zero, so no old command drives the car.\<close>

theorem bridge_arms_at_neutral:
  assumes "\<not> ct_direct_streaming (bridge_run pstr es)"
    and "ct_direct_streaming (fst (bridge_step pstr (bridge_run pstr es) e))"
  shows "desired (fst (bridge_step pstr (bridge_run pstr es) e)) = (0, 0) \<and>
    ((\<exists>now token m n. e = Message now token m \<and> ct_pending_mode_seq (bridge_run pstr es) = Some n \<and>
        result_matches_seq m n \<and> dget_or m ''command_result'' (JStr ''NONE'') = JStr ''ACCEPTED'' \<and>
        dget m ''mode'' = JStr ''REMOTE_DIRECT'') \<or>
     e = ModeBegin \<and> latest_state_mode (bridge_run pstr es) = (JStr ''READY'', JStr ''REMOTE_DIRECT'') \<or>
     e = Resume \<and> snd (latest_state_mode (bridge_run pstr es)) = JStr ''REMOTE_DIRECT'')"
proof -
  have "desired (fst (bridge_step pstr (bridge_run pstr es) e)) = (0, 0)" "arms e (bridge_run pstr es)"
    using step_careful [OF bridge_run_ok [of pstr es], where e = e and pstr = pstr] assms by (simp_all add: careful_def)
  then show ?thesis by (cases e) (auto simp: mode_accepted_def)
qed

lemma bridge_arms_at_neutral_witness:
  "desired (fst (bridge_step (\<lambda>_. []) (bridge_run (\<lambda>_. []) (arming_run @ [Pause])) Resume)) = (0, 0)"
proof -
  have r: "bridge_run (\<lambda>_. []) (arming_run @ [Pause]) = live remote_session None False"
    using arming_run_state [of "\<lambda>_. []"]
    by (simp add: bridge_run_def cmd_pause_direct_stream_def neutralize_desired_def live_def)
  show ?thesis
    using bridge_arms_at_neutral [of "\<lambda>_. []" "arming_run @ [Pause]" Resume]
    by (simp add: r cmd_resume_direct_stream_def latest_state_mode_def live_def Let_def)
qed

text \<open>The events that can turn the stream on.\<close>

fun may_arm :: "bridge_event \<Rightarrow> bool" where
  "may_arm (Message now token m) = (dget_or m ''command_result'' (JStr ''NONE'') = JStr ''ACCEPTED'')"
| "may_arm ModeBegin = True"
| "may_arm Resume = True"
| "may_arm e = False"

lemma arms_may_arm: "arms e c \<Longrightarrow> may_arm e"
  by (cases e) (auto simp: mode_accepted_def)

definition silent :: "bridge \<Rightarrow> bool" where
  "silent c \<longleftrightarrow> bridge_ok c \<and> cmd_ok c \<and> \<not> ct_direct_streaming c"

lemma silent_step:
  assumes "silent c" "\<not> may_arm e" "bridge_step pstr c e = (c', out)"
  shows "silent c' \<and> list_all no_drive out"
proof -
  have ok: "bridge_ok c" "cmd_ok c" "\<not> ct_direct_streaming c" using assms(1) by (simp_all add: silent_def)
  have "bridge_ok c' \<and> \<not> ct_direct_streaming c'"
    using step_careful [OF ok(1), where e = e and pstr = pstr] assms(2,3) ok(3) arms_may_arm by (auto simp: careful_def)
  moreover have "cmd_ok c'" using step_cmd_ok [OF ok(2), of pstr e] assms(3) by simp
  moreover have "list_all no_drive out"
  proof (cases "e = ControlTick")
    case True
    then show ?thesis using assms(3) ok(3) by (auto simp: direct_control_tick_def split: option.splits)
  next
    case False
    then show ?thesis using step_tame [OF ok(2), of e pstr] assms(3) by (simp add: tame_def)
  qed
  ultimately show ?thesis by (simp add: silent_def)
qed

interpretation silent_latch: quiet_latch "bridge_step pstr" silent may_arm no_drive for pstr
  by unfold_locales (rule silent_step)



text \<open>A race loses the mode request. When the vehicle's positive answer arrives while the request's own
  send is still waiting for the transport, it is not recognised, and the request is then recorded as
  pending: nothing is outstanding any more, so no resend ever clears it, the stream stays off, and
  every later mode request is refused as already pending.\<close>

theorem bridge_mode_race:
  "\<exists>es. es = [Attach, Message 0 ''S'' hello_line, Message 1 '''' (ready_status 1 ''WAYPOINT_AUTO'' ''NONE'' 0),
        ModeBegin, SendMode 2, Message 3 '''' (ready_status 2 ''REMOTE_DIRECT'' ''ACCEPTED'' 1), ModeEnd (Some 1)] \<and>
     \<not> ct_direct_streaming (bridge_run pstr es) \<and> ct_pending_mode_seq (bridge_run pstr es) = Some 1 \<and>
     cmd_mode_begin (bridge_run pstr es) = (bridge_run pstr es, False) \<and>
     reliable_resend_tick now (bridge_run pstr es) = (bridge_run pstr es, []) \<and>
     direct_control_tick (bridge_run pstr es) = (bridge_run pstr es, [])"
proof -
  have a: "fst (bridge_step pstr (live (asked_session pstr) None False)
       (Message 3 '''' (ready_status 2 ''REMOTE_DIRECT'' ''ACCEPTED'' 1))) = live remote_session None False"
    using accepted_status [of None pstr] by simp
  have r: "bridge_run pstr [Attach, Message 0 ''S'' hello_line, Message 1 '''' (ready_status 1 ''WAYPOINT_AUTO'' ''NONE'' 0),
        ModeBegin, SendMode 2, Message 3 '''' (ready_status 2 ''REMOTE_DIRECT'' ''ACCEPTED'' 1), ModeEnd (Some 1)] =
      live remote_session (Some 1) False"
    unfolding bridge_run_def foldl.simps hello_greets status_idles bridge_step.simps(4,5,6)
    by (simp only: mode_begins mode_asks fst_conv a mode_waits) simp
  show ?thesis
    by (intro exI conjI, rule refl)
      (simp_all add: r live_def cmd_mode_begin_def latest_state_mode_def reliable_resend_tick_def
        direct_control_tick_def Let_def)
qed

end
