(* ===== verification/Bridge_Server.thy ===== *)
theory Bridge_Server
  imports Bridge_Runs
begin

text \<open>
  \<open>remote-direct-bridge/server.py\<close>: the receive loop of the bridge, its line framing with the limits
  on line and buffer, and the hand-over of the single connection.
\<close>

section \<open>UTF-8\<close>

text \<open>\<open>raw.decode("utf-8")\<close> succeeds: the well-formed sequences of the Unicode standard.\<close>

definition cont :: "char \<Rightarrow> bool" where "cont c = (128 \<le> code c \<and> code c \<le> 191)"

fun utf8_ok :: "string \<Rightarrow> bool" where
  "utf8_ok [] = True"
| "utf8_ok (a # s) =
     (if code a < 128 then utf8_ok s
      else case s of
        [] \<Rightarrow> False
      | b # s1 \<Rightarrow>
          if 194 \<le> code a \<and> code a \<le> 223 then cont b \<and> utf8_ok s1
          else case s1 of
            [] \<Rightarrow> False
          | c # s2 \<Rightarrow>
              if 224 \<le> code a \<and> code a \<le> 239 then
                cont b \<and> cont c \<and> (code a = 224 \<longrightarrow> 160 \<le> code b) \<and> (code a = 237 \<longrightarrow> code b \<le> 159) \<and> utf8_ok s2
              else case s2 of
                [] \<Rightarrow> False
              | d # s3 \<Rightarrow>
                  240 \<le> code a \<and> code a \<le> 244 \<and> cont b \<and> cont c \<and> cont d \<and>
                  (code a = 240 \<longrightarrow> 144 \<le> code b) \<and> (code a = 244 \<longrightarrow> code b \<le> 143) \<and> utf8_ok s3)"

section \<open>Lines\<close>

text \<open>
  \<open>_drain_lines\<close>, with what it hands to the controller in order; \<open>parse_line\<close>'s errors are logged and
  the line is dropped.
\<close>

definition accept_line :: "(string \<Rightarrow> json option) \<Rightarrow> string \<Rightarrow> pydict option" where
  "accept_line loads raw =
     (if raw = [] \<or> length raw > RX_MAX_LINE_BYTES then None
      else if \<not> utf8_ok raw then None
      else case parse_line loads raw of Inl e \<Rightarrow> None | Inr message \<Rightarrow> Some message)"

function drain_lines :: "(string \<Rightarrow> json option) \<Rightarrow> string \<Rightarrow> pydict list \<times> string" where
  "drain_lines loads buffer = (case split_line buffer of
       None \<Rightarrow> ([], if length buffer > RX_MAX_LINE_BYTES then [] else buffer)
     | Some (raw, rest) \<Rightarrow>
         let (messages, buffer') = drain_lines loads rest
         in ((case accept_line loads raw of None \<Rightarrow> messages | Some m \<Rightarrow> m # messages), buffer'))"
  by pat_completeness auto
termination
  by (relation "measure (\<lambda>(l, b). length b)") (auto dest: split_line_Some)

declare drain_lines.simps [simp del]

text \<open>One pass of the loop: a chunk of \<open>reader.read(512)\<close>.\<close>

definition rx_read :: "(string \<Rightarrow> json option) \<Rightarrow> string \<Rightarrow> string \<Rightarrow> pydict list \<times> string" where
  "rx_read loads buffer chunk =
     (let buffer = buffer @ chunk
      in if length buffer > STREAM_BUFFER_LIMIT then ([], []) else drain_lines loads buffer)"

fun rx_reads :: "(string \<Rightarrow> json option) \<Rightarrow> string \<Rightarrow> string list \<Rightarrow> pydict list \<times> string" where
  "rx_reads loads buffer [] = ([], buffer)"
| "rx_reads loads buffer (chunk # chunks) =
     (let (m1, b1) = rx_read loads buffer chunk; (m2, b2) = rx_reads loads b1 chunks in (m1 @ m2, b2))"

section \<open>The controller behind the lines\<close>

text \<open>The messages are handled in order; an exception leaves the loop (the last component).\<close>

fun handle_all ::
  "(json \<Rightarrow> string) \<Rightarrow> real \<Rightarrow> string \<Rightarrow> pydict list \<Rightarrow> bridge \<Rightarrow> bridge \<times> ctl_out list \<times> bool" where
  "handle_all pstr now token [] c = (c, [], True)"
| "handle_all pstr now token (m # ms) c =
     (let (c1, out1, ok) = on_message pstr now token m c
      in if \<not> ok then (c1, out1, False)
         else let (c2, out2, ok2) = handle_all pstr now token ms c1 in (c2, out1 @ out2, ok2))"

record bridge_server =
  sv_controller :: bridge
  sv_active_writer :: "nat option"

text \<open>\<open>_handle_client\<close> up to the loop: a new connection \<open>w\<close> supersedes the open one.\<close>

definition client_connected :: "nat \<Rightarrow> bool \<Rightarrow> bridge_server \<Rightarrow> bridge_server \<times> ctl_out list" where
  "client_connected w old_closing sv =
     (let (c, out1) = (if sv_active_writer sv \<noteq> None \<and> \<not> old_closing then detach (sv_controller sv)
            else (sv_controller sv, []));
          (c', out2) = attach c
      in (\<lparr>sv_controller = c', sv_active_writer = Some w\<rparr>, out1 @ out2))"

text \<open>The \<open>finally\<close> of connection \<open>w\<close>: only the connection that is still the active one detaches.\<close>

definition client_gone :: "nat \<Rightarrow> bridge_server \<Rightarrow> bridge_server \<times> ctl_out list" where
  "client_gone w sv =
     (if sv_active_writer sv = Some w then
        (let (c, out) = detach (sv_controller sv) in (\<lparr>sv_controller = c, sv_active_writer = None\<rparr>, out))
      else (sv, []))"

section \<open>What the framing guarantees\<close>

lemma drain_none: "newline \<notin> set b \<Longrightarrow> drain_lines loads b = ([], if length b > RX_MAX_LINE_BYTES then [] else b)"
  by (subst drain_lines.simps) (simp add: split_line_None [symmetric])

lemma drain_take_lines:
  "drain_lines loads b =
     (List.map_filter (accept_line loads) (fst (take_lines b)),
      if length (snd (take_lines b)) > RX_MAX_LINE_BYTES then [] else snd (take_lines b))"
proof (induction loads b rule: drain_lines.induct)
  case (1 loads b)
  show ?case
  proof (cases "split_line b")
    case None
    then show ?thesis
      by (simp add: drain_none take_lines_none split_line_None List.map_filter_def)
  next
    case (Some p)
    obtain raw rest where p: "p = (raw, rest)" by fastforce
    have s: "split_line b = Some (raw, rest)" using Some p by simp
    have t: "take_lines b = (raw # fst (take_lines rest), snd (take_lines rest))"
      by (subst take_lines.simps) (simp add: s split_def Let_def)
    show ?thesis
      by (subst drain_lines.simps)
        (simp add: s t 1 [OF s refl] split_def Let_def List.map_filter_def split: option.split)
  qed
qed

lemma rx_read_buffer:
  assumes "length buffer \<le> 512" "length chunk \<le> 512"
  shows "rx_read loads buffer chunk = drain_lines loads (buffer @ chunk) \<and>
    length (snd (rx_read loads buffer chunk)) \<le> 512 \<and> newline \<notin> set (snd (rx_read loads buffer chunk))"
  using assms take_lines_rest [of "buffer @ chunk"]
  by (simp add: rx_read_def STREAM_BUFFER_LIMIT_def drain_take_lines RX_MAX_LINE_BYTES_def Let_def)

lemma split_line_before:
  "newline \<notin> set r \<Longrightarrow> split_line s = Some (line, rest) \<Longrightarrow> split_line (r @ s) = Some (r @ line, rest)"
  by (induction r) auto

lemma tail_within:
  assumes r: "newline \<notin> set r" and lines: "list_all (\<lambda>l. length l \<le> 512) (fst (take_lines (r @ s)))"
    and tail: "length (snd (take_lines (r @ s))) \<le> 512"
  shows "length r \<le> 512"
proof (cases "split_line s")
  case None
  then have "take_lines (r @ s) = ([], r @ s)" using r by (simp add: take_lines_none split_line_None)
  then show ?thesis using tail by simp
next
  case (Some p)
  obtain line rest where s: "split_line s = Some (line, rest)" using Some by (cases p) simp
  have "take_lines (r @ s) = ((r @ line) # fst (take_lines rest), snd (take_lines rest))"
    by (subst take_lines.simps) (simp add: split_line_before [OF r s] split_def Let_def)
  then show ?thesis using lines by simp
qed

lemma rx_reads_buffer:
  "length b \<le> 512 \<Longrightarrow> list_all (\<lambda>c. length c \<le> 512) chunks \<Longrightarrow> length (snd (rx_reads loads b chunks)) \<le> 512"
proof (induction chunks arbitrary: b)
  case Nil
  then show ?case by simp
next
  case (Cons c chunks)
  then show ?case
    using Cons.IH [of "snd (rx_read loads b c)"] rx_read_buffer [of b c loads, THEN conjunct2]
    by (simp add: split_def Let_def)
qed

lemma rx_reads_lines:
  assumes "length b \<le> 512" "newline \<notin> set b" "list_all (\<lambda>c. length c \<le> 512) chunks"
    and "list_all (\<lambda>l. length l \<le> 512) (fst (take_lines (b @ concat chunks)))"
    and "length (snd (take_lines (b @ concat chunks))) \<le> 512"
  shows "rx_reads loads b chunks =
    (List.map_filter (accept_line loads) (fst (take_lines (b @ concat chunks))), snd (take_lines (b @ concat chunks)))"
  using assms
proof (induction chunks arbitrary: b)
  case Nil
  then show ?case by (simp add: take_lines_none List.map_filter_def)
next
  case (Cons c chunks)
  obtain l1 r1 where 1: "take_lines (b @ c) = (l1, r1)" by fastforce
  obtain l2 r2 where 2: "take_lines (r1 @ concat chunks) = (l2, r2)" by fastforce
  have 3: "take_lines (b @ concat (c # chunks)) = (l1 @ l2, r2)"
    using take_lines_append [of "b @ c" "concat chunks"] 1 2 by simp
  have r1: "newline \<notin> set r1" using take_lines_rest [of "b @ c"] 1 by simp
  have "length r1 \<le> 512" using tail_within [OF r1, of "concat chunks"] Cons.prems(4,5) 2 3 by simp
  moreover from this have "rx_read loads b c = (List.map_filter (accept_line loads) l1, r1)"
    using rx_read_buffer [of b c loads] Cons.prems(1,3) 1 by (simp add: drain_take_lines RX_MAX_LINE_BYTES_def)
  ultimately show ?case
    using Cons.IH [of r1] r1 Cons.prems(3,4,5) 2 3 by (simp add: List.map_filter_def)
qed

text \<open>The receive loop delivers every acceptable line exactly once and in order, and its memory is
  bounded. Between reads at most 512 bytes are kept, so the 4096-byte overflow branch is never
  taken; and when every line of the stream, its unfinished tail included, is at most 512 bytes long,
  what the controller gets does not depend on how the transport cut the stream into reads.\<close>

theorem bridge_framing:
  assumes "list_all (\<lambda>c. length c \<le> 512) chunks"
  shows "length (snd (rx_reads loads [] chunks)) \<le> 512 \<and>
    (list_all (\<lambda>l. length l \<le> 512) (fst (take_lines (concat chunks))) \<and>
       length (snd (take_lines (concat chunks))) \<le> 512 \<longrightarrow>
     rx_reads loads [] chunks =
       (List.map_filter (accept_line loads) (fst (take_lines (concat chunks))), snd (take_lines (concat chunks))))"
  using rx_reads_buffer [of "[]" chunks loads] rx_reads_lines [of "[]" chunks loads] assms by simp

lemma bridge_framing_witness:
  "rx_reads (\<lambda>_. None) [] [''ab'', ''c'' @ [newline, CHR ''d'']] = ([], ''d'')"
proof -
  have n: "newline \<noteq> CHR ''a''" "newline \<noteq> CHR ''b''" "newline \<noteq> CHR ''c''" "newline \<noteq> CHR ''d''"
    by (simp_all add: newline_char)
  have t: "take_lines (concat [''ab'', ''c'' @ [newline, CHR ''d'']]) = ([''abc''], ''d'')"
    using take_lines_cons [of "''abc''" "''d''"] take_lines_none [of "''d''"] n by simp
  show ?thesis
    using bridge_framing [of "[''ab'', ''c'' @ [newline, CHR ''d'']]" "\<lambda>_. None"] t
    by (simp add: List.map_filter_def accept_line_def parse_line_def Let_def)
qed

text \<open>An old connection that ends after a new one took over does not disturb it.\<close>

lemma superseded_connection_harmless:
  assumes "client_connected w2 False sv = (sv', out)" "w1 \<noteq> w2"
  shows "client_gone w1 sv' = (sv', []) \<and> sv_active_writer sv' = Some w2 \<and> ct_sender (sv_controller sv') \<and>
    (sv_active_writer sv \<noteq> None \<longrightarrow> ct_session (sv_controller sv') = None \<and> \<not> ct_direct_streaming (sv_controller sv'))"
  using assms by (auto simp: client_connected_def client_gone_def attach_def detach_def Let_def split: if_splits)

end
