(* ===== verification/Operator_Keys.thy ===== *)
theory Operator_Keys
  imports Bridge_Runs
begin

text \<open>
  \<open>remote-direct-bridge/wasd_logic.py\<close> (the held keys, the steering ramp, the expected actuator
  values) and \<open>cli.py\<close> (the typed commands, the keys, the keyboard deadman). A set of keys is a list.
\<close>

section \<open>Held keys\<close>

definition lower_char :: "char \<Rightarrow> char" where
  "lower_char c = (if 65 \<le> code c \<and> code c \<le> 90 then chr (code c + 32) else c)"

definition lower :: "string \<Rightarrow> string" where "lower s = map lower_char s"

definition held_keys :: "string list \<Rightarrow> string list" where "held_keys pressed = map lower pressed"

definition compute_throttle :: "string list \<Rightarrow> real" where
  "compute_throttle pressed =
     (let keys = held_keys pressed; forward = (''w'' \<in> set keys); reverse = (''s'' \<in> set keys)
      in if forward = reverse then 0 else if forward then 1 else - 1)"

definition steering_direction :: "string list \<Rightarrow> int" where
  "steering_direction pressed =
     (let keys = held_keys pressed; left = (''a'' \<in> set keys); right = (''d'' \<in> set keys)
      in if left = right then 0 else if left then - 1 else 1)"

definition strong_keys :: "string list \<Rightarrow> bool" where
  "strong_keys keys = list_ex (\<lambda>k. k \<in> set keys) [''shift_l'', ''shift_r'', ''shift'']"

definition STEERING_RAMP_STEP :: real where "STEERING_RAMP_STEP = 10 / 100"
definition STEERING_RAMP_FAST_STEP :: real where "STEERING_RAMP_FAST_STEP = 20 / 100"

definition advance_steering :: "real \<Rightarrow> string list \<Rightarrow> real" where
  "advance_steering current pressed =
     (let keys = held_keys pressed; direction = steering_direction keys
      in if direction = 0 then 0
         else
           let step = (if strong_keys keys then STEERING_RAMP_FAST_STEP else STEERING_RAMP_STEP);
               value = max (- 1) (min 1 current);
               value = (if value * of_int direction < 0 then 0 else value);
               value = value + of_int direction * step
           in round_dec 3 (max (- 1) (min 1 value)))"

record drive_intent =
  di_throttle :: real
  di_steering :: real
  di_label :: string

definition compute_drive_intent :: "string list \<Rightarrow> real option \<Rightarrow> drive_intent" where
  "compute_drive_intent pressed steering =
     (let keys = held_keys pressed;
          throttle = compute_throttle keys;
          steering = (case steering of
              Some s \<Rightarrow> s
            | None \<Rightarrow> of_int (steering_direction keys) * (if strong_keys keys then 1 else 1 / 2));
          steering = max (- 1) (min 1 steering);
          direction_label = (if throttle = 0 then ''STOP'' else if 0 < throttle then ''FORWARD'' else ''REVERSE'');
          turn_label = (if \<bar>steering\<bar> < 1 / 10 ^ 9 then ''CENTER''
            else (if steering < 0 then ''LEFT '' else ''RIGHT '') @ dec_int (py_round (\<bar>steering\<bar> * 100)) @ ''%'')
      in \<lparr>di_throttle = throttle, di_steering = steering, di_label = direction_label @ '' / '' @ turn_label\<rparr>)"

section \<open>Expected actuator values\<close>

definition PWM_FORWARD_MIN :: real where "PWM_FORWARD_MIN = 16"
definition PWM_FORWARD_DEFAULT :: real where "PWM_FORWARD_DEFAULT = 25"
definition PWM_TURN_MIN :: real where "PWM_TURN_MIN = 34"
definition PWM_TURN_DEFAULT :: real where "PWM_TURN_DEFAULT = 43"
definition PWM_STRONG_TURN_MIN :: real where "PWM_STRONG_TURN_MIN = 40"
definition PWM_STRONG_TURN_DEFAULT :: real where "PWM_STRONG_TURN_DEFAULT = 54"

definition servo_angle :: "real \<Rightarrow> real" where
  "servo_angle steering =
     (if steering \<le> - 1 / 2 then 46 + (66 - 46) * ((steering + 1) / (1 / 2))
      else if steering < 0 then 66 + (86 - 66) * ((steering + 1 / 2) / (1 / 2))
      else if steering \<le> 1 / 2 then 86 + (106 - 86) * (steering / (1 / 2))
      else 106 + (126 - 106) * ((steering - 1 / 2) / (1 / 2)))"

definition pwm_duty :: "real \<Rightarrow> real \<Rightarrow> int" where
  "pwm_duty throttle steering =
     (let magnitude = \<bar>throttle\<bar>
      in if magnitude \<le> 2 / 100 then 0
         else
           let abs_steer = \<bar>steering\<bar>;
               t = (if abs_steer \<le> 1 / 2 then abs_steer / (1 / 2) else (abs_steer - 1 / 2) / (1 / 2));
               min_duty = (if abs_steer \<le> 1 / 2 then PWM_FORWARD_MIN + (PWM_TURN_MIN - PWM_FORWARD_MIN) * t
                 else PWM_TURN_MIN + (PWM_STRONG_TURN_MIN - PWM_TURN_MIN) * t);
               default_duty = (if abs_steer \<le> 1 / 2 then PWM_FORWARD_DEFAULT + (PWM_TURN_DEFAULT - PWM_FORWARD_DEFAULT) * t
                 else PWM_TURN_DEFAULT + (PWM_STRONG_TURN_DEFAULT - PWM_TURN_DEFAULT) * t)
           in py_round (min_duty + (default_duty - min_duty) * magnitude))"

definition expected_actuator :: "real \<Rightarrow> real \<Rightarrow> int \<times> real \<times> string" where
  "expected_actuator throttle steering =
     (let throttle = max (- 1) (min 1 throttle); steering = max (- 1) (min 1 steering);
          duty = pwm_duty throttle steering
      in (max 0 (min 255 duty), round_dec 1 (servo_angle steering), if throttle < 0 then ''REVERSE'' else ''FORWARD''))"

section \<open>The console\<close>

datatype console_action =
    Shutdown | Print_help | Print_status | Print_invalid string | Print_unknown
  | Call bridge_event | Start_mode | Start_stop | Start_reset

text \<open>\<open>str.split()\<close>: the maximal runs of non-space characters.\<close>

fun words_acc :: "string \<Rightarrow> string \<Rightarrow> string list" where
  "words_acc acc [] = (if acc = [] then [] else [acc])"
| "words_acc acc (c # s) =
     (if py_space c then (if acc = [] then words_acc [] s else acc # words_acc [] s)
      else words_acc (acc @ [c]) s)"

definition py_split :: "string \<Rightarrow> string list" where "py_split s = words_acc [] s"

text \<open>
  \<open>to_float\<close> is \<open>float(text)\<close>, \<open>None\<close> for a \<open>ValueError\<close>. The result is what is done and whether the
  console goes on.
\<close>

definition with_number :: "(string \<Rightarrow> pyfloat option) \<Rightarrow> string \<Rightarrow> (pyfloat \<Rightarrow> bridge_event) \<Rightarrow> console_action list" where
  "with_number to_float arg f = (case to_float arg of None \<Rightarrow> [Print_invalid arg] | Some v \<Rightarrow> [Call (f v)])"

definition dispatch_line :: "(string \<Rightarrow> pyfloat option) \<Rightarrow> string \<Rightarrow> console_action list \<times> bool" where
  "dispatch_line to_float line = (case py_split (strip line) of
       [] \<Rightarrow> ([], True)
     | part # parts \<Rightarrow>
         let cmd = lower part; arg = (case parts of [] \<Rightarrow> None | a # as \<Rightarrow> Some a)
         in if cmd \<in> {''quit'', ''exit''} then ([Shutdown], False)
            else if cmd = ''help'' then ([Print_help], True)
            else if cmd = ''status'' then ([Print_status], True)
            else if cmd = ''stream'' \<and> arg = Some ''pause'' then ([Call Pause], True)
            else if cmd = ''stream'' \<and> arg = Some ''resume'' then ([Call Resume], True)
            else if cmd = ''mode'' \<and> arg = Some ''remote'' then ([Start_mode], True)
            else if cmd = ''stop'' then ([Start_stop], True)
            else if cmd = ''reset'' then ([Start_reset], True)
            else if cmd = ''straight'' then ([Call (Drive (Fin 1) (Fin 0))], True)
            else if cmd \<in> {''left'', ''right''} \<and> arg \<in> {Some ''weak'', Some ''strong''} then
              ([Call (Drive (Fin 1) (Fin
                 (if cmd = ''left'' \<and> arg = Some ''weak'' then - 1 / 2
                  else if cmd = ''left'' then - 1
                  else if arg = Some ''weak'' then 1 / 2 else 1)))], True)
            else if cmd = ''center'' then ([Call Center], True)
            else if cmd = ''neutral'' then ([Call Neutral], True)
            else if cmd \<in> {''forward'', ''throttle''} \<and> arg \<noteq> None then (with_number to_float (the arg) Throttle, True)
            else if cmd = ''steer'' \<and> arg \<noteq> None then (with_number to_float (the arg) Steering, True)
            else ([Print_unknown], True))"

definition dispatch_key :: "char \<Rightarrow> console_action list \<times> bool" where
  "dispatch_key ch =
     (let key = lower_char ch
      in if key = CHR ''q'' then ([Shutdown], False)
         else if key = CHR ''w'' then ([Call (NudgeThrottle THROTTLE_STEP)], True)
         else if key = CHR ''s'' then ([Call Neutral], True)
         else if key = CHR ''a'' then ([Call (NudgeSteering (- STEERING_STEP))], True)
         else if key = CHR ''d'' then ([Call (NudgeSteering STEERING_STEP)], True)
         else if key = CHR ''c'' then ([Call Center], True)
         else if key = CHR '' '' \<or> key = CHR ''x'' then ([Start_stop], True)
         else if key = CHR ''r'' then ([Start_reset], True)
         else if key = CHR ''m'' then ([Start_mode], True)
         else ([], True))"

text \<open>The keyboard loop: a pressed key, or an idle poll, at a time of \<open>time.monotonic()\<close>.\<close>

definition KEYBOARD_DEADMAN_S :: real where "KEYBOARD_DEADMAN_S = 75 / 100"

record deadman =
  dm_last_drive_key_at :: real
  dm_neutral_sent :: bool

definition deadman_init :: deadman where
  "deadman_init = \<lparr>dm_last_drive_key_at = 0, dm_neutral_sent = True\<rparr>"

definition drive_keys :: "char list" where
  "drive_keys = [CHR ''w'', CHR ''s'', CHR ''a'', CHR ''d'', CHR ''c'']"

definition key_pressed :: "real \<Rightarrow> char \<Rightarrow> deadman \<Rightarrow> deadman \<times> console_action list \<times> bool" where
  "key_pressed now ch d =
     (let d' = (if lower_char ch \<in> set drive_keys
                then \<lparr>dm_last_drive_key_at = now, dm_neutral_sent = False\<rparr> else d);
          (acts, go) = dispatch_key ch
      in (d', acts, go))"

definition idle_poll :: "real \<Rightarrow> deadman \<Rightarrow> deadman \<times> console_action list" where
  "idle_poll now d =
     (if \<not> dm_neutral_sent d \<and> 0 < dm_last_drive_key_at d \<and> KEYBOARD_DEADMAN_S \<le> now - dm_last_drive_key_at d
      then (d\<lparr>dm_neutral_sent := True\<rparr>, [Call Neutral]) else (d, []))"

section \<open>What the keys guarantee\<close>

lemma held_keys_idem [simp]: "held_keys (held_keys p) = held_keys p"
proof -
  have "lower_char (lower_char c) = lower_char c" for c
    by (auto simp: lower_char_def)
  then have "lower (lower s) = lower s" for s by (simp add: lower_def)
  then show ?thesis by (simp add: held_keys_def)
qed

lemma steering_direction_held [simp]: "steering_direction (held_keys p) = steering_direction p"
  by (simp add: steering_direction_def)

lemma steering_direction_cases: "steering_direction p \<in> {- 1, 0, 1}"
  by (simp add: steering_direction_def Let_def)

definition ramp_step :: "string list \<Rightarrow> real" where
  "ramp_step p = (if strong_keys (held_keys p) then 2 / 10 else 1 / 10)"

lemma advance_steering_eq:
  "steering_direction p \<noteq> 0 \<Longrightarrow> advance_steering v p =
     round_dec 3 (max (- 1) (min 1
       ((if max (- 1) (min 1 v) * of_int (steering_direction p) < 0 then 0 else max (- 1) (min 1 v))
        + of_int (steering_direction p) * ramp_step p)))"
  by (simp add: advance_steering_def Let_def ramp_step_def STEERING_RAMP_STEP_def STEERING_RAMP_FAST_STEP_def)

lemma ramp_grid:
  assumes "d \<in> {- 1, 1::int}" "step \<in> {1 / 10, 2 / 10::real}"
  shows "round_dec 3 (of_int d * min 1 (real n * step)) = of_int d * min 1 (real n * step)"
proof (cases "real n * step \<le> 1")
  case True
  have "real n * step * 10 ^ 3 = of_int (int n * (if step = 1 / 10 then 100 else 200))"
    using assms(2) by auto
  then have "round_dec 3 (of_int d * (real n * step)) = of_int d * (real n * step)"
    by (intro round_dec_grid [where k = "d * (int n * (if step = 1 / 10 then 100 else 200))"]) simp
  then show ?thesis using True by (simp add: min_def)
next
  case False
  then show ?thesis using assms(1) by (auto simp: min_def)
qed

text \<open>The steering ramp. Holding a direction for \<open>n\<close> ticks from the centre gives exactly \<open>n\<close> steps of 0.1
  (0.2 with Shift) in that direction, saturating at full lock; releasing the keys, or holding both,
  centres at once; and from any value at all the next one is within \<open>[-1, 1]\<close> and on the held side, so
  a reversal never keeps steering the old way.\<close>

theorem steering_ramp:
  "((\<lambda>v. advance_steering v p) ^^ n) 0 =
      of_int (steering_direction p) * min 1 (real n * ramp_step p) \<and>
   (steering_direction p = 0 \<longrightarrow> advance_steering v p = 0) \<and>
   \<bar>advance_steering v p\<bar> \<le> 1 \<and> 0 \<le> advance_steering v p * of_int (steering_direction p)"
proof -
  let ?d = "steering_direction p"
  have zero: "?d = 0 \<Longrightarrow> advance_steering v p = 0" for v
    by (simp add: advance_steering_def Let_def)
  have step: "ramp_step p \<in> {1 / 10, 2 / 10}" by (simp add: ramp_step_def)
  have run: "((\<lambda>v. advance_steering v p) ^^ n) 0 = of_int ?d * min 1 (real n * ramp_step p)"
  proof (induction n)
    case 0
    then show ?case by simp
  next
    case (Suc n)
    show ?case
    proof (cases "?d = 0")
      case True
      then show ?thesis by (simp add: zero)
    next
      case False
      then have d: "?d \<in> {- 1, 1}" using steering_direction_cases [of p] by simp
      let ?v = "of_int ?d * min 1 (real n * ramp_step p) :: real"
      have s: "0 < ramp_step p" "ramp_step p \<le> 1" using step by auto
      define k where "k = real n * ramp_step p"
      have k: "0 \<le> k" using s by (simp add: k_def)
      have k1: "real (Suc n) * ramp_step p = k + ramp_step p" by (simp add: k_def algebra_simps)
      have v: "0 \<le> ?v * of_int ?d" "\<bar>?v\<bar> \<le> 1" using d k by (auto simp: min_def k_def [symmetric])
      have "max (- 1) (min 1 (?v + of_int ?d * ramp_step p)) = of_int ?d * min 1 (real (Suc n) * ramp_step p)"
        using d s k unfolding k1 k_def [symmetric] by (auto simp: min_def max_def)
      moreover have "max (- 1) (min 1 ?v) = ?v" using v by (auto simp: min_def max_def)
      ultimately have "advance_steering ?v p = round_dec 3 (of_int ?d * min 1 (real (Suc n) * ramp_step p))"
        using v False by (simp add: advance_steering_eq)
      then show ?thesis using Suc.IH ramp_grid [OF d step, of "Suc n"] by simp
    qed
  qed
  have "\<bar>advance_steering v p\<bar> \<le> 1 \<and> 0 \<le> advance_steering v p * of_int ?d"
  proof (cases "?d = 0")
    case True
    then show ?thesis by (simp add: zero)
  next
    case False
    then have d: "?d = - 1 \<or> ?d = 1" using steering_direction_cases [of p] by auto
    define w where "w = (if max (- 1) (min 1 v) * of_int ?d < 0 then 0 else max (- 1) (min 1 v))"
    define x where "x = max (- 1) (min 1 (w + of_int ?d * ramp_step p))"
    have a: "advance_steering v p = round_dec 3 x" using False by (simp add: advance_steering_eq x_def w_def)
    have w: "0 \<le> w * of_int ?d" by (simp add: w_def)
    have "0 \<le> x * of_int ?d"
    proof -
      have "0 < ramp_step p" using step by auto
      then show ?thesis using d w by (auto simp: x_def min_def max_def)
    qed
    moreover have "- 1 \<le> x" "x \<le> 1" by (simp_all add: x_def)
    ultimately show ?thesis
      using d round_dec_unit [of x 3] round_dec_nonneg [of x 3] round_dec_nonpos [of x 3]
      by (auto simp: a abs_le_iff)
  qed
  then show ?thesis using run zero by blast
qed

lemma lower_A: "held_keys [''A''] = [''a'']"
  by (simp add: held_keys_def lower_def lower_char_def code_def chr_def char_of_def bit_0)

lemma steering_ramp_witness: "((\<lambda>v. advance_steering v [''A'']) ^^ 3) 0 = - (3 / 10)"
proof -
  have "steering_direction [''A''] = - 1" "ramp_step [''A''] = 1 / 10"
    by (simp_all add: steering_direction_def ramp_step_def lower_A strong_keys_def)
  then show ?thesis using steering_ramp [where p = "[''A'']" and n = 3 and v = 0] by simp
qed

lemma duty_band:
  assumes "\<bar>t\<bar> \<le> 1" "- 1 \<le> s" "s \<le> 1"
  shows "(\<bar>t\<bar> \<le> 2 / 100 \<and> pwm_duty t s = 0) \<or> (\<not> \<bar>t\<bar> \<le> 2 / 100 \<and> 16 \<le> pwm_duty t s \<and> pwm_duty t s \<le> 54)"
proof (cases "\<bar>t\<bar> \<le> 2 / 100")
  case True
  then show ?thesis by (simp add: pwm_duty_def)
next
  case False
  define a where "a = \<bar>s\<bar>"
  define lo where "lo = (if a \<le> 1 / 2 then 16 + 18 * (a / (1 / 2)) else 34 + 6 * ((a - 1 / 2) / (1 / 2)))"
  define hi where "hi = (if a \<le> 1 / 2 then 25 + 18 * (a / (1 / 2)) else 43 + 11 * ((a - 1 / 2) / (1 / 2)))"
  have a: "0 \<le> a" "a \<le> 1" using assms(2,3) by (auto simp: a_def)
  have b: "16 \<le> lo" "lo \<le> hi" "hi \<le> 54" using a by (auto simp: lo_def hi_def)
  have p: "pwm_duty t s = py_round (lo + (hi - lo) * \<bar>t\<bar>)"
    using False by (simp add: pwm_duty_def Let_def a_def lo_def hi_def PWM_FORWARD_MIN_def PWM_TURN_MIN_def
        PWM_FORWARD_DEFAULT_def PWM_TURN_DEFAULT_def PWM_STRONG_TURN_MIN_def PWM_STRONG_TURN_DEFAULT_def)
  have "0 \<le> (hi - lo) * \<bar>t\<bar>" "(hi - lo) * \<bar>t\<bar> \<le> hi - lo"
    using b assms(1) by (simp_all add: mult_left_le)
  then have "16 \<le> lo + (hi - lo) * \<bar>t\<bar>" "lo + (hi - lo) * \<bar>t\<bar> \<le> 54" using b by linarith+
  then show ?thesis using False
    using py_round_mono [of 16 "lo + (hi - lo) * \<bar>t\<bar>"] py_round_mono [of "lo + (hi - lo) * \<bar>t\<bar>" 54] by (simp add: p)
qed

text \<open>The actuator table. The four-piece servo table is the one straight line through 86 degrees
  with 40 degrees per unit, so the angle stays within 46 and 126 degrees; the motor duty is zero exactly
  within the throttle dead zone, otherwise between 16 and 54, the same for left and right.\<close>

theorem actuator_envelope:
  "\<exists>duty angle dir. expected_actuator thr str = (duty, angle, dir) \<and>
     angle = round_dec 1 (86 + 40 * max (- 1) (min 1 str)) \<and> 46 \<le> angle \<and> angle \<le> 126 \<and>
     (duty = 0 \<longleftrightarrow> \<bar>max (- 1) (min 1 thr)\<bar> \<le> 2 / 100) \<and> (duty = 0 \<or> 16 \<le> duty \<and> duty \<le> 54) \<and>
     fst (expected_actuator thr (- str)) = duty"
proof -
  define t where "t = max (- 1) (min 1 thr)"
  define s where "s = max (- 1) (min 1 str)"
  have s: "- 1 \<le> s" "s \<le> 1" and t: "\<bar>t\<bar> \<le> 1" by (auto simp: s_def t_def)
  have line: "servo_angle s = 86 + 40 * s" by (simp add: servo_angle_def)
  have angle: "46 \<le> round_dec 1 (86 + 40 * s)" "round_dec 1 (86 + 40 * s) \<le> 126"
    using round_dec_bounds [of 46 "86 + 40 * s" 126 1] s by simp_all
  have sym: "pwm_duty t (- s) = pwm_duty t s" by (simp add: pwm_duty_def Let_def)
  have m: "max (- 1) (min 1 (- str)) = - s" by (auto simp: s_def max_def min_def)
  have range: "pwm_duty t s = 0 \<or> 16 \<le> pwm_duty t s \<and> pwm_duty t s \<le> 54"
    and zero: "pwm_duty t s = 0 \<longleftrightarrow> \<bar>t\<bar> \<le> 2 / 100"
    using duty_band [OF t s] by auto
  have e: "expected_actuator thr str = (pwm_duty t s, round_dec 1 (86 + 40 * s), if t < 0 then ''REVERSE'' else ''FORWARD'')"
    using range line by (auto simp: expected_actuator_def Let_def t_def s_def)
  have "fst (expected_actuator thr (- str)) = pwm_duty t s"
    using range by (auto simp: expected_actuator_def Let_def m sym t_def [symmetric])
  then show ?thesis using e angle range zero by (simp add: t_def [symmetric] s_def [symmetric])
qed

text \<open>The keyboard deadman sends neutral once the last drive key is 0.75 s old, and only once.\<close>

lemma deadman_neutral:
  assumes "key_pressed t0 ch d = (d1, acts, go)" "lower_char ch \<in> set drive_keys" "0 < t0"
  shows "(t < t0 + KEYBOARD_DEADMAN_S \<longrightarrow> idle_poll t d1 = (d1, [])) \<and>
    (t0 + KEYBOARD_DEADMAN_S \<le> t \<longrightarrow> snd (idle_poll t d1) = [Call Neutral] \<and>
       (\<forall>t'. snd (idle_poll t' (fst (idle_poll t d1))) = []))"
  using assms by (auto simp: key_pressed_def idle_poll_def split_def Let_def)

end
