(* ===== verification/Auto_Host.thy ===== *)
theory Auto_Host
  imports Host_Controller Waypoints Comm_Server
begin

text \<open>
  One car's AUTO_HOST chain: \<open>integration/remote_direct_session.py\<close> (the \<open>SET_MODE\<close> handshake and the server
  callbacks), \<open>integration/backend_adapter.py\<close>, \<open>control_scheduler.py\<close>, \<open>control/auto_host_runner.py\<close> and the
  manual/automatic switch of \<open>control/hybrid_control.py\<close>. The objects share one \<open>HostController\<close>, so one record
  holds them. A blocking wait and the threads' loops are split at the points where another thread can run:
  \<open>arm_begin\<close> sends, \<open>arm_finish\<close> is what happens when the wait returns or times out; one iteration of a loop is
  one call. What an exception left done stays done.
\<close>

section \<open>State\<close>

record remote_session =
  ss_set_mode_seq :: "int option"
  ss_accepted :: bool
  ss_rejected_reason :: "string option"

datatype mux_mode = MX_AUTO_HOST | MX_AUTO_PENDING | MX_MANUAL_WASD

record mux =
  mx_mode :: mux_mode
  mx_manual :: manual_input
  mx_manual_running :: bool

record shell =
  sh_car_id :: int
  sh_host :: host_controller
  sh_session :: remote_session
  sh_sched_running :: bool
  sh_sched_manual :: "manual_input option"
  sh_mux :: "mux option"

datatype shell_exn = HandshakeError | AuthorityExn authority_error | SendError

type_synonym shell_world = "shell \<times> vehicle_server"
type_synonym shell_outcome = "shell_world \<times> server_out list \<times> shell_exn option"

definition waypoint_from_backend :: "waypoint \<Rightarrow> host_waypoint" where
  "waypoint_from_backend w =
     \<lparr>wp_x_mm = wp_x w, wp_y_mm = wp_y w, target_heading_deg = wp_target_heading_deg w,
      speed_cm_s = wp_speed_cm_s w, position_tolerance_cm = wp_position_tolerance_cm w,
      heading_tolerance_deg = wp_heading_tolerance_deg w, heading_required = wp_heading_required w,
      is_final = wp_is_final w, wp_route_id = Some (waypoint.wp_route_id w),
      wp_waypoint_id = Some (waypoint.wp_waypoint_id w), wp_phase = Some (phase_name (waypoint.wp_phase w))\<rparr>"

definition session_new :: remote_session where
  "session_new = \<lparr>ss_set_mode_seq = None, ss_accepted = False, ss_rejected_reason = None\<rparr>"

definition runner_new :: "int \<Rightarrow> waypoint list \<Rightarrow> shell" where
  "runner_new c wps =
     \<lparr>sh_car_id = c, sh_host = host_new ControllerConfig (map waypoint_from_backend wps),
      sh_session = session_new, sh_sched_running = False, sh_sched_manual = None, sh_mux = None\<rparr>"

definition neutral :: manual_input where
  "neutral = \<lparr>mi_throttle = 0, mi_steering = 0\<rparr>"

definition mux_new :: mux where
  "mux_new = \<lparr>mx_mode = MX_AUTO_HOST, mx_manual = neutral, mx_manual_running = False\<rparr>"

section \<open>Pushing to the server (\<open>backend_adapter.py\<close>)\<close>

definition set_host :: "host_controller \<Rightarrow> shell \<Rightarrow> shell" where
  "set_host h sh = sh\<lparr>sh_host := h\<rparr>"

text \<open>\<open>send_command\<close> and \<open>send_zero\<close>: the tick's command goes to \<open>push_control\<close>; a tick that sends zero has
  a command of zeros (\<open>tick_zero_command\<close>).\<close>

definition push_tick :: "int \<Rightarrow> tick_result \<Rightarrow> vehicle_server \<Rightarrow> vehicle_server" where
  "push_tick c r srv = push_control c (Fin (cc_throttle (tr_command r))) (Fin (cc_steering (tr_command r))) srv"

definition host_tick :: "real \<Rightarrow> manual_input option \<Rightarrow> shell_world \<Rightarrow> shell_world" where
  "host_tick now manual w = (case tick (sh_host (fst w)) now None manual of
       None \<Rightarrow> w
     | Some (r, h) \<Rightarrow> (set_host h (fst w), push_tick (sh_car_id (fst w)) r (snd w)))"

definition stop_car :: "shell_world \<Rightarrow> shell_world" where
  "stop_car w = (fst w, stop_control (sh_car_id (fst w)) (snd w))"

definition fault_shell :: "string \<Rightarrow> shell \<Rightarrow> shell" where
  "fault_shell reason sh = set_host (host_fault (sh_host sh) reason) sh"

definition set_session :: "remote_session \<Rightarrow> shell \<Rightarrow> shell" where
  "set_session s sh = sh\<lparr>sh_session := s\<rparr>"

section \<open>The handshake (\<open>remote_direct_session.py\<close>)\<close>

definition begin_handshake :: "real \<Rightarrow> shell_world \<Rightarrow> shell_outcome" where
  "begin_handshake now w =
     (let sh = set_session session_new (fst w)
      in case send_set_mode now (sh_car_id sh) ''REMOTE_DIRECT'' (snd w) of
           Inl e \<Rightarrow> ((sh, snd w), [], Some SendError)
         | Inr (srv, out, n) \<Rightarrow> ((set_session (session_new\<lparr>ss_set_mode_seq := Some n\<rparr>) sh, srv), out, None))"

definition arm_begin :: "real \<Rightarrow> shell_world \<Rightarrow> shell_outcome" where
  "arm_begin now w = begin_handshake now w"

text \<open>\<open>re_arm_auto\<close> clears a fault first.\<close>

definition re_arm_begin :: "real \<Rightarrow> shell_world \<Rightarrow> shell_outcome" where
  "re_arm_begin now w =
     (let h = sh_host (fst w)
      in begin_handshake now
           (set_host (snd (on_authority h (clear_fault (hc_authority h)))) (fst w), snd w))"

text \<open>The rest of \<open>arm_auto\<close> and \<open>re_arm_auto\<close>, once the wait returns or times out.\<close>

definition arm_finish :: "shell_world \<Rightarrow> shell_outcome" where
  "arm_finish w =
     (let sh = fst w
      in if \<not> ss_accepted (sh_session sh)
         then ((fault_shell ''SET_MODE_TIMEOUT'' sh, snd w), [], Some HandshakeError)
         else (case ss_rejected_reason (sh_session sh) of
                 Some reason \<Rightarrow> ((fault_shell (''SET_MODE_'' @ reason) sh, snd w), [], Some HandshakeError)
               | None \<Rightarrow>
                   let (res, h) = host_arm_auto (sh_host sh)
                   in ((set_host h sh, (snd w)\<lparr>srv_direct_control_enabled := True\<rparr>), [],
                       case res of Inl e \<Rightarrow> Some (AuthorityExn e) | Inr _ \<Rightarrow> None)))"

definition on_command_result :: "int \<Rightarrow> int \<Rightarrow> string \<Rightarrow> shell \<Rightarrow> shell" where
  "on_command_result c seq result sh =
     (if c \<noteq> sh_car_id sh \<or> ss_set_mode_seq (sh_session sh) \<noteq> Some seq then sh
      else if result = ''ACCEPTED'' then set_session ((sh_session sh)\<lparr>ss_accepted := True\<rparr>) sh
      else fault_shell (''SET_MODE_'' @ result)
             (set_session ((sh_session sh)\<lparr>ss_rejected_reason := Some result, ss_accepted := True\<rparr>) sh))"

definition sh_on_command_rejected :: "int \<Rightarrow> string \<Rightarrow> shell \<Rightarrow> shell" where
  "sh_on_command_rejected c result sh =
     (if c \<noteq> sh_car_id sh then sh
      else fault_shell (''SET_MODE_'' @ result)
             (set_session ((sh_session sh)\<lparr>ss_rejected_reason := Some result, ss_accepted := True\<rparr>) sh))"

definition sh_on_comm_fail :: "int \<Rightarrow> shell_world \<Rightarrow> shell_world" where
  "sh_on_comm_fail c w =
     (if c \<noteq> sh_car_id (fst w) then w else stop_car (fault_shell ''COMM_TIMEOUT'' (fst w), snd w))"

definition sh_on_resync :: "int \<Rightarrow> shell_world \<Rightarrow> shell_world" where
  "sh_on_resync c w =
     (if c \<noteq> sh_car_id (fst w) then w
      else
        let (sh, srv) = stop_car (fault_shell ''RESYNC'' (fst w), snd w)
        in (set_session ((sh_session sh)\<lparr>ss_accepted := False, ss_set_mode_seq := None\<rparr>) sh, srv))"

section \<open>The runner (\<open>auto_host_runner.py\<close>, \<open>control_scheduler.py\<close>)\<close>

definition sched_step :: "real \<Rightarrow> shell_world \<Rightarrow> shell_world" where
  "sched_step now w =
     (if sh_sched_running (fst w) then host_tick now (sh_sched_manual (fst w)) w else w)"

definition sched_stop :: "shell \<Rightarrow> shell" where
  "sched_stop sh = sh\<lparr>sh_sched_running := False\<rparr>"

definition sched_start :: "shell \<Rightarrow> shell" where
  "sched_start sh = sh\<lparr>sh_sched_running := True\<rparr>"

definition load_waypoints :: "waypoint list \<Rightarrow> shell \<Rightarrow> shell" where
  "load_waypoints wps sh =
     set_host ((sh_host sh)\<lparr>hc_mission := host_mission_new (map waypoint_from_backend wps), hc_auto := pd_reset\<rparr>) sh"

definition observe_camera :: "real \<Rightarrow> real \<Rightarrow> real option \<Rightarrow> real \<Rightarrow> shell \<Rightarrow> shell" where
  "observe_camera x y heading obs_time sh =
     set_host ((sh_host sh)\<lparr>hc_pose_source := observe (hc_pose_source (sh_host sh)) x y heading obs_time True\<rparr>) sh"

definition runner_stop :: "shell_world \<Rightarrow> shell_world" where
  "runner_stop w = stop_car (sched_stop (set_host (host_stop (sh_host (fst w))) (fst w)), snd w)"

section \<open>The manual/automatic switch (\<open>hybrid_control.py\<close>)\<close>

definition set_mux :: "mux \<Rightarrow> shell \<Rightarrow> shell" where
  "set_mux m sh = sh\<lparr>sh_mux := Some m\<rparr>"

definition manual_step :: "real \<Rightarrow> shell_world \<Rightarrow> shell_world" where
  "manual_step now w = (case sh_mux (fst w) of
       None \<Rightarrow> w
     | Some m \<Rightarrow> if mx_manual_running m then host_tick now (Some (mx_manual m)) w else w)"

definition mux_camera_pose :: "real \<Rightarrow> real \<Rightarrow> real option \<Rightarrow> real \<Rightarrow> shell \<Rightarrow> shell" where
  "mux_camera_pose x y heading obs_time sh =
     (let sh1 = observe_camera x y heading obs_time sh
      in case sh_mux sh1 of
           None \<Rightarrow> sh1
         | Some m \<Rightarrow>
             if mx_mode m = MX_AUTO_PENDING
             then set_mux (m\<lparr>mx_mode := MX_AUTO_HOST\<rparr>) (sh1\<lparr>sh_sched_running := True, sh_sched_manual := None\<rparr>)
             else sh1)"

definition manual_config :: "controller_config \<Rightarrow> controller_config" where
  "manual_config cfg = cfg\<lparr>max_throttle := 1, allow_reverse := True\<rparr>"

definition switch_to_manual :: "shell_world \<Rightarrow> shell_world \<times> shell_exn option" where
  "switch_to_manual w = (case sh_mux (fst w) of
       None \<Rightarrow> (w, None)
     | Some m \<Rightarrow>
         if mx_mode m = MX_MANUAL_WASD then (w, None)
         else
           let (sh, srv) = stop_car w;
               sh = sched_stop sh;
               (res, h) = host_disarm (sh_host sh)
           in case res of
                Inl e \<Rightarrow> ((sh, srv), Some (AuthorityExn e))
              | Inr _ \<Rightarrow>
                  let h = h\<lparr>hc_manual_config := manual_config (hc_config h)\<rparr>;
                      (res2, h2) = host_arm_manual h
                  in case res2 of
                       Inl e \<Rightarrow> ((set_host h2 sh, srv), Some (AuthorityExn e))
                     | Inr _ \<Rightarrow>
                         ((set_mux \<lparr>mx_mode = MX_MANUAL_WASD, mx_manual = neutral, mx_manual_running = True\<rparr>
                             (set_host h2 sh), srv), None))"

definition unit_clip :: "real \<Rightarrow> real" where
  "unit_clip x = max (- 1) (min 1 x)"

definition set_manual_wire :: "real \<Rightarrow> real \<Rightarrow> shell \<Rightarrow> shell" where
  "set_manual_wire throttle wire_steering sh = (case sh_mux sh of
       None \<Rightarrow> sh
     | Some m \<Rightarrow>
         if mx_mode m \<noteq> MX_MANUAL_WASD then sh
         else set_mux (m\<lparr>mx_manual := \<lparr>mi_throttle = unit_clip throttle, mi_steering = - unit_clip wire_steering\<rparr>\<rparr>) sh)"

definition switch_to_auto :: "real \<Rightarrow> shell_world \<Rightarrow> shell_world \<times> shell_exn option" where
  "switch_to_auto now w = (case sh_mux (fst w) of
       None \<Rightarrow> (w, None)
     | Some m \<Rightarrow>
         if mx_mode m \<noteq> MX_MANUAL_WASD then (w, None)
         else
           let w1 = host_tick now (Some neutral) (set_mux (m\<lparr>mx_manual := neutral\<rparr>) (fst w), snd w);
               (sh, srv) = stop_car (set_mux (m\<lparr>mx_manual := neutral, mx_manual_running := False\<rparr>) (fst w1), snd w1);
               (res, h) = host_disarm (sh_host sh)
           in case res of
                Inl e \<Rightarrow> ((sh, srv), Some (AuthorityExn e))
              | Inr _ \<Rightarrow>
                  let (res2, h2) = host_arm_auto h
                  in case res2 of
                       Inl e \<Rightarrow> ((set_host h2 sh, srv), Some (AuthorityExn e))
                     | Inr _ \<Rightarrow>
                         ((set_mux (m\<lparr>mx_mode := MX_AUTO_PENDING, mx_manual := neutral, mx_manual_running := False\<rparr>)
                             (set_host h2 sh), srv), None))"

definition mux_stop :: "real \<Rightarrow> shell_world \<Rightarrow> shell_world" where
  "mux_stop now w = (case sh_mux (fst w) of
       None \<Rightarrow> w
     | Some m \<Rightarrow>
         let w1 = (if mx_mode m = MX_MANUAL_WASD
                   then host_tick now (Some neutral) (set_mux (m\<lparr>mx_manual := neutral\<rparr>) (fst w), snd w)
                   else w);
             m1 = (case sh_mux (fst w1) of Some m1 \<Rightarrow> m1 | None \<Rightarrow> m)
         in stop_car (sched_stop (set_mux (m1\<lparr>mx_manual_running := False\<rparr>) (fst w1)), snd w1))"

section \<open>What the pipeline does with a runner\<close>

text \<open>\<open>_start_manual_shell\<close> after its handshake was sent, and the start of a runner for a route
  (\<open>_activate_auto_host_mission\<close> without a shell). A failure stops what was built.\<close>

definition abandon :: "real \<Rightarrow> shell_world \<Rightarrow> shell_world" where
  "abandon now w = runner_stop (mux_stop now w)"

definition shell_ready :: "real \<Rightarrow> shell_world \<Rightarrow> shell_world \<times> bool" where
  "shell_ready now w = (case arm_finish w of
       (w1, _, Some e) \<Rightarrow> (abandon now w1, False)
     | (w1, _, None) \<Rightarrow>
         (case switch_to_manual (set_mux mux_new (fst w1), snd w1) of
            (w2, Some e) \<Rightarrow> (abandon now w2, False)
          | (w2, None) \<Rightarrow> (w2, True)))"

definition runner_started :: "real \<Rightarrow> shell_world \<Rightarrow> shell_world \<times> bool" where
  "runner_started now w = (case arm_finish w of
       (w1, _, Some e) \<Rightarrow> (runner_stop w1, False)
     | (w1, _, None) \<Rightarrow> ((set_mux mux_new (sched_start (fst w1)), snd w1), True))"

section \<open>Runs of one shell\<close>

datatype shell_event =
    ArmBegin real | ReArmBegin real | ShellReady real | RunnerStarted real | ArmFinish
  | ResultCb int int string | RejectedCb int string | CommFailCb int | ResyncCb int
  | SchedTick real | ManualTick real | CameraPose real real "real option" real
  | LoadRoute "waypoint list" | ToManual | ToAuto real | Wire real real | MuxStop real | RunnerStop
  | ServerMoves vehicle_server

fun shell_step :: "shell_world \<Rightarrow> shell_event \<Rightarrow> shell_world" where
  "shell_step w (ArmBegin now) = fst (arm_begin now w)"
| "shell_step w (ReArmBegin now) = fst (re_arm_begin now w)"
| "shell_step w (ShellReady now) = (if sh_mux (fst w) = None then fst (shell_ready now w) else w)"
| "shell_step w (RunnerStarted now) = (if sh_mux (fst w) = None then fst (runner_started now w) else w)"
| "shell_step w ArmFinish = fst (arm_finish w)"
| "shell_step w (ResultCb c n r) = (on_command_result c n r (fst w), snd w)"
| "shell_step w (RejectedCb c r) = (sh_on_command_rejected c r (fst w), snd w)"
| "shell_step w (CommFailCb c) = sh_on_comm_fail c w"
| "shell_step w (ResyncCb c) = sh_on_resync c w"
| "shell_step w (SchedTick now) = sched_step now w"
| "shell_step w (ManualTick now) = manual_step now w"
| "shell_step w (CameraPose x y h t) = (mux_camera_pose x y h t (fst w), snd w)"
| "shell_step w (LoadRoute wps) = (load_waypoints wps (fst w), snd w)"
| "shell_step w ToManual = fst (switch_to_manual w)"
| "shell_step w (ToAuto now) = fst (switch_to_auto now w)"
| "shell_step w (Wire thr st) = (set_manual_wire thr st (fst w), snd w)"
| "shell_step w (MuxStop now) = mux_stop now w"
| "shell_step w RunnerStop = runner_stop w"
| "shell_step w (ServerMoves srv) = (fst w, srv)"

definition shell_run :: "int \<Rightarrow> waypoint list \<Rightarrow> vehicle_server \<Rightarrow> shell_event list \<Rightarrow> shell_world" where
  "shell_run c wps srv es = foldl shell_step (runner_new c wps, srv) es"

abbreviation authority_of :: "shell_world \<Rightarrow> authority" where
  "authority_of w \<equiv> auth_state (hc_authority (sh_host (fst w)))"

section \<open>Basic facts\<close>

lemma set_simps [simp]:
  "sh_host (set_host h sh) = h" "sh_session (set_host h sh) = sh_session sh" "sh_mux (set_host h sh) = sh_mux sh"
  "sh_car_id (set_host h sh) = sh_car_id sh" "sh_sched_running (set_host h sh) = sh_sched_running sh"
  "sh_sched_manual (set_host h sh) = sh_sched_manual sh"
  "sh_host (set_session s sh) = sh_host sh" "sh_session (set_session s sh) = s" "sh_mux (set_session s sh) = sh_mux sh"
  "sh_car_id (set_session s sh) = sh_car_id sh" "sh_sched_running (set_session s sh) = sh_sched_running sh"
  "sh_host (set_mux m sh) = sh_host sh" "sh_session (set_mux m sh) = sh_session sh" "sh_mux (set_mux m sh) = Some m"
  "sh_car_id (set_mux m sh) = sh_car_id sh" "sh_sched_running (set_mux m sh) = sh_sched_running sh"
  "sh_host (sched_stop sh) = sh_host sh" "sh_session (sched_stop sh) = sh_session sh" "sh_mux (sched_stop sh) = sh_mux sh"
  "sh_car_id (sched_stop sh) = sh_car_id sh" "\<not> sh_sched_running (sched_stop sh)"
  "sh_host (sched_start sh) = sh_host sh" "sh_session (sched_start sh) = sh_session sh" "sh_mux (sched_start sh) = sh_mux sh"
  "sh_car_id (sched_start sh) = sh_car_id sh" "sh_sched_running (sched_start sh)"
  by (simp_all add: set_host_def set_session_def set_mux_def sched_stop_def sched_start_def)

lemma fault_shell_simps [simp]:
  "auth_state (hc_authority (sh_host (fault_shell r sh))) = FAULTED"
  "sh_session (fault_shell r sh) = sh_session sh" "sh_mux (fault_shell r sh) = sh_mux sh"
  "sh_car_id (fault_shell r sh) = sh_car_id sh" "sh_sched_running (fault_shell r sh) = sh_sched_running sh"
  by (auto simp: fault_shell_def host_fault_def fault_def)

lemma fst_stop_car [simp]: "fst (stop_car w) = fst w"
  by (simp add: stop_car_def)

lemma fst_host_tick:
  "\<exists>h. fst (host_tick now man w) = set_host h (fst w) \<and>
     (\<exists>r. tick (sh_host (fst w)) now None man = Some (r, h) \<and>
        snd (host_tick now man w) = push_tick (sh_car_id (fst w)) r (snd w))"
proof -
  obtain r h where "tick (sh_host (fst w)) now None man = Some (r, h)" using tick_total by blast
  then show ?thesis by (simp add: host_tick_def)
qed

lemma host_tick_simps [simp]:
  "sh_session (fst (host_tick now man w)) = sh_session (fst w)"
  "sh_mux (fst (host_tick now man w)) = sh_mux (fst w)"
  "sh_car_id (fst (host_tick now man w)) = sh_car_id (fst w)"
  "sh_sched_running (fst (host_tick now man w)) = sh_sched_running (fst w)"
  using fst_host_tick [of now man w] by (metis set_simps(2-5))+

text \<open>A tick that sends zero carries a command of zeros.\<close>

lemma tick_zero_command:
  assumes "tick h now obs man = Some (r, h')" "host_still h"
  shows "cc_throttle (tr_command r) = 0 \<and> cc_steering (tr_command r) = 0 \<and> hc_authority h' = hc_authority h"
  using assms(1)
proof (cases rule: tick_exhaust)
  case idle
  then obtain reason where e: "(r, h') = finish_tick (with_observation h obs) (zero_command reason) True" by blast
  then have "tr_command r = zero_command reason" "hc_authority h' = hc_authority h"
    using finish_tick_simps [of "with_observation h obs" "zero_command reason" True] by (metis fst_conv snd_conv with_observation_simps(1))+
  then show ?thesis by simp
qed (use assms(2) in \<open>simp_all add: host_still_def is_driving_allowed_def\<close>)

section \<open>Driving needs an accepted \<open>SET_MODE\<close>\<close>

text \<open>The session's answer, as far as arming looks at it.\<close>

definition granted :: "shell_world \<Rightarrow> bool" where
  "granted w \<longleftrightarrow> ss_accepted (sh_session (fst w)) \<and> ss_rejected_reason (sh_session (fst w)) = None"

definition armed :: "shell_world \<Rightarrow> bool" where
  "armed w \<longleftrightarrow> is_driving_allowed (hc_authority (sh_host (fst w)))"

definition owns_mux :: "shell_world \<Rightarrow> bool" where
  "owns_mux w \<longleftrightarrow> sh_mux (fst w) \<noteq> None"

lemmas grant_defs = granted_def armed_def owns_mux_def

lemma tick_keeps_disarmed:
  assumes "tick h now obs man = Some (r, h')"
  shows "is_driving_allowed (hc_authority h') \<Longrightarrow> is_driving_allowed (hc_authority h)"
  using tick_still [OF assms] by (auto simp: host_still_def)

lemma host_tick_grants:
  "granted (host_tick now man w) = granted w" "owns_mux (host_tick now man w) = owns_mux w"
  "armed (host_tick now man w) \<Longrightarrow> armed w"
proof -
  show "granted (host_tick now man w) = granted w" "owns_mux (host_tick now man w) = owns_mux w"
    by (simp_all add: grant_defs)
  show "armed (host_tick now man w) \<Longrightarrow> armed w"
    using fst_host_tick [of now man w] tick_keeps_disarmed by (metis armed_def set_simps(1))
qed

lemma fault_not_armed: "auth_state a = FAULTED \<Longrightarrow> \<not> is_driving_allowed a"
  by (simp add: is_driving_allowed_def)

lemma begin_handshake_grants:
  "\<not> granted (fst (begin_handshake now w)) \<and> owns_mux (fst (begin_handshake now w)) = owns_mux w \<and>
   sh_host (fst (fst (begin_handshake now w))) = sh_host (fst w)"
  by (auto simp: begin_handshake_def grant_defs session_new_def Let_def split: sum.split)

lemma arm_finish_grants:
  "granted (fst (arm_finish w)) = granted w" "owns_mux (fst (arm_finish w)) = owns_mux w"
  "\<not> granted w \<Longrightarrow> \<not> armed (fst (arm_finish w)) \<and> snd (snd (arm_finish w)) \<noteq> None"
  by (auto simp: arm_finish_def grant_defs Let_def split_def fault_not_armed split: option.split sum.split)

lemma runner_stop_grants:
  "granted (runner_stop w) = granted w" "owns_mux (runner_stop w) = owns_mux w" "\<not> armed (runner_stop w)"
  by (auto simp: runner_stop_def grant_defs host_stop_def authority_defs)

lemma mux_stop_grants:
  "granted (mux_stop now w) = granted w" "owns_mux (mux_stop now w) = owns_mux w"
  "armed (mux_stop now w) \<Longrightarrow> armed w"
proof -
  show "granted (mux_stop now w) = granted w" "owns_mux (mux_stop now w) = owns_mux w"
    by (auto simp: mux_stop_def grant_defs Let_def split: option.split)
  assume a: "armed (mux_stop now w)"
  show "armed w"
  proof (cases "sh_mux (fst w)")
    case None
    then show ?thesis using a by (simp add: mux_stop_def)
  next
    case (Some m)
    then have "armed w \<or> armed (host_tick now (Some neutral) (set_mux (m\<lparr>mx_manual := neutral\<rparr>) (fst w), snd w))"
      using a by (auto simp: mux_stop_def armed_def Let_def split: if_splits)
    then show ?thesis using host_tick_grants(3) by (fastforce simp: armed_def)
  qed
qed

lemma abandon_grants:
  "granted (abandon now w) = granted w" "owns_mux (abandon now w) = owns_mux w" "\<not> armed (abandon now w)"
  by (simp_all add: abandon_def runner_stop_grants mux_stop_grants)

lemma switch_to_manual_grants:
  "granted (fst (switch_to_manual w)) = granted w" "owns_mux (fst (switch_to_manual w)) = owns_mux w"
  by (auto simp: switch_to_manual_def grant_defs Let_def split_def split: option.split sum.split)

lemma switch_to_auto_grants:
  "granted (fst (switch_to_auto now w)) = granted w" "owns_mux (fst (switch_to_auto now w)) = owns_mux w"
  by (auto simp: switch_to_auto_def grant_defs Let_def split_def split: option.split sum.split)

lemma switches_without_mux: "\<not> owns_mux w \<Longrightarrow> switch_to_manual w = (w, None) \<and> switch_to_auto now w = (w, None)"
  by (auto simp: switch_to_manual_def switch_to_auto_def grant_defs)

lemma shell_ready_grants:
  "granted (fst (shell_ready now w)) = granted w"
  "\<not> granted w \<Longrightarrow> \<not> armed (fst (shell_ready now w)) \<and> owns_mux (fst (shell_ready now w)) = owns_mux w"
proof -
  obtain w1 o1 e1 where a: "arm_finish w = (w1, o1, e1)" by (metis prod.collapse)
  have g: "granted w1 = granted w" "owns_mux w1 = owns_mux w" "\<not> granted w \<Longrightarrow> e1 \<noteq> None"
    using arm_finish_grants [of w] a by simp_all
  obtain w2 e2 where s: "switch_to_manual (set_mux mux_new (fst w1), snd w1) = (w2, e2)" by fastforce
  have g2: "granted w2 = granted w1"
    using switch_to_manual_grants(1) [of "(set_mux mux_new (fst w1), snd w1)"] s by (simp add: granted_def)
  show "granted (fst (shell_ready now w)) = granted w"
    using g g2 by (auto simp: shell_ready_def a s abandon_grants split: option.split)
  show "\<not> granted w \<Longrightarrow> \<not> armed (fst (shell_ready now w)) \<and> owns_mux (fst (shell_ready now w)) = owns_mux w"
    using g by (auto simp: shell_ready_def a abandon_grants)
qed

lemma runner_started_grants:
  "granted (fst (runner_started now w)) = granted w"
  "\<not> granted w \<Longrightarrow> \<not> armed (fst (runner_started now w)) \<and> owns_mux (fst (runner_started now w)) = owns_mux w"
proof -
  obtain w1 o1 e1 where a: "arm_finish w = (w1, o1, e1)" by (metis prod.collapse)
  have g: "granted w1 = granted w" "owns_mux w1 = owns_mux w" "\<not> granted w \<Longrightarrow> e1 \<noteq> None"
    using arm_finish_grants [of w] a by simp_all
  show "granted (fst (runner_started now w)) = granted w"
    using g by (cases e1) (simp_all add: runner_started_def a runner_stop_grants(1), simp add: granted_def)
  show "\<not> granted w \<Longrightarrow> \<not> armed (fst (runner_started now w)) \<and> owns_mux (fst (runner_started now w)) = owns_mux w"
    using g by (auto simp: runner_started_def a runner_stop_grants)
qed

lemma op_car [simp]:
  "sh_car_id (fst (fst (begin_handshake now w))) = sh_car_id (fst w)"
  "sh_car_id (fst (fst (re_arm_begin now w))) = sh_car_id (fst w)"
  "sh_car_id (fst (fst (arm_finish w))) = sh_car_id (fst w)"
  "sh_car_id (on_command_result c n r sh) = sh_car_id sh"
  "sh_car_id (sh_on_command_rejected c r sh) = sh_car_id sh"
  "sh_car_id (fst (sh_on_comm_fail c w)) = sh_car_id (fst w)"
  "sh_car_id (fst (runner_stop w)) = sh_car_id (fst w)"
  "sh_car_id (fst (sched_step now w)) = sh_car_id (fst w)"
  "sh_car_id (fst (manual_step now w)) = sh_car_id (fst w)"
  "sh_car_id (load_waypoints wps sh) = sh_car_id sh"
  "sh_car_id (observe_camera x y h t sh) = sh_car_id sh"
  "sh_car_id (set_manual_wire thr st sh) = sh_car_id sh"
  by (simp_all add: begin_handshake_def re_arm_begin_def arm_finish_def on_command_result_def sh_on_command_rejected_def
      sh_on_comm_fail_def runner_stop_def sched_step_def manual_step_def load_waypoints_def observe_camera_def
      set_manual_wire_def Let_def split_def split: sum.split option.split)

lemma mux_car [simp]:
  "sh_car_id (mux_camera_pose x y h t sh) = sh_car_id sh"
  "sh_car_id (fst (fst (switch_to_manual w))) = sh_car_id (fst w)"
  "sh_car_id (fst (fst (switch_to_auto now w))) = sh_car_id (fst w)"
  "sh_car_id (fst (mux_stop now w)) = sh_car_id (fst w)"
  "sh_car_id (fst (sh_on_resync c w)) = sh_car_id (fst w)"
  by (simp_all add: mux_camera_pose_def switch_to_manual_def switch_to_auto_def mux_stop_def sh_on_resync_def
      Let_def split_def split: sum.split option.split)

lemma ready_car [simp]:
  "sh_car_id (fst (fst (shell_ready now w))) = sh_car_id (fst w)"
  "sh_car_id (fst (fst (runner_started now w))) = sh_car_id (fst w)"
  using op_car(3) [of w] mux_car(2) [of "(set_mux mux_new (fst (fst (arm_finish w))), snd (fst (arm_finish w)))"]
  by (simp_all add: shell_ready_def runner_started_def abandon_def split_def split: option.split)

lemma shell_step_car [simp]: "sh_car_id (fst (shell_step w e)) = sh_car_id (fst w)"
  by (cases e) (simp_all add: arm_begin_def)

lemma shell_run_car [simp]: "sh_car_id (fst (shell_run c wps srv es)) = c"
  unfolding shell_run_def by (induction es rule: rev_induct) (simp_all add: runner_new_def)

text \<open>One event grants, arms or builds a switch only from what was there before.\<close>

lemma grant_step:
  assumes "granted (shell_step w e)"
  shows "granted w \<or> (\<exists>n. e = ResultCb (sh_car_id (fst w)) n ''ACCEPTED'' \<and> ss_set_mode_seq (sh_session (fst w)) = Some n)"
proof (cases e)
  case (ResultCb c n r)
  then show ?thesis using assms by (auto simp: on_command_result_def granted_def split: if_splits)
next
  case (ArmBegin now)
  then show ?thesis using assms begin_handshake_grants by (simp add: arm_begin_def)
next
  case (ReArmBegin now)
  then show ?thesis using assms begin_handshake_grants by (simp add: re_arm_begin_def Let_def)
next
  case (ResyncCb c)
  then show ?thesis using assms by (auto simp: sh_on_resync_def granted_def split_def Let_def split: if_splits)
next
  case (Wire thr st)
  then show ?thesis using assms by (auto simp: set_manual_wire_def granted_def split: option.splits if_splits)
next
  case (CameraPose x y h t)
  then show ?thesis using assms
    by (auto simp: mux_camera_pose_def observe_camera_def granted_def Let_def split: option.splits if_splits)
next
  case (RejectedCb c r)
  then show ?thesis using assms by (auto simp: sh_on_command_rejected_def granted_def split: if_splits)
next
  case (CommFailCb c)
  then show ?thesis using assms by (auto simp: sh_on_comm_fail_def granted_def split: if_splits)
next
  case (LoadRoute wps)
  then show ?thesis using assms by (simp add: load_waypoints_def granted_def)
next
  case (ServerMoves srv)
  then show ?thesis using assms by (simp add: granted_def)
qed (use assms in \<open>auto simp: arm_finish_grants shell_ready_grants(1) runner_started_grants(1) runner_stop_grants
    mux_stop_grants switch_to_manual_grants switch_to_auto_grants sched_step_def manual_step_def host_tick_grants
    split: if_splits option.splits\<close>)

lemma re_arm_begin_armed:
  "armed (fst (re_arm_begin now w)) \<Longrightarrow> armed w" "owns_mux (fst (re_arm_begin now w)) = owns_mux w"
  using begin_handshake_grants [of now]
  by (auto simp: re_arm_begin_def armed_def owns_mux_def on_authority_def authority_defs Let_def split: if_splits)

lemma resync_armed: "armed (sh_on_resync c w) \<Longrightarrow> armed w" "owns_mux (sh_on_resync c w) = owns_mux w"
  by (auto simp: sh_on_resync_def armed_def owns_mux_def split_def Let_def fault_not_armed split: if_splits)

lemma camera_armed: "armed (mux_camera_pose x y h t sh, srv) = armed (sh, srv)"
  "owns_mux (mux_camera_pose x y h t sh, srv) = owns_mux (sh, srv)"
  by (auto simp: mux_camera_pose_def observe_camera_def armed_def owns_mux_def Let_def set_mux_def split: option.split)

lemma wire_armed: "armed (set_manual_wire a b sh, srv) = armed (sh, srv)"
  "owns_mux (set_manual_wire a b sh, srv) = owns_mux (sh, srv)"
  by (auto simp: set_manual_wire_def armed_def owns_mux_def split: option.split)

lemma callbacks_armed:
  "armed (on_command_result c n r sh, srv) \<Longrightarrow> armed (sh, srv)"
  "owns_mux (on_command_result c n r sh, srv) = owns_mux (sh, srv)"
  "armed (sh_on_command_rejected c r sh, srv) \<Longrightarrow> armed (sh, srv)"
  "owns_mux (sh_on_command_rejected c r sh, srv) = owns_mux (sh, srv)"
  "armed (sh_on_comm_fail c w) \<Longrightarrow> armed w" "owns_mux (sh_on_comm_fail c w) = owns_mux w"
  by (auto simp: on_command_result_def sh_on_command_rejected_def sh_on_comm_fail_def armed_def owns_mux_def
      fault_not_armed split: if_splits)

lemma arm_step:
  assumes "armed (shell_step w e) \<or> owns_mux (shell_step w e)"
  shows "armed w \<or> owns_mux w \<or> granted w"
proof (rule ccontr)
  assume "\<not> ?thesis"
  then have n: "\<not> armed w" "\<not> owns_mux w" "\<not> granted w" by auto
  have m: "sh_mux (fst w) = None" using n(2) by (simp add: owns_mux_def)
  have "\<not> armed (shell_step w e) \<and> \<not> owns_mux (shell_step w e)"
  proof (cases e)
    case (ArmBegin now)
    then show ?thesis using begin_handshake_grants [of now w] n by (simp add: arm_begin_def armed_def)
  next
    case (ReArmBegin now)
    then show ?thesis using re_arm_begin_armed [of now w] n by auto
  next
    case (ArmFinish)
    then show ?thesis using arm_finish_grants [of w] n by simp
  next
    case (ShellReady now)
    then show ?thesis using shell_ready_grants(2) [of w now] n m by simp
  next
    case (RunnerStarted now)
    then show ?thesis using runner_started_grants(2) [of w now] n m by simp
  next
    case (ToManual)
    then show ?thesis using switches_without_mux [OF n(2)] n by simp
  next
    case (ToAuto now)
    then show ?thesis using switches_without_mux [OF n(2)] n by simp
  next
    case (SchedTick now)
    then show ?thesis using host_tick_grants [of now "sh_sched_manual (fst w)" w] n by (auto simp: sched_step_def)
  next
    case (ManualTick now)
    then show ?thesis using n m by (simp add: manual_step_def)
  next
    case (MuxStop now)
    then show ?thesis using n m by (simp add: mux_stop_def)
  next
    case (LoadRoute wps)
    then show ?thesis using n by (simp add: load_waypoints_def armed_def owns_mux_def)
  next
    case (ServerMoves srv)
    then show ?thesis using n by (simp add: armed_def owns_mux_def)
  next
    case (ResyncCb c)
    then show ?thesis using resync_armed [of c w] n by auto
  next
    case (CameraPose x y h t)
    then show ?thesis using camera_armed [of x y h t "fst w" "snd w"] n by simp
  next
    case (Wire a b)
    then show ?thesis using wire_armed [of a b "fst w" "snd w"] n by simp
  next
    case (ResultCb c k r)
    then show ?thesis using callbacks_armed(1,2) [of c k r "fst w" "snd w"] n by auto
  next
    case (RejectedCb c r)
    then show ?thesis using callbacks_armed(3,4) [of c r "fst w" "snd w"] n by auto
  next
    case (CommFailCb c)
    then show ?thesis using callbacks_armed(5,6) [of c w] n by auto
  next
    case (RunnerStop)
    then show ?thesis using runner_stop_grants n by simp
  qed
  then show False using assms by blast
qed

text \<open>The history contains the acceptance of a \<open>SET_MODE\<close> this session had sent and was waiting for.\<close>

definition accepted_before :: "int \<Rightarrow> waypoint list \<Rightarrow> vehicle_server \<Rightarrow> shell_event list \<Rightarrow> bool" where
  "accepted_before c wps srv es \<longleftrightarrow>
     (\<exists>es1 n es2. es = es1 @ ResultCb c n ''ACCEPTED'' # es2 \<and>
        ss_set_mode_seq (sh_session (fst (shell_run c wps srv es1))) = Some n)"

lemma accepted_before_snoc: "accepted_before c wps srv es \<Longrightarrow> accepted_before c wps srv (es @ [e])"
  unfolding accepted_before_def by fastforce

lemma shell_run_snoc: "shell_run c wps srv (es @ [e]) = shell_step (shell_run c wps srv es) e"
  by (simp add: shell_run_def)

lemma grant_history:
  "granted (shell_run c wps srv es) \<Longrightarrow> accepted_before c wps srv es"
proof (induction es rule: rev_induct)
  case Nil
  then show ?case by (simp add: shell_run_def runner_new_def session_new_def granted_def)
next
  case (snoc e es)
  consider "granted (shell_run c wps srv es)"
    | n where "e = ResultCb c n ''ACCEPTED''" "ss_set_mode_seq (sh_session (fst (shell_run c wps srv es))) = Some n"
    using grant_step [of "shell_run c wps srv es" e] snoc.prems by (auto simp: shell_run_snoc)
  then show ?case
  proof cases
    case 1
    then show ?thesis using snoc.IH accepted_before_snoc by blast
  next
    case 2
    then show ?thesis unfolding accepted_before_def by blast
  qed
qed


text \<open>A car that is connected and idle.\<close>

definition one_car :: vehicle_server where
  "one_car = (case open_session 0 0 ''S'' ''B'' [] 1 (server_new []) of (st, r, out) \<Rightarrow> st)"

definition handshake_run :: "shell_event list" where
  "handshake_run = [ArmBegin 0, ResultCb 1 1 ''ACCEPTED'', ShellReady 0]"

lemma one_car_session:
  "send_set_mode 0 1 ''REMOTE_DIRECT'' one_car = Inr (srv, out, n) \<Longrightarrow> n = 1"
  "\<exists>srv out. send_set_mode 0 1 ''REMOTE_DIRECT'' one_car = Inr (srv, out, 1)"
  by (auto simp: one_car_def open_session_def server_new_def active_def put_def send_set_mode_def checked_send_def
      session_of_def reliable_def make_set_mode_def CONTROL_MODES_def rs_send_def set_seq_start_def reliable_new_def
      new_session_def Let_def)

definition mode_is :: "mux_mode \<Rightarrow> shell_world \<Rightarrow> bool" where
  "mode_is md w \<longleftrightarrow> (case sh_mux (fst w) of None \<Rightarrow> False | Some m \<Rightarrow> mx_mode m = md)"

lemma handshake_manual:
  "mode_is MX_MANUAL_WASD (shell_run 1 [] one_car handshake_run) \<and>
   auth_state (hc_authority (sh_host (fst (shell_run 1 [] one_car handshake_run)))) = MANUAL"
proof -
  obtain srv out where s: "send_set_mode 0 1 ''REMOTE_DIRECT'' one_car = Inr (srv, out, 1)"
    using one_car_session(2) by blast
  have a: "shell_step (runner_new 1 [], one_car) (ArmBegin 0) =
      (set_session (session_new\<lparr>ss_set_mode_seq := Some 1\<rparr>) (set_session session_new (runner_new 1 [])), srv)"
    by (simp add: arm_begin_def begin_handshake_def Let_def s runner_new_def)
  have b: "shell_step (shell_step (runner_new 1 [], one_car) (ArmBegin 0)) (ResultCb 1 1 ''ACCEPTED'') =
      (set_session \<lparr>ss_set_mode_seq = Some 1, ss_accepted = True, ss_rejected_reason = None\<rparr> (runner_new 1 []), srv)"
    unfolding a by (simp add: on_command_result_def runner_new_def session_new_def set_session_def)
  show ?thesis
    unfolding shell_run_def handshake_run_def foldl.simps b
    by (simp add: mode_is_def shell_ready_def arm_finish_def switch_to_manual_def runner_new_def host_new_def
        host_arm_auto_def host_disarm_def host_arm_manual_def on_authority_def authority_init_def authority_defs
        mux_new_def Let_def split_def)
qed

lemma handshake_armed: "armed (shell_run 1 [] one_car handshake_run)"
  using handshake_manual by (simp add: armed_def is_driving_allowed_def)


section \<open>A lost link silences the car\<close>

text \<open>The control stream of a car: what the server repeats to it.\<close>

definition stream_stopped :: "int \<Rightarrow> vehicle_server \<Rightarrow> bool" where
  "stream_stopped c srv \<longleftrightarrow> (case active srv c of
       None \<Rightarrow> True
     | Some (r, s) \<Rightarrow>
         (case vs_latest_control s of
            None \<Rightarrow> True
          | Some m \<Rightarrow> dget m ''throttle'' = JFloat (Fin 0) \<and> dget m ''steering'' = JFloat (Fin 0)))"

lemma push_zero_stops: "stream_stopped c (push_control c (Fin 0) (Fin 0) srv)"
  by (auto simp: stream_stopped_def push_control_def active_def put_def make_direct_control_def wire_clamp_def Let_def
      split: option.splits)

lemma stop_car_stops: "stream_stopped (sh_car_id (fst w)) (snd (stop_car w))"
  by (simp add: stop_car_def stop_control_def push_zero_stops)

text \<open>Faulted, with the stream at zero.\<close>

definition silenced :: "shell_world \<Rightarrow> bool" where
  "silenced w \<longleftrightarrow> auth_state (hc_authority (sh_host (fst w))) = FAULTED \<and> stream_stopped (sh_car_id (fst w)) (snd w)"

lemma host_tick_silenced: "silenced w \<Longrightarrow> silenced (host_tick now man w)"
proof -
  assume s: "silenced w"
  obtain r h where t: "tick (sh_host (fst w)) now None man = Some (r, h)"
    and fw: "fst (host_tick now man w) = set_host h (fst w)"
    and sw: "snd (host_tick now man w) = push_tick (sh_car_id (fst w)) r (snd w)"
    using fst_host_tick [of now man w] by blast
  have "host_still (sh_host (fst w))" using s by (simp add: silenced_def host_still_def is_driving_allowed_def)
  note z = tick_zero_command [OF t this]
  then show ?thesis using s unfolding silenced_def fw sw by (simp add: push_tick_def push_zero_stops)
qed

lemma fault_silenced: "silenced (sh, srv) \<Longrightarrow> silenced (fault_shell r sh, srv)"
  by (simp add: silenced_def)

lemma silenced_same:
  "silenced w \<Longrightarrow> sh_host sh' = sh_host (fst w) \<Longrightarrow> sh_car_id sh' = sh_car_id (fst w) \<Longrightarrow> silenced (sh', snd w)"
  by (simp add: silenced_def)

lemma stop_car_silenced: "silenced w \<Longrightarrow> silenced (stop_car w)"
  using stop_car_stops [of w] by (simp add: silenced_def)

lemma runner_stop_silenced: "silenced w \<Longrightarrow> silenced (runner_stop w)"
  unfolding runner_stop_def
  by (rule stop_car_silenced) (simp add: silenced_def host_stop_def authority_defs)

lemma mux_stop_silenced: "silenced w \<Longrightarrow> silenced (mux_stop now w)"
proof (cases "sh_mux (fst w)")
  case None
  then show "silenced w \<Longrightarrow> ?thesis" by (simp add: mux_stop_def)
next
  case (Some m)
  define w1 where "w1 = (if mx_mode m = MX_MANUAL_WASD
      then host_tick now (Some neutral) (set_mux (m\<lparr>mx_manual := neutral\<rparr>) (fst w), snd w) else w)"
  assume s: "silenced w"
  have "silenced (set_mux (m\<lparr>mx_manual := neutral\<rparr>) (fst w), snd w)" using s by (simp add: silenced_def)
  then have "silenced w1" unfolding w1_def using s host_tick_silenced by simp
  then have "silenced (stop_car (sched_stop (set_mux k (fst w1)), snd w1))" for k
    by (intro stop_car_silenced) (simp add: silenced_def)
  then show ?thesis using Some by (simp add: mux_stop_def w1_def [symmetric] Let_def)
qed

lemma faulted_refuses:
  assumes "auth_state (hc_authority h) = FAULTED"
  shows "host_disarm h = (Inl Use_clear_fault, h)"
    and "auth_state (hc_authority (snd (host_arm_auto h))) = FAULTED"
  using assms by (auto simp: host_disarm_def host_arm_auto_def on_authority_def authority_defs Let_def)

lemma arm_finish_silenced: "silenced w \<Longrightarrow> silenced (fst (arm_finish w))"
  by (auto simp: arm_finish_def silenced_def Let_def split_def faulted_refuses stream_stopped_def active_def
      split: option.split)

lemma switch_to_manual_silenced: "silenced w \<Longrightarrow> silenced (fst (switch_to_manual w))"
  using stop_car_silenced [of w]
  by (auto simp: switch_to_manual_def silenced_def Let_def split_def faulted_refuses split: option.split sum.split)

lemma begin_handshake_silenced: "silenced w \<Longrightarrow> sh_host (fst (fst (begin_handshake now w))) = sh_host (fst w)"
  using begin_handshake_grants by blast

lemma send_set_mode_stream:
  assumes "send_set_mode now c m srv = Inr (srv', out, n)"
  shows "stream_stopped d srv' = stream_stopped d srv"
proof -
  obtain r s rs where a: "active srv c = Some (r, s)" and srv': "srv' = put r (s\<lparr>vs_sender := rs\<rparr>) srv"
    using assms by (auto simp: send_set_mode_def checked_send_def reliable_def session_of_def split: option.splits sum.splits if_splits)
  then show ?thesis
    by (auto simp: stream_stopped_def active_def put_def split: option.splits)
qed

lemma arm_begin_silenced:
  assumes "silenced w" shows "silenced (fst (arm_begin now w))"
proof -
  have "stream_stopped (sh_car_id (fst w)) (snd (fst (begin_handshake now w)))"
    using assms send_set_mode_stream [of now "sh_car_id (fst w)" "''REMOTE_DIRECT''" "snd w"]
    by (auto simp: begin_handshake_def silenced_def Let_def split: sum.split)
  then show ?thesis
    using assms begin_handshake_silenced [OF assms] by (simp add: arm_begin_def silenced_def)
qed

lemma abandon_silenced: "silenced w \<Longrightarrow> silenced (abandon now w)"
  by (simp add: abandon_def runner_stop_silenced mux_stop_silenced)

lemma shell_ready_silenced:
  assumes "silenced w" shows "silenced (fst (shell_ready now w))"
proof -
  have 1: "silenced (fst (arm_finish w))" by (rule arm_finish_silenced [OF assms])
  have 2: "silenced (set_mux mux_new (fst (fst (arm_finish w))), snd (fst (arm_finish w)))"
    using 1 by (simp add: silenced_def)
  show ?thesis
    using abandon_silenced [OF 1, of now] switch_to_manual_silenced [OF 2]
      abandon_silenced [OF switch_to_manual_silenced [OF 2], of now]
    by (auto simp: shell_ready_def split_def split: option.split)
qed

lemma runner_started_silenced:
  assumes "silenced w" shows "silenced (fst (runner_started now w))"
  using runner_stop_silenced [OF arm_finish_silenced [OF assms]] arm_finish_silenced [OF assms]
  by (auto simp: runner_started_def split_def silenced_def split: option.split)

lemma switch_to_auto_silenced:
  assumes "silenced w" shows "silenced (fst (switch_to_auto now w))"
proof (cases "sh_mux (fst w)")
  case None
  then show ?thesis using assms by (simp add: switch_to_auto_def)
next
  case (Some m)
  define w1 where "w1 = host_tick now (Some neutral) (set_mux (m\<lparr>mx_manual := neutral\<rparr>) (fst w), snd w)"
  have "silenced (set_mux (m\<lparr>mx_manual := neutral\<rparr>) (fst w), snd w)" using assms by (simp add: silenced_def)
  then have "silenced w1" unfolding w1_def by (rule host_tick_silenced)
  then have "silenced (stop_car (set_mux k (fst w1), snd w1))" for k
    by (intro stop_car_silenced) (simp add: silenced_def)
  then have 2: "silenced (set_mux k (fst w1), snd (stop_car (set_mux k (fst w1), snd w1)))" for k
    by (metis fst_conv fst_stop_car prod.collapse)
  have "host_disarm (sh_host (fst w1)) = (Inl Use_clear_fault, sh_host (fst w1))"
    using \<open>silenced w1\<close> by (intro faulted_refuses) (simp add: silenced_def)
  then show ?thesis
    using Some assms 2 by (simp add: switch_to_auto_def w1_def [symmetric] Let_def split_def)
qed

text \<open>What may end the silence: an explicit re-arm, or the server itself moving the stream.\<close>

fun releases :: "int \<Rightarrow> shell_event \<Rightarrow> bool" where
  "releases c (ReArmBegin now) = True"
| "releases c (ServerMoves srv) = (\<not> stream_stopped c srv)"
| "releases c e = False"

lemma shell_step_silenced:
  assumes "silenced w" "sh_car_id (fst w) = c" "\<not> releases c e"
  shows "silenced (shell_step w e)"
proof (cases e)
  case (ResyncCb d)
  then show ?thesis
    using assms(1) stop_car_silenced [OF fault_silenced [of "fst w" "snd w" "''RESYNC''"]]
    by (auto simp: sh_on_resync_def silenced_def split_def Let_def)
next
  case (CommFailCb d)
  then show ?thesis
    using assms(1) stop_car_silenced [OF fault_silenced [of "fst w" "snd w" "''COMM_TIMEOUT''"]]
    by (auto simp: sh_on_comm_fail_def)
next
  case (ServerMoves srv)
  then show ?thesis using assms by (simp add: silenced_def)
next
  case (CameraPose x y h t)
  then show ?thesis using assms(1)
    by (auto simp: mux_camera_pose_def observe_camera_def silenced_def set_mux_def Let_def split: option.split)
next
  case (Wire a b)
  then show ?thesis using assms(1) by (auto simp: set_manual_wire_def silenced_def split: option.split)
next
  case (LoadRoute wps)
  then show ?thesis using assms(1) by (simp add: load_waypoints_def silenced_def)
next
  case (ResultCb d n r)
  then show ?thesis using assms(1) by (simp add: on_command_result_def silenced_def)
next
  case (RejectedCb d r)
  then show ?thesis using assms(1) by (simp add: sh_on_command_rejected_def silenced_def)
next
  case (ManualTick now)
  then show ?thesis using assms(1) by (simp add: manual_step_def host_tick_silenced split: option.split)
qed (use assms in \<open>simp_all add: arm_begin_silenced shell_ready_silenced runner_started_silenced arm_finish_silenced
    switch_to_manual_silenced switch_to_auto_silenced runner_stop_silenced mux_stop_silenced sched_step_def
    host_tick_silenced\<close>)

interpretation silence: latch shell_step "\<lambda>w. silenced w \<and> sh_car_id (fst w) = c" "releases c" for c
  by unfold_locales (use shell_step_silenced in auto)



section \<open>One producer at a time, and automatic driving only on a fresh picture\<close>

definition exclusive :: "shell_world \<Rightarrow> bool" where
  "exclusive w \<longleftrightarrow> (case sh_mux (fst w) of
       None \<Rightarrow> \<not> sh_sched_running (fst w)
     | Some m \<Rightarrow> (mx_manual_running m \<longrightarrow> mx_mode m = MX_MANUAL_WASD) \<and>
         (mx_mode m \<noteq> MX_AUTO_HOST \<longrightarrow> \<not> sh_sched_running (fst w)))"

lemma exclusive_cong:
  "sh_mux (fst w) = sh_mux (fst v) \<Longrightarrow> sh_sched_running (fst w) = sh_sched_running (fst v) \<Longrightarrow> exclusive w = exclusive v"
  by (simp add: exclusive_def split: option.split)

lemma exclusive_stopped: "exclusive w \<Longrightarrow> exclusive (sched_stop (fst w), srv)"
  by (auto simp: exclusive_def split: option.splits)

lemma arm_finish_loops [simp]:
  "sh_mux (fst (fst (arm_finish w))) = sh_mux (fst w)"
  "sh_sched_running (fst (fst (arm_finish w))) = sh_sched_running (fst w)"
  by (auto simp: arm_finish_def Let_def split_def split: option.split)

lemma begin_handshake_loops [simp]:
  "sh_mux (fst (fst (begin_handshake now w))) = sh_mux (fst w)"
  "sh_sched_running (fst (fst (begin_handshake now w))) = sh_sched_running (fst w)"
  by (auto simp: begin_handshake_def Let_def split: sum.split)

lemma switch_to_manual_exclusive: "exclusive w \<Longrightarrow> exclusive (fst (switch_to_manual w))"
  by (auto simp: switch_to_manual_def exclusive_def Let_def split_def split: option.splits sum.split)

lemma mux_stop_exclusive: "exclusive w \<Longrightarrow> exclusive (mux_stop now w)"
  by (auto simp: mux_stop_def exclusive_def Let_def split: option.splits)

lemma runner_stop_exclusive: "exclusive w \<Longrightarrow> exclusive (runner_stop w)"
  by (auto simp: runner_stop_def exclusive_def split: option.splits)

lemma switch_to_auto_exclusive: "exclusive w \<Longrightarrow> exclusive (fst (switch_to_auto now w))"
  by (auto simp: switch_to_auto_def exclusive_def Let_def split_def split: option.splits sum.split)

lemma shell_ready_exclusive:
  assumes "exclusive w" "sh_mux (fst w) = None"
  shows "exclusive (fst (shell_ready now w))"
proof -
  have 1: "exclusive (fst (arm_finish w))" using assms by (simp add: exclusive_def)
  have 2: "exclusive (set_mux mux_new (fst (fst (arm_finish w))), snd (fst (arm_finish w)))"
    using assms by (simp add: exclusive_def mux_new_def)
  show ?thesis
    using 1 switch_to_manual_exclusive [OF 2]
    by (auto simp: shell_ready_def split_def abandon_def intro!: runner_stop_exclusive mux_stop_exclusive split: option.split)
qed

lemma runner_started_exclusive:
  assumes "exclusive w" shows "exclusive (fst (runner_started now w))"
proof -
  have "exclusive (fst (arm_finish w))" using assms exclusive_cong [of "fst (arm_finish w)" w] by simp
  then show ?thesis
    by (auto simp: runner_started_def split_def intro!: runner_stop_exclusive split: option.split)
      (auto simp: exclusive_def mux_new_def)
qed

lemma shell_step_exclusive: "exclusive w \<Longrightarrow> exclusive (shell_step w e)"
proof (cases e)
  case (CameraPose x y h t)
  then show "exclusive w \<Longrightarrow> ?thesis"
    by (auto simp: mux_camera_pose_def observe_camera_def exclusive_def Let_def set_mux_def split: option.splits)
next
  case (Wire a b)
  then show "exclusive w \<Longrightarrow> ?thesis" by (auto simp: set_manual_wire_def exclusive_def split: option.splits)
next
  case (ManualTick now)
  then show "exclusive w \<Longrightarrow> ?thesis" by (auto simp: manual_step_def exclusive_def split: option.splits)
next
  case (SchedTick now)
  then show "exclusive w \<Longrightarrow> ?thesis" by (auto simp: sched_step_def exclusive_def split: option.splits)
qed (auto simp: arm_begin_def re_arm_begin_def Let_def on_command_result_def sh_on_command_rejected_def sh_on_comm_fail_def
    sh_on_resync_def load_waypoints_def split_def switch_to_manual_exclusive switch_to_auto_exclusive
    runner_stop_exclusive mux_stop_exclusive shell_ready_exclusive runner_started_exclusive
    intro: exclusive_cong [THEN iffD2])

definition loops_off :: "shell_world \<Rightarrow> bool" where
  "loops_off w \<longleftrightarrow> \<not> sh_sched_running (fst w) \<and>
     (case sh_mux (fst w) of None \<Rightarrow> True | Some m \<Rightarrow> \<not> mx_manual_running m)"

definition awaiting_camera :: "int \<Rightarrow> shell_world \<Rightarrow> bool" where
  "awaiting_camera c w \<longleftrightarrow> sh_car_id (fst w) = c \<and> mode_is MX_AUTO_PENDING w \<and> loops_off w \<and> stream_stopped c (snd w)"

fun wakes :: "int \<Rightarrow> shell_event \<Rightarrow> bool" where
  "wakes c (CameraPose x y h t) = True"
| "wakes c ToManual = True"
| "wakes c (ServerMoves srv) = (\<not> stream_stopped c srv)"
| "wakes c e = False"

lemma awaiting_cong:
  "sh_car_id sh' = sh_car_id sh \<Longrightarrow> sh_mux sh' = sh_mux sh \<Longrightarrow> sh_sched_running sh' = sh_sched_running sh \<Longrightarrow>
     stream_stopped c srv' = stream_stopped c srv \<Longrightarrow> awaiting_camera c (sh', srv') = awaiting_camera c (sh, srv)"
  by (simp add: awaiting_camera_def mode_is_def loops_off_def split: option.split)

lemma stopped_by_car: "sh_car_id (fst w) = c \<Longrightarrow> stream_stopped c (snd (stop_car w))"
  using stop_car_stops by blast

lemma stopped_pair: "sh_car_id sh = c \<Longrightarrow> stream_stopped c (snd (stop_car (sh, srv)))"
  using stopped_by_car [of "(sh, srv)" c] by simp

lemma arm_finish_stream: "stream_stopped c (snd (fst (arm_finish w))) = stream_stopped c (snd w)"
  by (auto simp: arm_finish_def stream_stopped_def active_def Let_def split_def split: option.split)

lemma awaiting_step:
  assumes "awaiting_camera c w" "\<not> wakes c e"
  shows "awaiting_camera c (shell_step w e)"
proof -
  obtain m where m: "sh_mux (fst w) = Some m" "mx_mode m = MX_AUTO_PENDING" "\<not> mx_manual_running m"
    and w: "sh_car_id (fst w) = c" "\<not> sh_sched_running (fst w)" "stream_stopped c (snd w)"
    using assms(1) by (auto simp: awaiting_camera_def mode_is_def loops_off_def split: option.splits)
  have begin_ok: "awaiting_camera c (fst (begin_handshake now v))"
    if "sh_mux (fst v) = Some m" "sh_car_id (fst v) = c" "\<not> sh_sched_running (fst v)" "stream_stopped c (snd v)" for now v
    using that m send_set_mode_stream [of now c "''REMOTE_DIRECT''" "snd v"]
    by (auto simp: begin_handshake_def awaiting_camera_def mode_is_def loops_off_def Let_def split: sum.split)
  show ?thesis
  proof (cases e)
    case (ArmBegin now)
    then show ?thesis using begin_ok m w by (simp add: arm_begin_def)
  next
    case (ReArmBegin now)
    then show ?thesis using begin_ok m w by (simp add: re_arm_begin_def Let_def)
  next
    case ArmFinish
    then show ?thesis using m w by (simp add: awaiting_camera_def mode_is_def loops_off_def arm_finish_stream)
  next
    case (MuxStop now)
    then show ?thesis using m w stopped_pair
      by (auto simp: mux_stop_def awaiting_camera_def mode_is_def loops_off_def Let_def)
  next
    case RunnerStop
    then show ?thesis using m w stopped_pair
      by (auto simp: runner_stop_def awaiting_camera_def mode_is_def loops_off_def)
  next
    case (ResyncCb d)
    then show ?thesis using m w stopped_pair assms(1)
      by (auto simp: sh_on_resync_def awaiting_camera_def mode_is_def loops_off_def Let_def split_def)
  next
    case (CommFailCb d)
    then show ?thesis using m w stopped_pair assms(1)
      by (auto simp: sh_on_comm_fail_def awaiting_camera_def mode_is_def loops_off_def)
  qed (use assms m w in \<open>auto simp: on_command_result_def sh_on_command_rejected_def sched_step_def manual_step_def
      load_waypoints_def switch_to_auto_def set_manual_wire_def awaiting_camera_def mode_is_def loops_off_def\<close>)
qed

interpretation pending_gate: latch shell_step "awaiting_camera c" "wakes c" for c
  by unfold_locales (rule awaiting_step)

interpretation loops: step_system shell_step exclusive
  by unfold_locales (rule shell_step_exclusive)

lemma shell_run_exclusive: "exclusive (shell_run c wps srv es)"
  unfolding shell_run_def by (rule loops.run_inv) (simp add: exclusive_def runner_new_def)

lemma switch_to_auto_awaits:
  assumes "switch_to_auto now w = (w', None)" "mode_is MX_MANUAL_WASD w" "exclusive w"
  shows "awaiting_camera (sh_car_id (fst w)) w'"
proof -
  obtain m where m: "sh_mux (fst w) = Some m" "mx_mode m = MX_MANUAL_WASD" "\<not> sh_sched_running (fst w)"
    using assms(2,3) by (auto simp: mode_is_def exclusive_def split: option.splits)
  define w1 where "w1 = host_tick now (Some neutral) (set_mux (m\<lparr>mx_manual := neutral\<rparr>) (fst w), snd w)"
  have w1: "sh_car_id (fst w1) = sh_car_id (fst w)" "\<not> sh_sched_running (fst w1)" using m by (simp_all add: w1_def)
  have "stream_stopped (sh_car_id (fst w))
      (snd (stop_car (set_mux (m\<lparr>mx_manual := neutral, mx_manual_running := False\<rparr>) (fst w1), snd w1)))"
    by (rule stopped_by_car) (simp add: w1)
  then show ?thesis
    using assms(1) m w1
    by (auto simp: switch_to_auto_def w1_def [symmetric] awaiting_camera_def mode_is_def loops_off_def Let_def split_def
        split: sum.splits)
qed


lemma manual_tick_authority:
  assumes "tick h now obs man = Some (r, h')" "auth_state (hc_authority h) = MANUAL"
  shows "hc_authority h' = hc_authority h"
  using assms(1)
proof (cases rule: tick_exhaust)
  case (manual cmd)
  then show ?thesis using finish_tick_simps [of "with_observation h obs" cmd "is_stopped cmd"]
    by (metis snd_conv with_observation_simps(1))
qed (use assms(2) in \<open>simp_all add: is_driving_allowed_def\<close>)

lemma manual_switches:
  assumes "auth_state (hc_authority (sh_host (fst w))) = MANUAL" "mode_is MX_MANUAL_WASD w"
  shows "snd (switch_to_auto now w) = None"
proof -
  obtain m where m: "sh_mux (fst w) = Some m" "mx_mode m = MX_MANUAL_WASD"
    using assms(2) by (auto simp: mode_is_def split: option.splits)
  define w1 where "w1 = host_tick now (Some neutral) (set_mux (m\<lparr>mx_manual := neutral\<rparr>) (fst w), snd w)"
  have "auth_state (hc_authority (sh_host (fst w1))) = MANUAL"
    using fst_host_tick [of now "Some neutral" "(set_mux (m\<lparr>mx_manual := neutral\<rparr>) (fst w), snd w)"] assms(1)
      manual_tick_authority by (fastforce simp: w1_def)
  then show ?thesis
    using m by (simp add: switch_to_auto_def w1_def [symmetric] Let_def split_def host_disarm_def host_arm_auto_def
        on_authority_def authority_defs)
qed


end
