(* ===== verification/Allocator.thy ===== *)
theory Allocator
  imports Parking_Env
begin

text \<open>
  \<open>integrated/host/rl/bridge.py\<close> and \<open>rl/inference.py\<close>: the live slot allocation between the camera and
  the trained policy. A \<open>dict\<close> keyed by the track is an association list in insertion order. The trained
  network is a parameter: \<open>None\<close> when no model file exists, otherwise its \<open>predict\<close>.
\<close>

section \<open>Rule-based policies (\<open>inference.py\<close>)\<close>

definition valid_slots :: "bool list \<Rightarrow> nat \<Rightarrow> nat list" where
  "valid_slots masks n_slots = filter (\<lambda>i. i < length masks \<and> masks ! i) [0..<n_slots]"

definition wait_or_dead :: "bool list \<Rightarrow> nat \<Rightarrow> int" where
  "wait_or_dead masks wait_action =
     (if wait_action < length masks \<and> masks ! wait_action then int wait_action else - 1)"

text \<open>\<open>min(valid, key=score)\<close> or, without a valid slot, WAIT or \<open>-1\<close>.\<close>

definition best_slot :: "(nat \<Rightarrow> real) \<Rightarrow> bool list \<Rightarrow> int" where
  "best_slot score masks = (case valid_slots masks (length SLOT_NAMES) of
       [] \<Rightarrow> wait_or_dead masks WAIT_ACTION
     | i # is \<Rightarrow> int (arg_min_list1 score i is))"

definition heuristic_policy :: "bool list \<Rightarrow> int" where
  "heuristic_policy masks = best_slot entry_distance masks"

definition bottleneck_load :: "penv \<Rightarrow> string list \<Rightarrow> nat" where
  "bottleneck_load e route =
     sum_list (map (\<lambda>n. length (e_reservations e n)) (filter (\<lambda>n. n \<in> set BOTTLENECK_NODES) route))"

definition congestion_score :: "penv \<Rightarrow> nat \<Rightarrow> real" where
  "congestion_score e i =
     entry_distance i / MAX_DISTANCE + 1 / 2 * min (real (bottleneck_load e (entry_route i)) / 10) 1"

definition heuristic_policy_v2 :: "bool list \<Rightarrow> penv \<Rightarrow> int" where
  "heuristic_policy_v2 masks e = best_slot (congestion_score e) masks"

definition heuristic_policy_v3 :: "bool list \<Rightarrow> penv \<Rightarrow> int" where
  "heuristic_policy_v3 masks e =
     (let junction_load = length (e_reservations e ''junction'');
          lane4_load = length (e_reservations e ''lane_pt_4'');
          can_wait = (WAIT_ACTION < length masks \<and> masks ! WAIT_ACTION \<and> e_consecutive_waits e < 3)
      in if can_wait \<and> 4 \<le> junction_load + lane4_load then int WAIT_ACTION else heuristic_policy_v2 masks e)"

definition route_score :: "penv \<Rightarrow> nat \<Rightarrow> real" where
  "route_score e i =
     (let route = entry_route i;
          load_total = sum_list (map (\<lambda>n. length (e_reservations e n)) route)
      in real (length route) / 7 + 3 / 10 * min (real load_total / 30) 1)"

definition heuristic_policy_v4 :: "bool list \<Rightarrow> penv \<Rightarrow> int" where
  "heuristic_policy_v4 masks e = best_slot (route_score e) masks"

type_synonym policy = "real list \<Rightarrow> bool list \<Rightarrow> int"

definition select_action :: "policy option \<Rightarrow> real list \<Rightarrow> bool list \<Rightarrow> int" where
  "select_action loaded observation masks = (case loaded of
       Some predict \<Rightarrow> predict observation masks
     | None \<Rightarrow> heuristic_policy masks)"

section \<open>The live allocator (\<open>bridge.py\<close>)\<close>

definition NODE_SNAP_RADIUS_MM :: real where "NODE_SNAP_RADIUS_MM = 200"

text \<open>The nearest node, the first one of a tie; \<open>None\<close> stands for the infinite start distance.\<close>

definition closer :: "real \<times> real \<Rightarrow> string \<times> real \<times> real \<Rightarrow> (string \<times> real) option \<Rightarrow> (string \<times> real) option" where
  "closer pos entry best = (case entry of (name, nx, ny) \<Rightarrow>
     let d = hypot (nx - fst pos) (ny - snd pos)
     in case best of
          None \<Rightarrow> Some (name, d)
        | Some (bn, bd) \<Rightarrow> if d < bd then Some (name, d) else best)"

definition position_to_node :: "real \<times> real \<Rightarrow> string option" where
  "position_to_node pos = (case fold (closer pos) NODE_COORDINATES None of
       None \<Rightarrow> None
     | Some (name, d) \<Rightarrow> if d \<le> NODE_SNAP_RADIUS_MM then Some name else None)"

record tracked_vehicle =
  tv_track_id :: int
  tv_position :: "real \<times> real"
  tv_current_node :: "string option"
  tv_assigned_slot :: "string option"
  tv_route :: "string list"

record allocator =
  al_slot_statuses :: "real list"
  al_vehicles :: "(int \<times> tracked_vehicle) list"

definition allocator_new :: allocator where
  "allocator_new = \<lparr>al_slot_statuses = replicate NUM_SLOTS 0, al_vehicles = []\<rparr>"

definition put_vehicle :: "int \<Rightarrow> tracked_vehicle \<Rightarrow> allocator \<Rightarrow> allocator" where
  "put_vehicle t v al = al\<lparr>al_vehicles := AList.update t v (al_vehicles al)\<rparr>"

definition al_update :: "int \<Rightarrow> real \<times> real \<Rightarrow> allocator \<Rightarrow> allocator" where
  "al_update t pos al =
     (let v = (case map_of (al_vehicles al) t of
                 None \<Rightarrow> \<lparr>tv_track_id = t, tv_position = pos, tv_current_node = None,
                          tv_assigned_slot = None, tv_route = []\<rparr>
               | Some v \<Rightarrow> v);
          v = v\<lparr>tv_position := pos\<rparr>
      in put_vehicle t (case position_to_node pos of None \<Rightarrow> v | Some n \<Rightarrow> v\<lparr>tv_current_node := Some n\<rparr>) al)"

text \<open>\<open>list.index\<close>; an unknown name is a \<open>ValueError\<close>.\<close>

definition index_of :: "'a \<Rightarrow> 'a list \<Rightarrow> nat" where
  "index_of x xs = length (takeWhile (\<lambda>y. y \<noteq> x) xs)"

definition set_slot_occupied :: "string \<Rightarrow> bool \<Rightarrow> allocator \<Rightarrow> allocator option" where
  "set_slot_occupied slot occupied al =
     (if slot \<in> set SLOT_NAMES
      then Some (al\<lparr>al_slot_statuses := (al_slot_statuses al)[index_of slot SLOT_NAMES := if occupied then 1 else 0]\<rparr>)
      else None)"

definition remove_vehicle :: "int \<Rightarrow> allocator \<Rightarrow> allocator" where
  "remove_vehicle t al = al\<lparr>al_vehicles := AList.delete t (al_vehicles al)\<rparr>"

definition live_features :: "tracked_vehicle \<Rightarrow> real list" where
  "live_features v =
     (let route = tv_route v;
          cur = (case tv_current_node v of None \<Rightarrow> 0 | Some n \<Rightarrow> node_index n);
          here = (case tv_current_node v of
                    Some n \<Rightarrow> if n \<in> set route then Some (index_of n route) else None
                  | None \<Rightarrow> None);
          nxt = (case here of
                   Some i \<Rightarrow> if i + 1 < length route \<and> route ! (i + 1) \<in> set ALL_NODES
                            then node_index (route ! (i + 1)) else cur
                 | None \<Rightarrow> cur);
          remaining = (case here of Some i \<Rightarrow> length route - (i + 1) | None \<Rightarrow> length route)
      in [real cur / real (max (length ALL_NODES) 1), real nxt / real (max (length ALL_NODES) 1),
          clip01 (real remaining * NODE_TRAVEL_TIME / (real MAX_ROUTE_LEN * NODE_TRAVEL_TIME))])"

definition moving_tracks :: "allocator \<Rightarrow> tracked_vehicle list" where
  "moving_tracks al =
     filter (\<lambda>v. tv_assigned_slot v \<noteq> None \<and> tv_route v \<noteq> []) (map snd (al_vehicles al))"

definition build_obs :: "allocator \<Rightarrow> real list" where
  "build_obs al =
     (let moving = moving_tracks al;
          feats = concat (map live_features (take MAX_ACTIVE_VEHICLES moving))
      in al_slot_statuses al @ feats @ replicate (MAX_ACTIVE_VEHICLES * 3 - length feats) 0
         @ map (\<lambda>n. min (real (length (filter (\<lambda>v. tv_current_node v = Some n) moving))
                          / real (max MAX_ACTIVE_VEHICLES 1)) 1) BOTTLENECK_NODES
         @ [0])"

definition build_masks :: "allocator \<Rightarrow> bool list" where
  "build_masks al = map (\<lambda>s. s < 1 / 2) (al_slot_statuses al) @ [True]"

text \<open>\<open>None\<close> is the \<open>KeyError\<close> of an unknown track.\<close>

definition allocate :: "policy option \<Rightarrow> int \<Rightarrow> allocator \<Rightarrow> (allocator \<times> string option) option" where
  "allocate loaded t al = (case map_of (al_vehicles al) t of
       None \<Rightarrow> None
     | Some v \<Rightarrow>
         (case tv_assigned_slot v of
            Some slot \<Rightarrow> Some (al, Some slot)
          | None \<Rightarrow>
              let action = select_action loaded (build_obs al) (build_masks al)
              in if action < 0 \<or> int NUM_SLOTS \<le> action then Some (al, None)
                 else
                   let slot = SLOT_NAMES ! nat action;
                       v' = v\<lparr>tv_assigned_slot := Some slot, tv_route := entry_route (nat action)\<rparr>
                   in map_option (\<lambda>al'. (al', Some slot)) (set_slot_occupied slot True (put_vehicle t v' al))))"

section \<open>The rule-based policies respect the mask\<close>

lemma arg_min_list1_in: "arg_min_list1 f b xs \<in> set (b # xs)"
  by (induction f b xs rule: arg_min_list1.induct) (auto split: if_splits)

lemma arg_min_list1_le: "y \<in> set (b # xs) \<Longrightarrow> f (arg_min_list1 f b xs) \<le> f y"
proof (induction f b xs arbitrary: y rule: arg_min_list1.induct)
  case (1 f best)
  then show ?case by simp
next
  case (2 f best x xs)
  let ?b = "if f x < f best then x else best"
  have "f (arg_min_list1 f ?b xs) \<le> f ?b" using 2(1) [of ?b] by simp
  moreover have "f ?b \<le> f best" "f ?b \<le> f x" by simp_all
  ultimately have "f (arg_min_list1 f ?b xs) \<le> f best" "f (arg_min_list1 f ?b xs) \<le> f x" by linarith+
  then show ?case using 2(1) [of y] 2(2) by auto
qed

definition picks_best :: "(nat \<Rightarrow> real) \<Rightarrow> bool list \<Rightarrow> int \<Rightarrow> bool" where
  "picks_best score masks a \<longleftrightarrow>
     (if valid_slots masks NUM_SLOTS = [] then a = wait_or_dead masks WAIT_ACTION
      else nat a \<in> set (valid_slots masks NUM_SLOTS) \<and> 0 \<le> a \<and>
        list_all (\<lambda>i. score (nat a) \<le> score i) (valid_slots masks NUM_SLOTS))"

lemma slot_count: "length SLOT_NAMES = NUM_SLOTS"
  by (simp add: SLOT_NAMES_def NUM_SLOTS_def)

lemma best_slot_picks: "picks_best score masks (best_slot score masks)"
proof (cases "valid_slots masks NUM_SLOTS")
  case Nil
  then show ?thesis by (simp add: picks_best_def best_slot_def slot_count)
next
  case (Cons i js)
  have "arg_min_list1 score i js \<in> set (i # js)" by (rule arg_min_list1_in)
  moreover have "list_all (\<lambda>j. score (arg_min_list1 score i js) \<le> score j) (i # js)"
    unfolding list_all_iff using arg_min_list1_le [of _ i js score] by blast
  moreover have "best_slot score masks = int (arg_min_list1 score i js)"
    using Cons by (simp add: best_slot_def slot_count)
  ultimately show ?thesis unfolding picks_best_def Cons by simp
qed

text \<open>An action the mask allows.\<close>

definition allowed :: "bool list \<Rightarrow> int \<Rightarrow> bool" where
  "allowed masks a \<longleftrightarrow> 0 \<le> a \<and> nat a < length masks \<and> masks ! nat a"

lemma picks_best_allowed:
  assumes "picks_best score masks a" "length masks = NUM_SLOTS + 1"
  shows "allowed masks a \<or> a = - 1 \<and> masks = replicate (NUM_SLOTS + 1) False"
proof (cases "valid_slots masks NUM_SLOTS = []")
  case True
  have off: "\<not> masks ! i" if "i < NUM_SLOTS" for i
    using True that assms(2) by (auto simp: valid_slots_def filter_empty_conv)
  show ?thesis
  proof (cases "masks ! WAIT_ACTION")
    case True
    then show ?thesis using assms \<open>valid_slots masks NUM_SLOTS = []\<close>
      by (simp add: picks_best_def wait_or_dead_def allowed_def WAIT_ACTION_def)
  next
    case False
    have "masks = replicate (NUM_SLOTS + 1) False"
      using off False assms(2) 
      by (intro nth_equalityI) (auto simp: WAIT_ACTION_def less_Suc_eq nth_replicate simp del: replicate_Suc)
    then show ?thesis using assms False \<open>valid_slots masks NUM_SLOTS = []\<close>
      by (simp add: picks_best_def wait_or_dead_def WAIT_ACTION_def)
  qed
next
  case False
  then show ?thesis using assms(1) by (simp add: picks_best_def allowed_def valid_slots_def)
qed

text \<open>Every rule-based policy answers with an action the mask allows, as long as it allows any: a slot
  of least score among the permitted ones (the nearest; the nearest weighed with the reservations at the
  bottleneck; the shortest route weighed with its reservations), WAIT when no slot is permitted, and \<open>-1\<close>
  exactly when nothing is.\<close>

theorem heuristics_respect_mask:
  assumes "length masks = NUM_SLOTS + 1"
    and "a \<in> {heuristic_policy masks, heuristic_policy_v2 masks e, heuristic_policy_v3 masks e, heuristic_policy_v4 masks e}"
  shows "(allowed masks a \<longleftrightarrow> list_ex id masks) \<and> (a = - 1 \<longleftrightarrow> \<not> list_ex id masks) \<and>
    picks_best entry_distance masks (heuristic_policy masks) \<and>
    picks_best (congestion_score e) masks (heuristic_policy_v2 masks e) \<and>
    picks_best (route_score e) masks (heuristic_policy_v4 masks e)"
proof -
  have best: "picks_best entry_distance masks (heuristic_policy masks)"
    "picks_best (congestion_score e) masks (heuristic_policy_v2 masks e)"
    "picks_best (route_score e) masks (heuristic_policy_v4 masks e)"
    by (simp_all add: heuristic_policy_def heuristic_policy_v2_def heuristic_policy_v4_def best_slot_picks)
  have v3: "heuristic_policy_v3 masks e = heuristic_policy_v2 masks e \<or> allowed masks (heuristic_policy_v3 masks e)"
    by (simp add: heuristic_policy_v3_def Let_def allowed_def)
  have either: "allowed masks a \<or> a = - 1 \<and> masks = replicate (NUM_SLOTS + 1) False"
    using assms(2) v3 best [THEN picks_best_allowed, OF assms(1)] by auto
  have "list_ex id masks" if "allowed masks a"
    using that nth_mem [of "nat a" masks] unfolding allowed_def list_ex_iff id_def by blast
  moreover have "\<not> list_ex id (replicate (NUM_SLOTS + 1) False)"
    unfolding list_ex_iff by simp
  moreover have "a \<noteq> - 1" if "allowed masks a" using that by (simp add: allowed_def)
  ultimately have "(allowed masks a \<longleftrightarrow> list_ex id masks) \<and> (a = - 1 \<longleftrightarrow> \<not> list_ex id masks)"
    using either by metis
  then show ?thesis using best by blast
qed

lemma heuristics_respect_mask_witness:
  "allowed [False, False, False, False, False, False, False, False, True] (heuristic_policy [False, False, False, False, False, False, False, False, True])"
  using heuristics_respect_mask [of "[False, False, False, False, False, False, False, False, True]" "heuristic_policy [False, False, False, False, False, False, False, False, True]"]
  by (simp add: NUM_SLOTS_def)

section \<open>Runs of the allocator\<close>

text \<open>The calls the pipeline makes. \<open>RouteDone\<close> is its \<open>tracked.route = []\<close> after parking; nothing in the
  repository calls \<open>set_slot_occupied\<close> with \<open>False\<close>.\<close>

datatype alloc_event = Seen int "real \<times> real" | Allocate int | Occupied string | Forget int | RouteDone int

definition clear_route :: "int \<Rightarrow> allocator \<Rightarrow> allocator" where
  "clear_route t al = (case map_of (al_vehicles al) t of
       None \<Rightarrow> al
     | Some v \<Rightarrow> put_vehicle t (v\<lparr>tv_route := []\<rparr>) al)"

fun alloc_step :: "policy option \<Rightarrow> allocator \<Rightarrow> alloc_event \<Rightarrow> allocator" where
  "alloc_step loaded al (Seen t pos) = al_update t pos al"
| "alloc_step loaded al (Allocate t) = (case allocate loaded t al of None \<Rightarrow> al | Some (al', slot) \<Rightarrow> al')"
| "alloc_step loaded al (Occupied slot) = (case set_slot_occupied slot True al of None \<Rightarrow> al | Some al' \<Rightarrow> al')"
| "alloc_step loaded al (Forget t) = remove_vehicle t al"
| "alloc_step loaded al (RouteDone t) = clear_route t al"

text \<open>What \<open>MaskablePPO.predict\<close> promises of its \<open>action_masks\<close>: a masked action is never returned.\<close>

definition mask_honouring :: "policy option \<Rightarrow> bool" where
  "mask_honouring loaded \<longleftrightarrow> (case loaded of
       None \<Rightarrow> True
     | Some predict \<Rightarrow> \<forall>obs masks. list_ex id masks \<longrightarrow> allowed masks (predict obs masks))"

definition slot_of :: "allocator \<Rightarrow> int \<Rightarrow> string option" where
  "slot_of al t = Option.bind (map_of (al_vehicles al) t) tv_assigned_slot"

definition occupied :: "allocator \<Rightarrow> string \<Rightarrow> bool" where
  "occupied al slot \<longleftrightarrow> al_slot_statuses al ! index_of slot SLOT_NAMES = 1"

definition alloc_inv :: "allocator \<Rightarrow> bool" where
  "alloc_inv al \<longleftrightarrow> length (al_slot_statuses al) = NUM_SLOTS \<and> set (al_slot_statuses al) \<subseteq> {0, 1} \<and>
     (\<forall>t s. slot_of al t = Some s \<longrightarrow> s \<in> set SLOT_NAMES \<and> occupied al s) \<and>
     (\<forall>t t' s. slot_of al t = Some s \<longrightarrow> slot_of al t' = Some s \<longrightarrow> t = t')"

lemma index_of_nth: "distinct xs \<Longrightarrow> i < length xs \<Longrightarrow> index_of (xs ! i) xs = i"
proof (induction xs arbitrary: i)
  case Nil
  then show ?case by simp
next
  case (Cons x xs)
  then show ?case by (cases i) (auto simp: index_of_def)
qed

lemma index_of_less: "x \<in> set xs \<Longrightarrow> index_of x xs < length xs \<and> xs ! index_of x xs = x"
  unfolding index_of_def by (induction xs) auto

lemma distinct_slots: "distinct SLOT_NAMES"
  by (simp add: SLOT_NAMES_def)

lemma slot_of_put [simp]:
  "slot_of (put_vehicle t v al) u = (if u = t then tv_assigned_slot v else slot_of al u)"
  by (simp add: slot_of_def put_vehicle_def update_conv')

lemma statuses_put [simp]: "al_slot_statuses (put_vehicle t v al) = al_slot_statuses al"
  by (simp add: put_vehicle_def)

lemma occupied_put [simp]: "occupied (put_vehicle t v al) s = occupied al s"
  by (simp add: occupied_def)

lemma slot_of_same_statuses: "slot_of (al\<lparr>al_slot_statuses := x\<rparr>) t = slot_of al t"
  by (simp add: slot_of_def)

lemma occupied_after_set:
  assumes "alloc_inv al" "slot \<in> set SLOT_NAMES" "s \<in> set SLOT_NAMES"
  shows "occupied (al\<lparr>al_slot_statuses := (al_slot_statuses al)[index_of slot SLOT_NAMES := 1]\<rparr>) s
    \<longleftrightarrow> s = slot \<or> occupied al s"
proof -
  have l: "length (al_slot_statuses al) = NUM_SLOTS" using assms(1) by (simp add: alloc_inv_def)
  have i: "index_of slot SLOT_NAMES < NUM_SLOTS" using index_of_less [OF assms(2)] by (simp add: slot_count)
  have "index_of slot SLOT_NAMES = index_of s SLOT_NAMES \<longleftrightarrow> s = slot"
    using index_of_less [OF assms(2)] index_of_less [OF assms(3)] by metis
  then show ?thesis using i by (simp add: occupied_def l nth_list_update)
qed

lemma set_occupied_inv:
  assumes "alloc_inv al" "set_slot_occupied slot True al = Some al'"
  shows "alloc_inv al' \<and> slot_of al' = slot_of al \<and>
    (\<forall>s \<in> set SLOT_NAMES. occupied al' s \<longleftrightarrow> s = slot \<or> occupied al s)"
proof -
  have s: "slot \<in> set SLOT_NAMES"
    and al': "al' = al\<lparr>al_slot_statuses := (al_slot_statuses al)[index_of slot SLOT_NAMES := 1]\<rparr>"
    using assms(2) by (auto simp: set_slot_occupied_def split: if_splits)
  have so: "slot_of al' = slot_of al" unfolding al' by (rule ext) (rule slot_of_same_statuses)
  have oc: "\<forall>s \<in> set SLOT_NAMES. occupied al' s \<longleftrightarrow> s = slot \<or> occupied al s"
    unfolding al' using occupied_after_set [OF assms(1) s] by blast
  have "set (al_slot_statuses al') \<subseteq> {0, 1}" "length (al_slot_statuses al') = NUM_SLOTS"
    using assms(1) set_update_subset_insert [of "al_slot_statuses al" "index_of slot SLOT_NAMES" 1]
    unfolding al' alloc_inv_def by auto
  then show ?thesis using assms(1) so oc unfolding alloc_inv_def by auto
qed

lemma update_slot_of [simp]: "slot_of (al_update t pos al) = slot_of al"
  by (rule ext) (auto simp: al_update_def Let_def slot_of_def put_vehicle_def update_conv' split: option.split)

lemma same_slots_inv:
  assumes "alloc_inv al" "slot_of al' = slot_of al" "al_slot_statuses al' = al_slot_statuses al"
  shows "alloc_inv al'"
  using assms by (simp add: alloc_inv_def occupied_def)

lemma clear_route_slot_of [simp]: "slot_of (clear_route t al) = slot_of al"
  by (rule ext) (auto simp: clear_route_def slot_of_def put_vehicle_def update_conv' split: option.split)

lemma remove_slot_of: "slot_of (remove_vehicle t al) u = (if u = t then None else slot_of al u)"
  by (simp add: slot_of_def remove_vehicle_def delete_conv')

lemma statuses_kept [simp]:
  "al_slot_statuses (al_update t pos al) = al_slot_statuses al"
  "al_slot_statuses (clear_route t al) = al_slot_statuses al"
  "al_slot_statuses (remove_vehicle t al) = al_slot_statuses al"
  by (simp_all add: al_update_def clear_route_def remove_vehicle_def Let_def split: option.split)

lemma length_masks: "alloc_inv al \<Longrightarrow> length (build_masks al) = NUM_SLOTS + 1"
  by (simp add: build_masks_def alloc_inv_def)

lemma wait_is_allowed: "alloc_inv al \<Longrightarrow> list_ex id (build_masks al)"
  by (simp add: build_masks_def)

lemma selected_allowed:
  assumes "mask_honouring loaded" "alloc_inv al"
  shows "allowed (build_masks al) (select_action loaded obs (build_masks al))"
proof (cases loaded)
  case None
  then show ?thesis
    using heuristics_respect_mask [OF length_masks [OF assms(2)], of "heuristic_policy (build_masks al)"]
      wait_is_allowed [OF assms(2)] by (simp add: select_action_def)
next
  case (Some p)
  then show ?thesis using assms wait_is_allowed by (simp add: select_action_def mask_honouring_def)
qed

text \<open>What an allocation does.\<close>

lemma allocate_new:
  assumes "mask_honouring loaded" "alloc_inv al" "allocate loaded t al = Some (al', Some s)" "slot_of al t = None"
  shows "s \<in> set SLOT_NAMES \<and> \<not> occupied al s \<and> slot_of al' = (slot_of al)(t \<mapsto> s) \<and>
    al_slot_statuses al' = (al_slot_statuses al)[index_of s SLOT_NAMES := 1]"
proof -
  obtain v where v: "map_of (al_vehicles al) t = Some v"
    using assms(3) by (auto simp: allocate_def split: option.splits)
  then have new: "tv_assigned_slot v = None" using assms(4) by (simp add: slot_of_def)
  define a where "a = select_action loaded (build_obs al) (build_masks al)"
  have in_range: "0 \<le> a" "a < int NUM_SLOTS"
    using assms(3) v new by (auto simp: allocate_def Let_def a_def [symmetric] split: if_splits)
  have st: "set_slot_occupied (SLOT_NAMES ! nat a) True (put_vehicle t
        (v\<lparr>tv_assigned_slot := Some (SLOT_NAMES ! nat a), tv_route := entry_route (nat a)\<rparr>) al) = Some al'"
    and s: "s = SLOT_NAMES ! nat a"
    using assms(3) v new in_range by (auto simp: allocate_def Let_def a_def [symmetric])
  have n: "nat a < NUM_SLOTS" using in_range by simp
  then have i: "index_of s SLOT_NAMES = nat a" unfolding s by (simp add: index_of_nth distinct_slots slot_count)
  have "build_masks al ! nat a"
    using selected_allowed [OF assms(1,2), of "build_obs al"] by (simp add: allowed_def a_def)
  then have free: "\<not> occupied al s"
    using n assms(2) by (simp add: build_masks_def occupied_def i nth_append alloc_inv_def)
  have mem: "s \<in> set SLOT_NAMES" using n unfolding s by (simp add: slot_count)
  have "al' = (put_vehicle t (v\<lparr>tv_assigned_slot := Some s, tv_route := entry_route (nat a)\<rparr>) al)
      \<lparr>al_slot_statuses := (al_slot_statuses al)[index_of s SLOT_NAMES := 1]\<rparr>"
    using st mem unfolding s [symmetric] by (simp add: set_slot_occupied_def)
  then show ?thesis using mem free by (auto simp: slot_of_same_statuses fun_eq_iff)
qed

lemma allocate_same:
  assumes "allocate loaded t al = Some (al', r)" "slot_of al t \<noteq> None \<or> r = None"
  shows "al' = al"
  using assms by (auto simp: allocate_def slot_of_def Let_def split: option.splits if_splits)

lemma alloc_step_inv [inv_intro]:
  assumes "mask_honouring loaded" "alloc_inv al"
  shows "alloc_inv (alloc_step loaded al e)"
proof (cases e)
  case (Seen t pos)
  then show ?thesis using same_slots_inv [OF assms(2), of "al_update t pos al"] by simp
next
  case (Allocate t)
  show ?thesis
  proof (cases "allocate loaded t al")
    case None
    then show ?thesis using Allocate assms(2) by simp
  next
    case (Some p)
    obtain al' r where p: "p = (al', r)" by fastforce
    show ?thesis
    proof (cases "slot_of al t = None \<and> r \<noteq> None")
      case False
      then show ?thesis using Allocate Some p allocate_same [of loaded t al al' r] assms(2) by auto
    next
      case True
      then obtain s where r: "r = Some s" by blast
      note n = allocate_new [OF assms Some [unfolded p r]]
      have oc: "occupied al' x \<longleftrightarrow> x = s \<or> occupied al x" if "x \<in> set SLOT_NAMES" for x
        using occupied_after_set [OF assms(2) _ that, of s] n True by (simp add: occupied_def)
      have "set (al_slot_statuses al') \<subseteq> {0, 1}" "length (al_slot_statuses al') = NUM_SLOTS"
        using assms(2) set_update_subset_insert [of "al_slot_statuses al" "index_of s SLOT_NAMES" 1] n True
        unfolding alloc_inv_def by auto
      then have "alloc_inv al'"
        using assms(2) n True oc unfolding alloc_inv_def by (auto split: if_splits)
      then show ?thesis using Allocate Some p by simp
    qed
  qed
next
  case (Occupied slot)
  then show ?thesis using set_occupied_inv [OF assms(2)] assms(2) by (auto split: option.split)
next
  case (Forget t)
  have "alloc_inv (remove_vehicle t al)"
    using assms(2) unfolding alloc_inv_def occupied_def statuses_kept remove_slot_of by auto
  then show ?thesis using Forget by simp
next
  case (RouteDone t)
  then show ?thesis using same_slots_inv [OF assms(2), of "clear_route t al"] by simp
qed

lemma allocator_new_inv: "alloc_inv allocator_new"
  by (simp add: alloc_inv_def allocator_new_def slot_of_def NUM_SLOTS_def)

interpretation alloc_sys: step_system "alloc_step loaded" "\<lambda>al. mask_honouring loaded \<and> alloc_inv al"
  for loaded
  by unfold_locales (auto intro: alloc_step_inv)

definition alloc_run :: "policy option \<Rightarrow> alloc_event list \<Rightarrow> allocator" where
  "alloc_run loaded es = foldl (alloc_step loaded) allocator_new es"

lemma alloc_run_inv: "mask_honouring loaded \<Longrightarrow> alloc_inv (alloc_run loaded es)"
  using alloc_sys.run_inv [of loaded allocator_new es] by (simp add: alloc_run_def allocator_new_inv)

text \<open>C19: no slot is given to two cars. Whatever the camera reports and in whatever order tracks appear, ask for
  a slot, park and disappear, two different tracks never hold the same slot, and a held slot is marked
  occupied, provided the trained policy never answers with a masked action (without a model file the
  built-in heuristic decides, and the proviso is void).\<close>

theorem slots_never_shared:
  assumes "mask_honouring loaded"
    and "slot_of (alloc_run loaded es) t = Some s" "slot_of (alloc_run loaded es) t' = Some s"
  shows "t = t' \<and> s \<in> set SLOT_NAMES \<and> occupied (alloc_run loaded es) s"
  using alloc_run_inv [OF assms(1), of es] assms(2,3) unfolding alloc_inv_def by metis

definition one_allocation :: "alloc_event list" where
  "one_allocation = [Seen 7 (150, 100), Allocate 7]"

lemma one_allocation_heuristic:
  "\<exists>s. slot_of (alloc_run None one_allocation) 7 = Some s"
proof -
  define al where "al = al_update 7 (150, 100) allocator_new"
  have m: "build_masks al = replicate NUM_SLOTS True @ [True]"
    by (simp add: al_def build_masks_def allocator_new_def)
  have v: "valid_slots (build_masks al) (length SLOT_NAMES) = [0..<NUM_SLOTS]"
    unfolding m by (simp add: valid_slots_def slot_count nth_append filter_id_conv)
  have u: "[0..<NUM_SLOTS] = 0 # [1..<NUM_SLOTS]" by (simp add: NUM_SLOTS_def upt_rec)
  define i where "i = arg_min_list1 entry_distance 0 [1..<NUM_SLOTS]"
  have a: "select_action None (build_obs al) (build_masks al) = int i"
    by (simp add: select_action_def heuristic_policy_def best_slot_def v u i_def)
  have i: "i < NUM_SLOTS"
    using arg_min_list1_in [of entry_distance 0 "[1..<NUM_SLOTS]"] by (auto simp: i_def NUM_SLOTS_def)
  have t: "\<exists>w. map_of (al_vehicles al) 7 = Some w \<and> tv_assigned_slot w = None"
    by (auto simp: al_def al_update_def put_vehicle_def allocator_new_def Let_def split: option.split)
  have "SLOT_NAMES ! i \<in> set SLOT_NAMES" using i by (simp add: slot_count)
  then have "\<exists>al'. allocate None 7 al = Some (al', Some (SLOT_NAMES ! i))"
    using t i by (auto simp: allocate_def a Let_def set_slot_occupied_def)
  then obtain al' where al': "allocate None 7 al = Some (al', Some (SLOT_NAMES ! i))" ..
  have "alloc_inv al" unfolding al_def by (rule same_slots_inv [OF allocator_new_inv]) simp_all
  moreover have "slot_of al 7 = None" using t by (auto simp: slot_of_def)
  ultimately have "slot_of al' 7 = Some (SLOT_NAMES ! i)"
    using allocate_new [OF _ _ al'] by (simp add: mask_honouring_def)
  then show ?thesis using al' by (simp add: alloc_run_def one_allocation_def al_def [symmetric])
qed

lemma slots_never_shared_witness:
  "\<exists>s. slot_of (alloc_run None one_allocation) 7 = Some s \<and> occupied (alloc_run None one_allocation) s"
  using one_allocation_heuristic slots_never_shared [of None one_allocation 7 _ 7]
  by (auto simp: mask_honouring_def)

text \<open>An occupied slot that no track holds is lost.\<close>

definition lost_slot :: "allocator \<Rightarrow> string \<Rightarrow> bool" where
  "lost_slot al s \<longleftrightarrow> s \<in> set SLOT_NAMES \<and> occupied al s \<and> (\<forall>u. slot_of al u \<noteq> Some s)"

lemma allocate_held:
  "allocate loaded t al = Some (al', Some s) \<Longrightarrow> slot_of al t \<noteq> None \<Longrightarrow> slot_of al t = Some s"
  by (auto simp: allocate_def slot_of_def split: option.splits)

lemma allocate_lost:
  assumes "mask_honouring loaded" "alloc_inv al" "lost_slot al s" "allocate loaded t al = Some (al', r)"
  shows "lost_slot al' s \<and> r \<noteq> Some s"
proof (cases "slot_of al t = None \<and> r \<noteq> None")
  case False
  then have "al' = al" using allocate_same [OF assms(4)] by auto
  moreover have "r \<noteq> Some s"
    using False assms(3) allocate_held [of loaded t al al' s] assms(4) by (auto simp: lost_slot_def)
  ultimately show ?thesis using assms(3) by simp
next
  case True
  then obtain x where r: "r = Some x" by blast
  note n = allocate_new [OF assms(1,2) assms(4) [unfolded r]]
  have "x \<noteq> s" using n True assms(3) by (auto simp: lost_slot_def)
  then show ?thesis
    using occupied_after_set [OF assms(2), of x s] n True assms(3) r by (auto simp: lost_slot_def occupied_def)
qed

lemma lost_slot_step:
  assumes "mask_honouring loaded" "alloc_inv al" "lost_slot al s"
  shows "lost_slot (alloc_step loaded al e) s"
proof (cases e)
  case (Allocate t)
  then show ?thesis using assms allocate_lost [OF assms] by (auto split: option.split)
next
  case (Occupied slot)
  then show ?thesis using set_occupied_inv [OF assms(2)] assms(3) by (auto simp: lost_slot_def split: option.split)
qed (use assms(3) in \<open>auto simp: lost_slot_def occupied_def remove_slot_of\<close>)

lemma lost_slot_run:
  "mask_honouring loaded \<Longrightarrow> alloc_inv al \<Longrightarrow> lost_slot al s \<Longrightarrow> lost_slot (foldl (alloc_step loaded) al es) s"
  by (induction es arbitrary: al) (auto intro: lost_slot_step alloc_step_inv)

text \<open>A slot leaks when its track is forgotten. When a track that holds a slot is dropped, which the
  pipeline does with a car that reconnected and then left the picture, the slot stays marked occupied
  although no track holds it, and no later sequence of calls ever gives it to any car.\<close>

theorem forgotten_slot_lost:
  assumes "mask_honouring loaded" "slot_of (alloc_run loaded es) t = Some s"
    and "al = foldl (alloc_step loaded) (alloc_run loaded (es @ [Forget t])) later"
  shows "occupied al s \<and> (\<forall>u. slot_of al u \<noteq> Some s) \<and> (\<forall>u al'. allocate loaded u al \<noteq> Some (al', Some s))"
proof -
  have i: "alloc_inv (alloc_run loaded es)" by (rule alloc_run_inv [OF assms(1)])
  have f: "alloc_run loaded (es @ [Forget t]) = remove_vehicle t (alloc_run loaded es)"
    by (simp add: alloc_run_def)
  have "\<forall>u. slot_of (remove_vehicle t (alloc_run loaded es)) u \<noteq> Some s"
    using i assms(2) unfolding remove_slot_of alloc_inv_def by (metis option.distinct(1))
  then have "lost_slot (alloc_run loaded (es @ [Forget t])) s"
    using i assms(2) unfolding f lost_slot_def by (auto simp: alloc_inv_def occupied_def)
  then have l: "lost_slot al s"
    unfolding assms(3) by (rule lost_slot_run [OF assms(1) alloc_run_inv [OF assms(1)]])
  have "alloc_inv al"
    unfolding assms(3) using alloc_sys.run_inv [of loaded] alloc_run_inv [OF assms(1)] assms(1) by blast
  then show ?thesis using l allocate_lost [OF assms(1) _ l] unfolding lost_slot_def by metis
qed

lemma forgotten_slot_lost_witness:
  "\<exists>s. occupied (alloc_run None (one_allocation @ [Forget 7])) s \<and>
     slot_of (alloc_run None one_allocation) 7 = Some s \<and> slot_of (alloc_run None (one_allocation @ [Forget 7])) 7 = None"
proof -
  obtain s where s: "slot_of (alloc_run None one_allocation) 7 = Some s" using one_allocation_heuristic by blast
  have "occupied (alloc_run None (one_allocation @ [Forget 7])) s"
    using forgotten_slot_lost [of None one_allocation 7 s "alloc_run None (one_allocation @ [Forget 7])" "[]"] s
    by (simp add: mask_honouring_def)
  then show ?thesis using s by (auto simp: alloc_run_def remove_slot_of)
qed

section \<open>The observation the policy sees\<close>

abbreviation unit_list :: "real list \<Rightarrow> bool" where
  "unit_list xs \<equiv> list_all (\<lambda>x. 0 \<le> x \<and> x \<le> 1) xs"

lemma node_index_le: "real (node_index n) / real (max (length ALL_NODES) 1) \<le> 1"
proof -
  have "node_index n \<le> length ALL_NODES" by (simp add: node_index_def length_takeWhile_le)
  then have "node_index n \<le> max (length ALL_NODES) 1" by linarith
  then show ?thesis by (simp add: divide_le_eq del: of_nat_max)
qed

lemma live_features_unit: "length (live_features v) = 3 \<and> unit_list (live_features v)"
proof -
  have z: "(0::real) / real (max (length ALL_NODES) 1) \<le> 1" by simp
  have c: "0 \<le> clip01 x \<and> clip01 x \<le> 1" for x by (simp add: clip01_def)
  show ?thesis
    using node_index_le c z by (auto simp: live_features_def Let_def split: option.split)
qed

lemma concat_live: "length (concat (map live_features vs)) = 3 * length vs \<and> unit_list (concat (map live_features vs))"
  by (induction vs) (use live_features_unit in auto)

text \<open>The policy is asked in the space it was trained on. After any run of calls, the live observation has
  exactly \<open>STATE_DIM\<close> entries, all between 0 and 1, the mask has one entry per slot and one for WAIT, a slot's
  mask is open exactly when its status in the observation is 0, and WAIT is always open.\<close>

theorem live_observation_in_space:
  assumes "mask_honouring loaded"
  shows "length (build_obs (alloc_run loaded es)) = STATE_DIM \<and> unit_list (build_obs (alloc_run loaded es)) \<and>
    build_masks (alloc_run loaded es) = map (\<lambda>s. s = 0) (take NUM_SLOTS (build_obs (alloc_run loaded es))) @ [True]"
proof -
  define al where "al = alloc_run loaded es"
  define vs where "vs = take MAX_ACTIVE_VEHICLES (moving_tracks al)"
  have i: "length (al_slot_statuses al) = NUM_SLOTS" "set (al_slot_statuses al) \<subseteq> {0, 1}"
    using alloc_run_inv [OF assms] by (auto simp: al_def alloc_inv_def)
  have n: "length vs \<le> MAX_ACTIVE_VEHICLES" by (simp add: vs_def)
  note f = concat_live [of vs]
  have "length (build_obs al) = STATE_DIM"
    using i f n by (simp add: build_obs_def Let_def vs_def [symmetric] STATE_DIM_def BOTTLENECK_NODES_def)
  moreover have "unit_list (build_obs al)"
    using i(2) f by (auto simp: build_obs_def Let_def vs_def [symmetric] list_all_iff)
  moreover have "map (\<lambda>s. s < 1 / 2) (al_slot_statuses al) = map (\<lambda>s. s = 0) (al_slot_statuses al)"
    using i(2) by auto
  ultimately show ?thesis
    unfolding al_def [symmetric] using i(1) by (simp add: build_masks_def build_obs_def Let_def)
qed

lemma live_observation_in_space_witness: "length (build_obs (alloc_run None one_allocation)) = 21"
  using live_observation_in_space [of None one_allocation]
  by (simp add: mask_honouring_def STATE_DIM_def NUM_SLOTS_def MAX_ACTIVE_VEHICLES_def)

end
