(* ===== verification/Vision.thy ===== *)
theory Vision
  imports Geometry
begin

text \<open>
  \<open>integrated/host/cv\<close>: \<open>association.py\<close> (front cushion to car), \<open>heading.py\<close> (heading of a track) and the
  projection of \<open>homography.py\<close>. The detector and the fit of the homography are third-party code and
  enter as the list of detections and as the matrix. A detection is identified, as \<open>id()\<close> does, by its
  position in the frame's list.
\<close>

section \<open>Projection (\<open>homography.py\<close>)\<close>

type_synonym point = "real \<times> real"
type_synonym hmat = "(real \<times> real \<times> real) \<times> (real \<times> real \<times> real) \<times> (real \<times> real \<times> real)"

datatype vision_error = NotProjectable | ZeroDivision

fun row_dot :: "real \<times> real \<times> real \<Rightarrow> point \<Rightarrow> real" where
  "row_dot (a, b, c) (x, y) = a * x + b * y + c"

definition warp_point :: "hmat \<Rightarrow> point \<Rightarrow> vision_error + point" where
  "warp_point h p = (case h of (r1, r2, r3) \<Rightarrow>
     if row_dot r3 p = 0 then Inl NotProjectable
     else Inr (row_dot r1 p / row_dot r3 p, row_dot r2 p / row_dot r3 p))"

section \<open>Association (\<open>association.py\<close>)\<close>

type_synonym bbox = "int \<times> int \<times> int \<times> int"

record detection =
  dt_label :: string
  dt_confidence :: real
  dt_bbox :: bbox
  dt_track_id :: "int option"

definition LABEL_CAR :: string where "LABEL_CAR = ''rc_car''"
definition LABEL_CUSHION :: string where "LABEL_CUSHION = ''front_cushion''"
definition ADJACENT_MARGIN_RATIO :: real where "ADJACENT_MARGIN_RATIO = 6 / 10"
definition MAX_PAIR_DISTANCE_RATIO :: real where "MAX_PAIR_DISTANCE_RATIO = 9 / 10"
definition HEADING_JUMP_PENALTY_DEG :: real where "HEADING_JUMP_PENALTY_DEG = 90"

definition center :: "bbox \<Rightarrow> point" where
  "center b = (case b of (x1, y1, x2, y2) \<Rightarrow> (of_int (x1 + x2) / 2, of_int (y1 + y2) / 2))"

definition diagonal :: "bbox \<Rightarrow> real" where
  "diagonal b = (case b of (x1, y1, x2, y2) \<Rightarrow> hypot (of_int (x2 - x1)) (of_int (y2 - y1)))"

definition inside_or_adjacent :: "point \<Rightarrow> bbox \<Rightarrow> bool" where
  "inside_or_adjacent p b = (case b of (x1, y1, x2, y2) \<Rightarrow>
     let mx = of_int (x2 - x1) * ADJACENT_MARGIN_RATIO; my = of_int (y2 - y1) * ADJACENT_MARGIN_RATIO
     in of_int x1 - mx \<le> fst p \<and> fst p \<le> of_int x2 + mx \<and> of_int y1 - my \<le> snd p \<and> snd p \<le> of_int y2 + my)"

definition angle_diff :: "real \<Rightarrow> real \<Rightarrow> real" where
  "angle_diff a b = \<bar>pymod (a - b + 180) 360 - 180\<bar>"

type_synonym heading_of = "point \<Rightarrow> point \<Rightarrow> vision_error + real option"

text \<open>The score of one car with one cushion: \<open>Inr None\<close> when the pair is ruled out.\<close>

definition heading_bonus ::
  "(int \<Rightarrow> real option) \<Rightarrow> heading_of option \<Rightarrow> int option \<Rightarrow> point \<Rightarrow> point \<Rightarrow> vision_error + real" where
  "heading_bonus prev image_heading_of track car_c cu_c = (case (track, image_heading_of) of
       (Some t, Some f) \<Rightarrow>
         (case prev t of
            None \<Rightarrow> Inr 0
          | Some h \<Rightarrow>
              (case f car_c cu_c of
                 Inl e \<Rightarrow> Inl e
               | Inr None \<Rightarrow> Inr 0
               | Inr (Some cand) \<Rightarrow>
                   Inr (4 / 10 * (1 - min (angle_diff cand h / HEADING_JUMP_PENALTY_DEG) 1))))
     | _ \<Rightarrow> Inr 0)"

definition pair_score ::
  "(int \<Rightarrow> real option) \<Rightarrow> heading_of option \<Rightarrow> detection \<Rightarrow> detection \<Rightarrow> vision_error + real option" where
  "pair_score prev image_heading_of car cushion =
     (let car_c = center (dt_bbox car); limit = diagonal (dt_bbox car) * MAX_PAIR_DISTANCE_RATIO;
          cu_c = center (dt_bbox cushion); dist = hypot (fst cu_c - fst car_c) (snd cu_c - snd car_c)
      in if \<not> inside_or_adjacent cu_c (dt_bbox car) then Inr None
         else if dist > limit then Inr None
         else if limit = 0 then Inl ZeroDivision
         else map_sum id (\<lambda>bonus. Some (1 - dist / limit + 3 / 10 * (dt_confidence car + dt_confidence cushion) / 2 + bonus))
                (heading_bonus prev image_heading_of (dt_track_id car) car_c cu_c))"

type_synonym indexed = "nat \<times> detection"
type_synonym candidate = "real \<times> indexed \<times> indexed"

fun candidates_of ::
  "(int \<Rightarrow> real option) \<Rightarrow> heading_of option \<Rightarrow> (indexed \<times> indexed) list \<Rightarrow> vision_error + candidate list" where
  "candidates_of prev f [] = Inr []"
| "candidates_of prev f ((car, cushion) # rest) = (case pair_score prev f (snd car) (snd cushion) of
       Inl e \<Rightarrow> Inl e
     | Inr s \<Rightarrow>
         (case candidates_of prev f rest of
            Inl e \<Rightarrow> Inl e
          | Inr cs \<Rightarrow> Inr ((case s of None \<Rightarrow> [] | Some v \<Rightarrow> [(v, car, cushion)]) @ cs)))"

fun greedy :: "nat list \<Rightarrow> nat list \<Rightarrow> candidate list \<Rightarrow> candidate list" where
  "greedy used_cars used_cushions [] = []"
| "greedy used_cars used_cushions ((s, car, cushion) # rest) =
     (if fst car \<in> set used_cars \<or> fst cushion \<in> set used_cushions then greedy used_cars used_cushions rest
      else (s, car, cushion) # greedy (fst car # used_cars) (fst cushion # used_cushions) rest)"

definition labelled :: "string \<Rightarrow> detection list \<Rightarrow> indexed list" where
  "labelled label dets = filter (\<lambda>(i, d). dt_label d = label) (enumerate 0 dets)"

definition associate ::
  "detection list \<Rightarrow> (int \<Rightarrow> real option) \<Rightarrow> heading_of option \<Rightarrow> vision_error + (candidate list \<times> indexed list)" where
  "associate detections previous_heading image_heading_of =
     (let cars = labelled LABEL_CAR detections; cushions = labelled LABEL_CUSHION detections
      in if cars = [] then Inr ([], [])
         else if cushions = [] then Inr ([], cars)
         else
           map_sum id (\<lambda>cands.
               let pairs = greedy [] [] (sort_key (\<lambda>c. - fst c) cands)
               in (pairs, filter (\<lambda>c. fst c \<notin> (\<lambda>p. fst (fst (snd p))) ` set pairs) cars))
             (candidates_of previous_heading image_heading_of (List.product cars cushions)))"

section \<open>Headings of the tracks (\<open>heading.py\<close>)\<close>

definition MIN_MOVE_DISTANCE :: real where "MIN_MOVE_DISTANCE = 3"
definition TRAJECTORY_WINDOW :: nat where "TRAJECTORY_WINDOW = 5"

record heading_result =
  hr_heading_deg :: "real option"
  hr_source :: "string option"
  hr_is_moving :: bool

record heading_estimator =
  he_window :: nat
  he_min_move :: real
  he_history :: "int \<Rightarrow> point list option"
  he_last_valid :: "int \<Rightarrow> real option"

definition heading_new :: "nat \<Rightarrow> real \<Rightarrow> heading_estimator" where
  "heading_new window min_move =
     \<lparr>he_window = window, he_min_move = min_move, he_history = (\<lambda>_. None), he_last_valid = (\<lambda>_. None)\<rparr>"

text \<open>\<open>deque(maxlen=n).append\<close>: the oldest entries fall out.\<close>

definition push_bounded :: "nat \<Rightarrow> 'a \<Rightarrow> 'a list \<Rightarrow> 'a list" where
  "push_bounded n x xs = drop (length xs + 1 - n) (xs @ [x])"

definition direction_deg :: "real \<Rightarrow> real \<Rightarrow> real" where
  "direction_deg dx dy = pymod (degrees (atan2 dy dx)) 360"

definition has_moved :: "real \<Rightarrow> point list \<Rightarrow> bool" where
  "has_moved min_move hist =
     (if length hist < 2 then False
      else hypot (fst (last hist) - fst (hd hist)) (snd (last hist) - snd (hd hist)) \<ge> min_move)"

definition heading_update ::
  "int \<Rightarrow> point \<Rightarrow> point option \<Rightarrow> heading_estimator \<Rightarrow> heading_result \<times> heading_estimator" where
  "heading_update t pos front he =
     (let hist = push_bounded (he_window he) pos (case he_history he t of None \<Rightarrow> [] | Some h \<Rightarrow> h);
          he1 = he\<lparr>he_history := (he_history he)(t \<mapsto> hist)\<rparr>;
          cushion = (case front of
              None \<Rightarrow> None
            | Some f \<Rightarrow> if 1 / 10 ^ 6 \<le> hypot (fst f - fst pos) (snd f - snd pos)
                        then Some (direction_deg (fst f - fst pos) (snd f - snd pos)) else None)
      in case cushion of
           Some h \<Rightarrow>
             (\<lparr>hr_heading_deg = Some h, hr_source = Some ''FRONT_CUSHION'', hr_is_moving = has_moved (he_min_move he) hist\<rparr>,
              he1\<lparr>he_last_valid := (he_last_valid he1)(t \<mapsto> h)\<rparr>)
         | None \<Rightarrow>
             if has_moved (he_min_move he) hist then
               (let h = direction_deg (fst (last hist) - fst (hd hist)) (snd (last hist) - snd (hd hist))
                in (\<lparr>hr_heading_deg = Some h, hr_source = Some ''TRAJECTORY'', hr_is_moving = True\<rparr>,
                    he1\<lparr>he_last_valid := (he_last_valid he1)(t \<mapsto> h)\<rparr>))
             else
               (case he_last_valid he1 t of
                  Some h \<Rightarrow> (\<lparr>hr_heading_deg = Some h, hr_source = Some ''LAST_VALID'', hr_is_moving = False\<rparr>, he1)
                | None \<Rightarrow> (\<lparr>hr_heading_deg = None, hr_source = None, hr_is_moving = False\<rparr>, he1)))"

definition heading_remove :: "int \<Rightarrow> heading_estimator \<Rightarrow> heading_estimator" where
  "heading_remove t he = he\<lparr>he_history := (he_history he)(t := None), he_last_valid := (he_last_valid he)(t := None)\<rparr>"

section \<open>The association is a stable one-to-one matching\<close>

definition cand_car :: "candidate \<Rightarrow> nat" where "cand_car c = fst (fst (snd c))"
definition cand_cushion :: "candidate \<Rightarrow> nat" where "cand_cushion c = fst (snd (snd c))"

lemma cand_simps [simp]: "cand_car (s, c, u) = fst c" "cand_cushion (s, c, u) = fst u"
  by (simp_all add: cand_car_def cand_cushion_def)

lemma greedy_subset: "set (greedy U V cs) \<subseteq> set cs"
  by (induction U V cs rule: greedy.induct) auto

lemma greedy_unused:
  "c \<in> set (greedy U V cs) \<Longrightarrow> cand_car c \<notin> set U \<and> cand_cushion c \<notin> set V"
  by (induction U V cs rule: greedy.induct) (auto split: if_splits)

lemma greedy_distinct:
  "distinct (map cand_car (greedy U V cs)) \<and> distinct (map cand_cushion (greedy U V cs))"
proof (induction U V cs rule: greedy.induct)
  case (1 U V)
  then show ?case by simp
next
  case (2 U V s car cushion rest)
  show ?case
  proof (cases "fst car \<in> set U \<or> fst cushion \<in> set V")
    case True
    then show ?thesis using 2 by simp
  next
    case False
    have "fst car \<notin> cand_car ` set (greedy (fst car # U) (fst cushion # V) rest)"
      "fst cushion \<notin> cand_cushion ` set (greedy (fst car # U) (fst cushion # V) rest)"
      using greedy_unused by fastforce+
    then show ?thesis using 2 False by simp
  qed
qed

lemma greedy_no_blocking:
  assumes "sorted_wrt (\<lambda>a b. fst b \<le> fst a) cs" "c \<in> set cs"
  shows "cand_car c \<in> set U \<or> cand_cushion c \<in> set V \<or>
    (\<exists>d \<in> set (greedy U V cs). fst c \<le> fst d \<and> (cand_car d = cand_car c \<or> cand_cushion d = cand_cushion c))"
  using assms
proof (induction U V cs rule: greedy.induct)
  case (1 U V)
  then show ?case by simp
next
  case (2 U V s car cushion rest)
  show ?case
  proof (cases "c = (s, car, cushion)")
    case True
    then show ?thesis by auto
  next
    case False
    then have c: "c \<in> set rest" "fst c \<le> s" using "2.prems" by auto
    show ?thesis
    proof (cases "fst car \<in> set U \<or> fst cushion \<in> set V")
      case True
      then show ?thesis using "2.IH"(1) [OF True] "2.prems" c by simp
    next
      case used: False
      then have "cand_car c \<in> set (fst car # U) \<or> cand_cushion c \<in> set (fst cushion # V) \<or>
          (\<exists>d \<in> set (greedy (fst car # U) (fst cushion # V) rest).
             fst c \<le> fst d \<and> (cand_car d = cand_car c \<or> cand_cushion d = cand_cushion c))"
        using "2.IH"(2) "2.prems" c by simp
      then show ?thesis using c(2) used by auto
    qed
  qed
qed

text \<open>The candidates are exactly the pairs that were scored.\<close>

lemma candidates_of_set:
  assumes "candidates_of prev f ps = Inr cs"
  shows "(v, car, cushion) \<in> set cs \<longleftrightarrow>
    (car, cushion) \<in> set ps \<and> pair_score prev f (snd car) (snd cushion) = Inr (Some v)"
  using assms
proof (induction prev f ps arbitrary: cs rule: candidates_of.induct)
  case (1 prev f)
  then show ?case by simp
next
  case (2 prev f c u rest)
  then show ?case by (auto split: sum.splits option.splits)
qed

lemma sorted_desc: "sorted_wrt (\<lambda>a b. fst b \<le> fst a) (sort_key (\<lambda>c. - fst c :: real) cs)"
proof -
  have "sorted (map (\<lambda>c. - fst c) (sort_key (\<lambda>c. - fst c :: real) cs))" by simp
  then show ?thesis by (simp add: sorted_map)
qed

lemma labelled_distinct: "distinct (map fst (labelled label dets))"
  unfolding labelled_def by (rule distinct_map_filter) (simp add: map_fst_enumerate)

text \<open>C30: the cushion association is a stable one-to-one matching. No car and no cushion is in two pairs; every
  pair was admissible and carries its score; every car is either in a pair or reported without one; and no
  admissible pair was passed over unless its car or its cushion went to a pair scored at least as high.\<close>

theorem association_stable:
  assumes "associate dets prev f = Inr (pairs, unpaired)"
  shows "distinct (map cand_car pairs) \<and> distinct (map cand_cushion pairs) \<and>
    list_all (\<lambda>(v, car, cushion). car \<in> set (labelled LABEL_CAR dets) \<and> cushion \<in> set (labelled LABEL_CUSHION dets) \<and>
      pair_score prev f (snd car) (snd cushion) = Inr (Some v)) pairs \<and>
    unpaired = filter (\<lambda>c. fst c \<notin> cand_car ` set pairs) (labelled LABEL_CAR dets) \<and>
    (\<forall>v car cushion. car \<in> set (labelled LABEL_CAR dets) \<and> cushion \<in> set (labelled LABEL_CUSHION dets) \<and>
        pair_score prev f (snd car) (snd cushion) = Inr (Some v) \<longrightarrow>
      (\<exists>d \<in> set pairs. v \<le> fst d \<and> (cand_car d = fst car \<or> cand_cushion d = fst cushion)))"
proof (cases "labelled LABEL_CAR dets = [] \<or> labelled LABEL_CUSHION dets = []")
  case True
  then show ?thesis using assms by (auto simp: associate_def Let_def split: if_splits)
next
  case False
  then obtain cands where c: "candidates_of prev f (List.product (labelled LABEL_CAR dets) (labelled LABEL_CUSHION dets)) = Inr cands"
    and pairs: "pairs = greedy [] [] (sort_key (\<lambda>c. - fst c) cands)"
    and un: "unpaired = filter (\<lambda>c. fst c \<notin> cand_car ` set pairs) (labelled LABEL_CAR dets)"
    using assms
    by (cases "candidates_of prev f (List.product (labelled LABEL_CAR dets) (labelled LABEL_CUSHION dets))")
      (auto simp: associate_def Let_def cand_car_def [abs_def])
  have sub: "set pairs \<subseteq> set cands" using greedy_subset [of "[]" "[]"] by (metis pairs set_sort)
  have all: "list_all (\<lambda>(v, car, cushion). car \<in> set (labelled LABEL_CAR dets) \<and> cushion \<in> set (labelled LABEL_CUSHION dets) \<and>
      pair_score prev f (snd car) (snd cushion) = Inr (Some v)) pairs"
    unfolding list_all_iff using sub candidates_of_set [OF c] by fastforce
  have block: "\<exists>d \<in> set pairs. v \<le> fst d \<and> (cand_car d = fst car \<or> cand_cushion d = fst cushion)"
    if "car \<in> set (labelled LABEL_CAR dets)" "cushion \<in> set (labelled LABEL_CUSHION dets)"
      "pair_score prev f (snd car) (snd cushion) = Inr (Some v)" for v car cushion
  proof -
    have "(v, car, cushion) \<in> set (sort_key (\<lambda>c. - fst c) cands)"
      using candidates_of_set [OF c] that by simp
    from greedy_no_blocking [OF sorted_desc this, of "[]" "[]"] show ?thesis unfolding pairs by simp
  qed
  show ?thesis using greedy_distinct [of "[]" "[]"] pairs all un block by blast
qed

definition two_boxes :: "detection list" where
  "two_boxes = [\<lparr>dt_label = LABEL_CAR, dt_confidence = 1, dt_bbox = (0, 0, 30, 40), dt_track_id = Some 7\<rparr>,
                \<lparr>dt_label = LABEL_CUSHION, dt_confidence = 1, dt_bbox = (10, 10, 20, 30), dt_track_id = None\<rparr>]"

lemma association_stable_witness:
  "\<exists>p unpaired. associate two_boxes (\<lambda>_. None) None = Inr ([p], unpaired) \<and> cand_car p = 0 \<and> cand_cushion p = 1 \<and>
     unpaired = []"
proof -
  obtain p u where r: "associate two_boxes (\<lambda>_. None) None = Inr ([p], u)" "cand_car p = 0" "cand_cushion p = 1"
    by (simp add: associate_def two_boxes_def labelled_def enumerate_eq_zip Let_def pair_score_def LABEL_CAR_def
        LABEL_CUSHION_def diagonal_def center_def hypot_def inside_or_adjacent_def ADJACENT_MARGIN_RATIO_def
        MAX_PAIR_DISTANCE_RATIO_def heading_bonus_def)
  have "u = filter (\<lambda>c. fst c \<notin> cand_car ` set [p]) (labelled LABEL_CAR two_boxes)"
    using association_stable [OF r(1)] by blast
  then have "u = []" using r(2) by (simp add: labelled_def two_boxes_def enumerate_eq_zip LABEL_CAR_def LABEL_CUSHION_def)
  then show ?thesis using r by blast
qed

section \<open>Headings over a run\<close>

datatype heading_event = Track int point "point option" | Lost int

fun heading_step :: "heading_estimator \<Rightarrow> heading_event \<Rightarrow> heading_estimator" where
  "heading_step he (Track t pos front) = snd (heading_update t pos front he)"
| "heading_step he (Lost t) = heading_remove t he"

definition heading_inv :: "nat \<Rightarrow> heading_estimator \<Rightarrow> bool" where
  "heading_inv w he \<longleftrightarrow> he_window he = w \<and>
     (\<forall>t h. he_last_valid he t = Some h \<longrightarrow> 0 \<le> h \<and> h < 360) \<and>
     (\<forall>t hist. he_history he t = Some hist \<longrightarrow> length hist \<le> w)"

lemma direction_bounds: "0 \<le> direction_deg dx dy \<and> direction_deg dx dy < 360"
  unfolding direction_deg_def by (rule pymod_bounds) simp

definition is_direction :: "real option \<Rightarrow> bool" where
  "is_direction h \<longleftrightarrow> (\<exists>dx dy. h = Some (direction_deg dx dy))"

lemma is_direction_deg [simp]: "is_direction (Some (direction_deg dx dy))"
  unfolding is_direction_def by blast

lemma push_bounded_length: "length (push_bounded n x xs) \<le> n"
  by (simp add: push_bounded_def)

lemma heading_update_last: "heading_update t pos front he = (r, he') \<Longrightarrow> he_last_valid he' t = hr_heading_deg r"
  by (auto simp: heading_update_def Let_def split: option.splits if_splits)

lemma heading_update_state:
  assumes "heading_update t pos front he = (r, he')"
  shows "he_window he' = he_window he \<and>
    he_last_valid he' = (he_last_valid he)(t := hr_heading_deg r) \<and>
    (\<exists>xs. he_history he' = (he_history he)(t \<mapsto> push_bounded (he_window he) pos xs)) \<and>
    (hr_heading_deg r = he_last_valid he t \<or> is_direction (hr_heading_deg r))"
  using assms unfolding heading_update_def Let_def
  by (auto simp: fun_eq_iff split: option.splits if_splits)

lemma heading_step_inv: "heading_inv w he \<Longrightarrow> heading_inv w (heading_step he e)"
proof (cases e)
  case (Track t pos front)
  obtain r he' where u: "heading_update t pos front he = (r, he')" by fastforce
  assume "heading_inv w he"
  then have "heading_inv w he'"
    using heading_update_state [OF u] direction_bounds push_bounded_length
    unfolding heading_inv_def is_direction_def by (auto split: if_splits)
  then show ?thesis using Track u by simp
qed (auto simp: heading_inv_def heading_remove_def split: if_splits)

interpretation heading_sys: step_system heading_step "heading_inv w" for w
  by unfold_locales (rule heading_step_inv)

definition heading_run :: "nat \<Rightarrow> real \<Rightarrow> heading_event list \<Rightarrow> heading_estimator" where
  "heading_run w m es = foldl heading_step (heading_new w m) es"

lemma heading_run_inv: "heading_inv w (heading_run w m es)"
  unfolding heading_run_def by (rule heading_sys.run_inv) (simp add: heading_inv_def heading_new_def)

text \<open>The heading of a track. After any history of sightings and losses, a reported heading lies in
  \<open>[0, 360)\<close> and names its source; it is remembered as the track's last valid heading; a visible front
  cushion always decides, pointing from the car's centre to the cushion, whatever the trajectory says; and
  \<open>LAST_VALID\<close> repeats the previous heading of this very track. The kept trajectory never exceeds the window.\<close>

theorem heading_sound:
  assumes "heading_update t pos front (heading_run w m es) = (r, he')"
  shows "(case hr_heading_deg r of
        None \<Rightarrow> hr_source r = None
      | Some h \<Rightarrow> 0 \<le> h \<and> h < 360 \<and>
          hr_source r \<in> {Some ''FRONT_CUSHION'', Some ''TRAJECTORY'', Some ''LAST_VALID''}) \<and>
    he_last_valid he' t = hr_heading_deg r \<and> length (the (he_history he' t)) \<le> w \<and>
    (hr_source r = Some ''LAST_VALID'' \<longrightarrow>
      hr_heading_deg r = he_last_valid (heading_run w m es) t \<and> \<not> hr_is_moving r) \<and>
    (\<forall>f. front = Some f \<and> 1 / 10 ^ 6 \<le> hypot (fst f - fst pos) (snd f - snd pos) \<longrightarrow>
      hr_source r = Some ''FRONT_CUSHION'' \<and>
      hr_heading_deg r = Some (direction_deg (fst f - fst pos) (snd f - snd pos)))"
proof -
  note last = heading_update_last [OF assms]
  have "heading_inv w (heading_run w m (es @ [Track t pos front]))" by (rule heading_run_inv)
  then have i: "heading_inv w he'" using assms by (simp add: heading_run_def)
  obtain hist where "he_history he' t = Some hist" using heading_update_state [OF assms] by auto
  then have len: "length (the (he_history he' t)) \<le> w" using i by (auto simp: heading_inv_def)
  have range: "0 \<le> h \<and> h < 360" if "hr_heading_deg r = Some h" for h
    using i last that by (simp add: heading_inv_def)
  have src: "(hr_heading_deg r = None \<longleftrightarrow> hr_source r = None) \<and>
      hr_source r \<in> {None, Some ''FRONT_CUSHION'', Some ''TRAJECTORY'', Some ''LAST_VALID''} \<and>
      (hr_source r = Some ''LAST_VALID'' \<longrightarrow>
        hr_heading_deg r = he_last_valid (heading_run w m es) t \<and> \<not> hr_is_moving r)"
    using assms by (auto simp: heading_update_def Let_def split: option.splits if_splits)
  have cushion: "hr_source r = Some ''FRONT_CUSHION'' \<and>
      hr_heading_deg r = Some (direction_deg (fst f - fst pos) (snd f - snd pos))"
    if "front = Some f" "1 / 10 ^ 6 \<le> hypot (fst f - fst pos) (snd f - snd pos)" for f
    using assms that by (auto simp: heading_update_def Let_def split: option.splits if_splits)
  show ?thesis using last len range src cushion by (auto split: option.split)
qed

lemma heading_sound_witness:
  "hr_heading_deg (fst (heading_update 7 (0, 0) (Some (10, 0)) (heading_run 5 30 []))) = Some (direction_deg 10 0)"
proof -
  obtain r he' where u: "heading_update 7 (0, 0) (Some (10, 0)) (heading_run 5 30 []) = (r, he')" by fastforce
  have "hr_heading_deg r = Some (direction_deg (fst (10, 0) - fst (0, 0)) (snd (10, 0) - snd (0, 0)))"
    using heading_sound [OF u] by auto
  then show ?thesis by (simp add: u)
qed

end
