(* ===== verification/Waypoint_Controller.thy ===== *)
theory Waypoint_Controller
  imports Geometry Waypoints
begin

text \<open>
  \<open>integrated/host/control/waypoint_controller.py\<close>: the controller the camera pipeline runs per car.
  Unlike \<open>controller/pose_controller.py\<close> it also trims the throttle by an estimate of the measured
  speed. \<open>wrap180\<close> and \<open>clamp\<close> are the functions of \<open>controller/geometry.py\<close>, which this module
  repeats word for word; the modes are the strings the program uses.
\<close>

section \<open>Data\<close>

record vehicle_limits =
  vl_max_steer_deg :: real
  vl_steer_kp :: real
  vl_steer_kd :: real
  vl_steering_sign :: real
  vl_min_throttle :: real
  vl_max_throttle :: real
  vl_throttle_per_cm_s :: real
  vl_speed_kp :: real
  vl_max_speed_trim :: real
  vl_slow_radius_cm :: real
  vl_stop_distance_cm :: real
  vl_turn_slowdown_deg :: real
  vl_max_pose_age_s :: real

definition VehicleLimits :: vehicle_limits where
  "VehicleLimits =
     \<lparr>vl_max_steer_deg = 30, vl_steer_kp = 16 / 10, vl_steer_kd = 25 / 100, vl_steering_sign = 1,
      vl_min_throttle = 22 / 100, vl_max_throttle = 45 / 100, vl_throttle_per_cm_s = 35 / 1000,
      vl_speed_kp = 10 / 1000, vl_max_speed_trim = 12 / 100, vl_slow_radius_cm = 25,
      vl_stop_distance_cm = 3, vl_turn_slowdown_deg = 60, vl_max_pose_age_s = 1 / 2\<rparr>"

record cam_pose =
  cp_x_mm :: real
  cp_y_mm :: real
  cp_heading_deg :: "real option"
  cp_timestamp :: real
  cp_valid :: bool

record control_output =
  co_throttle :: real
  co_steering :: real
  co_mode :: string
  co_distance_cm :: real
  co_heading_error_deg :: real
  co_reason :: string

definition output_is_stopped :: "control_output \<Rightarrow> bool" where
  "output_is_stopped out = (co_throttle out = 0)"

record waypoint_controller =
  wc_limits :: vehicle_limits
  wc_prev_err_rad :: "real option"
  wc_prev_time :: "real option"
  wc_prev_pose :: "cam_pose option"
  wc_speed_cm_s :: real

definition wc_new :: "vehicle_limits \<Rightarrow> waypoint_controller" where
  "wc_new limits =
     \<lparr>wc_limits = limits, wc_prev_err_rad = None, wc_prev_time = None, wc_prev_pose = None, wc_speed_cm_s = 0\<rparr>"

definition wc_reset :: "waypoint_controller \<Rightarrow> waypoint_controller" where
  "wc_reset c = c\<lparr>wc_prev_err_rad := None, wc_prev_time := None, wc_prev_pose := None, wc_speed_cm_s := 0\<rparr>"

section \<open>The parts of a step\<close>

definition wc_steering :: "vehicle_limits \<Rightarrow> real \<Rightarrow> real \<Rightarrow> real" where
  "wc_steering vl err_rad derr =
     (let raw = vl_steer_kp vl * err_rad + vl_steer_kd vl * derr;
          norm = raw / radians (vl_max_steer_deg vl)
      in round_dec 4 (clamp (norm * vl_steering_sign vl) (- 1) 1))"

definition wc_throttle :: "vehicle_limits \<Rightarrow> real \<Rightarrow> waypoint \<Rightarrow> real \<Rightarrow> real \<Rightarrow> real" where
  "wc_throttle vl speed target distance_cm err_deg =
     (let turn_scale = clamp (1 - \<bar>err_deg\<bar> / max (vl_turn_slowdown_deg vl * 2) (1 / 10 ^ 6)) (3 / 10) 1;
          remaining = max (distance_cm - vl_stop_distance_cm vl) 0;
          approach_scale = clamp (remaining / max (vl_slow_radius_cm vl) (1 / 10 ^ 6)) 0 1;
          desired = wp_speed_cm_s target * (turn_scale * approach_scale)
      in if desired \<le> 0 then 0
         else
           let throttle = desired * vl_throttle_per_cm_s vl
                 + clamp (vl_speed_kp vl * (desired - speed)) (- vl_max_speed_trim vl) (vl_max_speed_trim vl);
               throttle = max throttle (vl_min_throttle vl)
           in round_dec 4 (clamp throttle 0 (vl_max_throttle vl)))"

definition wc_needs_alignment :: "waypoint \<Rightarrow> real \<Rightarrow> bool" where
  "wc_needs_alignment target heading =
     (case wp_target_heading_deg target of
        None \<Rightarrow> False
      | Some t \<Rightarrow> wp_heading_required target \<and> \<bar>wrap180 (t - heading)\<bar> > wp_heading_tolerance_deg target)"

definition wc_derivative :: "waypoint_controller \<Rightarrow> real \<Rightarrow> real \<Rightarrow> real \<times> waypoint_controller" where
  "wc_derivative c err_rad now =
     (let c' = c\<lparr>wc_prev_err_rad := Some err_rad, wc_prev_time := Some now\<rparr>
      in case (wc_prev_err_rad c, wc_prev_time c) of
           (Some prev_err, Some prev_t) \<Rightarrow>
             let dt = now - prev_t in if dt \<le> 1 / 1000 then (0, c') else ((err_rad - prev_err) / dt, c')
         | _ \<Rightarrow> (0, c'))"

definition wc_update_speed :: "cam_pose \<Rightarrow> waypoint_controller \<Rightarrow> waypoint_controller" where
  "wc_update_speed p c = (case wc_prev_pose c of
       None \<Rightarrow> c
     | Some prev \<Rightarrow>
         let dt = cp_timestamp p - cp_timestamp prev
         in if dt \<le> 1 / 1000 then c
            else
              let step_cm = hypot (cp_x_mm p - cp_x_mm prev) (cp_y_mm p - cp_y_mm prev) / 10;
                  raw = step_cm / dt
              in c\<lparr>wc_speed_cm_s := 6 / 10 * wc_speed_cm_s c + 4 / 10 * raw\<rparr>)"

definition wc_halt ::
  "real \<Rightarrow> real \<Rightarrow> string \<Rightarrow> waypoint_controller \<Rightarrow> control_output \<times> waypoint_controller" where
  "wc_halt distance_cm err_deg reason c =
     (\<lparr>co_throttle = 0, co_steering = 0, co_mode = ''HOLD'', co_distance_cm = distance_cm,
       co_heading_error_deg = err_deg, co_reason = reason\<rparr>,
      c\<lparr>wc_prev_err_rad := None, wc_prev_time := None\<rparr>)"

section \<open>One step\<close>

definition wc_compute ::
  "cam_pose \<Rightarrow> waypoint \<Rightarrow> bool \<Rightarrow> real \<Rightarrow> waypoint_controller \<Rightarrow> control_output \<times> waypoint_controller" where
  "wc_compute p target allow_drive now c =
     (let dx = wp_x target - cp_x_mm p;
          dy = wp_y target - cp_y_mm p;
          distance_cm = hypot dx dy / 10
      in if \<not> cp_valid p then wc_halt distance_cm 0 ''POSE_INVALID'' c
         else case cp_heading_deg p of
           None \<Rightarrow> wc_halt distance_cm 0 ''NO_HEADING'' c
         | Some heading \<Rightarrow>
             if now - cp_timestamp p > vl_max_pose_age_s (wc_limits c)
             then wc_halt distance_cm 0 ''POSE_STALE'' c
             else
               let err_deg = wrap180 (degrees (atan2 dy dx) - heading);
                   err_rad = radians err_deg;
                   c1 = wc_update_speed p c;
                   (derr, c2) = wc_derivative c1 err_rad (cp_timestamp p);
                   c3 = c2\<lparr>wc_prev_pose := Some p\<rparr>
               in if \<not> allow_drive then wc_halt distance_cm err_deg ''DRIVE_NOT_ALLOWED'' c3
                  else if distance_cm \<le> wp_position_tolerance_cm target + vl_stop_distance_cm (wc_limits c)
                  then (if wc_needs_alignment target heading
                        then \<lparr>co_throttle = 0, co_steering = 0, co_mode = ''ALIGN'', co_distance_cm = distance_cm,
                              co_heading_error_deg =
                                wrap180 (case_option 0 id (wp_target_heading_deg target) - heading),
                              co_reason = ''HEADING_OUT_OF_TOLERANCE''\<rparr>
                        else \<lparr>co_throttle = 0, co_steering = 0, co_mode = ''ARRIVED'', co_distance_cm = distance_cm,
                              co_heading_error_deg = err_deg, co_reason = ''''\<rparr>, c3)
                  else
                    let steering = wc_steering (wc_limits c) err_rad derr;
                        throttle = wc_throttle (wc_limits c) (wc_speed_cm_s c3) target distance_cm err_deg
                    in (\<lparr>co_throttle = throttle, co_steering = steering,
                         co_mode = (if throttle > 0 then ''DRIVE'' else ''BRAKE''), co_distance_cm = distance_cm,
                         co_heading_error_deg = err_deg, co_reason = ''''\<rparr>, c3))"

section \<open>Bounds of the parts\<close>

lemma clamp_unit_pos: "0 < v \<Longrightarrow> 0 < clamp v 0 1"
  by (simp add: clamp_def)

lemma wc_steering_unit: "\<bar>wc_steering vl e d\<bar> \<le> 1"
proof -
  have "\<bar>round_dec 4 (clamp v (- 1) 1)\<bar> \<le> 1" for v
    using round_dec_unit [of "clamp v (- 1) 1" 4] clamp_bounds [of "- 1" 1 v] by (simp add: abs_le_iff)
  then show ?thesis by (simp add: wc_steering_def Let_def)
qed

text \<open>The throttle a waypoint of positive speed gets outside the stop distance.\<close>

definition drive_band :: "vehicle_limits \<Rightarrow> real \<Rightarrow> bool" where
  "drive_band vl t \<longleftrightarrow> round_dec 4 (vl_min_throttle vl) \<le> t \<and> t \<le> round_dec 4 (vl_max_throttle vl)"

definition sane_limits :: "vehicle_limits \<Rightarrow> bool" where
  "sane_limits vl \<longleftrightarrow> 0 < round_dec 4 (vl_min_throttle vl) \<and> 0 \<le> vl_min_throttle vl \<and>
     vl_min_throttle vl \<le> vl_max_throttle vl \<and> 0 \<le> vl_stop_distance_cm vl"

lemma wc_throttle_band:
  assumes "sane_limits vl" "0 < wp_speed_cm_s target" "vl_stop_distance_cm vl < d"
  shows "drive_band vl (wc_throttle vl s target d e)"
proof -
  define turn where "turn = clamp (1 - \<bar>e\<bar> / max (vl_turn_slowdown_deg vl * 2) (1 / 10 ^ 6)) (3 / 10) 1"
  define app where "app = clamp (max (d - vl_stop_distance_cm vl) 0 / max (vl_slow_radius_cm vl) (1 / 10 ^ 6)) 0 1"
  have t: "0 < turn"
    using clamp_bounds [of "3 / 10" 1 "1 - \<bar>e\<bar> / max (vl_turn_slowdown_deg vl * 2) (1 / 10 ^ 6)"]
    unfolding turn_def by linarith
  have "0 < max (d - vl_stop_distance_cm vl) 0 / max (vl_slow_radius_cm vl) (1 / 10 ^ 6)"
    using assms(3) by (intro divide_pos_pos) (auto simp: less_max_iff_disj)
  then have a: "0 < app" unfolding app_def by (rule clamp_unit_pos)
  have "0 < wp_speed_cm_s target * (turn * app)" using t a assms(2) by simp
  then have "\<exists>x. wc_throttle vl s target d e = round_dec 4 (clamp (max x (vl_min_throttle vl)) 0 (vl_max_throttle vl))"
    unfolding wc_throttle_def Let_def turn_def [symmetric] app_def [symmetric] by auto
  then obtain x where x: "wc_throttle vl s target d e =
      round_dec 4 (clamp (max x (vl_min_throttle vl)) 0 (vl_max_throttle vl))" by blast
  have "vl_min_throttle vl \<le> clamp (max x (vl_min_throttle vl)) 0 (vl_max_throttle vl)"
    "clamp (max x (vl_min_throttle vl)) 0 (vl_max_throttle vl) \<le> vl_max_throttle vl"
    using assms(1) by (auto simp: clamp_def sane_limits_def)
  then show ?thesis unfolding x drive_band_def by (simp add: round_dec_mono)
qed

section \<open>The decision to drive\<close>

definition pose_usable :: "vehicle_limits \<Rightarrow> cam_pose \<Rightarrow> real \<Rightarrow> bool" where
  "pose_usable vl p now \<longleftrightarrow>
     cp_valid p \<and> cp_heading_deg p \<noteq> None \<and> now - cp_timestamp p \<le> vl_max_pose_age_s vl"

definition before_target :: "vehicle_limits \<Rightarrow> cam_pose \<Rightarrow> waypoint \<Rightarrow> bool" where
  "before_target vl p target \<longleftrightarrow>
     wp_position_tolerance_cm target + vl_stop_distance_cm vl
       < hypot (wp_x target - cp_x_mm p) (wp_y target - cp_y_mm p) / 10"

text \<open>The heading error of a pose to its target, and a step of the two cases.\<close>

definition target_err_rad :: "cam_pose \<Rightarrow> waypoint \<Rightarrow> real" where
  "target_err_rad p target =
     radians (wrap180 (degrees (atan2 (wp_y target - cp_y_mm p) (wp_x target - cp_x_mm p))
       - case_option 0 id (cp_heading_deg p)))"

lemma wc_update_speed_simps [simp]:
  "wc_limits (wc_update_speed p c) = wc_limits c"
  "wc_prev_err_rad (wc_update_speed p c) = wc_prev_err_rad c"
  "wc_prev_time (wc_update_speed p c) = wc_prev_time c"
  by (simp_all add: wc_update_speed_def Let_def split: option.split)

lemma wc_derivative_simps [simp]:
  "wc_limits (snd (wc_derivative c e n)) = wc_limits c"
  "wc_speed_cm_s (snd (wc_derivative c e n)) = wc_speed_cm_s c"
  by (simp_all add: wc_derivative_def Let_def split: option.split)

lemma wc_halt_simps [simp]:
  "co_throttle (fst (wc_halt d e r c)) = 0" "co_steering (fst (wc_halt d e r c)) = 0"
  "co_mode (fst (wc_halt d e r c)) = ''HOLD''" "wc_prev_err_rad (snd (wc_halt d e r c)) = None"
  "wc_limits (snd (wc_halt d e r c)) = wc_limits c"
  by (simp_all add: wc_halt_def)

lemma wc_limits_compute [simp]: "wc_limits (snd (wc_compute p target allow now c)) = wc_limits c"
  by (simp add: wc_compute_def Let_def split_def split: option.split)

lemma wc_compute_unsafe:
  assumes "\<not> (pose_usable (wc_limits c) p now \<and> allow \<and> before_target (wc_limits c) p target)"
  shows "co_throttle (fst (wc_compute p target allow now c)) = 0 \<and>
    co_steering (fst (wc_compute p target allow now c)) = 0 \<and>
    co_mode (fst (wc_compute p target allow now c)) \<in> {''HOLD'', ''ALIGN'', ''ARRIVED''}"
  using assms
  by (cases "cp_heading_deg p")
    (auto simp: wc_compute_def pose_usable_def before_target_def Let_def split_def)

lemma wc_compute_driving:
  assumes "pose_usable (wc_limits c) p now" "allow" "before_target (wc_limits c) p target"
  shows "\<exists>s derr e d. vl_stop_distance_cm (wc_limits c) + wp_position_tolerance_cm target < d \<and>
      derr = fst (wc_derivative (wc_update_speed p c) (target_err_rad p target) (cp_timestamp p)) \<and>
      co_throttle (fst (wc_compute p target allow now c)) = wc_throttle (wc_limits c) s target d e \<and>
      co_steering (fst (wc_compute p target allow now c)) =
        wc_steering (wc_limits c) (target_err_rad p target) derr \<and>
      co_mode (fst (wc_compute p target allow now c)) =
        (if 0 < co_throttle (fst (wc_compute p target allow now c)) then ''DRIVE'' else ''BRAKE'')"
proof -
  obtain h where h: "cp_heading_deg p = Some h" using assms(1) by (auto simp: pose_usable_def)
  have near: "\<not> hypot (wp_x target - cp_x_mm p) (wp_y target - cp_y_mm p) / 10
      \<le> wp_position_tolerance_cm target + vl_stop_distance_cm (wc_limits c)"
    using assms(3) by (simp add: before_target_def)
  show ?thesis
    using assms(1,2) near
    by (simp add: wc_compute_def pose_usable_def target_err_rad_def Let_def split_def h)
      (intro exI conjI; (rule refl | linarith))
qed

text \<open>C18: the pipeline's controller drives exactly when it may. With sane limits and a waypoint of positive
  speed, the throttle is non-zero precisely when the pose is valid, has a heading and is fresh, driving is
  allowed and the car is still outside the braking distance of the target; it then lies in the band between
  the smallest throttle that moves the car and the allowed maximum. In every other case throttle and
  steering are both zero. The steering never leaves \<open>[-1, 1]\<close>.\<close>

theorem controller_drives_exactly_when_safe:
  assumes "sane_limits (wc_limits c)" "0 < wp_speed_cm_s target" "0 \<le> wp_position_tolerance_cm target"
    and "wc_compute p target allow now c = (out, c')"
  shows "(co_throttle out \<noteq> 0 \<longleftrightarrow>
      pose_usable (wc_limits c) p now \<and> allow \<and> before_target (wc_limits c) p target) \<and>
    (if co_throttle out = 0 then co_steering out = 0 else drive_band (wc_limits c) (co_throttle out)) \<and>
    (co_mode out = ''DRIVE'' \<longleftrightarrow> co_throttle out \<noteq> 0) \<and> \<bar>co_steering out\<bar> \<le> 1"
proof (cases "pose_usable (wc_limits c) p now \<and> allow \<and> before_target (wc_limits c) p target")
  case True
  then obtain s derr e d where
    d: "vl_stop_distance_cm (wc_limits c) + wp_position_tolerance_cm target < d"
    and t: "co_throttle out = wc_throttle (wc_limits c) s target d e"
    and st: "co_steering out = wc_steering (wc_limits c) (target_err_rad p target) derr"
    and m: "co_mode out = (if 0 < co_throttle out then ''DRIVE'' else ''BRAKE'')"
    using wc_compute_driving [of c p now allow target] assms(4) by auto
  have "drive_band (wc_limits c) (co_throttle out)"
    unfolding t using assms(1-3) d by (intro wc_throttle_band) auto
  moreover from this have "0 < co_throttle out" using assms(1) by (simp add: drive_band_def sane_limits_def)
  ultimately show ?thesis using True st m wc_steering_unit by simp
next
  case False
  then show ?thesis using wc_compute_unsafe [OF False] assms(4) by auto
qed

lemma VehicleLimits_sane: "sane_limits VehicleLimits"
  by (simp add: sane_limits_def VehicleLimits_def round_dec_def)

definition nose_pose :: cam_pose where
  "nose_pose = \<lparr>cp_x_mm = 0, cp_y_mm = 0, cp_heading_deg = Some 0, cp_timestamp = 0, cp_valid = True\<rparr>"

lemma controller_drives_exactly_when_safe_witness:
  "co_throttle (fst (wc_compute nose_pose (make_wp 1 1 CRUISE 500 0 None False) True 0 (wc_new VehicleLimits))) \<noteq> 0"
proof -
  have l: "wc_limits (wc_new VehicleLimits) = VehicleLimits" by (simp add: wc_new_def)
  have "pose_usable VehicleLimits nose_pose 0" "before_target VehicleLimits nose_pose (make_wp 1 1 CRUISE 500 0 None False)"
    "0 < wp_speed_cm_s (make_wp 1 1 CRUISE 500 0 None False)"
    "0 \<le> wp_position_tolerance_cm (make_wp 1 1 CRUISE 500 0 None False)"
    by (simp_all add: pose_usable_def before_target_def make_wp_def nose_pose_def VehicleLimits_def)
  then show ?thesis
    using controller_drives_exactly_when_safe
      [of "wc_new VehicleLimits" "make_wp 1 1 CRUISE 500 0 None False" nose_pose True 0, OF _ _ _ surjective_pairing]
      VehicleLimits_sane l by metis
qed

section \<open>The derivative term\<close>

text \<open>A stop forgets the derivative memory, so the first command after it steers by the error alone: in the
  direction of the target, with the sign the servo is wired.\<close>

lemma halted_forgets:
  assumes "wc_compute p target allow now c = (out, c')" "co_mode out = ''HOLD''"
  shows "wc_prev_err_rad c' = None"
  using assms by (auto simp: wc_compute_def wc_halt_def Let_def split_def split: option.splits if_splits)

lemma restart_without_kick:
  assumes "wc_compute p target allow now c = (out, c')" "co_mode out = ''HOLD''"
    and "pose_usable (wc_limits c) p2 now2" "before_target (wc_limits c) p2 target2"
  shows "co_steering (fst (wc_compute p2 target2 True now2 c')) =
    wc_steering (wc_limits c) (target_err_rad p2 target2) 0"
proof -
  have l: "wc_limits c' = wc_limits c" using wc_limits_compute assms(1) by (metis snd_conv)
  have "fst (wc_derivative (wc_update_speed p2 c') e n) = 0" for e n
    using halted_forgets [OF assms(1,2)] by (simp add: wc_derivative_def Let_def)
  then show ?thesis
    using wc_compute_driving [of c' p2 now2 True target2] assms(3,4) l by auto
qed

lemma steers_toward_target:
  assumes "0 \<le> vl_steer_kp vl" "0 < vl_max_steer_deg vl" "vl_steering_sign vl \<in> {1, - 1}"
  shows "0 \<le> vl_steering_sign vl * e * wc_steering vl e 0"
proof -
  define k where "k = vl_steer_kp vl / radians (vl_max_steer_deg vl)"
  have k: "0 \<le> k" using assms by (simp add: k_def radians_def)
  have w: "wc_steering vl e 0 = round_dec 4 (clamp (k * (vl_steering_sign vl * e)) (- 1) 1)"
    by (simp add: wc_steering_def k_def mult.commute mult.left_commute)
  show ?thesis
  proof (cases "0 \<le> vl_steering_sign vl * e")
    case True
    then have "0 \<le> k * (vl_steering_sign vl * e)" using k by simp
    then have "0 \<le> clamp (k * (vl_steering_sign vl * e)) (- 1) 1" unfolding clamp_def by auto
    then show ?thesis using mult_nonneg_nonneg [OF True round_dec_nonneg] unfolding w by blast
  next
    case False
    then have "k * (vl_steering_sign vl * e) \<le> 0" using k mult_nonneg_nonpos [of k "vl_steering_sign vl * e"] by simp
    then have "clamp (k * (vl_steering_sign vl * e)) (- 1) 1 \<le> 0" unfolding clamp_def by auto
    then show ?thesis using mult_nonpos_nonpos [OF _ round_dec_nonpos] False unfolding w by (metis linear)
  qed
qed

text \<open>The speed estimate is a convex mixture, so it stays between zero and the largest speed seen.\<close>

lemma speed_estimate_bounded:
  assumes "0 \<le> wc_speed_cm_s c" "wc_speed_cm_s c \<le> v"
    and "\<And>prev. wc_prev_pose c = Some prev \<Longrightarrow>
      hypot (cp_x_mm p - cp_x_mm prev) (cp_y_mm p - cp_y_mm prev) / 10 \<le> v * (cp_timestamp p - cp_timestamp prev)"
  shows "0 \<le> wc_speed_cm_s (wc_update_speed p c) \<and> wc_speed_cm_s (wc_update_speed p c) \<le> v"
proof (cases "wc_prev_pose c")
  case None
  then show ?thesis using assms(1,2) by (simp add: wc_update_speed_def)
next
  case (Some prev)
  define dt where "dt = cp_timestamp p - cp_timestamp prev"
  define step where "step = hypot (cp_x_mm p - cp_x_mm prev) (cp_y_mm p - cp_y_mm prev) / 10"
  have "0 \<le> step / dt \<and> step / dt \<le> v" if "\<not> dt \<le> 1 / 1000"
    using that assms(3) [OF Some, folded step_def dt_def] by (simp add: divide_le_eq step_def)
  then show ?thesis
    using assms(1,2)
    by (simp add: wc_update_speed_def Some Let_def flip: dt_def step_def) linarith
qed

end
