(* ===== verification/Pipeline.thy ===== *)
theory Pipeline
  imports Auto_Host Orchestrator Safety Allocator Vision Waypoint_Controller
begin

text \<open>
  \<open>integrated/host/pipeline/runner.py\<close>: the top of the host, which composes camera, allocation, missions, collision
  monitor, control and communication. The state holds the parts' states; a call gives the new state, what it
  emitted in order and the exception it ended with. Third-party code enters as parameters: the fit of the
  homography (OpenCV or an SVD) and the trained policy. \<open>now\<close> is \<open>time.monotonic()\<close>, taken once per call.
  Dashboard calls are emitted, log lines left out. A Python set of car ids is a sorted list: CPython iterates
  the small ids in that order.
\<close>

section \<open>Configuration and state\<close>

record pipeline_config =
  pc_homography_src :: "point list option"
  pc_lot_width_mm :: real
  pc_lot_height_mm :: real
  pc_bbox_offset_mm :: point
  pc_known_car_ids :: "int list"
  pc_camera_lead_cm :: real
  pc_heading_min_move_mm :: real
  pc_stationary_tolerance_mm :: real
  pc_stationary_window :: nat
  pc_entry_nodes :: "string list"
  pc_alloc_retry_frames :: int
  pc_auto_host :: bool  \<comment> \<open>\<open>control_mode == "auto-host"\<close>\<close>
  pc_direct_control :: bool
  pc_direct_control_set_mode :: bool
  pc_vehicle_limits :: vehicle_limits

definition PipelineConfig :: pipeline_config where
  "PipelineConfig =
     \<lparr>pc_homography_src = None, pc_lot_width_mm = 1200, pc_lot_height_mm = 1200, pc_bbox_offset_mm = (0, 0),
      pc_known_car_ids = [1, 2], pc_camera_lead_cm = 2, pc_heading_min_move_mm = 30,
      pc_stationary_tolerance_mm = 15, pc_stationary_window = 5, pc_entry_nodes = [''entrance''],
      pc_alloc_retry_frames = 10, pc_auto_host = False, pc_direct_control = False,
      pc_direct_control_set_mode = True, pc_vehicle_limits = VehicleLimits\<rparr>"

definition homography_pairs :: "pipeline_config \<Rightarrow> int \<Rightarrow> int \<Rightarrow> point list \<times> point list" where
  "homography_pairs cfg w h =
     ((case pc_homography_src cfg of
         Some src \<Rightarrow> src
       | None \<Rightarrow> [(0, 0), (of_int w, 0), (of_int w, of_int h), (0, of_int h)]),
      [(0, pc_lot_height_mm cfg), (pc_lot_width_mm cfg, pc_lot_height_mm cfg), (pc_lot_width_mm cfg, 0), (0, 0)])"

record vehicle_view =
  vv_track_id :: int
  vv_car_id :: "int option"
  vv_position_mm :: point
  vv_heading_deg :: "real option"
  vv_heading_source :: "string option"
  vv_confidence :: real
  vv_node :: "string option"
  vv_slot_id :: "string option"
  vv_last_seen_frame :: int
  vv_last_alloc_frame :: int
  vv_recent :: "point list"

definition view_new :: "int \<Rightarrow> vehicle_view" where
  "view_new t =
     \<lparr>vv_track_id = t, vv_car_id = None, vv_position_mm = (0, 0), vv_heading_deg = None, vv_heading_source = None,
      vv_confidence = 0, vv_node = None, vv_slot_id = None, vv_last_seen_frame = 0, vv_last_alloc_frame = - 10000,
      vv_recent = []\<rparr>"

definition take_last :: "nat \<Rightarrow> 'a list \<Rightarrow> 'a list" where
  "take_last n xs = (if n = 0 then xs else drop (length xs - n) xs)"

text \<open>\<open>list(self.recent)[-window:]\<close>, where a window of 0 takes the whole list. A seen view has a recent point, so
  \<open>pts[0]\<close> exists whenever it is reached.\<close>

definition is_stationary :: "real \<Rightarrow> nat \<Rightarrow> vehicle_view \<Rightarrow> bool" where
  "is_stationary tolerance_mm window v =
     (let pts = take_last window (vv_recent v)
      in if length pts < window then False
         else case pts of
           [] \<Rightarrow> False
         | p0 # rest \<Rightarrow> list_all (\<lambda>p. hypot (fst p - fst p0) (snd p - snd p0) \<le> tolerance_mm) rest)"

record pipeline =
  pl_orch :: orchestrator
  pl_server :: vehicle_server
  pl_allocator :: allocator
  pl_heading :: heading_estimator
  pl_homography :: "hmat option"
  pl_collision_held :: "int list"
  pl_comm_lost :: "int list"
  pl_controllers :: "int \<Rightarrow> waypoint_controller option"
  pl_last_control :: "int \<Rightarrow> control_output option"
  pl_mode_set :: "int list"
  pl_views :: "(int \<times> vehicle_view) list"
  pl_track_of_car :: "int \<Rightarrow> int option"
  pl_pending_cars :: "int list"
  pl_shells :: "int \<Rightarrow> shell option"
  pl_manual_shell_starting :: "int list"
  pl_threads :: "shell list"
  pl_hybrid_stopping :: bool

definition pipeline_new :: "pipeline_config \<Rightarrow> pipeline" where
  "pipeline_new cfg =
     \<lparr>pl_orch = orch_new (pc_camera_lead_cm cfg),
      pl_server = (server_new (pc_known_car_ids cfg))\<lparr>srv_direct_control_enabled := pc_direct_control cfg\<rparr>,
      pl_allocator = allocator_new, pl_heading = heading_new TRAJECTORY_WINDOW (pc_heading_min_move_mm cfg),
      pl_homography = None, pl_collision_held = [], pl_comm_lost = [], pl_controllers = (\<lambda>_. None),
      pl_last_control = (\<lambda>_. None), pl_mode_set = [], pl_views = [], pl_track_of_car = (\<lambda>_. None),
      pl_pending_cars = [], pl_shells = (\<lambda>_. None), pl_manual_shell_starting = [], pl_threads = [],
      pl_hybrid_stopping = False\<rparr>"

section \<open>Calls, their outputs and exceptions\<close>

datatype pipe_exn = OrchExn exn | VisionExn vision_error | RouteExn build_error | KeyErr | ShellExn shell_exn

datatype pipe_out = Orch orch_out | ServerOut server_out | DashEvent string int | DashPose int

type_synonym call = "pipeline \<times> pipe_out list \<times> pipe_exn option"

definition done_with :: "pipeline \<Rightarrow> call" where
  "done_with p = (p, [], None)"

definition followed_by :: "call \<Rightarrow> (pipeline \<Rightarrow> call) \<Rightarrow> call" where
  "followed_by c k = (case c of
       (p, out, Some e) \<Rightarrow> (p, out, Some e)
     | (p, out, None) \<Rightarrow> (case k p of (p', out', e) \<Rightarrow> (p', out @ out', e)))"

fun for_each :: "('a \<Rightarrow> pipeline \<Rightarrow> call) \<Rightarrow> 'a list \<Rightarrow> pipeline \<Rightarrow> call" where
  "for_each f [] p = done_with p"
| "for_each f (x # xs) p = followed_by (f x p) (for_each f xs)"

definition world_of :: "pipeline \<Rightarrow> world" where
  "world_of p = (pl_orch p, pl_server p)"

definition set_world :: "world \<Rightarrow> pipeline \<Rightarrow> pipeline" where
  "set_world w p = p\<lparr>pl_orch := fst w, pl_server := snd w\<rparr>"

definition mission_of :: "pipeline \<Rightarrow> int \<Rightarrow> mission option" where
  "mission_of p c = o_missions (pl_orch p) c"

definition view_of :: "pipeline \<Rightarrow> int \<Rightarrow> vehicle_view option" where
  "view_of p t = map_of (pl_views p) t"

definition set_view :: "vehicle_view \<Rightarrow> pipeline \<Rightarrow> pipeline" where
  "set_view v p = p\<lparr>pl_views := AList.update (vv_track_id v) v (pl_views p)\<rparr>"

section \<open>Callbacks\<close>

definition on_parked :: "int \<Rightarrow> string \<Rightarrow> pipeline \<Rightarrow> call" where
  "on_parked c slot p = (case set_slot_occupied slot True (pl_allocator p) of
       None \<Rightarrow> (p, [], Some (OrchExn ValueErr))
     | Some al \<Rightarrow>
         (p\<lparr>pl_allocator := (case pl_track_of_car p c of None \<Rightarrow> al | Some t \<Rightarrow> clear_route t al)\<rparr>,
          [DashEvent ''parked'' c], None))"

text \<open>A new route from where the car is now.\<close>

definition on_replan_required :: "real \<Rightarrow> int \<Rightarrow> pipeline \<Rightarrow> call" where
  "on_replan_required now c p =
     (case (Option.bind (pl_track_of_car p c) (view_of p), mission_of p c) of
        (Some v, Some m) \<Rightarrow>
          (case m_slot_id m of
             None \<Rightarrow> done_with p
           | Some slot \<Rightarrow>
               let node = (case vv_node v of Some n \<Rightarrow> Some n | None \<Rightarrow> position_to_node (vv_position_mm v));
                   (orch, route_id) = next_route_id (pl_orch p); p = p\<lparr>pl_orch := orch\<rparr>
               in case map_of default_slot_specs slot of
                    None \<Rightarrow> (p, [], Some KeyErr)
                  | Some spec \<Rightarrow>
                      (case build_waypoints spec route_id (map_option (\<lambda>n. [n]) node) of
                         Inl e \<Rightarrow> (p, [], Some (RouteExn e))
                       | Inr wps \<Rightarrow>
                           let p = p\<lparr>pl_controllers := (pl_controllers p)(c := map_option wc_reset (pl_controllers p c))\<rparr>;
                               (w, out, e) = regenerate now c wps (world_of p)
                           in (set_world w p, map Orch out, map_option OrchExn e)))
      | _ \<Rightarrow> done_with p)"

text \<open>The orchestrator calls back into the pipeline with its last statement.\<close>

fun orch_callback :: "real \<Rightarrow> orch_out \<Rightarrow> pipeline \<Rightarrow> call" where
  "orch_callback now (Net s) p = (p, [Orch (Net s)], None)"
| "orch_callback now (OnParked c slot) p = on_parked c slot p"
| "orch_callback now (OnReplanRequired c reason) p = on_replan_required now c p"

definition orch_call :: "real \<Rightarrow> (world \<Rightarrow> outcome) \<Rightarrow> pipeline \<Rightarrow> call" where
  "orch_call now f p = (case f (world_of p) of (w, out, e) \<Rightarrow>
     followed_by (for_each (orch_callback now) out (set_world w p)) (\<lambda>p. (p, [], map_option OrchExn e)))"

definition pl_on_comm_fail :: "int \<Rightarrow> pipeline \<Rightarrow> call" where
  "pl_on_comm_fail c p =
     (let p = p\<lparr>pl_comm_lost := insort_insert c (pl_comm_lost p)\<rparr>; (w, held) = mark_link_lost c (world_of p)
      in (set_world w p, [DashEvent ''comm_fail'' c], None))"

definition pl_on_comm_recovered :: "real \<Rightarrow> int \<Rightarrow> pipeline \<Rightarrow> call" where
  "pl_on_comm_recovered now c p =
     (if c \<notin> set (pl_comm_lost p) then done_with p
      else followed_by (p\<lparr>pl_comm_lost := remove1 c (pl_comm_lost p)\<rparr>, [DashEvent ''comm_recovered'' c], None)
             (on_replan_required now c))"

text \<open>Stopping a car's AUTO_HOST chain, if it has one: \<open>mux.stop()\<close>, then \<open>runner.stop()\<close>.\<close>

definition drop_shell :: "real \<Rightarrow> int \<Rightarrow> pipeline \<Rightarrow> pipeline" where
  "drop_shell now c p = (case pl_shells p c of
       None \<Rightarrow> p
     | Some sh \<Rightarrow>
         p\<lparr>pl_shells := (pl_shells p)(c := None), pl_server := snd (runner_stop (mux_stop now (sh, pl_server p)))\<rparr>)"

definition unbind :: "int \<Rightarrow> pipeline \<Rightarrow> pipeline" where
  "unbind c p =
     (let views = (case Option.bind (pl_track_of_car p c) (view_of p) of
            None \<Rightarrow> pl_views p
          | Some v \<Rightarrow> AList.update (vv_track_id v) (v\<lparr>vv_car_id := None, vv_slot_id := None\<rparr>) (pl_views p))
      in p\<lparr>pl_track_of_car := (pl_track_of_car p)(c := None), pl_views := views\<rparr>)"

definition pl_on_resync :: "real \<Rightarrow> int \<Rightarrow> pipeline \<Rightarrow> pipeline" where
  "pl_on_resync now c p =
     (let p = drop_shell now c (p\<lparr>pl_manual_shell_starting := remove1 c (pl_manual_shell_starting p)\<rparr>);
          p = p\<lparr>pl_orch := (pl_orch p)\<lparr>o_missions := (o_missions (pl_orch p))(c := None)\<rparr>,
                pl_comm_lost := remove1 c (pl_comm_lost p), pl_mode_set := remove1 c (pl_mode_set p),
                pl_controllers := (pl_controllers p)(c := None), pl_last_control := (pl_last_control p)(c := None)\<rparr>
      in unbind c p)"

definition hold_check_hook :: "(json \<Rightarrow> string) \<Rightarrow> int \<Rightarrow> pydict \<Rightarrow> string option" where
  "hold_check_hook lower_str c hello =
     (if lower_str (dget_or hello ''motor_stopped'' (JStr ''true'')) \<in> {''true'', ''1''} then None
      else Some ''MOTOR_NOT_CONFIRMED_STOPPED'')"

text \<open>A released vehicle joins the queue of cars the camera has yet to see.\<close>

definition enqueue_car :: "int \<Rightarrow> pipeline \<Rightarrow> pipeline" where
  "enqueue_car c p =
     (if c \<notin> set (pl_pending_cars p) \<and> pl_track_of_car p c = None
      then p\<lparr>pl_pending_cars := pl_pending_cars p @ [c]\<rparr> else p)"

definition pl_on_vehicle_ready :: "pipeline_config \<Rightarrow> real \<Rightarrow> int \<Rightarrow> pipeline \<Rightarrow> call" where
  "pl_on_vehicle_ready cfg now c p =
     (let p = enqueue_car c p
      in if pc_auto_host cfg then
           (if pl_shells p c = None \<and> c \<notin> set (pl_manual_shell_starting p) \<and> \<not> pl_hybrid_stopping p
            then done_with (p\<lparr>pl_manual_shell_starting := insort_insert c (pl_manual_shell_starting p)\<rparr>)
            else done_with p)
         else if pc_direct_control cfg \<and> pc_direct_control_set_mode cfg \<and> c \<notin> set (pl_mode_set p) then
           (case send_set_mode now c ''REMOTE_DIRECT'' (pl_server p) of
              Inl (Inl e) \<Rightarrow> done_with p
            | Inl (Inr e) \<Rightarrow> (p, [], Some (OrchExn ValueErr))
            | Inr (srv, out, n) \<Rightarrow>
                (p\<lparr>pl_server := srv, pl_mode_set := insort_insert c (pl_mode_set p)\<rparr>, map ServerOut out, None))
         else done_with p)"

section \<open>Shell threads\<close>

text \<open>The thread of \<open>_start_manual_shell\<close>: it builds a runner and sends the handshake, and, after its wait, registers
  the shell or drops it.\<close>

definition discard_starting :: "int \<Rightarrow> pipeline \<Rightarrow> pipeline" where
  "discard_starting c p = p\<lparr>pl_manual_shell_starting := remove1 c (pl_manual_shell_starting p)\<rparr>"

definition shell_thread_begin :: "real \<Rightarrow> int \<Rightarrow> pipeline \<Rightarrow> call" where
  "shell_thread_begin now c p = (case arm_begin now (runner_new c [], pl_server p) of
       ((sh, srv), out, None) \<Rightarrow> (p\<lparr>pl_server := srv, pl_threads := pl_threads p @ [sh]\<rparr>, map ServerOut out, None)
     | (w, out, Some e) \<Rightarrow> (discard_starting c (p\<lparr>pl_server := snd (runner_stop w)\<rparr>), map ServerOut out, None))"

definition shell_thread_end :: "real \<Rightarrow> nat \<Rightarrow> pipeline \<Rightarrow> call" where
  "shell_thread_end now i p =
     (if length (pl_threads p) \<le> i then done_with p
      else
        let sh = pl_threads p ! i; c = sh_car_id sh;
            p = p\<lparr>pl_threads := take i (pl_threads p) @ drop (Suc i) (pl_threads p)\<rparr>;
            (w, ok) = shell_ready now (sh, pl_server p)
        in if \<not> ok then done_with (discard_starting c (p\<lparr>pl_server := snd w\<rparr>))
           else if pl_hybrid_stopping p \<or> pl_shells p c \<noteq> None
             then done_with (discard_starting c (p\<lparr>pl_server := snd (abandon now w)\<rparr>))
           else done_with (discard_starting c
                  (p\<lparr>pl_server := snd w, pl_shells := (pl_shells p)(c \<mapsto> fst w)\<rparr>)))"

text \<open>\<open>waits\<close> is what the receive thread does to the new session while \<open>runner.start\<close> blocks.\<close>

definition activate_auto_host_mission ::
  "real \<Rightarrow> shell_event list \<Rightarrow> int \<Rightarrow> waypoint list \<Rightarrow> pipeline \<Rightarrow> call \<times> bool" where
  "activate_auto_host_mission now waits c wps p = (case pl_shells p c of
       None \<Rightarrow>
         (case arm_begin now (runner_new c wps, pl_server p) of
            (w, out, Some e) \<Rightarrow> ((p\<lparr>pl_server := snd (runner_stop w)\<rparr>, map ServerOut out, None), False)
          | (w, out, None) \<Rightarrow>
              (case runner_started now (foldl shell_step w waits) of
                 (w', True) \<Rightarrow> ((p\<lparr>pl_server := snd w', pl_shells := (pl_shells p)(c \<mapsto> fst w')\<rparr>, map ServerOut out, None), True)
               | (w', False) \<Rightarrow> ((p\<lparr>pl_server := snd w'\<rparr>, map ServerOut out, None), False)))
     | Some sh \<Rightarrow>
         let sh1 = load_waypoints wps sh;
             sh2 = (case sh_mux sh1 of None \<Rightarrow> set_mux mux_new sh1 | Some m \<Rightarrow> sh1);
             (w, e) = switch_to_auto now (sh2, pl_server p)
         in ((p\<lparr>pl_server := snd w, pl_shells := (pl_shells p)(c \<mapsto> fst w)\<rparr>, [], map_option ShellExn e), e = None))"

section \<open>One camera frame\<close>

record track_state =
  ts_frame_index :: int
  ts_detections :: "detection list"
  ts_frame_size :: "int \<times> int"

definition init_homography ::
  "pipeline_config \<Rightarrow> (point list \<times> point list \<Rightarrow> hmat option) \<Rightarrow> track_state \<Rightarrow> pipeline \<Rightarrow> call" where
  "init_homography cfg fit st p = (case ts_frame_size st of (w, h) \<Rightarrow>
     if w = 0 \<or> h = 0 then (p, [], Some (OrchExn RuntimeErr))
     else case fit (homography_pairs cfg w h) of
       None \<Rightarrow> (p, [], Some (OrchExn ValueErr))
     | Some m \<Rightarrow> done_with (p\<lparr>pl_homography := Some m\<rparr>))"

definition heading_from_pixels :: "hmat option \<Rightarrow> point \<Rightarrow> point \<Rightarrow> vision_error + real option" where
  "heading_from_pixels hm car_px front_px = (case hm of
       None \<Rightarrow> Inr None
     | Some h \<Rightarrow>
         (case warp_point h car_px of
            Inl e \<Rightarrow> Inl e
          | Inr c \<Rightarrow>
              (case warp_point h front_px of
                 Inl e \<Rightarrow> Inl e
               | Inr f \<Rightarrow>
                   if hypot (fst f - fst c) (snd f - snd c) < 1 / 10 ^ 6 then Inr None
                   else Inr (Some (direction_deg (fst f - fst c) (snd f - snd c))))))"

definition warp_now :: "pipeline \<Rightarrow> point \<Rightarrow> vision_error + point" where
  "warp_now p px = (case pl_homography p of None \<Rightarrow> Inl NotProjectable | Some h \<Rightarrow> warp_point h px)"

text \<open>\<open>_update_view\<close> of a detection with a track: the view first, then heading, node and allocator.\<close>

definition update_view ::
  "pipeline_config \<Rightarrow> int \<Rightarrow> detection \<Rightarrow> int \<Rightarrow> point option \<Rightarrow> pipeline \<Rightarrow> call" where
  "update_view cfg t det frame_index front_px p =
     (case warp_now p (center (dt_bbox det)) of
        Inl e \<Rightarrow> (p, [], Some (VisionExn e))
      | Inr m \<Rightarrow>
          let pos = (fst m + fst (pc_bbox_offset_mm cfg), snd m + snd (pc_bbox_offset_mm cfg));
              v = (case view_of p t of None \<Rightarrow> view_new t | Some v \<Rightarrow> v);
              v = v\<lparr>vv_position_mm := pos, vv_confidence := dt_confidence det, vv_last_seen_frame := frame_index,
                    vv_recent := push_bounded 8 pos (vv_recent v)\<rparr>;
              p = set_view v p
          in (case (case front_px of None \<Rightarrow> Inr None | Some px \<Rightarrow> map_sum id Some (warp_now p px)) of
                Inl e \<Rightarrow> (p, [], Some (VisionExn e))
              | Inr front_mm \<Rightarrow>
                  let (hr, he) = heading_update t pos front_mm (pl_heading p);
                      v = v\<lparr>vv_heading_deg := hr_heading_deg hr, vv_heading_source := hr_source hr,
                            vv_node := position_to_node pos\<rparr>
                  in done_with (set_view v
                       (p\<lparr>pl_heading := he, pl_allocator := al_update t pos (pl_allocator p)\<rparr>))))"

definition bind_car :: "vehicle_view \<Rightarrow> pipeline \<Rightarrow> pipeline \<times> int option" where
  "bind_car v p = (case vv_car_id v of
       Some c \<Rightarrow> (p, Some c)
     | None \<Rightarrow>
         (case pl_pending_cars p of
            [] \<Rightarrow> (p, None)
          | c # rest \<Rightarrow>
              (set_view (v\<lparr>vv_car_id := Some c\<rparr>)
                 (p\<lparr>pl_pending_cars := rest, pl_track_of_car := (pl_track_of_car p)(c \<mapsto> vv_track_id v)\<rparr>), Some c)))"

definition mission_active :: "pipeline_config \<Rightarrow> int \<Rightarrow> pipeline \<Rightarrow> bool" where
  "mission_active cfg c p =
     (if pc_auto_host cfg
      then c \<in> set (pl_manual_shell_starting p) \<or>
        (case pl_shells p c of None \<Rightarrow> False | Some sh \<Rightarrow> is_active (hc_mission (sh_host sh)))
      else mission_of p c \<noteq> None)"

text \<open>The start of a mission, and whether the caller goes on. A \<open>RuntimeError\<close> is caught: \<open>deferred\<close>.\<close>

definition begin_mission ::
  "pipeline_config \<Rightarrow> real \<Rightarrow> shell_event list \<Rightarrow> int \<Rightarrow> waypoint list \<Rightarrow> string \<Rightarrow> pipeline \<Rightarrow> call \<times> bool" where
  "begin_mission cfg now waits c wps slot p =
     (if pc_auto_host cfg then activate_auto_host_mission now waits c wps p
      else case start_mission now c wps (Some slot) (world_of p) of
        (w, out, None) \<Rightarrow> ((set_world w p, map Orch out, None), True)
      | (w, out, Some RuntimeErr) \<Rightarrow> ((set_world w p, map Orch out, None), False)
      | (w, out, Some e) \<Rightarrow> ((set_world w p, map Orch out, Some (OrchExn e)), False))"

definition ensure_mission ::
  "pipeline_config \<Rightarrow> policy option \<Rightarrow> real \<Rightarrow> (int \<Rightarrow> shell_event list) \<Rightarrow> int \<Rightarrow> int \<Rightarrow> pipeline \<Rightarrow> call" where
  "ensure_mission cfg loaded now waits frame_index t p = (case view_of p t of
       None \<Rightarrow> done_with p
     | Some v \<Rightarrow>
         if vv_slot_id v \<noteq> None then done_with p
         else if \<not> (\<exists>n \<in> set (pc_entry_nodes cfg). vv_node v = Some n) then done_with p
         else
           (case bind_car v p of
              (p, None) \<Rightarrow> done_with p
            | (p, Some c) \<Rightarrow>
                let v = (case view_of p t of Some v \<Rightarrow> v | None \<Rightarrow> v)
                in if mission_active cfg c p then done_with p
                   else if frame_index - vv_last_alloc_frame v < pc_alloc_retry_frames cfg then done_with p
                   else
                     let v = v\<lparr>vv_last_alloc_frame := frame_index\<rparr>;
                         p = set_view v p;
                         p = p\<lparr>pl_allocator := al_update t (vv_position_mm v) (pl_allocator p)\<rparr>
                     in (case allocate loaded t (pl_allocator p) of
                           None \<Rightarrow> (p, [], Some KeyErr)
                         | Some (al, None) \<Rightarrow> done_with (p\<lparr>pl_allocator := al\<rparr>)
                         | Some (al, Some slot) \<Rightarrow>
                             let (orch, route_id) = next_route_id (pl_orch p);
                                 p = p\<lparr>pl_allocator := al, pl_orch := orch\<rparr>
                             in (case map_of default_slot_specs slot of
                                   None \<Rightarrow> (p, [], Some KeyErr)
                                 | Some spec \<Rightarrow>
                                     (case build_waypoints spec route_id None of
                                        Inl e \<Rightarrow> (p, [], Some (RouteExn e))
                                      | Inr wps \<Rightarrow>
                                          (case begin_mission cfg now (waits c) c wps slot p of
                                             (call, False) \<Rightarrow> call
                                           | (call, True) \<Rightarrow>
                                               followed_by call (\<lambda>p.
                                                 (set_view (v\<lparr>vv_slot_id := Some slot\<rparr>) p,
                                                  [DashEvent ''slot_assigned'' c], None))))))))"

section \<open>Control and safety of one frame\<close>

definition reason_ok :: "pipeline \<Rightarrow> int \<Rightarrow> mission \<Rightarrow> bool" where
  "reason_ok p c m \<longleftrightarrow> m_state m = DRIVING \<and> c \<notin> set (pl_comm_lost p) \<and> c \<notin> set (pl_collision_held p)"

definition update_control :: "pipeline_config \<Rightarrow> real \<Rightarrow> vehicle_view \<Rightarrow> pipeline \<Rightarrow> call" where
  "update_control cfg now v p = (case vv_car_id v of
       None \<Rightarrow> done_with p
     | Some c \<Rightarrow>
         (case Option.bind (mission_of p c) (\<lambda>m. map_option (Pair m) (current m)) of
            None \<Rightarrow>
              done_with (p\<lparr>pl_server := stop_control c (pl_server p), pl_last_control := (pl_last_control p)(c := None)\<rparr>)
          | Some (m, target) \<Rightarrow>
              let ctrl = (case pl_controllers p c of None \<Rightarrow> wc_new (pc_vehicle_limits cfg) | Some k \<Rightarrow> k);
                  cpose = \<lparr>cp_x_mm = fst (vv_position_mm v), cp_y_mm = snd (vv_position_mm v),
                          cp_heading_deg = vv_heading_deg v, cp_timestamp = now, cp_valid = True\<rparr>;
                  (out, ctrl) = wc_compute cpose target (reason_ok p c m) now ctrl
              in done_with (p\<lparr>pl_controllers := (pl_controllers p)(c \<mapsto> ctrl),
                   pl_last_control := (pl_last_control p)(c \<mapsto> out),
                   pl_server := push_control c (Fin (co_throttle out)) (Fin (co_steering out)) (pl_server p)\<rparr>)))"

definition pushed_pose :: "int \<Rightarrow> vehicle_view \<Rightarrow> pipeline \<Rightarrow> pipeline" where
  "pushed_pose c v p = p\<lparr>pl_server := push_pose c (fst (vv_position_mm v) / 10) (snd (vv_position_mm v) / 10)
     (vv_heading_deg v) (vv_heading_source v) (vv_confidence v)
     (if vv_heading_source v = Some ''TRAJECTORY'' then 9 / 10 else 1 / 2) 0 (vv_heading_deg v \<noteq> None) (pl_server p)\<rparr>"

definition push_to_vehicle :: "pipeline_config \<Rightarrow> real \<Rightarrow> int \<Rightarrow> pipeline \<Rightarrow> call" where
  "push_to_vehicle cfg now t p = (case view_of p t of
       None \<Rightarrow> done_with p
     | Some v \<Rightarrow>
         (case vv_car_id v of
            None \<Rightarrow> done_with p
          | Some c \<Rightarrow>
              if pc_auto_host cfg then
                (case pl_shells p c of
                   None \<Rightarrow> done_with p
                 | Some sh \<Rightarrow>
                     (p\<lparr>pl_shells := (pl_shells p)(c \<mapsto>
                         mux_camera_pose (fst (vv_position_mm v)) (snd (vv_position_mm v)) (vv_heading_deg v) now sh)\<rparr>,
                      [DashPose c], None))
              else if (case mission_of p c of
                         None \<Rightarrow> False
                       | Some m \<Rightarrow> m_state m = PARKED_CHECK \<and>
                           \<not> is_stationary (pc_stationary_tolerance_mm cfg) (pc_stationary_window cfg) v)
              then done_with p
              else followed_by (p, [DashPose c], None) (\<lambda>p.
                   followed_by (orch_call now (update_pose now c (vv_position_mm v) (vv_heading_deg v)) p) (\<lambda>p.
                     let p = pushed_pose c v p
                     in if pc_direct_control cfg then update_control cfg now v p else done_with p))))"

definition moving_state :: "mission_state \<Rightarrow> bool" where
  "moving_state s \<longleftrightarrow> s \<noteq> HELD \<and> s \<noteq> DONE"

definition vehicle_pose_of :: "pipeline \<Rightarrow> int \<Rightarrow> vehicle_pose option" where
  "vehicle_pose_of p t = (case view_of p t of
       None \<Rightarrow> None
     | Some v \<Rightarrow>
         (case vv_car_id v of
            None \<Rightarrow> None
          | Some c \<Rightarrow>
              (case Option.bind (mission_of p c) (\<lambda>m. map_option (Pair m) (current m)) of
                 None \<Rightarrow> None
               | Some (m, wp) \<Rightarrow> Some
                   \<lparr>vp_car_id = c, vp_position = vv_position_mm v, vp_next_waypoint = Some wp,
                    vp_progress = real (m_index m) / real (max (length (m_waypoints m)) 1),
                    vp_is_moving = moving_state (m_state m)\<rparr>)))"

definition is_held :: "pipeline \<Rightarrow> int \<Rightarrow> bool" where
  "is_held p c \<longleftrightarrow> (case mission_of p c of None \<Rightarrow> False | Some m \<Rightarrow> m_state m = HELD)"

definition handle_risk :: "real \<Rightarrow> safety_event \<Rightarrow> pipeline \<Rightarrow> call" where
  "handle_risk now ev p =
     (let c = se_stop_car_id ev
      in if mission_of p c = None \<or> is_held p c then done_with p
         else if c \<in> set (pl_comm_lost p) then done_with p
         else if is_held p (se_keep_car_id ev) then done_with p
         else followed_by (orch_call now (hold now c ''COLLISION_RISK'') p) (\<lambda>p.
                (p\<lparr>pl_collision_held := insort_insert c (pl_collision_held p)\<rparr>, [DashEvent ''vehicle_hold'' c], None)))"

definition resume_one :: "real \<Rightarrow> int list \<Rightarrow> int \<Rightarrow> pipeline \<Rightarrow> call" where
  "resume_one now at_risk c p =
     (if c \<in> set at_risk then done_with p
      else if c \<in> set (pl_comm_lost p) then done_with p
      else
        let p = p\<lparr>pl_collision_held := remove1 c (pl_collision_held p)\<rparr>
        in if is_held p c
           then followed_by (orch_call now (resume now c) p) (\<lambda>p. (p, [DashEvent ''vehicle_resume'' c], None))
           else done_with p)"

definition resume_cleared :: "real \<Rightarrow> int list \<Rightarrow> pipeline \<Rightarrow> call" where
  "resume_cleared now at_risk p = for_each (resume_one now at_risk) (pl_collision_held p) p"

definition check_collisions :: "real \<Rightarrow> int list \<Rightarrow> pipeline \<Rightarrow> call" where
  "check_collisions now seen p =
     (let poses = List.map_filter (vehicle_pose_of p) seen
      in if length poses < 2 then resume_cleared now [] p
         else
           let events = check monitor_default poses
           in followed_by (for_each (handle_risk now) events p) (resume_cleared now (map se_stop_car_id events)))"

definition forget_stale :: "int \<Rightarrow> pipeline \<Rightarrow> pipeline" where
  "forget_stale frame_index p =
     (let stale = map fst (filter (\<lambda>(t, v). 60 < frame_index - vv_last_seen_frame v \<and> vv_car_id v = None) (pl_views p))
      in p\<lparr>pl_views := filter (\<lambda>(t, v). t \<notin> set stale) (pl_views p),
           pl_heading := fold heading_remove stale (pl_heading p),
           pl_allocator := fold remove_vehicle stale (pl_allocator p)\<rparr>)"

section \<open>The frame\<close>

definition prev_headings :: "pipeline \<Rightarrow> int \<Rightarrow> real option" where
  "prev_headings p t = Option.bind (view_of p t) vv_heading_deg"

text \<open>The detections of a frame that have a track, with the cushion paired with them, pairs first.\<close>

definition sightings ::
  "candidate list \<times> indexed list \<Rightarrow> (int \<times> detection \<times> point option) list" where
  "sightings r =
     List.map_filter (\<lambda>(s, car, cushion). map_option (\<lambda>t. (t, snd car, Some (center (dt_bbox (snd cushion)))))
         (dt_track_id (snd car))) (fst r)
     @ List.map_filter (\<lambda>car. map_option (\<lambda>t. (t, snd car, None)) (dt_track_id (snd car))) (snd r)"

definition on_frame ::
  "pipeline_config \<Rightarrow> (point list \<times> point list \<Rightarrow> hmat option) \<Rightarrow> policy option \<Rightarrow> real \<Rightarrow>
     (int \<Rightarrow> shell_event list) \<Rightarrow> track_state \<Rightarrow> pipeline \<Rightarrow> call" where
  "on_frame cfg fit loaded now waits st p =
     followed_by (if pl_homography p = None then init_homography cfg fit st p else done_with p) (\<lambda>p.
       case associate (ts_detections st) (prev_headings p) (Some (heading_from_pixels (pl_homography p))) of
         Inl e \<Rightarrow> (p, [], Some (VisionExn e))
       | Inr r \<Rightarrow>
           followed_by (for_each (\<lambda>(t, det, front). update_view cfg t det (ts_frame_index st) front) (sightings r) p) (\<lambda>p.
           followed_by (for_each (\<lambda>(t, det, front) p.
               followed_by (ensure_mission cfg loaded now waits (ts_frame_index st) t p) (push_to_vehicle cfg now t))
             (sightings r) p) (\<lambda>p.
           followed_by (check_collisions now (map fst (sightings r)) p) (\<lambda>p.
             done_with (forget_stale (ts_frame_index st) p)))))"

text \<open>\<open>run_camera\<close>: the tracker's loop does not catch, so the first exception ends it.\<close>

definition run_camera ::
  "pipeline_config \<Rightarrow> (point list \<times> point list \<Rightarrow> hmat option) \<Rightarrow> policy option \<Rightarrow>
     (real \<times> (int \<Rightarrow> shell_event list) \<times> track_state) list \<Rightarrow> pipeline \<Rightarrow> call" where
  "run_camera cfg fit loaded frames p =
     for_each (\<lambda>(now, waits, st). on_frame cfg fit loaded now waits st) frames p"

section \<open>The operator's calls\<close>

definition operator_switch ::
  "(shell_world \<Rightarrow> shell_world \<times> shell_exn option) \<Rightarrow> int \<Rightarrow> pipeline \<Rightarrow> call" where
  "operator_switch f c p = (case pl_shells p c of
       None \<Rightarrow> (p, [], Some (OrchExn RuntimeErr))
     | Some sh \<Rightarrow>
         (case f (sh, pl_server p) of (w, e) \<Rightarrow>
           (p\<lparr>pl_server := snd w, pl_shells := (pl_shells p)(c \<mapsto> fst w)\<rparr>, [], map_option ShellExn e)))"

definition pl_switch_to_manual :: "int \<Rightarrow> pipeline \<Rightarrow> call" where
  "pl_switch_to_manual = operator_switch switch_to_manual"

definition pl_switch_to_auto :: "real \<Rightarrow> int \<Rightarrow> pipeline \<Rightarrow> call" where
  "pl_switch_to_auto now = operator_switch (switch_to_auto now)"

definition set_manual_drive :: "int \<Rightarrow> real \<Rightarrow> real \<Rightarrow> pipeline \<Rightarrow> call" where
  "set_manual_drive c throttle wire_steering p = (case pl_shells p c of
       None \<Rightarrow> done_with p
     | Some sh \<Rightarrow> done_with (p\<lparr>pl_shells := (pl_shells p)(c \<mapsto> set_manual_wire throttle wire_steering sh)\<rparr>))"

text \<open>\<open>switch_to_manual\<close> does nothing in \<open>MANUAL_WASD\<close>, which is the guard of \<open>manual_stop\<close>.\<close>

definition manual_stop :: "int \<Rightarrow> pipeline \<Rightarrow> call" where
  "manual_stop c p =
     followed_by (pl_switch_to_manual c p) (\<lambda>p.
     followed_by (set_manual_drive c 0 0 p) (\<lambda>p.
       done_with (p\<lparr>pl_server := stop_control c (pl_server p)\<rparr>)))"

definition each_shell :: "(shell_world \<Rightarrow> shell_world) \<Rightarrow> int list \<Rightarrow> pipeline \<Rightarrow> pipeline" where
  "each_shell f = fold (\<lambda>c p. case pl_shells p c of
       None \<Rightarrow> p
     | Some sh \<Rightarrow> (case f (sh, pl_server p) of
         (sh', srv) \<Rightarrow> p\<lparr>pl_server := srv, pl_shells := (pl_shells p)(c \<mapsto> sh')\<rparr>))"

text \<open>Shells belong to known cars: the server greets no other.\<close>

definition pl_stop :: "real \<Rightarrow> pipeline \<Rightarrow> call" where
  "pl_stop now p =
     (let known = srv_known_car_ids (pl_server p); p = each_shell (mux_stop now) known (p\<lparr>pl_hybrid_stopping := True\<rparr>);
          p = each_shell runner_stop known p;
          (srv, out) = server_stop (pl_server p)
      in (p\<lparr>pl_server := srv, pl_shells := (\<lambda>_. None)\<rparr>, map ServerOut out, None))"

section \<open>What the server calls\<close>

text \<open>A callback reaches the pipeline's handler first and then the sessions attached to the server: the car's
  registered shell and the shells still being started.\<close>

definition react :: "int \<Rightarrow> (shell_world \<Rightarrow> shell_world) \<Rightarrow> pipeline \<Rightarrow> pipeline" where
  "react c f p =
     (let p1 = (case pl_shells p c of
            None \<Rightarrow> p
          | Some sh \<Rightarrow>
              (case f (sh, pl_server p) of (sh', srv) \<Rightarrow> p\<lparr>pl_shells := (pl_shells p)(c \<mapsto> sh'), pl_server := srv\<rparr>));
          (shs, srv) = foldl (\<lambda>(shs, srv) sh. case f (sh, srv) of (sh', srv') \<Rightarrow> (shs @ [sh'], srv'))
             ([], pl_server p1) (pl_threads p1)
      in p1\<lparr>pl_threads := shs, pl_server := srv\<rparr>)"

fun server_callback :: "pipeline_config \<Rightarrow> real \<Rightarrow> server_out \<Rightarrow> pipeline \<Rightarrow> call" where
  "server_callback cfg now (OnStatus c msg) p = orch_call now (on_vehicle_status now c msg) p"
| "server_callback cfg now (OnReady c) p = pl_on_vehicle_ready cfg now c p"
| "server_callback cfg now (OnResync c hello) p = done_with (react c (sh_on_resync c) (pl_on_resync now c p))"
| "server_callback cfg now (OnCommFail c msg) p =
     followed_by (pl_on_comm_fail c p) (\<lambda>p. done_with (react c (sh_on_comm_fail c) p))"
| "server_callback cfg now (OnCommRecovered c) p = pl_on_comm_recovered now c p"
| "server_callback cfg now (OnCommandRejected c result msg) p =
     followed_by (orch_call now (Orchestrator.on_command_rejected c result) p)
       (\<lambda>p. done_with (react c (\<lambda>(sh, srv). (sh_on_command_rejected c result sh, srv)) p))"
| "server_callback cfg now (OnCommandResult c n result msg) p =
     done_with (react c (\<lambda>(sh, srv). (on_command_result c n result sh, srv)) p)"
| "server_callback cfg now out p = (p, [ServerOut out], None)"

end
