(* ===== verification/Pipeline_Safety.thy ===== *)
theory Pipeline_Safety
  imports Pipeline
begin

text \<open>
  What the composed pipeline guarantees, and the interactions of its parts that go wrong: when a car may be
  driven, what a blind camera leaves behind, how a mission that could not start and a hold that cannot be
  released end, which car a track is bound to, and what a recovered link does to a parked car.
\<close>

section \<open>A car is driven only on a running mission\<close>

lemma push_control_stream:
  "stream_stopped c (push_control c (Fin t) (Fin s) srv) \<longleftrightarrow>
     active srv c = None \<or> fround 4 (wire_clamp (Fin t)) = Fin 0 \<and> fround 4 (wire_clamp (Fin s)) = Fin 0"
  by (auto simp: stream_stopped_def push_control_def active_def put_def make_direct_control_def Let_def
      split: option.splits)

definition controller_of :: "pipeline_config \<Rightarrow> pipeline \<Rightarrow> int \<Rightarrow> waypoint_controller" where
  "controller_of cfg p c = (case pl_controllers p c of None \<Rightarrow> wc_new (pc_vehicle_limits cfg) | Some k \<Rightarrow> k)"

text \<open>C2: the camera loop drives a car only on a running mission. After the control of a sighted car was updated,
  the stream the server repeats to it is zero, unless its mission is \<open>DRIVING\<close> towards a waypoint that is
  still outside the braking distance, its heading is known, its link is not lost and it is not held for a collision.\<close>

theorem controlled_only_while_driving:
  assumes "update_control cfg now v p = (p', out, e)" "vv_car_id v = Some c"
    and "\<not> stream_stopped c (pl_server p')"
  shows "\<exists>m wp. mission_of p c = Some m \<and> current m = Some wp \<and> m_state m = DRIVING \<and>
    c \<notin> set (pl_comm_lost p) \<and> c \<notin> set (pl_collision_held p) \<and> vv_heading_deg v \<noteq> None \<and>
    wp_position_tolerance_cm wp + vl_stop_distance_cm (wc_limits (controller_of cfg p c))
      < hypot (wp_x wp - fst (vv_position_mm v)) (wp_y wp - snd (vv_position_mm v)) / 10"
proof (cases "Option.bind (mission_of p c) (\<lambda>m. map_option (Pair m) (current m))")
  case None
  then have "pl_server p' = stop_control c (pl_server p)"
    using assms(1,2) by (auto simp: update_control_def done_with_def)
  then show ?thesis using assms(3) push_zero_stops by (simp add: stop_control_def)
next
  case (Some x)
  obtain m wp where x: "x = (m, wp)" by fastforce
  then have m: "mission_of p c = Some m" "current m = Some wp"
    using Some by (auto simp: bind_eq_Some_conv)
  define ctrl where "ctrl = controller_of cfg p c"
  define cp where "cp = \<lparr>cp_x_mm = fst (vv_position_mm v), cp_y_mm = snd (vv_position_mm v),
      cp_heading_deg = vv_heading_deg v, cp_timestamp = now, cp_valid = True\<rparr>"
  define o1 where "o1 = fst (wc_compute cp wp (reason_ok p c m) now ctrl)"
  have srv: "pl_server p' = push_control c (Fin (co_throttle o1)) (Fin (co_steering o1)) (pl_server p)"
    using assms(1,2) Some x
    by (auto simp: update_control_def done_with_def controller_of_def [symmetric] ctrl_def [symmetric] cp_def [symmetric] o1_def Let_def split_def)
  have "pose_usable (wc_limits ctrl) cp now \<and> reason_ok p c m \<and> before_target (wc_limits ctrl) cp wp"
  proof (rule ccontr)
    assume "\<not> ?thesis"
    from wc_compute_unsafe [OF this] have "co_throttle o1 = 0" "co_steering o1 = 0" by (simp_all add: o1_def)
    then show False using assms(3) push_zero_stops unfolding srv by simp
  qed
  then show ?thesis
    using m by (auto simp: reason_ok_def pose_usable_def before_target_def cp_def ctrl_def)
qed

text \<open>A car under way: connected, bound to a track at the origin, 50 cm before its waypoint.\<close>

definition lane_wp :: waypoint where "lane_wp = make_wp 1 1 CRUISE 500 0 None False"

definition lane_mission :: mission where
  "lane_mission = \<lparr>m_car_id = 1, m_route_id = 1, m_waypoints = [lane_wp], m_index = 0, m_state = DRIVING,
     m_slot_id = Some ''A4''\<rparr>"

definition lane_view :: vehicle_view where
  "lane_view = (view_new 7)\<lparr>vv_car_id := Some 1, vv_heading_deg := Some 0, vv_slot_id := Some ''A4''\<rparr>"

definition direct_config :: pipeline_config where
  "direct_config = PipelineConfig\<lparr>pc_direct_control := True\<rparr>"

definition lane_state :: pipeline where
  "lane_state = (pipeline_new direct_config)
     \<lparr>pl_orch := (orch_new 2)\<lparr>o_missions := (\<lambda>_. None)(1 \<mapsto> lane_mission)\<rparr>,
      pl_server := one_car\<lparr>srv_direct_control_enabled := True\<rparr>, pl_views := [(7, lane_view)],
      pl_track_of_car := (\<lambda>_. None)(1 \<mapsto> 7), pl_homography := Some ((1, 0, 0), (0, 1, 0), (0, 0, 1))\<rparr>"

lemma one_car_active: "\<exists>s. active one_car 1 = Some (0, s) \<and> vs_alive s \<and> vs_latest_control s = None \<and>
    rs_pending (vs_sender s) = None \<and> vs_session_id s = ''S'' \<and> vs_car_id s = 1"
  by (simp add: one_car_def open_session_def server_new_def active_def put_def new_session_def set_seq_start_def
      reliable_new_def Let_def)

lemma active_enabled [simp]: "active (srv\<lparr>srv_direct_control_enabled := b\<rparr>) c = active srv c"
  by (simp add: active_def split: option.split)

lemma lane_state_simps [simp]:
  "mission_of lane_state 1 = Some lane_mission" "pl_comm_lost lane_state = []" "pl_collision_held lane_state = []"
  "pl_controllers lane_state = (\<lambda>_. None)" "pl_server lane_state = one_car\<lparr>srv_direct_control_enabled := True\<rparr>"
  "pl_homography lane_state = Some ((1, 0, 0), (0, 1, 0), (0, 0, 1))" "pl_pending_cars lane_state = []"
  "pl_track_of_car lane_state 1 = Some 7" "view_of lane_state 7 = Some lane_view" "pl_shells lane_state = (\<lambda>_. None)"
  by (simp_all add: lane_state_def mission_of_def view_of_def pipeline_new_def)

lemma lane_mission_simps [simp]:
  "current lane_mission = Some lane_wp" "m_state lane_mission = DRIVING" "m_slot_id lane_mission = Some ''A4''"
  by (simp_all add: lane_mission_def current_def)

lemma lane_view_simps [simp]:
  "vv_car_id lane_view = Some 1" "vv_position_mm lane_view = (0, 0)" "vv_heading_deg lane_view = Some 0"
  "vv_track_id lane_view = 7"
  by (simp_all add: lane_view_def view_new_def)

lemma rounded_band_nonzero:
  assumes "22 / 100 \<le> t" "t \<le> 1"
  shows "fround 4 (wire_clamp (Fin t)) \<noteq> Fin 0"
proof -
  have "round_dec 4 (22 / 100) \<le> round_dec 4 t" using assms(1) by (rule round_dec_mono)
  moreover have "round_dec 4 (22 / 100) = 22 / 100" by (rule round_dec_grid [of _ _ 2200]) simp
  ultimately have "round_dec 4 t \<noteq> 0" by linarith
  moreover have "wire_clamp (Fin t) = Fin t" using assms by (simp add: wire_clamp_def)
  ultimately show ?thesis by simp
qed

lemma lane_driving: "\<not> stream_stopped 1 (pl_server (fst (update_control direct_config 0 lane_view lane_state)))"
proof -
  define cp where "cp = \<lparr>cp_x_mm = 0, cp_y_mm = 0, cp_heading_deg = Some 0, cp_timestamp = 0, cp_valid = True\<rparr>"
  define ctrl where "ctrl = wc_new VehicleLimits"
  have lim: "wc_limits ctrl = VehicleLimits" by (simp add: ctrl_def wc_new_def)
  have use: "pose_usable (wc_limits ctrl) cp 0" "before_target (wc_limits ctrl) cp lane_wp"
    unfolding lim by (simp_all add: pose_usable_def before_target_def cp_def lane_wp_def make_wp_def VehicleLimits_def)
  obtain s derr e d where d: "vl_stop_distance_cm VehicleLimits + wp_position_tolerance_cm lane_wp < d"
    and t: "co_throttle (fst (wc_compute cp lane_wp True 0 ctrl)) = wc_throttle VehicleLimits s lane_wp d e"
    using wc_compute_driving [OF use(1) _ use(2), of True] unfolding lim by auto
  have "drive_band VehicleLimits (co_throttle (fst (wc_compute cp lane_wp True 0 ctrl)))"
    unfolding t by (rule wc_throttle_band [OF VehicleLimits_sane]) (use d in \<open>simp_all add: lane_wp_def make_wp_def\<close>)
  moreover have "round_dec 4 (22 / 100) = 22 / 100" "round_dec 4 (45 / 100) = 45 / 100"
    by (rule round_dec_grid [of _ _ 2200], simp, rule round_dec_grid [of _ _ 4500], simp)
  ultimately have nz: "fround 4 (wire_clamp (Fin (co_throttle (fst (wc_compute cp lane_wp True 0 ctrl))))) \<noteq> Fin 0"
    by (intro rounded_band_nonzero) (simp_all add: drive_band_def VehicleLimits_def)
  have "pl_server (fst (update_control direct_config 0 lane_view lane_state)) =
      push_control 1 (Fin (co_throttle (fst (wc_compute cp lane_wp True 0 ctrl))))
        (Fin (co_steering (fst (wc_compute cp lane_wp True 0 ctrl)))) (one_car\<lparr>srv_direct_control_enabled := True\<rparr>)"
    by (simp add: update_control_def done_with_def reason_ok_def ctrl_def cp_def direct_config_def PipelineConfig_def
        Let_def split_def)
  then show ?thesis using nz one_car_active by (auto simp: push_control_stream)
qed

lemma controlled_only_while_driving_witness:
  "\<exists>m. mission_of lane_state 1 = Some m \<and> m_state m = DRIVING"
proof -
  obtain p' out e where u: "update_control direct_config 0 lane_view lane_state = (p', out, e)" by (metis prod.collapse)
  show ?thesis
    using controlled_only_while_driving [OF u, of 1] lane_driving by (auto simp: u)
qed

section \<open>A blind camera leaves the stream as it is\<close>

text \<open>The session \<open>r\<close> repeats the message \<open>m\<close> to its vehicle.\<close>

definition repeats :: "pydict \<Rightarrow> nat \<Rightarrow> nat \<Rightarrow> vehicle_server \<Rightarrow> bool" where
  "repeats m conn r srv \<longleftrightarrow> srv_direct_control_enabled srv \<and> r \<in> snd ` set (srv_sessions srv) \<and>
     (\<exists>s. srv_heap srv r = Some s \<and> vs_alive s \<and> vs_conn s = conn \<and> vs_latest_control s = Some m)"

lemma repeats_put:
  assumes "repeats m k r srv" "srv_heap srv r' = Some s"
    "vs_alive s' = vs_alive s" "vs_conn s' = vs_conn s" "vs_latest_control s' = vs_latest_control s"
  shows "repeats m k r (put r' s' srv)"
  using assms by (auto simp: repeats_def put_def)

lemma active_stored: "active srv c = Some (r, s) \<Longrightarrow> srv_heap srv r = Some s"
  by (auto simp: active_def split: option.splits)

lemma reliable_repeats:
  "repeats m k r srv \<Longrightarrow> reliable now c build srv = Inr (srv', out, n) \<Longrightarrow> repeats m k r srv'"
  by (auto simp: reliable_def session_of_def split: option.splits sum.splits if_splits
      intro!: repeats_put dest: active_stored)

lemma comm_fail_repeats: "repeats m k r srv \<Longrightarrow> repeats m k r (fst (comm_fail c info srv))"
  by (auto simp: comm_fail_def split: option.splits intro!: repeats_put dest: active_stored)

lemma sender_calls_repeats: "repeats m k r srv \<Longrightarrow> repeats m k r (fst (sender_calls c conn out srv))"
proof (induction c conn out srv rule: sender_calls.induct)
  case (3 c conn msg out st)
  obtain st1 o1 where f: "comm_fail c msg st = (st1, o1)" by fastforce
  then have "repeats m k r st1" using comm_fail_repeats [OF "3.prems"] by (metis fst_conv)
  then show ?case using "3.IH" f by (auto simp: Let_def split_def)
qed (auto simp: Let_def split_def)

lemma tick_session_repeats: "repeats m k r srv \<Longrightarrow> repeats m k r (fst (tick_session now r' srv))"
  by (auto simp: tick_session_def Let_def split_def split: option.splits
      intro!: comm_fail_repeats sender_calls_repeats repeats_put)

lemma heartbeat_repeats: "repeats m k r srv \<Longrightarrow> repeats m k r (fst (heartbeat_session r' srv))"
  by (auto simp: heartbeat_session_def Let_def split: option.splits intro!: repeats_put)

lemma for_sessions_repeats:
  assumes "\<And>r' st. repeats m k r st \<Longrightarrow> repeats m k r (fst (f r' st))"
  shows "repeats m k r srv \<Longrightarrow> repeats m k r (fst (for_sessions f rs srv))"
  by (induction rs arbitrary: srv) (auto simp: split_def Let_def intro: assms)

lemma stream_session_same: "fst (stream_session g r st) = st"
  by (auto simp: stream_session_def split: option.splits)

lemma for_streams: "r \<in> set rs \<Longrightarrow> repeats m k r st \<Longrightarrow>
    SafeSend k m \<in> set (snd (for_sessions (stream_session vs_latest_control) rs st))"
proof (induction rs arbitrary: st)
  case (Cons r' rs)
  show ?case
  proof (cases "r' = r")
    case True
    then have "snd (stream_session vs_latest_control r' st) = [SafeSend k m]"
      using Cons.prems(2) by (auto simp: stream_session_def repeats_def)
    then show ?thesis by (auto simp: split_def Let_def)
  next
    case False
    then show ?thesis using Cons by (auto simp: split_def Let_def stream_session_same)
  qed
qed simp

lemma tick_keeps_sending:
  assumes "repeats m k r srv" "now * 1000 - last_control_ms tt \<ge> CONTROL_INTERVAL TIMING"
    and "tick_iteration now tt srv = (srv', tt', out)"
  shows "SafeSend k m \<in> set out"
proof -
  let ?rs = "map snd (srv_sessions srv)"
  have r: "r \<in> set ?rs" using assms(1) by (auto simp: repeats_def)
  obtain st1 o1 where 1: "for_sessions (tick_session now) ?rs srv = (st1, o1)" by fastforce
  have k1: "repeats m k r st1"
    using for_sessions_repeats [of m k r "tick_session now", OF tick_session_repeats assms(1), of ?rs] 1 by simp
  obtain st2 o2 where 2: "(if now * 1000 - last_hb_ms tt \<ge> HEARTBEAT_INTERVAL TIMING
      then for_sessions heartbeat_session ?rs st1 else (st1, [])) = (st2, o2)" by fastforce
  have k2: "repeats m k r st2"
    using for_sessions_repeats [of m k r heartbeat_session, OF heartbeat_repeats k1, of ?rs] 2 k1 by (auto split: if_splits)
  then have "srv_direct_control_enabled st2" by (simp add: repeats_def)
  moreover have "SafeSend k m \<in> set (snd (for_sessions (stream_session vs_latest_control) ?rs st2))"
    using r k2 by (rule for_streams)
  ultimately show ?thesis
    using assms(2,3) 1 2 by (auto simp: tick_iteration_def Let_def split_def)
qed

lemma resume_repeats:
  "repeats m k r (snd w) \<Longrightarrow> resume now c w = (w', out, e) \<Longrightarrow> repeats m k r (snd w')"
  by (auto simp: resume_def after_send_def send_go_def set_mission_def split: option.splits sum.splits if_splits
      dest: reliable_repeats)

lemma resume_sends:
  assumes "resume now c w = (w', out, e)"
  shows "for_each (orch_callback t) out q = (q, map Orch out, None)"
proof -
  have "\<forall>x \<in> set out. \<exists>s. x = Net s" using resume_types [OF assms] by (auto simp: has_type_def split: orch_out.splits)
  then show ?thesis by (induction out arbitrary: q) (auto simp: done_with_def followed_by_def)
qed

lemma resume_one_repeats:
  assumes "repeats m k r (pl_server p)" "resume_one now at_risk c p = (p', out, e)"
  shows "repeats m k r (pl_server p')"
proof -
  obtain w o1 e1 where r: "resume now c (world_of (p\<lparr>pl_collision_held := remove1 c (pl_collision_held p)\<rparr>)) = (w, o1, e1)"
    by (metis prod.collapse)
  note r' = r [unfolded world_of_def, simplified]
  have "repeats m k r (snd w)" using resume_repeats [OF _ r] assms(1) by (simp add: world_of_def)
  then show ?thesis
    using assms
    by (auto simp: resume_one_def orch_call_def r' resume_sends [OF r] done_with_def followed_by_def set_world_def
        world_of_def Let_def split: if_splits option.splits)
qed

lemma for_each_keeps:
  assumes "\<And>x p p' out e. P p \<Longrightarrow> f x p = (p', out, e) \<Longrightarrow> x \<in> set xs \<Longrightarrow> P p'"
  shows "P p \<Longrightarrow> for_each f xs p = (p', out, e) \<Longrightarrow> P p'"
  using assms
proof (induction xs arbitrary: p p' out e)
  case (Cons x xs)
  obtain p1 o1 e1 where 1: "f x p = (p1, o1, e1)" by (metis prod.collapse)
  have p1: "P p1" using Cons.prems(3) [OF Cons.prems(1) 1] by simp
  obtain p2 o2 e2 where 2: "for_each f xs p1 = (p2, o2, e2)" by (metis prod.collapse)
  have "P p2" using Cons.IH [OF p1 2] Cons.prems(3) by (metis list.set_intros(2))
  then show ?case using Cons.prems(2) 1 2 p1 by (auto simp: followed_by_def split: option.splits)
qed (simp add: done_with_def)

lemma blind_frame_repeats:
  assumes "repeats m k r (pl_server p)" "ts_detections st = []" "on_frame cfg fit loaded now waits st p = (p', out, e)"
  shows "repeats m k r (pl_server p')"
proof -
  obtain p1 o1 e1 where 1: "(if pl_homography p = None then init_homography cfg fit st p else done_with p) = (p1, o1, e1)"
    by (metis prod.collapse)
  have r1: "repeats m k r (pl_server p1)"
    using 1 assms(1) by (auto simp: init_homography_def done_with_def split: if_splits prod.splits option.splits)
  obtain p2 o2 e2 where 2: "resume_cleared now [] p1 = (p2, o2, e2)" by (metis prod.collapse)
  have "repeats m k r (pl_server p2)"
    by (rule for_each_keeps [where P = "\<lambda>p. repeats m k r (pl_server p)", OF _ r1 2 [unfolded resume_cleared_def]])
      (rule resume_one_repeats)
  then show ?thesis
    using assms(2,3) 1 2 r1
    by (auto simp: on_frame_def associate_def labelled_def sightings_def check_collisions_def done_with_def
        followed_by_def forget_stale_def Let_def List.map_filter_def split: option.splits)
qed

text \<open>Only frames that show the car update its control: whatever control message the server was repeating to a live
  vehicle, it still repeats after any number of frames without a detection, at the next due tick, also when that
  tick finds the link silent past \<open>COMM_TIMEOUT\<close>.\<close>

lemma blind_camera_repeats:
  assumes "list_all (\<lambda>(now, waits, st). ts_detections st = []) frames" "repeats m conn r (pl_server p)"
    and "run_camera cfg fit loaded frames p = (p', out, e)"
    and "tick_iteration now tt (pl_server p') = (srv, tt', sent)" "now * 1000 - last_control_ms tt \<ge> CONTROL_INTERVAL TIMING"
  shows "SafeSend conn m \<in> set sent"
proof -
  have "repeats m conn r (pl_server p')"
    by (rule for_each_keeps [where P = "\<lambda>p. repeats m conn r (pl_server p)", OF _ assms(2) assms(3) [unfolded run_camera_def]])
      (use assms(1) blind_frame_repeats in \<open>fastforce simp: list_all_iff\<close>)
  then show ?thesis using assms(4,5) by (intro tick_keeps_sending)
qed

definition lane_driven :: pipeline where
  "lane_driven = fst (update_control direct_config 0 lane_view lane_state)"

lemma lane_driven_repeats:
  "\<exists>m conn r t s. repeats m conn r (pl_server lane_driven) \<and> make_direct_control 1 ''S'' 1 t s = m \<and>
     \<not> stream_stopped 1 (pl_server lane_driven)"
proof -
  obtain t st where srv: "pl_server lane_driven = push_control 1 t st (one_car\<lparr>srv_direct_control_enabled := True\<rparr>)"
    by (auto simp: lane_driven_def update_control_def done_with_def Let_def split_def)
  show ?thesis
    using lane_driving unfolding lane_driven_def [symmetric] srv
    by (simp add: one_car_def open_session_def server_new_def active_def put_def new_session_def set_seq_start_def
        reliable_new_def Let_def push_control_def repeats_def) blast
qed

section \<open>Missions that end up stuck\<close>

lemma send_waypoint_err: "load_current now c m w = (w', out, Some e) \<Longrightarrow> w' = w \<and> out = []"
  by (auto simp: load_current_def after_send_def split: option.splits sum.splits)

text \<open>A mission whose start was deferred is never started. When \<open>start_mission\<close> cannot send the first waypoint,
  the mission stays behind as \<open>IDLE\<close>; from then on \<open>_ensure_mission\<close> takes the car for one with an active mission
  and returns at once on every later frame, and poses, status messages, holds, resumes and lost links leave it \<open>IDLE\<close>.\<close>

theorem deferred_mission_never_retried:
  assumes "begin_mission cfg now waits c wps slot p = ((p', out, None), False)" "\<not> pc_auto_host cfg"
    and "view_of p' t = Some v" "vv_car_id v = Some c"
  shows "ensure_mission cfg loaded now' waits' frame t p' = done_with p' \<and>
    update_pose now' c pos h (world_of p') = (world_of p', [], None) \<and>
    on_vehicle_status now' c status (world_of p') = (world_of p', [], None) \<and>
    hold now' c reason (world_of p') = (world_of p', [], None) \<and>
    resume now' c (world_of p') = (world_of p', [], None) \<and>
    mark_link_lost c (world_of p') = (world_of p', False)"
proof -
  obtain w o1 where w: "start_mission now c wps (Some slot) (world_of p) = (w, o1, Some RuntimeErr)" "p' = set_world w p"
    using assms(1,2) by (auto simp: begin_mission_def split: prod.splits option.splits exn.splits)
  then have "wps \<noteq> []" by (auto simp: start_mission_def)
  then obtain m where m: "mission_of p' c = Some m" "m_state m = IDLE" "current m \<noteq> None"
    using w by (auto simp: start_mission_def Let_def mission_of_def set_world_def set_mission_def current_def
        dest!: send_waypoint_err)
  have ow: "o_missions (fst (world_of p')) c = Some m" using m(1) by (simp add: mission_of_def world_of_def)
  have "ensure_mission cfg loaded now' waits' frame t p' = done_with p'"
    using assms(2-4) m by (auto simp: ensure_mission_def bind_car_def mission_active_def Let_def split: if_splits)
  then show ?thesis
    using m ow by (auto simp: update_pose_def on_vehicle_status_def hold_def resume_def mark_link_lost_def Let_def split: option.splits)
qed

text \<open>The car of the lane without its session.\<close>

definition lane_offline :: pipeline where
  "lane_offline = lane_state\<lparr>pl_server := server_new []\<rparr>"

lemma deferred_mission_never_retried_witness:
  "(let p' = fst (fst (begin_mission direct_config 0 [] 1 [lane_wp] ''A4'' lane_offline))
    in ensure_mission direct_config None 1 (\<lambda>_. []) 100 7 p' = done_with p')"
proof -
  obtain p' out where b: "begin_mission direct_config 0 [] 1 [lane_wp] ''A4'' lane_offline = ((p', out, None), False)"
    and v: "view_of p' 7 = Some lane_view"
  proof (rule that)
    let ?p = "set_world (fst (start_mission 0 1 [lane_wp] (Some ''A4'') (world_of lane_offline))) lane_offline"
    show "begin_mission direct_config 0 [] 1 [lane_wp] ''A4'' lane_offline = ((?p, [], None), False)"
      by (simp add: begin_mission_def direct_config_def PipelineConfig_def start_mission_def load_current_def current_def
          send_waypoint_def reliable_def session_of_def active_def after_send_def world_of_def set_mission_def
          lane_offline_def server_new_def runtime_def)
    show "view_of ?p 7 = Some lane_view"
      using lane_state_simps(9) by (simp add: lane_offline_def view_of_def set_world_def)
  qed
  have "ensure_mission direct_config None 1 (\<lambda>_. []) 100 7 p' = done_with p'"
    using deferred_mission_never_retried [OF b _ v] by (simp add: direct_config_def PipelineConfig_def)
  then show ?thesis by (simp add: b)
qed

lemma is_held_iff: "is_held p c \<longleftrightarrow> (\<exists>m. mission_of p c = Some m \<and> m_state m = HELD)"
  by (auto simp: is_held_def split: option.splits)

text \<open>A hold that is lifted before the vehicle has acknowledged its \<open>WAIT\<close> is never lifted. The \<open>GO\<close> is refused
  while the \<open>WAIT\<close> is outstanding, so the exception leaves the camera loop; the car has by then left the set of cars
  held for a collision, its mission stays \<open>HELD\<close>, and no later check resumes it.\<close>

theorem early_resume_holds_forever:
  assumes "is_held p c" "Option.bind (mission_of p c) current \<noteq> None" "c \<notin> set (pl_comm_lost p)" "c \<notin> set at_risk"
    and "active (pl_server p) c = Some (r, s)" "vs_alive s" "rs_pending (vs_sender s) \<noteq> None"
    and "pl_collision_held p = c # others" "distinct (c # others)"
  shows "\<exists>p'. resume_cleared now at_risk p = (p', [], Some (OrchExn RuntimeErr)) \<and> is_held p' c \<and>
    c \<notin> set (pl_collision_held p')"
proof -
  obtain m where m: "mission_of p c = Some m" "m_state m = HELD" "current m \<noteq> None"
    using assms(1,2) by (auto simp: is_held_iff bind_eq_Some_conv)
  have "\<not> sender_accepts (vs_sender s) ''GO''"
    using assms(7) by (auto simp: sender_accepts_def split: option.splits)
  then have refused: "\<exists>e. rs_send now (make_go c sid 0 rid wid) (vs_sender s) = Inl e" for sid rid wid
    by (intro rs_send_refused) (simp add: msg_type_def make_go_def base_msg_def dget_or_def)
  have no_go: "\<exists>e. send_go now c rid wid (pl_server p) = Inl e" for rid wid
    using assms(5,6) refused [of "vs_session_id s" rid wid] by (auto simp: send_go_def reliable_def session_of_def)
  obtain wp where wp: "current m = Some wp" using m(3) by blast
  have r: "resume now c (world_of q) = (world_of q, [], Some RuntimeErr)"
    if "pl_orch q = pl_orch p" "pl_server q = pl_server p" for q
    using m(1,2) wp that no_go [of "m_route_id m" "wp_waypoint_id wp"]
    by (auto simp: resume_def after_send_def runtime_def world_of_def mission_of_def)
  have "resume_one now at_risk c p = (p\<lparr>pl_collision_held := others\<rparr>, [], Some (OrchExn RuntimeErr))"
    using assms(1,3,4,8,9) r [of "p\<lparr>pl_collision_held := others\<rparr>"]
    by (simp add: resume_one_def is_held_def mission_of_def orch_call_def followed_by_def done_with_def set_world_def world_of_def)
  then have "resume_cleared now at_risk p = (p\<lparr>pl_collision_held := others\<rparr>, [], Some (OrchExn RuntimeErr))"
    unfolding resume_cleared_def assms(8) by (simp add: followed_by_def)
  then show ?thesis using assms(1,9) by (simp add: is_held_def mission_of_def)
qed

section \<open>Cars and tracks after a reconnection\<close>

lemma drop_shell_simps [simp]:
  "pl_pending_cars (drop_shell now c p) = pl_pending_cars p" "pl_track_of_car (drop_shell now c p) = pl_track_of_car p"
  "pl_views (drop_shell now c p) = pl_views p"
  by (simp_all add: drop_shell_def split: option.split)

lemma resync_unbinds:
  assumes "pl_track_of_car p c = Some t" "view_of p t = Some v" "vv_track_id v = t"
  shows "pl_pending_cars (pl_on_resync now c p) = pl_pending_cars p \<and> pl_track_of_car (pl_on_resync now c p) c = None \<and>
    view_of (pl_on_resync now c p) t = Some (v\<lparr>vv_car_id := None, vv_slot_id := None\<rparr>)"
  using assms by (simp add: pl_on_resync_def unbind_def view_of_def Let_def update_conv')

text \<open>After a car reconnects, its number goes to the next new track at the entrance, not to its own. The resync
  unbinds it and the greeting queues it again: away from the entrance its own track is never bound again, while any
  unbound track that shows up first takes it, and its slot's route with it.\<close>

theorem reconnected_car_goes_to_next_track:
  assumes "pl_pending_cars p = []" "pl_track_of_car p c = Some t" "view_of p t = Some v" "vv_track_id v = t"
    and "pl_on_vehicle_ready cfg now c (pl_on_resync now c p) = (p', out, e)"
    and "\<not> (\<exists>n \<in> set (pc_entry_nodes cfg). vv_node v = Some n)" "vv_car_id u = None"
  shows "snd (bind_car u p') = Some c \<and> pl_track_of_car (fst (bind_car u p')) c = Some (vv_track_id u) \<and>
    ensure_mission cfg loaded now' waits f t p' = done_with p'"
proof -
  define q where "q = pl_on_resync now c p"
  have q: "pl_pending_cars q = []" "pl_track_of_car q c = None"
    "view_of q t = Some (v\<lparr>vv_car_id := None, vv_slot_id := None\<rparr>)"
    using resync_unbinds [OF assms(2-4)] assms(1) by (simp_all add: q_def)
  have p': "pl_pending_cars p' = [c]" "view_of p' t = view_of q t"
    using assms(5) q unfolding q_def [symmetric]
    by (auto simp: pl_on_vehicle_ready_def enqueue_car_def done_with_def view_of_def Let_def
        split: if_splits sum.splits)
  show ?thesis
    using p' q(3) assms(6,7) by (auto simp: bind_car_def ensure_mission_def set_view_def Let_def done_with_def)
qed

lemma one_car_pending:
  "\<exists>srv s. (\<exists>out n. send_wait 0 1 ''COLLISION_RISK'' 1 1 one_car = Inr (srv, out, n)) \<and> active srv 1 = Some (0, s) \<and>
     vs_alive s \<and> rs_pending (vs_sender s) \<noteq> None"
  by (simp add: one_car_def open_session_def server_new_def active_def put_def send_wait_def checked_send_def
      session_of_def reliable_def make_wait_def WAIT_REASONS_def rs_send_def set_seq_start_def reliable_new_def
      new_session_def Let_def)

text \<open>The car of the lane held for a collision, its \<open>WAIT\<close> on the way.\<close>

definition lane_held :: pipeline where
  "lane_held = lane_state\<lparr>pl_collision_held := [1],
     pl_orch := (orch_new 2)\<lparr>o_missions := (\<lambda>_. None)(1 \<mapsto> lane_mission\<lparr>m_state := HELD\<rparr>)\<rparr>,
     pl_server := (case send_wait 0 1 ''COLLISION_RISK'' 1 1 one_car of Inr (srv, out, n) \<Rightarrow> srv | Inl e \<Rightarrow> one_car)\<rparr>"

lemma early_resume_holds_forever_witness:
  "\<exists>p'. resume_cleared 1 [] lane_held = (p', [], Some (OrchExn RuntimeErr)) \<and> is_held p' 1"
proof -
  obtain srv s out n where s: "send_wait 0 1 ''COLLISION_RISK'' 1 1 one_car = Inr (srv, out, n)"
    "active srv 1 = Some (0, s)" "vs_alive s" "rs_pending (vs_sender s) \<noteq> None"
    using one_car_pending by blast
  have h: "pl_server lane_held = srv" "pl_collision_held lane_held = [1]" "pl_comm_lost lane_held = []"
    "mission_of lane_held 1 = Some (lane_mission\<lparr>m_state := HELD\<rparr>)"
    using lane_state_simps(2) by (simp_all add: lane_held_def s(1) mission_of_def)
  have "current (lane_mission\<lparr>m_state := HELD\<rparr>) = Some lane_wp" by (simp add: lane_mission_def current_def)
  then show ?thesis
    using early_resume_holds_forever [of lane_held 1 "[]" 0 s "[]" 1] s h by (auto simp: is_held_def)
qed

definition lane_middle :: pipeline where
  "lane_middle = set_view (lane_view\<lparr>vv_node := Some ''lane_pt_3''\<rparr>) lane_state"

lemma reconnected_car_goes_to_next_track_witness:
  "snd (bind_car (view_new 8) (fst (pl_on_vehicle_ready PipelineConfig 1 1 (pl_on_resync 1 1 lane_middle)))) = Some 1"
proof -
  obtain p' out e where r: "pl_on_vehicle_ready PipelineConfig 1 1 (pl_on_resync 1 1 lane_middle) = (p', out, e)"
    by (metis prod.collapse)
  have m: "pl_pending_cars lane_middle = []" "pl_track_of_car lane_middle 1 = Some 7"
    "view_of lane_middle 7 = Some (lane_view\<lparr>vv_node := Some ''lane_pt_3''\<rparr>)"
    by (simp_all add: lane_middle_def set_view_def view_of_def update_conv')
  have "pc_entry_nodes PipelineConfig = [''entrance'']" by (simp add: PipelineConfig_def)
  moreover have "vv_car_id (view_new 8) = None" by (simp add: view_new_def)
  ultimately show ?thesis
    using reconnected_car_goes_to_next_track [OF m _ r, of "view_new 8"] by (simp add: r)
qed

section \<open>A recovered link replans whatever the mission does\<close>

lemma regenerate_sent:
  assumes "regenerate now c wps w = (w', out, None)" "o_missions (fst w) c = Some m"
  shows "wps \<noteq> [] \<and> o_missions (fst w') c = Some (m\<lparr>m_route_id := wp_route_id (hd wps), m_waypoints := wps,
      m_index := 0, m_state := LOADING\<rparr>) \<and> (\<exists>x. out = [x] \<and> has_type ''WAYPOINT'' x)"
  using assms
  by (auto simp: regenerate_def Let_def load_current_def after_send_def set_mission_def has_type_def
      split: if_splits option.splits sum.splits dest!: send_waypoint_out)

lemma replanned:
  assumes "on_replan_required now c p = (p', out, None)" "pl_track_of_car p c = Some t" "view_of p t = Some v"
    and "mission_of p c = Some m" "m_slot_id m = Some slot"
  shows "\<exists>spec rid wps x. map_of default_slot_specs slot = Some spec \<and>
      build_waypoints spec rid (map_option (\<lambda>n. [n]) (case vv_node v of Some n \<Rightarrow> Some n | None \<Rightarrow> position_to_node (vv_position_mm v)))
        = Inr wps \<and> wps \<noteq> [] \<and>
      mission_of p' c = Some (m\<lparr>m_route_id := wp_route_id (hd wps), m_waypoints := wps, m_index := 0, m_state := LOADING\<rparr>) \<and>
      out = [Orch x] \<and> has_type ''WAYPOINT'' x"
proof -
  obtain orch rid where r: "next_route_id (pl_orch p) = (orch, rid)" by fastforce
  then have orch: "o_missions orch c = Some m" using assms(4) by (auto simp: next_route_id_def mission_of_def)
  define node where "node = (case vv_node v of Some n \<Rightarrow> Some n | None \<Rightarrow> position_to_node (vv_position_mm v))"
  obtain spec wps where sw: "map_of default_slot_specs slot = Some spec"
      "build_waypoints spec rid (map_option (\<lambda>n. [n]) node) = Inr wps"
    using assms r by (auto simp: on_replan_required_def Let_def node_def [symmetric] split: option.splits sum.splits)
  obtain w o1 e1 where g: "regenerate now c wps (orch, pl_server p) = (w, o1, e1)" by (metis prod.collapse)
  have p': "p' = set_world w (p\<lparr>pl_orch := orch, pl_controllers := (pl_controllers p)(c := map_option wc_reset (pl_controllers p c))\<rparr>)"
      "out = map Orch o1" "e1 = None"
    using assms r sw g by (auto simp: on_replan_required_def Let_def node_def [symmetric] world_of_def)
  then obtain x where "wps \<noteq> []" "has_type ''WAYPOINT'' x" "o1 = [x]" "o_missions (fst w) c = Some (m\<lparr>m_route_id :=
      wp_route_id (hd wps), m_waypoints := wps, m_index := 0, m_state := LOADING\<rparr>)"
    using regenerate_sent [of now c wps "(orch, pl_server p)" w o1 m] g orch by auto
  then show ?thesis
    using p' sw by (intro exI [of _ spec] exI [of _ rid] exI [of _ wps] exI [of _ x])
      (simp add: node_def mission_of_def set_world_def)
qed

text \<open>A link that fails and recovers drives a parked car again. A lost link leaves a mission that is \<open>DONE\<close>
  as it is, but the recovery replans it all the same: the car standing in its slot gets a fresh route to the
  slot, its mission goes back to \<open>LOADING\<close> and a \<open>WAYPOINT\<close> is on the wire.\<close>

theorem recovered_link_redrives_parked_car:
  assumes "mission_of p c = Some m" "m_state m = DONE" "m_slot_id m = Some slot"
    and "pl_track_of_car p c = Some t" "view_of p t = Some v"
    and "pl_on_comm_fail c p = (p1, out1, e1)" "pl_on_comm_recovered now c p1 = (p2, out2, None)"
  shows "mission_of p1 c = Some m \<and> (\<exists>m' x. mission_of p2 c = Some m' \<and> m_state m' = LOADING \<and> m_index m' = 0 \<and>
    m_slot_id m' = Some slot \<and> current m' \<noteq> None \<and> Orch x \<in> set out2 \<and> has_type ''WAYPOINT'' x)"
proof -
  have p1: "p1 = p\<lparr>pl_comm_lost := insort_insert c (pl_comm_lost p)\<rparr>"
    using assms(1,2,6) by (auto simp: pl_on_comm_fail_def mark_link_lost_def mission_of_def world_of_def set_world_def Let_def)
  define q where "q = p1\<lparr>pl_comm_lost := remove1 c (pl_comm_lost p1)\<rparr>"
  have q: "mission_of q c = Some m" "pl_track_of_car q c = Some t" "view_of q t = Some v"
    using assms(1,4,5) by (simp_all add: q_def p1 mission_of_def view_of_def)
  have lost: "c \<in> set (pl_comm_lost p1)" by (simp add: p1 set_insort_insert)
  obtain out where rep: "on_replan_required now c q = (p2, out, None)" and out2: "out2 = DashEvent ''comm_recovered'' c # out"
    using assms(7) lost
    by (auto simp: pl_on_comm_recovered_def q_def [symmetric] followed_by_def split: prod.splits option.splits)
  show ?thesis
    using replanned [OF rep q(2,3,1) assms(3)] assms(1,3) out2 by (auto simp: current_def p1 mission_of_def)
qed

definition lane_parked :: pipeline where
  "lane_parked = (set_view (lane_view\<lparr>vv_node := Some ''entrance''\<rparr>) lane_state)
     \<lparr>pl_orch := (orch_new 2)\<lparr>o_missions := (\<lambda>_. None)(1 \<mapsto> lane_mission\<lparr>m_state := DONE\<rparr>)\<rparr>\<rparr>"

lemma lane_parked_simps:
  "view_of lane_parked 7 = Some (lane_view\<lparr>vv_node := Some ''entrance''\<rparr>)" "pl_track_of_car lane_parked 1 = Some 7"
  "mission_of lane_parked 1 = Some (lane_mission\<lparr>m_state := DONE\<rparr>)" "pl_comm_lost lane_parked = []"
  by (simp_all add: lane_parked_def set_view_def view_of_def update_conv' mission_of_def lane_state_simps(2))

lemma a4_spec: "map_of default_slot_specs ''A4'' =
    Some \<lparr>ss_slot_id = ''A4'', ss_center_x = 1100, ss_center_y = 150, ss_target_heading_deg = 270,
      ss_width = 200, ss_length = 300, ss_entry_side = TOP\<rparr>"
  by (simp add: default_slot_specs_def SLOT_COORDINATES_def)

lemma one_car_waypoint:
  "\<exists>srv out n. send_waypoint 1 1 msg (srv_clear_outstanding 1 (one_car\<lparr>srv_direct_control_enabled := True\<rparr>)) = Inr (srv, out, n)"
proof -
  obtain s where s: "active one_car 1 = Some (0, s)" "vs_alive s" using one_car_active by blast
  let ?srv = "srv_clear_outstanding 1 (one_car\<lparr>srv_direct_control_enabled := True\<rparr>)"
  let ?s = "s\<lparr>vs_sender := clear_pending (vs_sender s)\<rparr>"
  have "active ?srv 1 = Some (0, ?s)"
    using s(1) by (auto simp: srv_clear_outstanding_def active_def put_def split: option.splits)
  moreover have "sender_accepts (vs_sender ?s) t" for t by (simp add: sender_accepts_def clear_pending_def)
  ultimately show ?thesis using s(2) by (simp add: send_waypoint_def reliable_def session_of_def rs_send_accepted)
qed

lemma lane_parked_recovers:
  "\<exists>p1 o1 e1 p2 o2. pl_on_comm_fail 1 lane_parked = (p1, o1, e1) \<and> pl_on_comm_recovered 1 1 p1 = (p2, o2, None)"
proof -
  obtain srv out n where "send_waypoint 1 1 (to_wire (make_wp 1 1 APPROACH 1100 570 None False))
      (srv_clear_outstanding 1 (one_car\<lparr>srv_direct_control_enabled := True\<rparr>)) = Inr (srv, out, n)"
    using one_car_waypoint by blast
  moreover have "view_of lane_parked 7 = Some (lane_view\<lparr>vv_node := Some ''entrance''\<rparr>)"
    by (simp add: lane_parked_def set_view_def view_of_def update_conv')
  moreover have "m_car_id lane_mission = 1" by (simp add: lane_mission_def)
  moreover have "mission_of lane_parked 1 = Some (lane_mission\<lparr>m_state := DONE\<rparr>)" "pl_track_of_car lane_parked 1 = Some 7"
    "pl_server lane_parked = one_car\<lparr>srv_direct_control_enabled := True\<rparr>" "o_route_counter (pl_orch lane_parked) = 0"
    by (simp_all add: lane_parked_def mission_of_def set_view_def orch_new_def)
  ultimately show ?thesis
    by (simp add: pl_on_comm_fail_def pl_on_comm_recovered_def mark_link_lost_def followed_by_def on_replan_required_def
        mission_of_def view_of_def world_of_def set_world_def a4_spec build_waypoints_def approach_y_def entry_y_def
        dir_y_def next_route_id_def regenerate_def load_current_def current_def after_send_def set_insort_insert Let_def)
qed

lemma recovered_link_redrives_parked_car_witness:
  "\<exists>m. mission_of (fst (pl_on_comm_recovered 1 1 (fst (pl_on_comm_fail 1 lane_parked)))) 1 = Some m \<and> m_state m = LOADING"
proof -
  obtain p1 o1 e1 p2 o2 where r: "pl_on_comm_fail 1 lane_parked = (p1, o1, e1)" "pl_on_comm_recovered 1 1 p1 = (p2, o2, None)"
    using lane_parked_recovers by blast
  note v = lane_parked_simps
  show ?thesis
    using recovered_link_redrives_parked_car [OF v(3) _ _ v(2,1) r, of "''A4''"] r by auto
qed

section \<open>A route from one node\<close>

definition in_slot :: "string \<Rightarrow> point \<Rightarrow> bool" where
  "in_slot slot q \<longleftrightarrow> (case map_of default_slot_specs slot of
       None \<Rightarrow> False
     | Some s \<Rightarrow> \<bar>fst q - ss_center_x s\<bar> < ss_width s / 2 \<and> \<bar>snd q - ss_center_y s\<bar> < ss_length s / 2)"

definition crosses :: "point \<Rightarrow> point \<Rightarrow> string \<Rightarrow> bool" where
  "crosses a b slot \<longleftrightarrow> (\<exists>s \<in> {0..1}. in_slot slot (fst a + s * (fst b - fst a), snd a + s * (snd b - snd a)))"

text \<open>Where a car is sent first.\<close>

definition first_target :: "pipeline \<Rightarrow> int \<Rightarrow> point option" where
  "first_target p c = map_option (\<lambda>w. (wp_x w, wp_y w)) (Option.bind (mission_of p c) current)"

lemma build_from_one_node:
  "map_of default_slot_specs ''A4'' = Some spec \<Longrightarrow> build_waypoints spec rid (Some [n]) = Inr wps \<Longrightarrow>
     (wp_x (hd wps), wp_y (hd wps)) = (1100, 570)"
  by (auto simp: a4_spec build_waypoints_def approach_y_def entry_y_def dir_y_def make_wp_def Let_def)

text \<open>A route replanned at the entrance cuts through parking space. \<open>_on_replan_required\<close> gives
  \<open>build_waypoints\<close> the car's node as the whole route, so no lane node remains: a car at the entrance bound for A4 is
  sent straight to A4's approach point, through slot A1.\<close>

theorem replan_cuts_through_slot:
  assumes "on_replan_required now c p = (p', out, None)" "pl_track_of_car p c = Some t" "view_of p t = Some v"
    and "vv_node v = Some ''entrance''" "mission_of p c = Some m" "m_slot_id m = Some ''A4''"
  shows "\<exists>q entrance. first_target p' c = Some q \<and> node_at ''entrance'' = Some entrance \<and> crosses entrance q ''A1''"
proof -
  obtain spec rid wps where r: "map_of default_slot_specs ''A4'' = Some spec"
      "build_waypoints spec rid (Some [''entrance'']) = Inr wps" "wps \<noteq> []"
      "mission_of p' c = Some (m\<lparr>m_route_id := wp_route_id (hd wps), m_waypoints := wps, m_index := 0, m_state := LOADING\<rparr>)"
    using replanned [OF assms(1-3,5,6)] assms(4) by auto
  have "first_target p' c = Some (1100, 570)"
    using build_from_one_node [OF r(1,2)] r(3,4) by (simp add: first_target_def current_def hd_conv_nth)
  moreover have "crosses (150, 100) (1100, 570) ''A1''"
    unfolding crosses_def by (rule bexI [of _ "275 / 950"]) (simp_all add: in_slot_def default_slot_specs_def SLOT_COORDINATES_def)
  moreover have "node_at ''entrance'' = Some (150, 100)" by (simp add: node_at_def NODE_COORDINATES_def)
  ultimately show ?thesis by simp
qed

lemma replan_cuts_through_slot_witness:
  "\<exists>q. first_target (fst (pl_on_comm_recovered 1 1 (fst (pl_on_comm_fail 1 lane_parked)))) 1 = Some q \<and>
     crosses (150, 100) q ''A1''"
proof -
  obtain p1 o1 e1 p2 o2 where r: "pl_on_comm_fail 1 lane_parked = (p1, o1, e1)" "pl_on_comm_recovered 1 1 p1 = (p2, o2, None)"
    using lane_parked_recovers by blast
  note v = lane_parked_simps
  have p1: "p1 = lane_parked\<lparr>pl_comm_lost := [1]\<rparr>"
    using r(1) v(3) by (auto simp: pl_on_comm_fail_def mark_link_lost_def mission_of_def world_of_def set_world_def Let_def
        lane_parked_def set_view_def lane_state_simps(2) insort_insert_key_def)
  obtain out where o: "on_replan_required 1 1 (p1\<lparr>pl_comm_lost := []\<rparr>) = (p2, out, None)"
    using r(2) by (auto simp: p1 pl_on_comm_recovered_def followed_by_def split: prod.splits option.splits)
  have "\<exists>q entrance. first_target p2 1 = Some q \<and> node_at ''entrance'' = Some entrance \<and> crosses entrance q ''A1''"
    using replan_cuts_through_slot [OF o, of 7 "lane_view\<lparr>vv_node := Some ''entrance''\<rparr>" "lane_mission\<lparr>m_state := DONE\<rparr>"] v
    by (simp add: p1 view_of_def mission_of_def)
  then show ?thesis using r by (auto simp: node_at_def NODE_COORDINATES_def)
qed

section \<open>A faulted manual shell\<close>

lemma tick_keeps_fault:
  "tick h now obs man = Some (r, h') \<Longrightarrow> auth_state (hc_authority h) = FAULTED \<Longrightarrow> hc_authority h' = hc_authority h"
  using tick_zero_command [of h now obs man r h'] by (simp add: host_still_def is_driving_allowed_def)

text \<open>A car whose manual shell has faulted cannot be given a mission, and the attempt raises. When a link fault has
  latched the shell's authority, the start of the car's mission tries to disarm it; \<open>_activate_auto_host_mission\<close>
  handles the failures of a new runner only, so the \<open>AuthorityError\<close> leaves it, and nothing up to the camera loop
  catches it.\<close>

theorem faulted_shell_raises:
  assumes "pl_shells p c = Some sh" "auth_state (hc_authority (sh_host sh)) = FAULTED"
    and "sh_mux sh = Some m" "mx_mode m = MX_MANUAL_WASD"
  shows "\<exists>p'. activate_auto_host_mission now waits c wps p = ((p', [], Some (ShellExn (AuthorityExn Use_clear_fault))), False)"
proof -
  define sh2 where "sh2 = set_mux (m\<lparr>mx_manual := neutral\<rparr>) (load_waypoints wps sh)"
  have f: "auth_state (hc_authority (sh_host sh2)) = FAULTED" using assms(2) by (simp add: sh2_def load_waypoints_def)
  obtain r h where t: "tick (sh_host sh2) now None (Some neutral) = Some (r, h)"
    and fw: "fst (host_tick now (Some neutral) (sh2, pl_server p)) = set_host h sh2"
    using fst_host_tick [of now "Some neutral" "(sh2, pl_server p)"] by auto
  have fh: "auth_state (hc_authority h) = FAULTED" using tick_keeps_fault [OF t f] f by simp
  have mux: "sh_mux (load_waypoints wps sh) = Some m" using assms(3) by (simp add: load_waypoints_def)
  have "\<exists>w. switch_to_auto now (load_waypoints wps sh, pl_server p) = (w, Some (AuthorityExn Use_clear_fault))"
    using mux assms(4) fw faulted_refuses(1) [OF fh]
    by (simp add: switch_to_auto_def sh2_def [symmetric] Let_def split_def)
  then show ?thesis using assms(1) mux by (auto simp: activate_auto_host_mission_def Let_def)
qed

definition faulted_car :: pipeline where
  "faulted_car = (pipeline_new PipelineConfig)\<lparr>pl_shells := (\<lambda>_. None)
     (1 \<mapsto> fst (shell_run 1 [] one_car (handshake_run @ [CommFailCb 1])))\<rparr>"

lemma faulted_shell_raises_witness:
  "\<exists>p'. activate_auto_host_mission 1 [] 1 [lane_wp] faulted_car = ((p', [], Some (ShellExn (AuthorityExn Use_clear_fault))), False)"
proof -
  define w where "w = shell_run 1 [] one_car handshake_run"
  obtain m where m: "sh_mux (fst w) = Some m" "mx_mode m = MX_MANUAL_WASD"
    using handshake_manual by (auto simp: w_def mode_is_def split: option.splits)
  have run: "shell_run 1 [] one_car (handshake_run @ [CommFailCb 1]) = sh_on_comm_fail 1 w"
    by (simp add: w_def shell_run_snoc)
  have "sh_car_id (fst w) = 1" by (simp add: w_def)
  then have "sh_mux (fst (sh_on_comm_fail 1 w)) = Some m" "auth_state (hc_authority (sh_host (fst (sh_on_comm_fail 1 w)))) = FAULTED"
    using m by (simp_all add: sh_on_comm_fail_def fault_shell_def host_fault_def authority_defs Let_def split_def)
  then show ?thesis
    using m(2) by (intro faulted_shell_raises) (simp_all add: faulted_car_def run)
qed

end
