(* ===== verification/Bindings.thy ===== *)
theory Bindings
  imports Pipeline
begin

text \<open>
  Which car is on which track. The pipeline joins the cars that greeted the server with the tracks the camera
  follows, in both directions (\<open>views\<close>, \<open>track_of_car\<close>) and through a queue of cars not yet seen. Whatever
  is interleaved, frames, server callbacks, the operator's calls and the shell threads, the two directions agree.
\<close>

section \<open>Everything that moves the pipeline\<close>

datatype pl_op =
    Frame real "int \<Rightarrow> shell_event list" track_state
  | Callback real server_out
  | ThreadBegin real int
  | ThreadEnd real nat
  | Threads "shell list \<Rightarrow> shell list"  \<comment> \<open>what the schedulers and the receive thread do to the shells\<close>
  | Shells "int \<Rightarrow> shell option"
  | ServerRuns vehicle_server
  | OperatorManual int
  | OperatorAuto real int
  | OperatorDrive int real real
  | OperatorStop int
  | PipelineStop real

fun pl_call ::
  "pipeline_config \<Rightarrow> (point list \<times> point list \<Rightarrow> hmat option) \<Rightarrow> policy option \<Rightarrow> pl_op \<Rightarrow> pipeline \<Rightarrow> call" where
  "pl_call cfg fit loaded (Frame now waits st) p = on_frame cfg fit loaded now waits st p"
| "pl_call cfg fit loaded (Callback now out) p = server_callback cfg now out p"
| "pl_call cfg fit loaded (ThreadBegin now c) p = shell_thread_begin now c p"
| "pl_call cfg fit loaded (ThreadEnd now i) p = shell_thread_end now i p"
| "pl_call cfg fit loaded (Threads f) p = done_with (p\<lparr>pl_threads := f (pl_threads p)\<rparr>)"
| "pl_call cfg fit loaded (Shells shells) p = done_with (p\<lparr>pl_shells := shells\<rparr>)"
| "pl_call cfg fit loaded (ServerRuns srv) p = done_with (p\<lparr>pl_server := srv\<rparr>)"
| "pl_call cfg fit loaded (OperatorManual c) p = pl_switch_to_manual c p"
| "pl_call cfg fit loaded (OperatorAuto now c) p = pl_switch_to_auto now c p"
| "pl_call cfg fit loaded (OperatorDrive c a b) p = set_manual_drive c a b p"
| "pl_call cfg fit loaded (OperatorStop c) p = manual_stop c p"
| "pl_call cfg fit loaded (PipelineStop now) p = pl_stop now p"

section \<open>What leaves the bindings alone\<close>

definition bindings :: "pipeline \<Rightarrow> int list \<times> (int \<Rightarrow> int option) \<times> (int \<times> vehicle_view) list" where
  "bindings p = (pl_pending_cars p, pl_track_of_car p, pl_views p)"

named_theorems binding_simps \<open>operations that leave the bindings alone\<close>

lemma bindings_fields [simp]:
  "bindings (p\<lparr>pl_orch := a\<rparr>) = bindings p" "bindings (p\<lparr>pl_server := b\<rparr>) = bindings p"
  "bindings (p\<lparr>pl_allocator := d\<rparr>) = bindings p" "bindings (p\<lparr>pl_heading := e\<rparr>) = bindings p"
  "bindings (p\<lparr>pl_homography := f\<rparr>) = bindings p" "bindings (p\<lparr>pl_collision_held := g\<rparr>) = bindings p"
  "bindings (p\<lparr>pl_comm_lost := h\<rparr>) = bindings p" "bindings (p\<lparr>pl_controllers := i\<rparr>) = bindings p"
  "bindings (p\<lparr>pl_last_control := j\<rparr>) = bindings p" "bindings (p\<lparr>pl_mode_set := k\<rparr>) = bindings p"
  "bindings (p\<lparr>pl_shells := l\<rparr>) = bindings p" "bindings (p\<lparr>pl_manual_shell_starting := m\<rparr>) = bindings p"
  "bindings (p\<lparr>pl_threads := n\<rparr>) = bindings p" "bindings (p\<lparr>pl_hybrid_stopping := r\<rparr>) = bindings p"
  by (simp_all add: bindings_def)

lemma bindings_set_world [simp]: "bindings (set_world w p) = bindings p"
  by (simp add: set_world_def)

lemma done_with_fst [simp]: "fst (done_with p) = p"
  by (simp add: done_with_def)

lemma followed_by_keeps:
  "P (fst c) \<Longrightarrow> (\<And>q. P q \<Longrightarrow> P (fst (k q))) \<Longrightarrow> P (fst (followed_by c k))"
  by (cases c) (auto simp: followed_by_def split_def split: option.split)

lemma for_each_keeps_all:
  assumes "\<And>x q. P q \<Longrightarrow> P (fst (f x q))"
  shows "P p \<Longrightarrow> P (fst (for_each f xs p))"
  by (induction xs arbitrary: p) (auto intro: followed_by_keeps assms)

lemma followed_by_bindings:
  "bindings (fst c) = b \<Longrightarrow> (\<And>q. bindings q = b \<Longrightarrow> bindings (fst (k q)) = b) \<Longrightarrow> bindings (fst (followed_by c k)) = b"
  by (rule followed_by_keeps [where P = "\<lambda>q. bindings q = b"])

lemma for_each_bindings:
  assumes "\<And>x q. bindings (fst (f x q)) = bindings q"
  shows "bindings (fst (for_each f xs p)) = bindings p"
  by (rule for_each_keeps_all [where P = "\<lambda>q. bindings q = bindings p"]) (simp_all add: assms)

lemma on_parked_bindings [binding_simps]: "bindings (fst (on_parked c slot p)) = bindings p"
  by (simp add: on_parked_def split: option.split)

lemma on_replan_bindings [binding_simps]: "bindings (fst (on_replan_required now c p)) = bindings p"
  by (simp add: on_replan_required_def Let_def split_def split: option.split sum.split)

lemma orch_callback_bindings [binding_simps]: "bindings (fst (orch_callback now out p)) = bindings p"
  by (cases out) (simp_all add: binding_simps)

lemma orch_call_bindings [binding_simps]: "bindings (fst (orch_call now f p)) = bindings p"
  by (simp add: orch_call_def split_def)
    (rule followed_by_bindings, simp_all add: for_each_bindings binding_simps)

lemma comm_bindings [binding_simps]:
  "bindings (fst (pl_on_comm_fail c p)) = bindings p" "bindings (fst (pl_on_comm_recovered now c p)) = bindings p"
  by (simp_all add: pl_on_comm_fail_def pl_on_comm_recovered_def Let_def split_def)
    (intro impI followed_by_bindings, simp_all add: binding_simps)

lemma update_control_bindings [binding_simps]: "bindings (fst (update_control cfg now v p)) = bindings p"
  by (simp add: update_control_def Let_def split_def split: option.split)

lemma push_bindings [binding_simps]: "bindings (fst (push_to_vehicle cfg now t p)) = bindings p"
  by (auto simp: push_to_vehicle_def Let_def pushed_pose_def binding_simps split: option.split intro!: followed_by_bindings)

lemma collision_bindings [binding_simps]:
  "bindings (fst (handle_risk now ev p)) = bindings p" "bindings (fst (resume_one now r c p)) = bindings p"
  "bindings (fst (resume_cleared now r p)) = bindings p"
proof -
  show one: "bindings (fst (resume_one now r c p)) = bindings p" for c p
    by (auto simp: resume_one_def Let_def binding_simps intro!: followed_by_bindings)
  show "bindings (fst (resume_cleared now r p)) = bindings p"
    unfolding resume_cleared_def by (rule for_each_bindings) (rule one)
  show "bindings (fst (handle_risk now ev p)) = bindings p"
    by (auto simp: handle_risk_def Let_def binding_simps intro!: followed_by_bindings)
qed

lemma check_bindings [binding_simps]: "bindings (fst (check_collisions now seen p)) = bindings p"
  by (auto simp: check_collisions_def Let_def binding_simps intro!: followed_by_bindings for_each_bindings)

lemma begin_bindings [binding_simps]: "bindings (fst (fst (begin_mission cfg now waits c wps slot p))) = bindings p"
  by (auto simp: begin_mission_def activate_auto_host_mission_def Let_def
      split: prod.splits option.splits exn.splits bool.splits)

lemma operator_bindings [binding_simps]:
  "bindings (fst (operator_switch f c p)) = bindings p" "bindings (fst (set_manual_drive c a b p)) = bindings p"
  "bindings (fst (manual_stop c p)) = bindings p"
proof -
  show sw: "bindings (fst (operator_switch f c p)) = bindings p" for f
    by (simp add: operator_switch_def split_def split: option.split)
  show d: "bindings (fst (set_manual_drive c a b p)) = bindings p" for a b p
    by (simp add: set_manual_drive_def split: option.split)
  show "bindings (fst (manual_stop c p)) = bindings p"
    unfolding manual_stop_def pl_switch_to_manual_def
    by (intro followed_by_bindings) (simp_all add: sw d)
qed

lemma thread_bindings [binding_simps]:
  "bindings (fst (shell_thread_begin now c p)) = bindings p" "bindings (fst (shell_thread_end now i p)) = bindings p"
  by (auto simp: shell_thread_begin_def shell_thread_end_def discard_starting_def Let_def split_def
      split: prod.splits option.splits)

lemma each_shell_bindings: "bindings (each_shell f cs p) = bindings p"
  unfolding each_shell_def
  by (induction cs arbitrary: p) (auto simp: split_def split: option.split)

lemma stop_bindings [binding_simps]: "bindings (fst (pl_stop now p)) = bindings p"
  by (simp add: pl_stop_def Let_def split_def each_shell_bindings)

lemma react_bindings [binding_simps]: "bindings (react c f p) = bindings p"
  by (auto simp: react_def Let_def split_def split: option.split)

section \<open>The invariant\<close>

text \<open>The queue, the map from cars to tracks and the tracks' views agree.\<close>

definition links :: "int list \<Rightarrow> (int \<Rightarrow> int option) \<Rightarrow> (int \<Rightarrow> vehicle_view option) \<Rightarrow> bool" where
  "links pending toc vof \<longleftrightarrow>
     distinct pending \<and> (\<forall>c \<in> set pending. toc c = None) \<and>
     (\<forall>t v. vof t = Some v \<longrightarrow> vv_track_id v = t \<and> (\<forall>c. vv_car_id v = Some c \<longleftrightarrow> toc c = Some t)) \<and>
     (\<forall>c t. toc c = Some t \<longrightarrow> vof t \<noteq> None)"

lemma links_track: "links pending toc vof \<Longrightarrow> vof t = Some v \<Longrightarrow> vv_track_id v = t"
  by (simp add: links_def)

lemma links_car: "links pending toc vof \<Longrightarrow> vof t = Some v \<Longrightarrow> vv_car_id v = Some c \<longleftrightarrow> toc c = Some t"
  by (simp add: links_def)

lemma links_seen: "links pending toc vof \<Longrightarrow> vof t = None \<Longrightarrow> toc c \<noteq> Some t"
  unfolding links_def by metis

lemma links_update:
  assumes "links pending toc vof" "case vof t of Some u \<Rightarrow> vv_car_id v = vv_car_id u | None \<Rightarrow> vv_car_id v = None"
    and "vv_track_id v = t"
  shows "links pending toc (vof(t \<mapsto> v))"
proof -
  have "vv_car_id v = Some c \<longleftrightarrow> toc c = Some t" for c
    using assms(2) links_car [OF assms(1), of t _ c] links_seen [OF assms(1), of t c] by (auto split: option.splits)
  then show ?thesis using assms(1,3) by (auto simp: links_def)
qed

lemma links_bind:
  assumes "links (c # rest) toc vof" "vof t = Some v" "vv_car_id v = None"
  shows "links rest (toc(c \<mapsto> t)) (vof(t \<mapsto> v\<lparr>vv_car_id := Some c\<rparr>))"
proof -
  have free: "toc d \<noteq> Some t" for d using links_car [OF assms(1,2)] assms(3) by simp
  show ?thesis using assms(1) links_track [OF assms(1,2)] free unfolding links_def by (auto split: if_splits)
qed

lemma links_unbind:
  assumes "links pending toc vof" "toc c = Some t" "vof t = Some v"
  shows "links pending (toc(c := None)) (vof(t \<mapsto> v\<lparr>vv_car_id := None, vv_slot_id := None\<rparr>))"
proof -
  have "vv_car_id v = Some c" using links_car [OF assms(1,3)] assms(2) by simp
  then have only: "toc d \<noteq> Some t" if "d \<noteq> c" for d using links_car [OF assms(1,3), of d] that by auto
  have "toc c \<noteq> Some t'" if "t' \<noteq> t" for t' using assms(2) that by simp
  then have "vv_car_id u = Some d \<longleftrightarrow> (toc(c := None)) d = Some t'" if "vof t' = Some u" "t' \<noteq> t" for u d t'
    using links_car [OF assms(1) that(1), of d] that(2) by simp
  then show ?thesis using assms(1) links_track [OF assms(1,3)] only unfolding links_def by simp
qed

lemma links_enqueue: "links pending toc vof \<Longrightarrow> c \<notin> set pending \<Longrightarrow> toc c = None \<Longrightarrow> links (pending @ [c]) toc vof"
  by (auto simp: links_def)

lemma links_forget:
  assumes "links pending toc vof" "\<And>t v. vof t = Some v \<Longrightarrow> t \<in> S \<Longrightarrow> vv_car_id v = None"
  shows "links pending toc (\<lambda>t. if t \<in> S then None else vof t)"
proof -
  have "toc c = Some t \<Longrightarrow> t \<notin> S" for c t
    using links_car [OF assms(1), of t _ c] links_seen [OF assms(1), of t c] assms(2) [of t] by (cases "vof t") auto
  then show ?thesis using assms(1) unfolding links_def by (auto split: if_splits)
qed

definition bind_ok :: "pipeline \<Rightarrow> bool" where
  "bind_ok p \<longleftrightarrow> distinct (map fst (pl_views p)) \<and> links (pl_pending_cars p) (pl_track_of_car p) (view_of p)"

lemma bind_ok_cong: "bindings p' = bindings p \<Longrightarrow> bind_ok p' = bind_ok p"
  by (simp add: bindings_def bind_ok_def view_of_def [abs_def])

lemma bind_ok_new: "bind_ok (pipeline_new cfg)"
  by (simp add: pipeline_new_def bind_ok_def links_def view_of_def)

lemma view_set_view: "view_of (set_view v p) = (view_of p)(vv_track_id v \<mapsto> v)"
  by (simp add: view_of_def [abs_def] set_view_def update_conv fun_eq_iff)

lemma view_of_fields [simp]:
  "view_of (p\<lparr>pl_pending_cars := a, pl_track_of_car := b\<rparr>) = view_of p" "view_of (p\<lparr>pl_pending_cars := a\<rparr>) = view_of p"
  "view_of (p\<lparr>pl_track_of_car := b\<rparr>) = view_of p"
  by (simp_all add: view_of_def [abs_def])

lemma set_view_fields [simp]:
  "pl_pending_cars (set_view v p) = pl_pending_cars p" "pl_track_of_car (set_view v p) = pl_track_of_car p"
  by (simp_all add: set_view_def)

lemma set_view_distinct: "distinct (map fst (pl_views p)) \<Longrightarrow> distinct (map fst (pl_views (set_view v p)))"
  by (simp add: set_view_def distinct_update)

lemma bind_ok_set_view:
  assumes "bind_ok p" "case view_of p (vv_track_id v) of Some u \<Rightarrow> vv_car_id v = vv_car_id u | None \<Rightarrow> vv_car_id v = None"
  shows "bind_ok (set_view v p)"
  using assms links_update [of "pl_pending_cars p" "pl_track_of_car p" "view_of p" v "vv_track_id v"]
  by (simp add: bind_ok_def view_set_view set_view_distinct)

lemma bind_ok_track: "bind_ok p \<Longrightarrow> view_of p t = Some v \<Longrightarrow> vv_track_id v = t"
  by (auto simp: bind_ok_def dest: links_track)

lemma bind_car_ok:
  assumes "bind_ok p" "view_of p t = Some v"
  shows "bind_ok (fst (bind_car v p))"
proof (cases "vv_car_id v")
  case None
  show ?thesis
  proof (cases "pl_pending_cars p")
    case (Cons c rest)
    have t: "vv_track_id v = t" using assms by (rule bind_ok_track)
    show ?thesis
      using assms None Cons links_bind [of c rest "pl_track_of_car p" "view_of p" t v] t
      by (auto simp: bind_car_def bind_ok_def view_set_view intro!: set_view_distinct)
  qed (use assms None in \<open>simp add: bind_car_def\<close>)
qed (use assms in \<open>simp add: bind_car_def\<close>)

lemma enqueue_ok: "bind_ok p \<Longrightarrow> bind_ok (enqueue_car c p)"
  by (auto simp: enqueue_car_def bind_ok_def intro: links_enqueue)

lemma ready_ok: "bind_ok p \<Longrightarrow> bind_ok (fst (pl_on_vehicle_ready cfg now c p))"
proof -
  assume "bind_ok p"
  then have ok: "bind_ok (enqueue_car c p)" by (rule enqueue_ok)
  have "bindings (fst (pl_on_vehicle_ready cfg now c p)) = bindings (enqueue_car c p)"
    by (auto simp: pl_on_vehicle_ready_def Let_def split: sum.split)
  then show ?thesis using ok bind_ok_cong by blast
qed

lemma unbind_ok:
  assumes "bind_ok p" shows "bind_ok (unbind c p)"
proof (cases "pl_track_of_car p c")
  case None
  then have "bindings (unbind c p) = bindings p" by (simp add: unbind_def bindings_def fun_upd_idem)
  then show ?thesis using assms bind_ok_cong by blast
next
  case (Some t)
  then obtain v where v: "view_of p t = Some v"
    using assms links_seen [of _ "pl_track_of_car p" "view_of p" t c] by (fastforce simp: bind_ok_def)
  define v' where "v' = v\<lparr>vv_car_id := None, vv_slot_id := None\<rparr>"
  have t: "vv_track_id v' = t" using bind_ok_track [OF assms v] by (simp add: v'_def)
  have "bindings (unbind c p) = bindings ((set_view v' p)\<lparr>pl_track_of_car := (pl_track_of_car p)(c := None)\<rparr>)"
    using Some v t by (simp add: unbind_def bindings_def set_view_def v'_def Let_def)
  moreover have "bind_ok ((set_view v' p)\<lparr>pl_track_of_car := (pl_track_of_car p)(c := None)\<rparr>)"
    using assms Some v t links_unbind [of "pl_pending_cars p" "pl_track_of_car p" "view_of p" c t v]
    by (auto simp: bind_ok_def view_set_view v'_def [symmetric] intro!: set_view_distinct)
  ultimately show ?thesis using bind_ok_cong by blast
qed

lemma resync_ok: "bind_ok p \<Longrightarrow> bind_ok (pl_on_resync now c p)"
proof -
  assume ok: "bind_ok p"
  have shell: "bindings (drop_shell now c q) = bindings q" for q by (simp add: drop_shell_def split: option.split)
  have ok2: "bind_ok q" if "bindings q = bindings p" for q using ok bind_ok_cong that by blast
  show ?thesis unfolding pl_on_resync_def Let_def by (intro unbind_ok ok2) (simp add: shell)
qed

lemma bind_ok_set_same:
  "bind_ok p \<Longrightarrow> view_of p t = Some u \<Longrightarrow> vv_track_id v = t \<Longrightarrow> vv_car_id v = vv_car_id u \<Longrightarrow> bind_ok (set_view v p)"
  by (rule bind_ok_set_view) simp_all

lemma update_view_ok:
  assumes "bind_ok p" shows "bind_ok (fst (update_view cfg t det f front p))"
proof (cases "warp_now p (center (dt_bbox det))")
  case (Inl e)
  then show ?thesis using assms by (simp add: update_view_def)
next
  case (Inr m)
  define v where "v = (case view_of p t of None \<Rightarrow> view_new t | Some v \<Rightarrow> v)"
  have v: "vv_track_id v = t" "case view_of p t of Some u \<Rightarrow> vv_car_id v = vv_car_id u | None \<Rightarrow> vv_car_id v = None"
    using bind_ok_track [OF assms] by (auto simp: v_def view_new_def split: option.splits)
  define pos where "pos = (fst m + fst (pc_bbox_offset_mm cfg), snd m + snd (pc_bbox_offset_mm cfg))"
  define v1 where "v1 = v\<lparr>vv_position_mm := pos, vv_confidence := dt_confidence det, vv_last_seen_frame := f,
      vv_recent := push_bounded 8 pos (vv_recent v)\<rparr>"
  have v1: "vv_track_id v1 = t" "vv_car_id v1 = vv_car_id v" using v(1) by (simp_all add: v1_def)
  have ok1: "bind_ok (set_view v1 p)" using assms by (rule bind_ok_set_view) (use v(2) in \<open>simp add: v1 split: option.splits\<close>)
  have ok2: "bind_ok (set_view v2 (set_view v1 p\<lparr>pl_heading := a, pl_allocator := b\<rparr>))"
    if "vv_track_id v2 = t" "vv_car_id v2 = vv_car_id v" for v2 a b
  proof (rule bind_ok_set_same)
    show "bind_ok (set_view v1 p\<lparr>pl_heading := a, pl_allocator := b\<rparr>)"
      using ok1 bind_ok_cong [of "set_view v1 p\<lparr>pl_heading := a, pl_allocator := b\<rparr>" "set_view v1 p"] by simp
    show "view_of (set_view v1 p\<lparr>pl_heading := a, pl_allocator := b\<rparr>) t = Some v1"
      using v1 view_set_view [of v1 p] by (simp add: view_of_def [abs_def] fun_eq_iff)
  qed (use that v1 in simp_all)
  show ?thesis
    using ok1 v1 v(1)
    by (auto simp: update_view_def Inr v_def [symmetric] pos_def [symmetric] v1_def [symmetric] Let_def split_def
        split: sum.split intro!: ok2)
qed

section \<open>The frame keeps it\<close>

lemma call_ok: "bindings (fst c) = bindings p \<Longrightarrow> bind_ok p \<Longrightarrow> bind_ok (fst c)"
  using bind_ok_cong by blast

lemma same_ok: "bindings q = bindings p \<Longrightarrow> bind_ok p \<Longrightarrow> bind_ok q"
  using bind_ok_cong by blast

lemma view_of_cong: "bindings q = bindings p \<Longrightarrow> view_of q = view_of p"
  by (simp add: bindings_def view_of_def [abs_def])

lemma bound_view:
  assumes "bind_ok p" "view_of p t = Some v" "bind_car v p = (q, r)"
  shows "\<exists>u. view_of q t = Some u \<and> vv_track_id u = t \<and> u = v\<lparr>vv_car_id := vv_car_id u\<rparr>"
  using assms bind_ok_track [OF assms(1,2)]
  by (auto simp: bind_car_def view_set_view split: option.splits list.splits)

text \<open>What follows the binding of the car in \<open>_ensure_mission\<close>, for a view of the track.\<close>

lemma set_view_call_ok:
  assumes "bind_ok p" "view_of p t = Some v" "vv_track_id v = t" "bindings q = bindings (set_view (v\<lparr>vv_last_alloc_frame := f\<rparr>) p)"
  shows "bind_ok q \<and> view_of q t = Some (v\<lparr>vv_last_alloc_frame := f\<rparr>)"
proof -
  have "bind_ok (set_view (v\<lparr>vv_last_alloc_frame := f\<rparr>) p)"
    by (rule bind_ok_set_same [OF assms(1,2)]) (simp_all add: assms(3))
  moreover have "view_of (set_view (v\<lparr>vv_last_alloc_frame := f\<rparr>) p) t = Some (v\<lparr>vv_last_alloc_frame := f\<rparr>)"
    by (simp add: view_set_view assms(3))
  ultimately show ?thesis using same_ok [OF assms(4)] view_of_cong [OF assms(4)] by simp
qed

lemma begin_call_ok:
  assumes "bind_ok p" "view_of p t = Some v" "begin_mission cfg now w c wps slot p = (call, b)"
  shows "bind_ok (fst call) \<and> bind_ok (fst (followed_by call (\<lambda>q. (set_view (v\<lparr>vv_slot_id := s\<rparr>) q, out, None))))"
proof -
  have b: "bindings (fst call) = bindings p" using begin_bindings [of cfg now w c wps slot p] assms(3) by simp
  have t: "vv_track_id v = t" using assms(1,2) by (rule bind_ok_track)
  have "view_of (fst call) t = Some v" using view_of_cong [OF b] assms(2) by simp
  then have "bind_ok (set_view (v\<lparr>vv_slot_id := s\<rparr>) (fst call))"
    by (intro bind_ok_set_same [OF same_ok [OF b assms(1)]]) (simp_all add: t)
  then show ?thesis using same_ok [OF b assms(1)] by (cases call) (auto simp: followed_by_def split: option.splits)
qed

lemma ensure_mission_ok:
  assumes "bind_ok p" shows "bind_ok (fst (ensure_mission cfg loaded now waits f t p))"
proof (cases "view_of p t")
  case None
  then show ?thesis using assms by (simp add: ensure_mission_def)
next
  case (Some v)
  obtain q r where q: "bind_car v p = (q, r)" by fastforce
  have qok: "bind_ok q" using bind_car_ok [OF assms Some] q by simp
  obtain u where u: "view_of q t = Some u" "vv_track_id u = t" using bound_view [OF assms Some q] by blast
  have aok: "bind_ok x \<and> view_of x t = Some (u\<lparr>vv_last_alloc_frame := f\<rparr>)"
    if "bindings x = bindings (set_view (u\<lparr>vv_last_alloc_frame := f\<rparr>) q)" for x
    using set_view_call_ok [OF qok u that] .
  have bok: "bind_ok aa \<and> (\<forall>s out.
      bind_ok (fst (followed_by (aa, ab, ac) (\<lambda>q. (set_view (u\<lparr>vv_last_alloc_frame := f, vv_slot_id := s\<rparr>) q, out, None)))))"
    if "begin_mission cfg now w c wps slot
      (set_view (u\<lparr>vv_last_alloc_frame := f\<rparr>) q\<lparr>pl_allocator := al, pl_orch := orch\<rparr>) = ((aa, ab, ac), b)"
    for w c wps slot al orch aa ab ac b
  proof -
    have "bind_ok (set_view (u\<lparr>vv_last_alloc_frame := f\<rparr>) q\<lparr>pl_allocator := al, pl_orch := orch\<rparr>) \<and>
        view_of (set_view (u\<lparr>vv_last_alloc_frame := f\<rparr>) q\<lparr>pl_allocator := al, pl_orch := orch\<rparr>) t =
          Some (u\<lparr>vv_last_alloc_frame := f\<rparr>)"
      by (rule aok) simp
    then show ?thesis
      using begin_call_ok [OF _ _ that, of t "u\<lparr>vv_last_alloc_frame := f\<rparr>"] by simp
  qed
  show ?thesis
    using assms qok
    by (auto simp: ensure_mission_def Some q u(1) Let_def split: option.splits prod.splits sum.splits if_splits bool.splits
        dest!: bok intro: conjunct1 [OF aok])
qed

lemma forget_ok:
  assumes "bind_ok p" shows "bind_ok (forget_stale f p)"
proof -
  define S where "S = set (map fst (filter (\<lambda>(t, v). 60 < f - vv_last_seen_frame v \<and> vv_car_id v = None) (pl_views p)))"
  have keys: "distinct (map fst (pl_views p))" using assms by (simp add: bind_ok_def)
  have "vv_car_id v = None" if "view_of p t = Some v" "t \<in> S" for t v
    using that keys by (auto simp: S_def view_of_def dest: eq_key_imp_eq_value)
  moreover have "map_of (filter (\<lambda>(t, v). t \<notin> S) xs) t = (if t \<in> S then None else map_of xs t)"
    for xs :: "(int \<times> vehicle_view) list" and t
    by (induction xs) auto
  ultimately have "links (pl_pending_cars p) (pl_track_of_car p) (\<lambda>t. map_of (filter (\<lambda>(t, v). t \<notin> S) (pl_views p)) t)"
    using links_forget [of "pl_pending_cars p" "pl_track_of_car p" "view_of p" S] assms
    by (simp add: bind_ok_def view_of_def [abs_def] cong: if_cong)
  moreover have "distinct (map fst (filter (\<lambda>(t, v). t \<notin> S) (pl_views p)))"
    using keys by (auto simp: distinct_map intro: inj_on_subset)
  ultimately show ?thesis unfolding S_def by (simp add: bind_ok_def forget_stale_def view_of_def [abs_def] Let_def)
qed

lemma on_frame_ok: "bind_ok p \<Longrightarrow> bind_ok (fst (on_frame cfg fit loaded now waits st p))"
proof -
  assume ok: "bind_ok p"
  have init: "bindings (fst (init_homography cfg fit st p)) = bindings p"
    by (simp add: init_homography_def split: prod.split option.split)
  show ?thesis
    unfolding on_frame_def
  proof (rule followed_by_keeps)
    show "bind_ok (fst (if pl_homography p = None then init_homography cfg fit st p else done_with p))"
      using ok same_ok [OF init] by simp
  next
    fix q assume q: "bind_ok q"
    show "bind_ok (fst (case associate (ts_detections st) (prev_headings q) (Some (heading_from_pixels (pl_homography q))) of
        Inl e \<Rightarrow> (q, [], Some (VisionExn e))
      | Inr r \<Rightarrow> followed_by (for_each (\<lambda>(t, det, front). update_view cfg t det (ts_frame_index st) front) (sightings r) q) (\<lambda>p.
          followed_by (for_each (\<lambda>(t, det, front) p.
              followed_by (ensure_mission cfg loaded now waits (ts_frame_index st) t p) (push_to_vehicle cfg now t))
            (sightings r) p) (\<lambda>p.
          followed_by (check_collisions now (map fst (sightings r)) p) (\<lambda>p.
            done_with (forget_stale (ts_frame_index st) p))))))"
      by (auto split: sum.split intro!: followed_by_keeps [where P = bind_ok] for_each_keeps_all [where P = bind_ok]
          q update_view_ok ensure_mission_ok forget_ok same_ok [OF push_bindings] same_ok [OF check_bindings])
  qed
qed

section \<open>Runs\<close>

lemma callback_ok: "bind_ok p \<Longrightarrow> bind_ok (fst (server_callback cfg now out p))"
  by (cases out)
    (auto intro!: same_ok [OF orch_call_bindings] ready_ok resync_ok same_ok [OF react_bindings]
      same_ok [OF comm_bindings(1)] same_ok [OF comm_bindings(2)] followed_by_keeps [where P = bind_ok])

definition pl_step ::
  "pipeline_config \<Rightarrow> (point list \<times> point list \<Rightarrow> hmat option) \<Rightarrow> policy option \<Rightarrow> pipeline \<Rightarrow> pl_op \<Rightarrow> pipeline" where
  "pl_step cfg fit loaded p op = fst (pl_call cfg fit loaded op p)"

definition pl_run ::
  "pipeline_config \<Rightarrow> (point list \<times> point list \<Rightarrow> hmat option) \<Rightarrow> policy option \<Rightarrow> pl_op list \<Rightarrow> pipeline" where
  "pl_run cfg fit loaded ops = foldl (pl_step cfg fit loaded) (pipeline_new cfg) ops"

interpretation bind_sys: step_system "pl_step cfg fit loaded" bind_ok for cfg fit loaded
proof
  fix p op assume ok: "bind_ok p"
  show "bind_ok (pl_step cfg fit loaded p op)"
  proof (cases op)
    case (Callback now out)
    then show ?thesis using callback_ok [OF ok] by (simp add: pl_step_def)
  next
    case (Frame now waits st)
    then show ?thesis using on_frame_ok [OF ok] by (simp add: pl_step_def)
  qed (use ok in \<open>auto simp: pl_step_def pl_switch_to_manual_def pl_switch_to_auto_def binding_simps intro: same_ok\<close>)
qed

text \<open>C4: the pipeline never mixes up its cars. In every interleaving of frames, server callbacks, operator calls
  and shell threads, the bindings of tracks to cars and of cars to tracks are one relation, so no car is on
  two tracks and no track has two cars; and the cars in the queue are unbound and in it once.\<close>

theorem one_car_per_track:
  "{(c, t). \<exists>v. view_of (pl_run cfg fit loaded ops) t = Some v \<and> vv_car_id v = Some c} =
     {(c, t). pl_track_of_car (pl_run cfg fit loaded ops) c = Some t} \<and>
   distinct (pl_pending_cars (pl_run cfg fit loaded ops)) \<and>
   set (pl_pending_cars (pl_run cfg fit loaded ops)) \<inter> dom (pl_track_of_car (pl_run cfg fit loaded ops)) = {}"
proof -
  have "links (pl_pending_cars p) (pl_track_of_car p) (view_of p)" if "p = pl_run cfg fit loaded ops" for p
    using bind_sys.run_inv [OF bind_ok_new] that by (simp add: pl_run_def bind_ok_def)
  then show ?thesis by (fastforce simp: links_def)
qed

end
