(* ===== verification/Parking_Records.thy ===== *)
theory Parking_Records
  imports Py_Json "HOL-Library.Product_Lexorder"
begin

text \<open>
  \<open>integrated/host/parking/services.py\<close> over the tables of \<open>models.py\<close>, and the actions of \<open>views.py\<close> that
  change them. A table is the list of its rows in the order of creation, a query set a filter of it; a foreign key
  is the id of the row it refers to. Ids count up. A request runs alone; \<open>now\<close> is \<open>timezone.now()\<close>. Broadcasts
  to the dashboard are outputs, logged failures of the broker left out.
\<close>

section \<open>Tables\<close>

record vehicle_row =
  ve_id :: int
  ve_plate :: string
  ve_type :: string
  ve_registered :: bool
  ve_discount :: string

record lot_row =
  lo_id :: int
  lo_name :: string
  lo_address :: string
  lo_capacity :: nat
  lo_width :: real
  lo_height :: real

record spot_row =
  sp_id :: int
  sp_lot :: int
  sp_section :: string
  sp_type :: string
  sp_status :: string
  sp_x :: real
  sp_y :: real

record camera_row =
  ca_id :: int
  ca_lot :: int
  ca_spot :: "int option"
  ca_desc :: string
  ca_status :: string
  ca_heartbeat :: "real option"

record entry_row =
  en_id :: int
  en_vehicle :: int
  en_spot :: int
  en_entry_time :: real
  en_exit_time :: "real option"

record route_row =
  ro_id :: int
  ro_vehicle :: int
  ro_spot :: int
  ro_start :: "real \<times> real"
  ro_waypoints :: "((real \<times> real) \<times> string) list"
  ro_policy :: string
  ro_created_at :: real

record assignment_row =
  as_id :: int
  as_vehicle :: int
  as_spot :: int
  as_status :: string
  as_released_at :: "real option"

record policy_row =
  lg_policy :: string
  lg_lot :: "int option"
  lg_vehicle_type :: string
  lg_vacant :: nat
  lg_action_spot :: int

record db =
  db_vehicles :: "vehicle_row list"
  db_lots :: "lot_row list"
  db_spots :: "spot_row list"
  db_cameras :: "camera_row list"
  db_entries :: "entry_row list"
  db_routes :: "route_row list"
  db_assignments :: "assignment_row list"
  db_logs :: "policy_row list"
  db_next_vehicle :: int
  db_next_spot :: int
  db_next_entry :: int
  db_next_route :: int
  db_next_assignment :: int

definition db_empty :: db where
  "db_empty =
     \<lparr>db_vehicles = [], db_lots = [], db_spots = [], db_cameras = [], db_entries = [], db_routes = [],
      db_assignments = [], db_logs = [], db_next_vehicle = 1, db_next_spot = 1, db_next_entry = 1, db_next_route = 1,
      db_next_assignment = 1\<rparr>"

definition is_active_entry :: "entry_row \<Rightarrow> bool" where
  "is_active_entry e \<longleftrightarrow> en_exit_time e = None"

definition update_where :: "('a \<Rightarrow> bool) \<Rightarrow> ('a \<Rightarrow> 'a) \<Rightarrow> 'a list \<Rightarrow> 'a list" where
  "update_where P f rows = map (\<lambda>r. if P r then f r else r) rows"

definition find_spot :: "int \<Rightarrow> db \<Rightarrow> spot_row option" where
  "find_spot i d = find (\<lambda>s. sp_id s = i) (db_spots d)"

definition find_plate :: "string \<Rightarrow> db \<Rightarrow> vehicle_row option" where
  "find_plate plate d = find (\<lambda>v. ve_plate v = plate) (db_vehicles d)"

definition set_spot_status :: "int \<Rightarrow> string \<Rightarrow> db \<Rightarrow> db" where
  "set_spot_status i st d = d\<lparr>db_spots := update_where (\<lambda>s. sp_id s = i) (\<lambda>s. s\<lparr>sp_status := st\<rparr>) (db_spots d)\<rparr>"

datatype service_error =
    NoVacantSpot | AlreadyParked | UnknownVehicle | NoActiveTransaction  \<comment> \<open>\<open>ValidationError\<close>\<close>
  | MultipleObjects | ProtectedRows  \<comment> \<open>exceptions of the ORM\<close>
  | NotFound | InvalidStatus | Unhashable

datatype broadcast = Broadcast string string int int  \<comment> \<open>event, plate, spot, transaction\<close>
  | CameraBroadcast int string

section \<open>Recommending a spot\<close>

definition REC_ENTRY_POINT :: "real \<times> real" where "REC_ENTRY_POINT = (150, 0)"

definition AISLE_Y :: real where "AISLE_Y = 600"

definition SPOT_PREFERENCE_BY_VEHICLE :: "(string \<times> string list) list" where
  "SPOT_PREFERENCE_BY_VEHICLE =
     [(''ev'', [''ev'', ''standard'', ''compact'']), (''compact'', [''compact'', ''standard'']),
      (''disabled'', [''disabled'']), (''suv'', [''standard'']), (''sedan'', [''standard'', ''compact''])]"

definition distance_from_entry :: "spot_row \<Rightarrow> real" where
  "distance_from_entry s = hypot (sp_x s - fst REC_ENTRY_POINT) (sp_y s - snd REC_ENTRY_POINT)"

definition preferences_of :: "string \<Rightarrow> string list" where
  "preferences_of vehicle_type = (case map_of SPOT_PREFERENCE_BY_VEHICLE vehicle_type of
       Some p \<Rightarrow> p | None \<Rightarrow> [''standard'', ''compact''])"

text \<open>\<open>{spot_type: index ...}.get(spot_type, len(preferences) + 1)\<close>; the types of a list are distinct.\<close>

definition type_rank :: "string list \<Rightarrow> string \<Rightarrow> nat" where
  "type_rank preferences t =
     (let i = length (takeWhile (\<lambda>x. x \<noteq> t) preferences)
      in if i < length preferences then i else length preferences + 1)"

definition spot_score :: "string \<Rightarrow> spot_row \<Rightarrow> nat \<times> real \<times> int" where
  "spot_score vehicle_type s = (type_rank (preferences_of vehicle_type) (sp_type s), distance_from_entry s, sp_id s)"

text \<open>\<open>if lot_id:\<close> leaves the filter out for a lot id of 0.\<close>

definition vacant_candidates :: "int option \<Rightarrow> db \<Rightarrow> spot_row list" where
  "vacant_candidates lot_id d =
     filter (\<lambda>s. sp_status s = ''vacant'' \<and> (case lot_id of Some l \<Rightarrow> l = 0 \<or> sp_lot s = l | None \<Rightarrow> True)) (db_spots d)"

definition recommend_spot :: "int option \<Rightarrow> string \<Rightarrow> db \<Rightarrow> service_error + (db \<times> spot_row)" where
  "recommend_spot lot_id vehicle_type d =
     (let candidates = vacant_candidates lot_id d
      in if candidates = [] then Inl NoVacantSpot
         else
           let s = hd (sort_key (spot_score vehicle_type) candidates)
           in Inr (d\<lparr>db_logs := db_logs d @ [\<lparr>lg_policy = ''heuristic-v1'', lg_lot = lot_id,
                lg_vehicle_type = vehicle_type, lg_vacant = length candidates, lg_action_spot = sp_id s\<rparr>]\<rparr>, s))"

section \<open>Routes\<close>

definition route_points :: "real \<times> real \<Rightarrow> spot_row \<Rightarrow> ((real \<times> real) \<times> string) list" where
  "route_points start s =
     [(start, ''entry''), ((fst start, AISLE_Y), ''aisle_entry''), ((sp_x s, AISLE_Y), ''aisle''),
      ((sp_x s, sp_y s), sp_section s)]"

definition build_route_plan :: "real \<Rightarrow> int \<Rightarrow> spot_row \<Rightarrow> real \<times> real \<Rightarrow> db \<Rightarrow> db \<times> route_row" where
  "build_route_plan now vehicle_id s start d =
     (let r = \<lparr>ro_id = db_next_route d, ro_vehicle = vehicle_id, ro_spot = sp_id s, ro_start = start,
               ro_waypoints = route_points start s, ro_policy = ''heuristic-route-v1'',
               ro_created_at = now\<rparr>
      in (d\<lparr>db_routes := db_routes d @ [r], db_next_route := db_next_route d + 1\<rparr>, r))"

section \<open>Entry and exit\<close>

definition get_or_create_vehicle :: "string \<Rightarrow> string \<Rightarrow> db \<Rightarrow> db \<times> vehicle_row \<times> bool" where
  "get_or_create_vehicle plate vehicle_type d = (case find_plate plate d of
       Some v \<Rightarrow> (d, v, False)
     | None \<Rightarrow>
         let v = \<lparr>ve_id = db_next_vehicle d, ve_plate = plate, ve_type = vehicle_type, ve_registered = False,
                  ve_discount = ''none''\<rparr>
         in (d\<lparr>db_vehicles := db_vehicles d @ [v], db_next_vehicle := db_next_vehicle d + 1\<rparr>, v, True))"

definition set_vehicle_type :: "int \<Rightarrow> string \<Rightarrow> db \<Rightarrow> db" where
  "set_vehicle_type i t d = d\<lparr>db_vehicles := update_where (\<lambda>v. ve_id v = i) (\<lambda>v. v\<lparr>ve_type := t\<rparr>) (db_vehicles d)\<rparr>"

text \<open>\<open>@transaction.atomic\<close>: an exception rolls the database back, so the error carries no state.\<close>

definition process_entry ::
  "real \<Rightarrow> string \<Rightarrow> string \<Rightarrow> int option \<Rightarrow> db \<Rightarrow> service_error + (db \<times> (entry_row \<times> route_row) \<times> broadcast list)" where
  "process_entry now plate vehicle_type lot_id d =
     (let (d, v, created) = get_or_create_vehicle plate vehicle_type d;
          d = (if \<not> created \<and> ve_type v \<noteq> vehicle_type then set_vehicle_type (ve_id v) vehicle_type d else d)
      in if \<exists>e \<in> set (db_entries d). en_vehicle e = ve_id v \<and> is_active_entry e then Inl AlreadyParked
         else case recommend_spot lot_id vehicle_type d of
             Inl err \<Rightarrow> Inl err
           | Inr (d, s) \<Rightarrow>
               let d = set_spot_status (sp_id s) ''occupied'' d;
                   e = \<lparr>en_id = db_next_entry d, en_vehicle = ve_id v, en_spot = sp_id s, en_entry_time = now,
                        en_exit_time = None\<rparr>;
                   d = d\<lparr>db_entries := db_entries d @ [e], db_next_entry := db_next_entry d + 1\<rparr>;
                   a = \<lparr>as_id = db_next_assignment d, as_vehicle = ve_id v, as_spot = sp_id s, as_status = ''occupied'',
                        as_released_at = None\<rparr>;
                   d = d\<lparr>db_assignments := db_assignments d @ [a], db_next_assignment := db_next_assignment d + 1\<rparr>;
                   (d, r) = build_route_plan now (ve_id v) s REC_ENTRY_POINT d
               in Inr (d, (e, r), [Broadcast ''entry'' plate (sp_id s) (en_id e)]))"

definition process_exit :: "real \<Rightarrow> string \<Rightarrow> db \<Rightarrow> service_error + (db \<times> entry_row \<times> broadcast list)" where
  "process_exit now plate d = (case find_plate plate d of
       None \<Rightarrow> Inl UnknownVehicle
     | Some v \<Rightarrow>
         (case filter (\<lambda>e. en_vehicle e = ve_id v \<and> is_active_entry e) (db_entries d) of
            [] \<Rightarrow> Inl NoActiveTransaction
          | [e] \<Rightarrow>
              let e' = e\<lparr>en_exit_time := Some now\<rparr>;
                  d = d\<lparr>db_entries := update_where (\<lambda>x. en_id x = en_id e) (\<lambda>_. e') (db_entries d)\<rparr>;
                  d = set_spot_status (en_spot e) ''vacant'' d;
                  d = d\<lparr>db_assignments := update_where
                        (\<lambda>a. as_vehicle a = ve_id v \<and> as_spot a = en_spot e \<and> as_status a = ''occupied'')
                        (\<lambda>a. a\<lparr>as_status := ''completed'', as_released_at := Some now\<rparr>) (db_assignments d)\<rparr>
              in Inr (d, e', [Broadcast ''exit'' plate (en_spot e) (en_id e)])
          | _ \<Rightarrow> Inl MultipleObjects))"

definition update_camera_heartbeat :: "real \<Rightarrow> int \<Rightarrow> string \<Rightarrow> db \<Rightarrow> db \<times> broadcast list" where
  "update_camera_heartbeat now i st d =
     (d\<lparr>db_cameras := update_where (\<lambda>c. ca_id c = i) (\<lambda>c. c\<lparr>ca_status := st, ca_heartbeat := Some now\<rparr>) (db_cameras d)\<rparr>,
      [CameraBroadcast i st])"

section \<open>The demo data\<close>

definition DEMO_SPOTS :: "(string \<times> real \<times> real) list" where
  "DEMO_SPOTS =
     [(''A1'', 425, 150), (''A2'', 425 + 225, 150), (''A3'', 425 + 225 * 2, 150), (''A4'', 425 + 225 * 3, 150),
      (''B1'', 425, 1050), (''B2'', 425 + 225, 1050), (''B3'', 425 + 225 * 2, 1050), (''B4'', 425 + 225 * 3, 1050)]"

definition upsert_lot :: "db \<Rightarrow> db" where
  "upsert_lot d =
     (let fields = (\<lambda>l. l\<lparr>lo_name := ''Hanium Smart Parking'', lo_address := ''Seoul Demo Campus'', lo_capacity := 8,
            lo_width := 1200, lo_height := 1200\<rparr>)
      in if \<exists>l \<in> set (db_lots d). lo_id l = 1
         then d\<lparr>db_lots := update_where (\<lambda>l. lo_id l = 1) fields (db_lots d)\<rparr>
         else d\<lparr>db_lots := db_lots d @ [fields (\<lparr>lo_id = 1, lo_name = '''', lo_address = '''', lo_capacity = 0,
            lo_width = 0, lo_height = 0\<rparr>)]\<rparr>)"

text \<open>Deleting spots: a transaction protects its spot, routes and assignments go with it, cameras lose it.\<close>

definition delete_spots :: "(spot_row \<Rightarrow> bool) \<Rightarrow> db \<Rightarrow> service_error + db" where
  "delete_spots P d =
     (let gone = map sp_id (filter P (db_spots d))
      in if \<exists>e \<in> set (db_entries d). en_spot e \<in> set gone then Inl ProtectedRows
         else Inr (d\<lparr>db_spots := filter (\<lambda>s. sp_id s \<notin> set gone) (db_spots d),
           db_routes := filter (\<lambda>r. ro_spot r \<notin> set gone) (db_routes d),
           db_assignments := filter (\<lambda>a. as_spot a \<notin> set gone) (db_assignments d),
           db_cameras := update_where (\<lambda>c. \<exists>i \<in> set gone. ca_spot c = Some i) (\<lambda>c. c\<lparr>ca_spot := None\<rparr>) (db_cameras d)\<rparr>))"

definition upsert_spot :: "string \<times> real \<times> real \<Rightarrow> db \<Rightarrow> service_error + db" where
  "upsert_spot spec d = (case spec of (section, x, y) \<Rightarrow>
     (case filter (\<lambda>s. sp_lot s = 1 \<and> sp_section s = section) (db_spots d) of
        [] \<Rightarrow> Inr (d\<lparr>db_spots := db_spots d @ [\<lparr>sp_id = db_next_spot d, sp_lot = 1, sp_section = section,
                sp_type = ''standard'', sp_status = ''vacant'', sp_x = x, sp_y = y\<rparr>], db_next_spot := db_next_spot d + 1\<rparr>)
      | [s] \<Rightarrow> Inr (d\<lparr>db_spots := update_where (\<lambda>r. sp_id r = sp_id s)
                (\<lambda>r. r\<lparr>sp_type := ''standard'', sp_x := x, sp_y := y\<rparr>) (db_spots d)\<rparr>)
      | _ \<Rightarrow> Inl MultipleObjects))"

text \<open>Not atomic: what was written before an exception stays.\<close>

fun upsert_spots :: "(string \<times> real \<times> real) list \<Rightarrow> db \<Rightarrow> db \<times> service_error option" where
  "upsert_spots [] d = (d, None)"
| "upsert_spots (spec # specs) d = (case upsert_spot spec d of
       Inl e \<Rightarrow> (d, Some e)
     | Inr d' \<Rightarrow> upsert_spots specs d')"

definition ensure_camera :: "int \<Rightarrow> int option \<Rightarrow> string \<Rightarrow> db \<Rightarrow> db" where
  "ensure_camera i spot desc d =
     (if \<exists>c \<in> set (db_cameras d). ca_id c = i then d
      else d\<lparr>db_cameras := db_cameras d @ [\<lparr>ca_id = i, ca_lot = 1, ca_spot = spot, ca_desc = desc,
         ca_status = ''online'', ca_heartbeat = None\<rparr>]\<rparr>)"

definition seed_demo_data :: "db \<Rightarrow> db \<times> service_error option" where
  "seed_demo_data d =
     (let d = upsert_lot d
      in case delete_spots (\<lambda>s. sp_lot s = 1 \<and> sp_section s \<notin> set (map fst DEMO_SPOTS)) d of
           Inl e \<Rightarrow> (d, Some e)
         | Inr d \<Rightarrow>
             (case upsert_spots DEMO_SPOTS d of
                (d, Some e) \<Rightarrow> (d, Some e)
              | (d, None) \<Rightarrow>
                  let mine = filter (\<lambda>s. sp_lot s = 1) (db_spots d);
                      d = d\<lparr>db_lots := update_where (\<lambda>l. lo_id l = 1) (\<lambda>l. l\<lparr>lo_capacity := length mine\<rparr>) (db_lots d)\<rparr>;
                      first_spot = (case sort_key sp_id mine of [] \<Rightarrow> None | s # _ \<Rightarrow> Some (sp_id s))
                  in (ensure_camera 2 None ''Central aisle overview''
                        (ensure_camera 1 first_spot ''Main entrance camera'' d), None)))"

section \<open>The dashboard\<close>

definition count_status :: "string \<Rightarrow> spot_row list \<Rightarrow> nat" where
  "count_status st spots = length (filter (\<lambda>s. sp_status s = st) spots)"

definition lot_counts :: "db \<Rightarrow> (int \<times> nat \<times> nat \<times> nat) list" where
  "lot_counts d = map (\<lambda>l.
     let spots = filter (\<lambda>s. sp_lot s = lo_id l) (db_spots d)
     in (lo_id l, count_status ''vacant'' spots, count_status ''occupied'' spots, count_status ''reserved'' spots))
     (sort_key lo_id (db_lots d))"

record dashboard_summary =
  ds_total_spots :: nat
  ds_vacant :: nat
  ds_occupied :: nat
  ds_reserved :: nat
  ds_disabled :: nat
  ds_cameras_online :: nat
  ds_cameras_offline :: nat

definition summary_of :: "db \<Rightarrow> dashboard_summary" where
  "summary_of d =
     \<lparr>ds_total_spots = length (db_spots d), ds_vacant = count_status ''vacant'' (db_spots d),
      ds_occupied = count_status ''occupied'' (db_spots d), ds_reserved = count_status ''reserved'' (db_spots d),
      ds_disabled = count_status ''disabled'' (db_spots d),
      ds_cameras_online = length (filter (\<lambda>c. ca_status c = ''online'') (db_cameras d)),
      ds_cameras_offline = length (filter (\<lambda>c. ca_status c = ''offline'') (db_cameras d))\<rparr>"

definition recent_transactions :: "db \<Rightarrow> entry_row list" where
  "recent_transactions d = take 10 (sort_key (\<lambda>e. - en_entry_time e) (db_entries d))"

section \<open>Views that change the tables\<close>

definition SPOT_STATUSES :: "string list" where
  "SPOT_STATUSES = [''vacant'', ''occupied'', ''reserved'', ''disabled'']"

text \<open>\<open>set_status\<close>: the value is anything JSON; a list or an object cannot be looked up in a set.\<close>

definition view_set_status :: "int \<Rightarrow> json \<Rightarrow> db \<Rightarrow> service_error + db" where
  "view_set_status i v d =
     (if find_spot i d = None then Inl NotFound
      else case v of
        JStr st \<Rightarrow> if st \<in> set SPOT_STATUSES then Inr (set_spot_status i st d) else Inl InvalidStatus
      | JList _ \<Rightarrow> Inl Unhashable
      | JObj _ \<Rightarrow> Inl Unhashable
      | _ \<Rightarrow> Inl InvalidStatus)"

definition latest_route :: "int \<Rightarrow> db \<Rightarrow> route_row option" where
  "latest_route vid d = (case sort_key (\<lambda>r. - ro_created_at r) (filter (\<lambda>r. ro_vehicle r = vid) (db_routes d)) of
       [] \<Rightarrow> None | r # _ \<Rightarrow> Some r)"

definition active_spot :: "int \<Rightarrow> db \<Rightarrow> spot_row option" where
  "active_spot vid d =
     (case sort_key (\<lambda>e. - en_entry_time e) (filter (\<lambda>e. en_vehicle e = vid \<and> is_active_entry e) (db_entries d)) of
        [] \<Rightarrow> None | e # _ \<Rightarrow> find_spot (en_spot e) d)"

definition view_stored ::
  "real \<Rightarrow> vehicle_row \<Rightarrow> real \<times> real \<Rightarrow> db \<Rightarrow> service_error + (db \<times> route_row)" where
  "view_stored now v start d = (case latest_route (ve_id v) d of
       Some r \<Rightarrow> Inr (d, r)
     | None \<Rightarrow>
         (case active_spot (ve_id v) d of
            Some s \<Rightarrow> Inr (build_route_plan now (ve_id v) s start d)
          | None \<Rightarrow>
              (case recommend_spot None (ve_type v) d of
                 Inl e \<Rightarrow> Inl e
               | Inr (d, s) \<Rightarrow> Inr (build_route_plan now (ve_id v) s start d))))"

definition view_route ::
  "real \<Rightarrow> vehicle_row \<Rightarrow> (real \<times> real) option \<Rightarrow> int option \<Rightarrow> db \<Rightarrow> service_error + (db \<times> route_row)" where
  "view_route now v raw_start target d =
     (let start = (case raw_start of Some s \<Rightarrow> s | None \<Rightarrow> REC_ENTRY_POINT)
      in case target of
           Some i \<Rightarrow>
             if i \<noteq> 0 then
               (case find_spot i d of
                  None \<Rightarrow> Inl NotFound
                | Some s \<Rightarrow> Inr (build_route_plan now (ve_id v) s start d))
             else view_stored now v start d
         | None \<Rightarrow> view_stored now v start d)"

section \<open>The books\<close>

definition active_entries :: "db \<Rightarrow> entry_row list" where
  "active_entries d = filter is_active_entry (db_entries d)"

definition occupied_spots :: "db \<Rightarrow> int set" where
  "occupied_spots d = sp_id ` {s \<in> set (db_spots d). sp_status s = ''occupied''}"

definition keys_ok :: "('a \<Rightarrow> int) \<Rightarrow> int \<Rightarrow> 'a list \<Rightarrow> bool" where
  "keys_ok key next rows \<longleftrightarrow> distinct (map key rows) \<and> (\<forall>r \<in> set rows. key r < next)"

definition open_pairs :: "assignment_row list \<Rightarrow> (int \<times> int) set" where
  "open_pairs as = (\<lambda>a. (as_vehicle a, as_spot a)) ` {a \<in> set as. as_status a = ''occupied''}"

text \<open>Ids identify rows, a plate has one vehicle, a vehicle and a spot have at most one open transaction, the spots
  marked occupied are those with one, and the open assignments are the open transactions.\<close>

definition books_ok :: "db \<Rightarrow> bool" where
  "books_ok d \<longleftrightarrow>
     keys_ok ve_id (db_next_vehicle d) (db_vehicles d) \<and> distinct (map ve_plate (db_vehicles d)) \<and>
     keys_ok sp_id (db_next_spot d) (db_spots d) \<and> keys_ok en_id (db_next_entry d) (db_entries d) \<and>
     distinct (map en_vehicle (active_entries d)) \<and> distinct (map en_spot (active_entries d)) \<and>
     en_spot ` set (active_entries d) = occupied_spots d \<and>
     open_pairs (db_assignments d) =
       (\<lambda>e. (en_vehicle e, en_spot e)) ` set (active_entries d) \<and>
     en_vehicle ` set (db_entries d) \<subseteq> ve_id ` set (db_vehicles d)"

lemma keys_ok_snoc: "keys_ok key n rows \<Longrightarrow> key r = n \<Longrightarrow> keys_ok key (n + 1) (rows @ [r])"
  by (force simp: keys_ok_def)

lemma keys_ok_update: "(\<And>r. P r \<Longrightarrow> r \<in> set rows \<Longrightarrow> key (f r) = key r) \<Longrightarrow> keys_ok key n (update_where P f rows) = keys_ok key n rows"
proof -
  assume "\<And>r. P r \<Longrightarrow> r \<in> set rows \<Longrightarrow> key (f r) = key r"
  then have m: "map key (update_where P f rows) = map key rows" by (auto simp: update_where_def)
  have all: "(\<forall>r \<in> set xs. key r < n) = list_all (\<lambda>i. i < n) (map key xs)" for xs by (simp add: list_all_iff)
  show ?thesis unfolding keys_ok_def all m ..
qed

lemma keys_ok_filter: "keys_ok key n rows \<Longrightarrow> keys_ok key n (filter P rows)"
  by (auto simp: keys_ok_def distinct_map intro: inj_on_subset)

lemma keys_eq: "keys_ok key n rows \<Longrightarrow> a \<in> set rows \<Longrightarrow> b \<in> set rows \<Longrightarrow> key a = key b \<Longrightarrow> a = b"
  by (auto simp: keys_ok_def distinct_map dest: inj_onD)

lemma map_update_where: "(\<And>r. P r \<Longrightarrow> g (f r) = g r) \<Longrightarrow> map g (update_where P f rows) = map g rows"
  by (auto simp: update_where_def)

lemma books_ok_empty: "books_ok db_empty"
  by (simp add: books_ok_def db_empty_def keys_ok_def active_entries_def occupied_spots_def open_pairs_def)

lemma status_after:
  "sp_id ` {s \<in> set (update_where (\<lambda>s. sp_id s = i) (\<lambda>s. s\<lparr>sp_status := st\<rparr>) xs). sp_status s = w} =
     sp_id ` {s \<in> set xs. sp_status s = w} - {i} \<union> (if st = w then {j. j = i \<and> j \<in> sp_id ` set xs} else {})"
proof -
  have "{s \<in> set (update_where (\<lambda>s. sp_id s = i) (\<lambda>s. s\<lparr>sp_status := st\<rparr>) xs). sp_status s = w} =
      (\<lambda>s. s\<lparr>sp_status := st\<rparr>) ` {s \<in> set xs. sp_id s = i \<and> st = w} \<union> {s \<in> set xs. sp_id s \<noteq> i \<and> sp_status s = w}"
    unfolding update_where_def set_map by (intro equalityI subsetI) (auto split: if_splits)
  then show ?thesis by (simp add: image_Un image_image) blast
qed

lemma occupied_after_status:
  assumes "s \<in> set (db_spots d)" "sp_id s = i"
  shows "occupied_spots (set_spot_status i st d) =
    (if st = ''occupied'' then insert i (occupied_spots d) else occupied_spots d - {i})"
  using assms status_after [of i st "db_spots d" "''occupied''"]
  by (auto simp: occupied_spots_def set_spot_status_def simp del: list.inject)

lemma hd_sort_key:
  "xs \<noteq> [] \<Longrightarrow> hd (sort_key f xs) \<in> set xs \<and> (\<forall>x \<in> set xs. f (hd (sort_key f xs)) \<le> f x)"
proof -
  assume "xs \<noteq> []"
  then have "sort_key f xs \<noteq> []" by (metis length_0_conv length_sort)
  then obtain y ys where s: "sort_key f xs = y # ys" by (cases "sort_key f xs") auto
  then have "set xs = insert y (set ys)" using set_sort [of f xs] by simp
  moreover have "sorted (map f (y # ys))" using sorted_sort_key [of f xs] s by simp
  ultimately show ?thesis using s by auto
qed

lemma recommend_spot_spec:
  assumes "recommend_spot lot vt d = Inr (d', s)"
  shows "\<exists>log. d' = d\<lparr>db_logs := log\<rparr>" "s \<in> set (vacant_candidates lot d)"
    "\<forall>x \<in> set (vacant_candidates lot d). spot_score vt s \<le> spot_score vt x"
  using assms hd_sort_key [of "vacant_candidates lot d" "spot_score vt"]
  by (auto simp: recommend_spot_def Let_def split: if_splits)

text \<open>The recommendation is a best free spot. What \<open>recommend_spot\<close> returns is vacant and in the asked lot, no
  vacant spot there has a better type rank for the vehicle, and of those with its rank none is nearer to the entry;
  it fails exactly when there is no vacant spot.\<close>

theorem recommendation_is_best:
  "case recommend_spot lot vt d of
     Inl e \<Rightarrow> e = NoVacantSpot \<and> vacant_candidates lot d = []
   | Inr (d', s) \<Rightarrow> s \<in> set (db_spots d) \<and> sp_status s = ''vacant'' \<and> lot \<in> {None, Some 0, Some (sp_lot s)} \<and>
       list_all (\<lambda>x. \<not> (type_rank (preferences_of vt) (sp_type x), distance_from_entry x) <
                      (type_rank (preferences_of vt) (sp_type s), distance_from_entry s)) (vacant_candidates lot d)"
proof (cases "recommend_spot lot vt d")
  case (Inl e)
  then show ?thesis by (auto simp: recommend_spot_def Let_def split: if_splits)
next
  case (Inr r)
  obtain d' s where r: "r = (d', s)" by fastforce
  note spec = recommend_spot_spec [OF Inr [unfolded r]]
  have "lot \<in> {None, Some 0, Some (sp_lot s)}" using spec(2) by (auto simp: vacant_candidates_def split: option.splits)
  then show ?thesis
    using spec by (auto simp: Inr r vacant_candidates_def list_all_iff spot_score_def not_less less_eq_prod_def less_prod_def)
qed

section \<open>Every request keeps the books\<close>

lemma books_fields [simp]:
  "books_ok (d\<lparr>db_logs := a\<rparr>) = books_ok d" "books_ok (d\<lparr>db_cameras := b\<rparr>) = books_ok d"
  "books_ok (d\<lparr>db_routes := c\<rparr>) = books_ok d" "books_ok (d\<lparr>db_lots := e\<rparr>) = books_ok d"
  "books_ok (d\<lparr>db_next_route := f\<rparr>) = books_ok d" "books_ok (d\<lparr>db_next_assignment := g\<rparr>) = books_ok d"
  by (simp_all add: books_ok_def active_entries_def occupied_spots_def)

lemma books_created:
  assumes "books_ok d" "get_or_create_vehicle plate t d = (d', v, created)"
  shows "books_ok d' \<and> v \<in> set (db_vehicles d') \<and> db_entries d' = db_entries d"
proof (cases "find_plate plate d")
  case None
  then have plate: "plate \<notin> ve_plate ` set (db_vehicles d)" by (auto simp: find_plate_def find_None_iff)
  have "keys_ok ve_id (db_next_vehicle d + 1) (db_vehicles d @ [v])" "ve_plate v = plate"
    and d': "d' = d\<lparr>db_vehicles := db_vehicles d @ [v], db_next_vehicle := db_next_vehicle d + 1\<rparr>"
    using assms None keys_ok_snoc [of ve_id "db_next_vehicle d" "db_vehicles d" v]
    by (auto simp: get_or_create_vehicle_def books_ok_def Let_def)
  then show ?thesis
    using assms(1) plate unfolding d' by (auto simp: books_ok_def active_entries_def occupied_spots_def)
next
  case (Some u)
  then have "u \<in> set (db_vehicles d)" by (auto simp: find_plate_def find_Some_iff)
  then show ?thesis using assms by (auto simp: get_or_create_vehicle_def Some)
qed

lemma books_vehicle_type:
  assumes "books_ok d" "v \<in> set (db_vehicles d)"
  shows "books_ok (set_vehicle_type (ve_id v) t d) \<and> ve_id v \<in> ve_id ` set (db_vehicles (set_vehicle_type (ve_id v) t d))"
proof -
  let ?u = "update_where (\<lambda>x. ve_id x = ve_id v) (\<lambda>x. x\<lparr>ve_type := t\<rparr>) (db_vehicles d)"
  have p: "map ve_plate ?u = map ve_plate (db_vehicles d)" and i: "map ve_id ?u = map ve_id (db_vehicles d)"
    by (simp_all add: map_update_where)
  have ids: "ve_id ` set ?u = ve_id ` set (db_vehicles d)" using arg_cong [OF i, of set] by simp
  have "keys_ok ve_id n ?u = keys_ok ve_id n (db_vehicles d)" for n by (rule keys_ok_update) simp
  then show ?thesis
    using assms ids p by (simp add: books_ok_def set_vehicle_type_def active_entries_def occupied_spots_def)
qed

lemma vacant_not_occupied:
  assumes "books_ok d" "s \<in> set (db_spots d)" "sp_status s = ''vacant''"
  shows "sp_id s \<notin> occupied_spots d"
proof
  assume "sp_id s \<in> occupied_spots d"
  then obtain x where "x \<in> set (db_spots d)" "sp_status x = ''occupied''" "sp_id x = sp_id s"
    by (auto simp: occupied_spots_def)
  then have "x = s" using assms keys_eq [of sp_id _ "db_spots d" x s] by (auto simp: books_ok_def)
  then show False using \<open>sp_status x = _\<close> assms(3) by simp
qed

definition park :: "entry_row \<Rightarrow> assignment_row \<Rightarrow> db \<Rightarrow> db" where
  "park e a d = (set_spot_status (en_spot e) ''occupied'' d)
     \<lparr>db_entries := db_entries d @ [e], db_next_entry := db_next_entry d + 1, db_assignments := db_assignments d @ [a]\<rparr>"

lemma books_park:
  assumes "books_ok d" "s \<in> set (db_spots d)" "sp_status s = ''vacant''" "en_spot e = sp_id s" "is_active_entry e"
    and "en_id e = db_next_entry d" "en_vehicle e \<in> ve_id ` set (db_vehicles d)"
    and "\<not> (\<exists>x \<in> set (db_entries d). en_vehicle x = en_vehicle e \<and> is_active_entry x)"
    and "as_vehicle a = en_vehicle e" "as_spot a = en_spot e" "as_status a = ''occupied''"
  shows "books_ok (park e a d)"
proof -
  have act: "active_entries (park e a d) = active_entries d @ [e]"
    using assms(5) by (simp add: active_entries_def park_def set_spot_status_def)
  have occ: "occupied_spots (park e a d) = insert (en_spot e) (occupied_spots d)"
    using occupied_after_status [OF assms(2) assms(4) [symmetric], of "''occupied''"]
    by (simp add: occupied_spots_def park_def set_spot_status_def)
  have spots: "keys_ok sp_id n (db_spots (park e a d)) = keys_ok sp_id n (db_spots d)" for n
    by (simp add: park_def set_spot_status_def keys_ok_update)
  have fields: "db_vehicles (park e a d) = db_vehicles d" "db_next_vehicle (park e a d) = db_next_vehicle d"
    "db_next_spot (park e a d) = db_next_spot d" "db_entries (park e a d) = db_entries d @ [e]"
    "db_next_entry (park e a d) = db_next_entry d + 1" "db_assignments (park e a d) = db_assignments d @ [a]"
    by (simp_all add: park_def set_spot_status_def)
  have free: "en_vehicle e \<notin> en_vehicle ` set (active_entries d)" "en_spot e \<notin> en_spot ` set (active_entries d)"
    using assms(8) vacant_not_occupied [OF assms(1-3)] assms(1,4) by (auto simp: active_entries_def books_ok_def)
  have "{x \<in> set (db_assignments d @ [a]). as_status x = ''occupied''} =
      insert a {x \<in> set (db_assignments d). as_status x = ''occupied''}" using assms(11) by auto
  then have pairs: "open_pairs (db_assignments d @ [a]) = insert (en_vehicle e, en_spot e) (open_pairs (db_assignments d))"
    unfolding open_pairs_def using assms(9,10) by simp
  have "keys_ok en_id (db_next_entry d + 1) (db_entries d @ [e])"
    using assms(1,6) by (intro keys_ok_snoc) (simp_all add: books_ok_def)
  then show ?thesis
    using assms(1,7) free unfolding books_ok_def act occ spots fields pairs by simp
qed

definition leave :: "entry_row \<Rightarrow> real \<Rightarrow> db \<Rightarrow> db" where
  "leave e now d = (set_spot_status (en_spot e) ''vacant''
       (d\<lparr>db_entries := update_where (\<lambda>x. en_id x = en_id e) (\<lambda>_. e\<lparr>en_exit_time := Some now\<rparr>) (db_entries d)\<rparr>))
     \<lparr>db_assignments := update_where (\<lambda>a. as_vehicle a = en_vehicle e \<and> as_spot a = en_spot e \<and> as_status a = ''occupied'')
        (\<lambda>a. a\<lparr>as_status := ''completed'', as_released_at := Some now\<rparr>) (db_assignments d)\<rparr>"

lemma open_pairs_closed:
  "open_pairs (update_where (\<lambda>a. as_vehicle a = v \<and> as_spot a = s \<and> as_status a = ''occupied'')
     (\<lambda>a. a\<lparr>as_status := ''completed'', as_released_at := t\<rparr>) as) = open_pairs as - {(v, s)}"
proof -
  have "{x \<in> set (update_where (\<lambda>a. as_vehicle a = v \<and> as_spot a = s \<and> as_status a = ''occupied'')
        (\<lambda>a. a\<lparr>as_status := ''completed'', as_released_at := t\<rparr>) as). as_status x = ''occupied''} =
      {a \<in> set as. as_status a = ''occupied'' \<and> (as_vehicle a, as_spot a) \<noteq> (v, s)}"
    unfolding update_where_def set_map by (intro equalityI subsetI) (auto split: if_splits)
  then show ?thesis unfolding open_pairs_def by (simp add: set_eq_iff image_iff) blast
qed

lemma filter_update_closed:
  assumes "keys_ok en_id n rows" "e \<in> set rows"
  shows "filter is_active_entry (update_where (\<lambda>x. en_id x = en_id e) (\<lambda>_. e\<lparr>en_exit_time := Some t\<rparr>) rows) =
    filter (\<lambda>x. x \<noteq> e) (filter is_active_entry rows)"
proof -
  have "\<forall>x \<in> set rows. en_id x = en_id e \<longleftrightarrow> x = e" using keys_eq [OF assms(1)] assms(2) by blast
  then show ?thesis
    by (induction rows) (auto simp: update_where_def is_active_entry_def)
qed

lemma books_leave:
  assumes "books_ok d" "e \<in> set (db_entries d)" "is_active_entry e"
  shows "books_ok (leave e now d)"
proof -
  have keys: "keys_ok en_id (db_next_entry d) (db_entries d)" using assms(1) by (simp add: books_ok_def)
  have act: "active_entries (leave e now d) = filter (\<lambda>x. x \<noteq> e) (active_entries d)"
    using filter_update_closed [OF keys assms(2)] by (simp add: active_entries_def leave_def set_spot_status_def)
  have e: "e \<in> set (active_entries d)" using assms(2,3) by (simp add: active_entries_def)
  have inj: "inj_on en_spot (set (active_entries d))" "inj_on en_vehicle (set (active_entries d))"
    using assms(1) by (simp_all add: books_ok_def distinct_map)
  have "en_spot e \<in> occupied_spots d" using assms(1) e by (auto simp: books_ok_def)
  then obtain s where s: "s \<in> set (db_spots d)" "sp_id s = en_spot e" by (auto simp: occupied_spots_def)
  have occ: "occupied_spots (leave e now d) = occupied_spots d - {en_spot e}"
    using occupied_after_status [OF s, of "''vacant''"] by (simp add: occupied_spots_def leave_def set_spot_status_def)
  have spots: "keys_ok sp_id n (db_spots (leave e now d)) = keys_ok sp_id n (db_spots d)" for n
    by (simp add: leave_def set_spot_status_def keys_ok_update)
  have ent: "keys_ok en_id n (db_entries (leave e now d)) = keys_ok en_id n (db_entries d)" for n
    by (simp add: leave_def set_spot_status_def) (rule keys_ok_update, simp)
  have "en_vehicle ` set (db_entries (leave e now d)) \<subseteq> en_vehicle ` set (db_entries d)"
    using assms(2) by (auto simp: leave_def set_spot_status_def update_where_def)
  then have veh: "en_vehicle ` set (db_entries (leave e now d)) \<subseteq> ve_id ` set (db_vehicles d)"
    by (rule order_trans) (use assms(1) in \<open>simp add: books_ok_def\<close>)
  have fields: "db_vehicles (leave e now d) = db_vehicles d" "db_next_vehicle (leave e now d) = db_next_vehicle d"
    "db_next_spot (leave e now d) = db_next_spot d" "db_next_entry (leave e now d) = db_next_entry d"
    "open_pairs (db_assignments (leave e now d)) = open_pairs (db_assignments d) - {(en_vehicle e, en_spot e)}"
    by (simp_all add: leave_def set_spot_status_def open_pairs_closed)
  have S: "set (filter (\<lambda>x. x \<noteq> e) (active_entries d)) = set (active_entries d) - {e}" by auto
  have im: "en_spot ` (set (active_entries d) - {e}) = en_spot ` set (active_entries d) - {en_spot e}"
    "(\<lambda>x. (en_vehicle x, en_spot x)) ` (set (active_entries d) - {e}) =
       (\<lambda>x. (en_vehicle x, en_spot x)) ` set (active_entries d) - {(en_vehicle e, en_spot e)}"
    using inj e by (auto simp: inj_on_def)
  show ?thesis
    using assms(1) veh inj e unfolding books_ok_def act occ spots ent fields
    by (simp add: S im distinct_map) (auto dest: inj_onD intro: inj_on_subset)
qed

lemma find_plate_Some: "find_plate plate d = Some v \<Longrightarrow> v \<in> set (db_vehicles d) \<and> ve_plate v = plate"
  by (auto simp: find_plate_def find_Some_iff)

lemma process_entry_books:
  assumes "books_ok d" "process_entry now plate t lot d = Inr (d', er, out)"
  shows "books_ok d'"
proof -
  obtain d1 v created where 1: "get_or_create_vehicle plate t d = (d1, v, created)" by (metis prod.collapse)
  have b1: "books_ok d1" "v \<in> set (db_vehicles d1)" using books_created [OF assms(1) 1] by auto
  define d2 where "d2 = (if \<not> created \<and> ve_type v \<noteq> t then set_vehicle_type (ve_id v) t d1 else d1)"
  have b2: "books_ok d2" "ve_id v \<in> ve_id ` set (db_vehicles d2)"
    using books_vehicle_type [OF b1] b1 by (auto simp: d2_def)
  have no: "\<not> (\<exists>e \<in> set (db_entries d2). en_vehicle e = ve_id v \<and> is_active_entry e)"
    using assms(2) by (auto simp: process_entry_def 1 d2_def Let_def split: if_splits)
  obtain d3 s where 3: "recommend_spot lot t d2 = Inr (d3, s)"
    using assms(2) no by (auto simp: process_entry_def 1 d2_def [symmetric] Let_def split: sum.splits)
  obtain log where log: "d3 = d2\<lparr>db_logs := log\<rparr>" using recommend_spot_spec(1) [OF 3] by blast
  have s: "s \<in> set (db_spots d3)" "sp_status s = ''vacant''"
    using recommend_spot_spec(2) [OF 3] by (auto simp: log vacant_candidates_def)
  define e where "e = \<lparr>en_id = db_next_entry d3, en_vehicle = ve_id v, en_spot = sp_id s, en_entry_time = now, en_exit_time = None\<rparr>"
  define a where "a = \<lparr>as_id = db_next_assignment d3, as_vehicle = ve_id v, as_spot = sp_id s, as_status = ''occupied'',
    as_released_at = None\<rparr>"
  have "books_ok (park e a d3)"
    by (rule books_park [OF _ s]) (use b2 no in \<open>simp_all add: e_def a_def log is_active_entry_def\<close>)
  moreover have "\<exists>x y z. d' = (park e a d3)\<lparr>db_next_assignment := x, db_routes := y, db_next_route := z\<rparr>"
    using assms(2) no
    by (auto simp: process_entry_def 1 d2_def [symmetric] 3 Let_def build_route_plan_def park_def set_spot_status_def
        e_def a_def)
  ultimately show ?thesis by auto
qed

lemma process_exit_leave:
  assumes "process_exit now plate d = Inr (d', e', out)"
  shows "\<exists>v e. find_plate plate d = Some v \<and> filter (\<lambda>e. en_vehicle e = ve_id v \<and> is_active_entry e) (db_entries d) = [e] \<and>
    d' = leave e now d \<and> e' = e\<lparr>en_exit_time := Some now\<rparr> \<and> out = [Broadcast ''exit'' plate (en_spot e) (en_id e)]"
proof -
  obtain v e where v: "find_plate plate d = Some v"
    "filter (\<lambda>e. en_vehicle e = ve_id v \<and> is_active_entry e) (db_entries d) = [e]"
    using assms by (auto simp: process_exit_def Let_def split: option.splits list.splits)
  then have "en_vehicle e = ve_id v" by (metis (mono_tags, lifting) filter_eq_ConsD)
  then show ?thesis
    using assms v by (auto simp: process_exit_def Let_def leave_def set_spot_status_def)
qed

lemma process_exit_books:
  assumes "books_ok d" "process_exit now plate d = Inr (d', e', out)"
  shows "books_ok d'"
proof -
  obtain v :: vehicle_row and e where e: "filter (\<lambda>e. en_vehicle e = ve_id v \<and> is_active_entry e) (db_entries d) = [e]" "d' = leave e now d"
    using process_exit_leave [OF assms(2)] by blast
  then have "e \<in> set (filter (\<lambda>e. en_vehicle e = ve_id v \<and> is_active_entry e) (db_entries d))" by simp
  then show ?thesis using books_leave [OF assms(1)] e(2) by simp
qed

lemma books_delete:
  assumes "books_ok d" "delete_spots P d = Inr d'"
  shows "books_ok d'"
proof -
  define gone where "gone = map sp_id (filter P (db_spots d))"
  have free: "en_spot e \<notin> set gone" if "e \<in> set (db_entries d)" for e
    using assms(2) that by (auto simp: delete_spots_def gone_def Let_def split: if_splits)
  have d': "d' = d\<lparr>db_spots := filter (\<lambda>s. sp_id s \<notin> set gone) (db_spots d),
      db_routes := db_routes d', db_assignments := filter (\<lambda>a. as_spot a \<notin> set gone) (db_assignments d),
      db_cameras := db_cameras d'\<rparr>"
    using assms(2) by (auto simp: delete_spots_def gone_def Let_def split: if_splits)
  have "occupied_spots d = en_spot ` set (active_entries d)"
    and "open_pairs (db_assignments d) = (\<lambda>e. (en_vehicle e, en_spot e)) ` set (active_entries d)"
    using assms(1) by (simp_all add: books_ok_def)
  then have "occupied_spots d \<inter> set gone = {}" and pairs: "snd ` open_pairs (db_assignments d) \<inter> set gone = {}"
    using free by (auto simp: active_entries_def)
  then have "occupied_spots d' = occupied_spots d" by (subst d') (auto simp: occupied_spots_def)
  moreover have "as_spot a \<notin> set gone" if "a \<in> set (db_assignments d)" "as_status a = ''occupied''" for a
    using pairs that by (force simp: open_pairs_def)
  then have "{a \<in> set (filter (\<lambda>a. as_spot a \<notin> set gone) (db_assignments d)). as_status a = ''occupied''} =
      {a \<in> set (db_assignments d). as_status a = ''occupied''}" by auto
  then have "open_pairs (db_assignments d') = open_pairs (db_assignments d)"
    unfolding open_pairs_def by (subst d') simp
  moreover have "active_entries d' = active_entries d" by (subst d') (simp add: active_entries_def)
  moreover have "keys_ok sp_id (db_next_spot d') (db_spots d')"
    using assms(1) by (subst d', subst d') (simp add: books_ok_def keys_ok_filter)
  moreover have "db_vehicles d' = db_vehicles d" "db_next_vehicle d' = db_next_vehicle d" "db_entries d' = db_entries d"
    "db_next_entry d' = db_next_entry d"
    by (subst d', simp)+
  ultimately show ?thesis using assms(1) by (simp add: books_ok_def)
qed

lemma books_upsert_spot:
  assumes "books_ok d" "upsert_spot spec d = Inr d'"
  shows "books_ok d'"
proof -
  obtain sec x y where spec: "spec = (sec, x, y)" by (cases spec) auto
  show ?thesis
  proof (cases "filter (\<lambda>s. sp_lot s = 1 \<and> sp_section s = sec) (db_spots d)")
    case Nil
    define s where "s = \<lparr>sp_id = db_next_spot d, sp_lot = 1, sp_section = sec, sp_type = ''standard'',
      sp_status = ''vacant'', sp_x = x, sp_y = y\<rparr>"
    have d': "d' = d\<lparr>db_spots := db_spots d @ [s], db_next_spot := db_next_spot d + 1\<rparr>"
      using assms(2) Nil by (simp add: upsert_spot_def spec s_def)
    have "keys_ok sp_id (db_next_spot d + 1) (db_spots d @ [s])"
      using assms(1) by (intro keys_ok_snoc) (simp_all add: books_ok_def s_def)
    moreover have "{r \<in> set (db_spots d @ [s]). sp_status r = ''occupied''} = {r \<in> set (db_spots d). sp_status r = ''occupied''}"
      by (auto simp: s_def)
    ultimately show ?thesis
      using assms(1) unfolding d' by (simp add: books_ok_def occupied_spots_def active_entries_def)
  next
    case (Cons s rest)
    let ?f = "\<lambda>r. r\<lparr>sp_type := ''standard'', sp_x := x, sp_y := y\<rparr>"
    have d': "d' = d\<lparr>db_spots := update_where (\<lambda>r. sp_id r = sp_id s) ?f (db_spots d)\<rparr>"
      using assms(2) Cons by (auto simp: upsert_spot_def spec split: list.splits)
    have "map (\<lambda>r. (sp_id r, sp_status r)) (db_spots d') = map (\<lambda>r. (sp_id r, sp_status r)) (db_spots d)"
      unfolding d' by (simp add: map_update_where)
    then have "set (map (\<lambda>r. (sp_id r, sp_status r)) (db_spots d')) = set (map (\<lambda>r. (sp_id r, sp_status r)) (db_spots d))"
      by simp
    moreover have "occupied_spots e = {i. (i, ''occupied'') \<in> set (map (\<lambda>r. (sp_id r, sp_status r)) (db_spots e))}" for e
      by (auto simp: occupied_spots_def image_iff)
    ultimately have "occupied_spots d' = occupied_spots d" by simp
    then show ?thesis
      using assms(1) unfolding d' by (simp add: books_ok_def keys_ok_update active_entries_def)
  qed
qed

lemma books_upsert_spots: "books_ok d \<Longrightarrow> books_ok (fst (upsert_spots specs d))"
  by (induction specs d rule: upsert_spots.induct) (auto split: sum.split dest: books_upsert_spot)

lemma books_lot: "books_ok (upsert_lot d) = books_ok d"
  by (simp add: upsert_lot_def Let_def)

lemma books_camera: "books_ok (ensure_camera i spot desc d) = books_ok d"
  by (simp add: ensure_camera_def)

lemma books_seed: "books_ok d \<Longrightarrow> books_ok (fst (seed_demo_data d))"
proof -
  assume "books_ok d"
  then have ok: "books_ok (upsert_lot d)" by (simp add: books_lot)
  show ?thesis
  proof (cases "delete_spots (\<lambda>s. sp_lot s = 1 \<and> sp_section s \<notin> set (map fst DEMO_SPOTS)) (upsert_lot d)")
    case (Inl e)
    then show ?thesis using ok by (simp add: seed_demo_data_def Let_def)
  next
    case (Inr d1)
    obtain d2 e where 2: "upsert_spots DEMO_SPOTS d1 = (d2, e)" by fastforce
    have "books_ok d2" using books_upsert_spots [OF books_delete [OF ok Inr]] 2 by (metis fst_conv)
    then show ?thesis using Inr 2 by (simp add: seed_demo_data_def Let_def books_camera split: option.split)
  qed
qed

section \<open>Runs of requests\<close>

text \<open>\<open>EntryRequestSerializer\<close>: the vehicle type defaults to \<open>sedan\<close>.\<close>

definition view_entry ::
  "real \<Rightarrow> string \<Rightarrow> string option \<Rightarrow> int option \<Rightarrow> db \<Rightarrow> service_error + (db \<times> (entry_row \<times> route_row) \<times> broadcast list)" where
  "view_entry now plate vehicle_type lot_id =
     process_entry now plate (case vehicle_type of Some t \<Rightarrow> t | None \<Rightarrow> ''sedan'') lot_id"

datatype db_op =
    Seed
  | Enter real string "string option" "int option"
  | Leave real string
  | Heartbeat real int string
  | Recommend "int option" string
  | RouteFor real vehicle_row "(real \<times> real) option" "int option"
  | SetStatus int json

definition kept :: "db \<Rightarrow> service_error + (db \<times> 'a) \<Rightarrow> db" where
  "kept d r = (case r of Inl e \<Rightarrow> d | Inr (d', x) \<Rightarrow> d')"

fun db_step :: "db \<Rightarrow> db_op \<Rightarrow> db" where
  "db_step d Seed = fst (seed_demo_data d)"
| "db_step d (Enter now plate t lot) = kept d (view_entry now plate t lot d)"
| "db_step d (Leave now plate) = kept d (process_exit now plate d)"
| "db_step d (Heartbeat now i st) = fst (update_camera_heartbeat now i st d)"
| "db_step d (Recommend lot t) = kept d (recommend_spot lot t d)"
| "db_step d (RouteFor now v start target) = kept d (view_route now v start target d)"
| "db_step d (SetStatus i v) = (case view_set_status i v d of Inl e \<Rightarrow> d | Inr d' \<Rightarrow> d')"

fun automatic :: "db_op \<Rightarrow> bool" where
  "automatic (SetStatus i v) = False"
| "automatic op = True"

definition db_run :: "db_op list \<Rightarrow> db" where
  "db_run ops = foldl db_step db_empty ops"

lemma books_route: "build_route_plan now i s start d = (d', r) \<Longrightarrow> books_ok d' = books_ok d"
  by (auto simp: build_route_plan_def Let_def)

lemma books_recommend: "recommend_spot lot t d = Inr (d', s) \<Longrightarrow> books_ok d' = books_ok d"
  using recommend_spot_spec(1) by fastforce

lemma books_view_stored: "view_stored now v start d = Inr (d', r) \<Longrightarrow> books_ok d' = books_ok d"
  by (auto simp: view_stored_def split: option.splits sum.splits prod.splits dest: books_route books_recommend)

lemma books_view_route: "view_route now v start target d = Inr (d', r) \<Longrightarrow> books_ok d' = books_ok d"
  by (auto simp: view_route_def Let_def split: option.splits if_splits dest: books_route books_view_stored)

interpretation books: guarded_system db_step books_ok automatic
proof
  fix d op assume ok: "books_ok d" and "automatic op"
  then show "books_ok (db_step d op)"
  proof (cases op)
    case (Enter now plate t lot)
    then show ?thesis using ok process_entry_books by (auto simp: kept_def view_entry_def split: sum.split)
  next
    case (Leave now plate)
    then show ?thesis using ok process_exit_books by (auto simp: kept_def split: sum.split)
  qed (use ok in \<open>auto simp: kept_def update_camera_heartbeat_def books_seed dest: books_recommend books_view_route split: sum.split\<close>)
qed



section \<open>Where a request does more than it says\<close>

lemma find_update_type:
  "find (\<lambda>v. ve_plate v = plate) (update_where (\<lambda>v. ve_id v = i) (\<lambda>v. v\<lparr>ve_type := t\<rparr>) rows) =
     map_option (\<lambda>v. if ve_id v = i then v\<lparr>ve_type := t\<rparr> else v) (find (\<lambda>v. ve_plate v = plate) rows)"
  by (induction rows) (auto simp: update_where_def)

lemma process_entry_vehicles:
  assumes "process_entry now plate t lot d = Inr (d', er, out)" "find_plate plate d = Some v"
  shows "find_plate plate d' = Some (v\<lparr>ve_type := t\<rparr>)"
proof -
  define d2 where "d2 = (if ve_type v \<noteq> t then set_vehicle_type (ve_id v) t d else d)"
  obtain d3 s where 3: "recommend_spot lot t d2 = Inr (d3, s)"
    using assms by (auto simp: process_entry_def get_or_create_vehicle_def d2_def [symmetric] Let_def split: if_splits sum.splits)
  have "db_vehicles d' = db_vehicles d3"
    using assms 3 by (auto simp: process_entry_def get_or_create_vehicle_def d2_def [symmetric] Let_def build_route_plan_def
        set_spot_status_def split: if_splits)
  moreover have "db_vehicles d3 = db_vehicles d2" using recommend_spot_spec(1) [OF 3] by auto
  moreover have "find_plate plate d2 = Some (v\<lparr>ve_type := t\<rparr>)"
    using assms(2) by (auto simp: d2_def find_plate_def set_vehicle_type_def find_update_type)
  ultimately show ?thesis by (simp add: find_plate_def)
qed

text \<open>An entry without a vehicle type turns the registered vehicle into a sedan. The request's default is not
  told apart from a stated type, so the stored type, by which the spot is chosen, is overwritten for good.\<close>

theorem entry_overwrites_type:
  assumes "find_plate plate d = Some v" "view_entry now plate None lot d = Inr (d', er, out)"
  shows "find_plate plate d' = Some (v\<lparr>ve_type := ''sedan''\<rparr>)"
  using process_entry_vehicles [OF _ assms(1)] assms(2) by (simp add: view_entry_def)

text \<open>A lot with one spot.\<close>

definition one_spot :: db where
  "one_spot = db_empty\<lparr>db_spots := [\<lparr>sp_id = 1, sp_lot = 1, sp_section = ''A1'', sp_type = ''standard'',
     sp_status = ''vacant'', sp_x = 425, sp_y = 150\<rparr>], db_next_spot := 2,
     db_vehicles := [\<lparr>ve_id = 1, ve_plate = ''EV'', ve_type = ''ev'', ve_registered = True, ve_discount = ''ev''\<rparr>],
     db_next_vehicle := 2\<rparr>"

lemmas entry_eval = view_entry_def process_entry_def get_or_create_vehicle_def find_plate_def set_vehicle_type_def
  update_where_def recommend_spot_def vacant_candidates_def set_spot_status_def build_route_plan_def is_active_entry_def

lemma entry_overwrites_type_witness:
  "map_option ve_type (find_plate ''EV'' one_spot) = Some ''ev'' \<and>
   map_option ve_type (find_plate ''EV'' (kept one_spot (view_entry 1 ''EV'' None None one_spot))) = Some ''sedan''"
proof -
  obtain d' er out where r: "view_entry 1 ''EV'' None None one_spot = Inr (d', er, out)"
    by (simp add: entry_eval one_spot_def db_empty_def Let_def)
  have f: "find_plate ''EV'' one_spot = Some \<lparr>ve_id = 1, ve_plate = ''EV'', ve_type = ''ev'', ve_registered = True, ve_discount = ''ev''\<rparr>"
    by (simp add: find_plate_def one_spot_def)
  show ?thesis using entry_overwrites_type [OF f r] f r by (simp add: kept_def)
qed

lemma occupied_when_cleared: "i \<notin> occupied_spots (set_spot_status i ''vacant'' d)"
  using status_after [of i "''vacant''" "db_spots d" "''occupied''"] by (simp add: occupied_spots_def set_spot_status_def)

text \<open>A spot cleared by hand can be sold twice, and the first car to leave frees it under the other. When
  \<open>set_status\<close> marks a spot vacant while its transaction is open, the next entry may take it; once the first vehicle
  exits, the spot counts as vacant with the second one still parked on it.\<close>

theorem cleared_spot_double_booked:
  assumes "view_entry now plate t lot d = Inr (d2, (e, r), out)"
    and "process_exit now' plate' d2 = Inr (d3, e', out')" "en_spot e' = en_spot e" "en_id e' \<noteq> en_id e"
  shows "e \<in> set (active_entries d3) \<and> en_spot e \<notin> occupied_spots d3"
proof -
  have e: "e \<in> set (db_entries d2)" "is_active_entry e"
    using assms(1) by (auto simp: view_entry_def process_entry_def Let_def build_route_plan_def set_spot_status_def
        is_active_entry_def split: prod.splits sum.splits if_splits)
  obtain v :: vehicle_row and x where x: "filter (\<lambda>e. en_vehicle e = ve_id v \<and> is_active_entry e) (db_entries d2) = [x]"
    "d3 = leave x now' d2" "e' = x\<lparr>en_exit_time := Some now'\<rparr>"
    using process_exit_leave [OF assms(2)] by blast
  have x': "en_spot x = en_spot e" "en_id x \<noteq> en_id e" using assms(3,4) x(3) by simp_all
  have "e \<in> set (db_entries d3)"
    using e(1) x'(2) by (auto simp: x(2) leave_def set_spot_status_def update_where_def image_iff)
  moreover have "en_spot e \<notin> occupied_spots d3"
    using occupied_when_cleared [of "en_spot x"] x'(1) by (simp add: x(2) leave_def occupied_spots_def)
  ultimately show ?thesis using e(2) by (simp add: active_entries_def)
qed

definition cleared_spot :: db where
  "cleared_spot = (case view_set_status 1 (JStr ''vacant'') (kept one_spot (view_entry 1 ''A'' None None one_spot)) of
     Inl e \<Rightarrow> one_spot | Inr d \<Rightarrow> d)"

lemma cleared_spot_double_booked_witness:
  "\<exists>d2 e d3 x. view_entry 2 ''B'' None None cleared_spot = Inr (d2, (e, x)) \<and> d3 = kept d2 (process_exit 3 ''A'' d2) \<and>
     fst e \<in> set (active_entries d3) \<and> en_spot (fst e) \<notin> occupied_spots d3"
proof -
  have "cleared_spot = one_spot
      \<lparr>db_vehicles := db_vehicles one_spot @ [\<lparr>ve_id = 2, ve_plate = ''A'', ve_type = ''sedan'', ve_registered = False, ve_discount = ''none''\<rparr>],
       db_next_vehicle := 3, db_logs := db_logs cleared_spot, db_routes := db_routes cleared_spot,
       db_entries := [\<lparr>en_id = 1, en_vehicle = 2, en_spot = 1, en_entry_time = 1, en_exit_time = None\<rparr>], db_next_entry := 2,
       db_assignments := db_assignments cleared_spot, db_next_route := 2, db_next_assignment := 2\<rparr>"
    by (simp add: cleared_spot_def kept_def entry_eval one_spot_def db_empty_def Let_def view_set_status_def find_spot_def
        SPOT_STATUSES_def)
  then obtain l r a where c: "cleared_spot = one_spot
      \<lparr>db_vehicles := db_vehicles one_spot @ [\<lparr>ve_id = 2, ve_plate = ''A'', ve_type = ''sedan'', ve_registered = False, ve_discount = ''none''\<rparr>],
       db_next_vehicle := 3, db_logs := l, db_routes := r,
       db_entries := [\<lparr>en_id = 1, en_vehicle = 2, en_spot = 1, en_entry_time = 1, en_exit_time = None\<rparr>], db_next_entry := 2,
       db_assignments := a, db_next_route := 2, db_next_assignment := 2\<rparr>" by blast
  obtain d2 e ro out where 2: "view_entry 2 ''B'' None None cleared_spot = Inr (d2, (e, ro), out)" "en_spot e = 1" "en_id e = 2"
    "find_plate ''A'' d2 = Some \<lparr>ve_id = 2, ve_plate = ''A'', ve_type = ''sedan'', ve_registered = False, ve_discount = ''none''\<rparr>"
    "db_entries d2 = [\<lparr>en_id = 1, en_vehicle = 2, en_spot = 1, en_entry_time = 1, en_exit_time = None\<rparr>, e]" "en_vehicle e = 3"
    unfolding c by (simp add: entry_eval one_spot_def db_empty_def Let_def)
  obtain d3 e' out' where 3: "process_exit 3 ''A'' d2 = Inr (d3, e', out')" "en_spot e' = 1" "en_id e' = 1"
    using 2(4,5,6) by (simp add: process_exit_def is_active_entry_def Let_def)
  show ?thesis
    using cleared_spot_double_booked [OF 2(1) 3(1)] 2(2,3) 3 by (auto simp: 2(1) kept_def)
qed

end
