(* ===== verification/Dashboard.thy ===== *)
theory Dashboard
  imports Py_Json
begin

text \<open>
  The live view: \<open>integrated/host/parking/protocol.py\<close> (the telemetry message), \<open>parking/consumers.py\<close> (the
  WebSocket consumer) and \<open>pipeline/dashboard.py\<close> (the pipeline's throttled sender). \<open>json.loads\<close>, \<open>str\<close> of a JSON
  value and the parsing of numbers in strings are parameters; the channel layer is an output.
\<close>

section \<open>Conversions\<close>

datatype py_exn = KeyError | TypeError | ValueError | DecodeError | OverflowError | AttributeError

text \<open>\<open>int(v)\<close> and \<open>float(v)\<close>; \<open>int_str\<close> and \<open>float_str\<close> read a string, \<open>None\<close> for a \<open>ValueError\<close>. An \<open>int\<close> beyond
  the largest float overflows.\<close>

fun to_int :: "(string \<Rightarrow> int option) \<Rightarrow> json \<Rightarrow> py_exn + int" where
  "to_int int_str (JInt n) = Inr n"
| "to_int int_str (JBool b) = Inr (if b then 1 else 0)"
| "to_int int_str (JFloat (Fin x)) = Inr (if x < 0 then \<lceil>x\<rceil> else \<lfloor>x\<rfloor>)"
| "to_int int_str (JFloat NaN) = Inl ValueError"
| "to_int int_str (JFloat v) = Inl OverflowError"
| "to_int int_str (JStr s) = (case int_str s of None \<Rightarrow> Inl ValueError | Some n \<Rightarrow> Inr n)"
| "to_int int_str v = Inl TypeError"

definition MAX_FLOAT_INT :: int where "MAX_FLOAT_INT = 2 ^ 1024 - 2 ^ 970"

fun to_float :: "(string \<Rightarrow> pyfloat option) \<Rightarrow> json \<Rightarrow> py_exn + pyfloat" where
  "to_float float_str (JInt n) = (if \<bar>n\<bar> < MAX_FLOAT_INT then Inr (Fin (of_int n)) else Inl OverflowError)"
| "to_float float_str (JBool b) = Inr (Fin (if b then 1 else 0))"
| "to_float float_str (JFloat x) = Inr x"
| "to_float float_str (JStr s) = (case float_str s of None \<Rightarrow> Inl ValueError | Some x \<Rightarrow> Inr x)"
| "to_float float_str v = Inl TypeError"

section \<open>The telemetry message\<close>

record telemetry =
  tm_car_id :: int
  tm_license_plate :: string
  tm_pos :: "pyfloat \<times> pyfloat"
  tm_status :: string
  tm_target_spot_id :: json
  tm_heading_deg :: json
  tm_heading_source :: json
  tm_parking_phase :: json
  tm_route_id :: json
  tm_waypoint_id :: json

text \<open>The fields in the order \<open>from_dict\<close> converts them.\<close>

definition from_dict ::
  "(json \<Rightarrow> string) \<Rightarrow> (string \<Rightarrow> int option) \<Rightarrow> (string \<Rightarrow> pyfloat option) \<Rightarrow> pydict \<Rightarrow> py_exn + telemetry" where
  "from_dict pstr int_str float_str payload =
     (case dget_or payload ''pos'' (JList [JFloat (Fin 0), JFloat (Fin 0)]) of
        JList [x, y] \<Rightarrow>
          if \<not> dhas payload ''car_id'' then Inl KeyError
          else
            (case to_int int_str (dget payload ''car_id'') of
               Inl e \<Rightarrow> Inl e
             | Inr car \<Rightarrow>
                 (case to_float float_str x of
                    Inl e \<Rightarrow> Inl e
                  | Inr px \<Rightarrow>
                      (case to_float float_str y of
                         Inl e \<Rightarrow> Inl e
                       | Inr py \<Rightarrow> Inr
                           \<lparr>tm_car_id = car, tm_license_plate = pstr (dget_or payload ''license_plate'' (JStr '''')),
                            tm_pos = (px, py), tm_status = pstr (dget_or payload ''status'' (JStr ''moving'')),
                            tm_target_spot_id = dget payload ''target_spot_id'',
                            tm_heading_deg = dget payload ''heading_deg'',
                            tm_heading_source = dget payload ''heading_source'',
                            tm_parking_phase = dget payload ''parking_phase'',
                            tm_route_id = dget payload ''route_id'', tm_waypoint_id = dget payload ''waypoint_id''\<rparr>)))
      | _ \<Rightarrow> Inl ValueError)"

definition to_dict :: "telemetry \<Rightarrow> pydict" where
  "to_dict t =
     [(''car_id'', JInt (tm_car_id t)), (''license_plate'', JStr (tm_license_plate t)),
      (''pos'', JList [JFloat (fst (tm_pos t)), JFloat (snd (tm_pos t))]), (''status'', JStr (tm_status t)),
      (''target_spot_id'', tm_target_spot_id t), (''heading_deg'', tm_heading_deg t),
      (''heading_source'', tm_heading_source t), (''parking_phase'', tm_parking_phase t),
      (''route_id'', tm_route_id t), (''waypoint_id'', tm_waypoint_id t)]"

text \<open>Telemetry survives the wire. \<open>from_dict\<close> of \<open>to_dict\<close> is the message, every field of it, where \<open>str\<close> of a
  string is the string.\<close>

theorem telemetry_roundtrip:
  assumes "pstr (JStr (tm_license_plate t)) = tm_license_plate t" "pstr (JStr (tm_status t)) = tm_status t"
  shows "from_dict pstr int_str float_str (to_dict t) = Inr t"
  using assms by (simp add: from_dict_def to_dict_def dget_def dget_or_def dhas_def)

definition str_only :: "json \<Rightarrow> string" where
  "str_only v = (case v of JStr s \<Rightarrow> s | _ \<Rightarrow> '''')"

lemma telemetry_roundtrip_witness:
  "from_dict str_only (\<lambda>_. None) (\<lambda>_. None) (to_dict
     \<lparr>tm_car_id = 1, tm_license_plate = ''12A'', tm_pos = (Fin 425, Fin 150), tm_status = ''moving'',
      tm_target_spot_id = JNull, tm_heading_deg = JFloat (Fin 270), tm_heading_source = JStr ''TRAJECTORY'',
      tm_parking_phase = JStr ''CRUISE'', tm_route_id = JInt 3, tm_waypoint_id = JInt 2\<rparr>) =
   Inr \<lparr>tm_car_id = 1, tm_license_plate = ''12A'', tm_pos = (Fin 425, Fin 150), tm_status = ''moving'',
      tm_target_spot_id = JNull, tm_heading_deg = JFloat (Fin 270), tm_heading_source = JStr ''TRAJECTORY'',
      tm_parking_phase = JStr ''CRUISE'', tm_route_id = JInt 3, tm_waypoint_id = JInt 2\<rparr>"
  by (rule telemetry_roundtrip) (simp_all add: str_only_def)

section \<open>The consumer\<close>

definition group_name :: string where "group_name = ''parking_dashboard''"

datatype consumer_out =
    GroupAdd string | GroupDiscard string | Accept
  | GroupSend string string pydict  \<comment> \<open>group, message type, payload\<close>
  | SendJson pydict
  | SendError py_exn

definition consumer_connect :: "consumer_out list" where
  "consumer_connect = [GroupAdd group_name, Accept,
     SendJson [(''type'', JStr ''connected''), (''message'', JStr ''dashboard websocket ready'')]]"

definition consumer_disconnect :: "consumer_out list" where
  "consumer_disconnect = [GroupDiscard group_name]"

text \<open>The caught exceptions; \<open>JSONDecodeError\<close> is a \<open>ValueError\<close>.\<close>

definition reported :: "py_exn \<Rightarrow> bool" where
  "reported e \<longleftrightarrow> e \<in> {KeyError, TypeError, ValueError, DecodeError}"

text \<open>A payload that is not an object has no \<open>get\<close>. An exception that is not reported leaves the consumer.\<close>

definition receive ::
  "(string \<Rightarrow> json option) \<Rightarrow> (json \<Rightarrow> string) \<Rightarrow> (string \<Rightarrow> int option) \<Rightarrow> (string \<Rightarrow> pyfloat option) \<Rightarrow>
     string option \<Rightarrow> py_exn + consumer_out list" where
  "receive loads pstr int_str float_str text_data = (case text_data of
       None \<Rightarrow> Inr []
     | Some text \<Rightarrow>
         if text = '''' then Inr []
         else
           (case (case loads text of
                    None \<Rightarrow> Inl DecodeError
                  | Some (JObj payload) \<Rightarrow> from_dict pstr int_str float_str payload
                  | Some _ \<Rightarrow> Inl AttributeError) of
              Inl e \<Rightarrow> if reported e then Inr [SendError e] else Inl e
            | Inr m \<Rightarrow> Inr [GroupSend group_name ''parking.telemetry'' (to_dict m)]))"

definition parking_telemetry :: "pydict \<Rightarrow> consumer_out list" where
  "parking_telemetry payload = [SendJson [(''type'', JStr ''vehicle.telemetry''), (''payload'', JObj payload)]]"

definition parking_state :: "pydict \<Rightarrow> consumer_out list" where
  "parking_state payload = [SendJson [(''type'', JStr ''parking.state''), (''payload'', JObj payload)]]"

text \<open>Which numbers overflow.\<close>

fun int_overflows :: "json \<Rightarrow> bool" where
  "int_overflows (JFloat x) = (x = PosInf \<or> x = NegInf)"
| "int_overflows v = False"

fun float_overflows :: "json \<Rightarrow> bool" where
  "float_overflows (JInt n) = (MAX_FLOAT_INT \<le> \<bar>n\<bar>)"
| "float_overflows v = False"

lemma to_int_unreported: "to_int int_str v = Inl e \<Longrightarrow> \<not> reported e \<longleftrightarrow> int_overflows v"
  by (cases "(int_str, v)" rule: to_int.cases) (auto simp: reported_def split: option.splits)

lemma to_float_unreported: "to_float float_str v = Inl e \<Longrightarrow> \<not> reported e \<longleftrightarrow> float_overflows v"
  by (cases "(float_str, v)" rule: to_float.cases) (auto simp: reported_def split: option.splits if_splits)

text \<open>A payload whose conversion ends in an exception \<open>receive\<close> does not catch: an infinite car id or, after a good
  one, a coordinate that is an integer beyond the floats.\<close>

definition position_of :: "pydict \<Rightarrow> (json \<times> json) option" where
  "position_of p = (case dget_or p ''pos'' (JList [JFloat (Fin 0), JFloat (Fin 0)]) of
     JList [x, y] \<Rightarrow> Some (x, y) | _ \<Rightarrow> None)"

definition breaks :: "(string \<Rightarrow> int option) \<Rightarrow> (string \<Rightarrow> pyfloat option) \<Rightarrow> pydict \<Rightarrow> bool" where
  "breaks int_str float_str p = (case position_of p of
     None \<Rightarrow> False
   | Some (x, y) \<Rightarrow> dhas p ''car_id'' \<and>
       (int_overflows (dget p ''car_id'') \<or>
        to_int int_str (dget p ''car_id'') \<in> range Inr \<and>
          (float_overflows x \<or> to_float float_str x \<in> range Inr \<and> float_overflows y)))"

lemma overflow_is_error: "int_overflows v \<Longrightarrow> to_int int_str v = Inl OverflowError"
  "float_overflows v \<Longrightarrow> to_float float_str v = Inl OverflowError"
  by (cases v; auto)+

lemma from_dict_breaks:
  "case from_dict pstr int_str float_str p of Inl e \<Rightarrow> \<not> reported e \<longleftrightarrow> breaks int_str float_str p
   | Inr t \<Rightarrow> \<not> breaks int_str float_str p"
proof (cases "position_of p")
  case None
  then have "from_dict pstr int_str float_str p = Inl ValueError"
    by (auto simp: position_of_def from_dict_def split: json.splits list.splits)
  then show ?thesis by (simp add: None breaks_def reported_def)
next
  case (Some xy)
  obtain x y where xy: "xy = (x, y)" by fastforce
  have pos: "dget_or p ''pos'' (JList [JFloat (Fin 0), JFloat (Fin 0)]) = JList [x, y]"
    using Some xy by (auto simp: position_of_def split: json.splits list.splits)
  note b = breaks_def [of int_str float_str p, unfolded Some xy, simplified]
  note f = from_dict_def [of pstr int_str float_str p, unfolded pos, simplified]
  show ?thesis
  proof (cases "dhas p ''car_id''")
    case False
    then show ?thesis by (simp add: b f reported_def)
  next
    case car: True
    show ?thesis
    proof (cases "to_int int_str (dget p ''car_id'')")
      case (Inl e)
      then show ?thesis using to_int_unreported [OF Inl] car by (auto simp: b f)
    next
      case int: (Inr n)
      then have ni: "\<not> int_overflows (dget p ''car_id'')" using overflow_is_error(1) by fastforce
      show ?thesis
      proof (cases "to_float float_str x")
        case (Inl e)
        then show ?thesis using to_float_unreported [OF Inl] car int ni by (auto simp: b f)
      next
        case fx: (Inr px)
        then have nx: "\<not> float_overflows x" using overflow_is_error(2) by fastforce
        show ?thesis
          using to_float_unreported [of float_str y] overflow_is_error(2) [of y float_str] car int ni fx nx
          by (cases "to_float float_str y") (auto simp: b f)
      qed
    qed
  qed
qed

text \<open>C22: which messages break the dashboard's socket. \<open>receive\<close> lets an exception through exactly for JSON that is
  not an object, for an infinite car id, and for a coordinate that is an integer beyond the floats; every
  other message is rebroadcast or answered by an error.\<close>

theorem consumer_breaks_exactly:
  "(\<exists>e. receive loads pstr int_str float_str (Some text) = Inl e) =
     (text \<noteq> '''' \<and> (case loads text of
        None \<Rightarrow> False
      | Some (JObj p) \<Rightarrow> breaks int_str float_str p
      | Some _ \<Rightarrow> True))"
proof (cases "loads text")
  case None
  then show ?thesis by (simp add: receive_def reported_def)
next
  case (Some j)
  show ?thesis
  proof (cases "\<exists>p. j = JObj p")
    case False
    then show ?thesis using Some by (cases j) (auto simp: receive_def reported_def)
  next
    case True
    then obtain p where p: "loads text = Some (JObj p)" using Some by blast
    show ?thesis
      using from_dict_breaks [where pstr = pstr and int_str = int_str and float_str = float_str and p = p]
      by (cases "from_dict pstr int_str float_str p") (auto simp: receive_def p)
  qed
qed

section \<open>The pipeline's sender\<close>

text \<open>\<open>_last_pose_at\<close>; \<open>available\<close> is whether Django is up, an unavailable push leaves no trace.\<close>

record dashboard_bridge =
  db_interval :: real
  db_last_pose_at :: "int \<Rightarrow> real option"

definition bridge_new :: "real \<Rightarrow> dashboard_bridge" where
  "bridge_new interval = \<lparr>db_interval = interval, db_last_pose_at = (\<lambda>_. None)\<rparr>"

definition push_pose_due :: "real \<Rightarrow> int \<Rightarrow> dashboard_bridge \<Rightarrow> bool" where
  "push_pose_due now c b \<longleftrightarrow> \<not> now - (case db_last_pose_at b c of Some t \<Rightarrow> t | None \<Rightarrow> 0) < db_interval b"

definition dash_push_pose :: "real \<Rightarrow> bool \<Rightarrow> telemetry \<Rightarrow> dashboard_bridge \<Rightarrow> dashboard_bridge \<times> (real \<times> telemetry) list" where
  "dash_push_pose now available t b =
     (if \<not> push_pose_due now (tm_car_id t) b \<or> \<not> available then (b, [])
      else (b\<lparr>db_last_pose_at := (db_last_pose_at b)(tm_car_id t \<mapsto> now)\<rparr>, [(now, t)]))"

fun push_all :: "(real \<times> bool \<times> telemetry) list \<Rightarrow> dashboard_bridge \<Rightarrow> (real \<times> telemetry) list" where
  "push_all [] b = []"
| "push_all ((now, available, t) # es) b =
     (let (b', out) = dash_push_pose now available t b in out @ push_all es b')"

definition sent_times :: "int \<Rightarrow> (real \<times> telemetry) list \<Rightarrow> real list" where
  "sent_times c out = map fst (filter (\<lambda>(t, m). tm_car_id m = c) out)"

text \<open>Poses of one car leave at least the interval apart, whatever is pushed when.\<close>

lemma pose_spacing_from:
  "0 \<le> db_interval b \<Longrightarrow>
     (\<forall>t \<in> set (sent_times c (push_all es b)). case db_last_pose_at b c of Some l \<Rightarrow> l + db_interval b \<le> t | None \<Rightarrow> True) \<and>
     sorted_wrt (\<lambda>s t. s + db_interval b \<le> t) (sent_times c (push_all es b))"
proof (induction es b rule: push_all.induct)
  case (1 b)
  then show ?case by (simp add: sent_times_def)
next
  case (2 now available t es b)
  obtain b' out where p: "dash_push_pose now available t b = (b', out)" by fastforce
  have i: "db_interval b' = db_interval b" using p by (auto simp: dash_push_pose_def split: if_splits)
  note ih = "2.IH" [OF p [symmetric] refl, unfolded i, OF "2.prems"]
  show ?case
  proof (cases "\<not> push_pose_due now (tm_car_id t) b \<or> \<not> available")
    case True
    then show ?thesis using ih p by (simp add: dash_push_pose_def)
  next
    case False
    then have b': "b' = b\<lparr>db_last_pose_at := (db_last_pose_at b)(tm_car_id t \<mapsto> now)\<rparr>" "out = [(now, t)]"
      using p by (simp_all add: dash_push_pose_def)
    have due: "case db_last_pose_at b (tm_car_id t) of Some l \<Rightarrow> l + db_interval b \<le> now | None \<Rightarrow> True"
      using False by (auto simp: push_pose_due_def split: option.splits)
    show ?thesis
      using ih due "2.prems"
      by (auto simp: p b' sent_times_def split: option.splits if_splits) (metis add_increasing2 order_trans order_refl)
  qed
qed

lemma pose_spacing:
  "0 \<le> interval \<Longrightarrow> sorted_wrt (\<lambda>s t. s + interval \<le> t) (sent_times c (push_all es (bridge_new interval)))"
  using pose_spacing_from [of "bridge_new interval" c es] by (simp add: bridge_new_def)

end
