(* ===== verification/Mock_Vehicle.thy ===== *)
theory Mock_Vehicle
  imports Operator_Keys
begin

text \<open>
  \<open>remote-direct-bridge/tools/mock_esp32.py\<close>: the simulated vehicle at the other end of the bridge's
  connection, its reliable commands, the control stream with its watchdog, and the two loops. A handler
  returns the vehicle, what it sends and logs, and \<open>False\<close> when it raises, which ends both loops. One pass of
  a loop is one step; a sequence number that is not an integer counts as a \<open>TypeError\<close>.
\<close>

section \<open>Actuators\<close>

definition STATUS_PERIOD_S :: real where "STATUS_PERIOD_S = 20 / 100"
definition DIRECT_TIMEOUT_S :: real where "DIRECT_TIMEOUT_S = 50 / 100"
definition HEARTBEAT_TIMEOUT_S :: real where "HEARTBEAT_TIMEOUT_S = 1"

definition SERVO_LEFT_STRONG :: real where "SERVO_LEFT_STRONG = 46"
definition SERVO_LEFT_WEAK :: real where "SERVO_LEFT_WEAK = 66"
definition SERVO_CENTER :: real where "SERVO_CENTER = 86"
definition SERVO_RIGHT_WEAK :: real where "SERVO_RIGHT_WEAK = 106"
definition SERVO_RIGHT_STRONG :: real where "SERVO_RIGHT_STRONG = 126"
definition MOTOR_MAX_PWM :: int where "MOTOR_MAX_PWM = 255"
definition MV_FORWARD_MIN :: real where "MV_FORWARD_MIN = 16"
definition MV_FORWARD_DEFAULT :: real where "MV_FORWARD_DEFAULT = 25"
definition MV_TURN_MIN :: real where "MV_TURN_MIN = 34"
definition MV_TURN_DEFAULT :: real where "MV_TURN_DEFAULT = 43"
definition MV_STRONG_TURN_MIN :: real where "MV_STRONG_TURN_MIN = 40"
definition MV_STRONG_TURN_DEFAULT :: real where "MV_STRONG_TURN_DEFAULT = 54"
definition MOTOR_DEADBAND :: real where "MOTOR_DEADBAND = 2 / 100"

definition lerp :: "real \<Rightarrow> real \<Rightarrow> real \<Rightarrow> real" where
  "lerp a b t = (let t = min (max t 0) 1 in a + (b - a) * t)"

fun fabs :: "pyfloat \<Rightarrow> pyfloat" where
  "fabs (Fin a) = Fin \<bar>a\<bar>"
| "fabs NaN = NaN"
| "fabs _ = PosInf"

definition steering_to_angle :: "pyfloat \<Rightarrow> pyfloat" where
  "steering_to_angle steering = (case py_min (py_max steering (Fin (- 1))) (Fin 1) of
       Fin s \<Rightarrow> Fin
         (if s \<le> - 1 / 2 then lerp SERVO_LEFT_STRONG SERVO_LEFT_WEAK ((s + 1) / (1 / 2))
          else if s < 0 then lerp SERVO_LEFT_WEAK SERVO_CENTER ((s + 1 / 2) / (1 / 2))
          else if s \<le> 1 / 2 then lerp SERVO_CENTER SERVO_RIGHT_WEAK (s / (1 / 2))
          else lerp SERVO_RIGHT_WEAK SERVO_RIGHT_STRONG ((s - 1 / 2) / (1 / 2)))
     | _ \<Rightarrow> NaN)"

text \<open>\<open>None\<close>: \<open>round\<close> of a NaN raises \<open>ValueError\<close>.\<close>

definition throttle_to_pwm :: "pyfloat \<Rightarrow> pyfloat \<Rightarrow> int option" where
  "throttle_to_pwm throttle steering = (case py_min (fabs throttle) (Fin 1) of
       Fin magnitude \<Rightarrow>
         if magnitude \<le> MOTOR_DEADBAND then Some 0
         else (case py_min (fabs steering) (Fin 1) of
             Fin abs_steering \<Rightarrow>
               let (min_pwm, default_pwm) =
                 (if abs_steering \<le> 1 / 2
                  then (let t = abs_steering / (1 / 2)
                        in (lerp MV_FORWARD_MIN MV_TURN_MIN t, lerp MV_FORWARD_DEFAULT MV_TURN_DEFAULT t))
                  else (let t = (abs_steering - 1 / 2) / (1 / 2)
                        in (lerp MV_TURN_MIN MV_STRONG_TURN_MIN t, lerp MV_TURN_DEFAULT MV_STRONG_TURN_DEFAULT t)))
               in Some (min MOTOR_MAX_PWM (py_round (lerp min_pwm default_pwm magnitude)))
           | _ \<Rightarrow> None)
     | _ \<Rightarrow> None)"

section \<open>The vehicle\<close>

record mock_vehicle =
  mv_boot_id :: string
  mv_session_id :: json
  mv_session_active :: bool
  mv_state :: string
  mv_mode :: json
  mv_last_processed_cmd_seq :: int
  mv_last_fp :: "string option"
  mv_last_result :: string
  mv_status_seq :: int
  mv_wait_reason :: string
  mv_error_code :: string
  mv_applied_control_seq :: int
  mv_applied_throttle :: pyfloat
  mv_applied_steering :: pyfloat
  mv_motor_pwm :: int
  mv_motor_direction :: string
  mv_servo_angle :: pyfloat
  mv_last_direct_apply :: real
  mv_last_heartbeat :: real
  mv_encoder_count :: int
  mv_next_status :: real

datatype mv_out = Told pydict | Executed string int string

text \<open>\<open>boot_id\<close> is drawn at random; \<open>now\<close> is the clock at the start (\<open>next_status\<close> is a local of \<open>periodic\<close>).\<close>

definition new_vehicle :: "string \<Rightarrow> real \<Rightarrow> mock_vehicle" where
  "new_vehicle boot_id now =
     \<lparr>mv_boot_id = boot_id, mv_session_id = JStr '''', mv_session_active = False, mv_state = ''SYNCING'',
      mv_mode = JStr ''WAYPOINT_AUTO'', mv_last_processed_cmd_seq = 0, mv_last_fp = None,
      mv_last_result = ''NONE'', mv_status_seq = 0, mv_wait_reason = ''NONE'', mv_error_code = ''NONE'',
      mv_applied_control_seq = 0, mv_applied_throttle = Fin 0, mv_applied_steering = Fin 0,
      mv_motor_pwm = 0, mv_motor_direction = ''FORWARD'', mv_servo_angle = Fin SERVO_CENTER,
      mv_last_direct_apply = 0, mv_last_heartbeat = now, mv_encoder_count = 0, mv_next_status = now\<rparr>"

definition mv_fingerprint :: "(json \<Rightarrow> string) \<Rightarrow> pydict \<Rightarrow> string option" where
  "mv_fingerprint pstr msg = (case map_of msg ''type'' of
       None \<Rightarrow> None
     | Some t \<Rightarrow>
         if t = JStr ''SET_MODE'' then
           (case map_of msg ''mode'' of None \<Rightarrow> None | Some m \<Rightarrow> Some (''SET_MODE|'' @ pstr m))
         else if t = JStr ''STOP'' then Some (''STOP|'' @ pstr (dget_or msg ''reason'' (JStr ''EMERGENCY'')))
         else if t = JStr ''RESET'' then Some ''RESET''
         else Some (pstr t))"

text \<open>\<open>reason\<close> is not used by the code; \<open>wait_reason\<close> is \<open>None\<close> or not empty.\<close>

definition mv_safe_stop :: "string option \<Rightarrow> bool \<Rightarrow> bool \<Rightarrow> mock_vehicle \<Rightarrow> mock_vehicle" where
  "mv_safe_stop wait_reason emergency comm v =
     (let v = v\<lparr>mv_motor_pwm := 0, mv_applied_throttle := Fin 0, mv_servo_angle := Fin SERVO_CENTER,
            mv_applied_steering := Fin 0\<rparr>;
          v = (if emergency then v\<lparr>mv_state := ''EMERGENCY_STOP''\<rparr>
               else if comm then v\<lparr>mv_state := ''COMM_TIMEOUT'', mv_session_active := False\<rparr>
               else v\<lparr>mv_state := ''WAITING''\<rparr>);
          v = (case wait_reason of None \<Rightarrow> v | Some r \<Rightarrow> v\<lparr>mv_wait_reason := r\<rparr>)
      in v\<lparr>mv_last_direct_apply := 0\<rparr>)"

definition mv_apply_direct :: "real \<Rightarrow> pyfloat \<Rightarrow> pyfloat \<Rightarrow> mock_vehicle \<Rightarrow> mock_vehicle \<times> bool" where
  "mv_apply_direct now throttle steering v =
     (let v = v\<lparr>mv_motor_direction := (if fless throttle (Fin 0) then ''REVERSE'' else ''FORWARD'')\<rparr>
      in case throttle_to_pwm throttle steering of
           None \<Rightarrow> (v, False)
         | Some pwm \<Rightarrow>
             (v\<lparr>mv_motor_pwm := pwm, mv_applied_throttle := throttle, mv_applied_steering := steering,
                mv_servo_angle := steering_to_angle steering, mv_last_direct_apply := now\<rparr>, True))"

definition mv_build_hello :: "mock_vehicle \<Rightarrow> pydict" where
  "mv_build_hello v =
     [(''version'', JInt PROTOCOL_VERSION), (''type'', JStr ''HELLO''), (''car_id'', JStr BR_CAR_ID),
      (''boot_id'', JStr (mv_boot_id v)), (''firmware_version'', JStr ''mock-esp32''),
      (''state'', JStr ''SYNCING''), (''previous_state'', JStr ''BOOT''), (''previous_session_id'', JStr ''''),
      (''last_processed_cmd_seq'', JInt (mv_last_processed_cmd_seq v)),
      (''current_route_id'', JInt (- 1)), (''current_waypoint_id'', JInt (- 1)), (''current_phase'', JStr ''NONE''),
      (''target_loaded'', JBool False), (''resume_allowed'', JBool False),
      (''motor_stopped'', JBool True), (''error_code'', JStr (mv_error_code v))]"

definition mv_build_status :: "string \<Rightarrow> int \<Rightarrow> mock_vehicle \<Rightarrow> mock_vehicle \<times> pydict" where
  "mv_build_status result rejected_seq v =
     (let v = v\<lparr>mv_status_seq := mv_status_seq v + 1\<rparr>;
          base = [(''version'', JInt PROTOCOL_VERSION), (''type'', JStr ''STATUS''), (''car_id'', JStr BR_CAR_ID),
            (''boot_id'', JStr (mv_boot_id v)), (''session_id'', mv_session_id v),
            (''status_seq'', JInt (mv_status_seq v)),
            (''last_processed_cmd_seq'', JInt (mv_last_processed_cmd_seq v)),
            (''rejected_seq'', JInt rejected_seq), (''command_result'', JStr result),
            (''state'', JStr (mv_state v)), (''mode'', mv_mode v),
            (''target_loaded'', JBool False), (''resume_allowed'', JBool False),
            (''wait_reason'', JStr (mv_wait_reason v)), (''error_code'', JStr (mv_error_code v))]
      in (v, if mv_mode v = JStr ''REMOTE_DIRECT'' then base @
               [(''latest_control_seq'', JInt (mv_applied_control_seq v)),
                (''applied_throttle'', JFloat (fround 3 (mv_applied_throttle v))),
                (''applied_steering'', JFloat (fround 3 (mv_applied_steering v))),
                (''encoder_count'', JInt (mv_encoder_count v))]
             else base @ [(''route_id'', JInt (- 1)), (''waypoint_id'', JInt (- 1)), (''phase'', JStr ''NONE'')]))"

definition tell_status :: "string \<Rightarrow> int \<Rightarrow> mock_vehicle \<Rightarrow> mock_vehicle \<times> mv_out list" where
  "tell_status result rejected_seq v = (let (v, m) = mv_build_status result rejected_seq v in (v, [Told m]))"

section \<open>Messages\<close>

definition mv_execute :: "string \<Rightarrow> pydict \<Rightarrow> mock_vehicle \<Rightarrow> string \<times> mock_vehicle" where
  "mv_execute t msg v =
     (if t = ''SET_MODE'' then
        if mv_state v \<in> {''EMERGENCY_STOP'', ''ERROR'', ''COMM_TIMEOUT'', ''MOVING''} then (''INVALID_STATE'', v)
        else
          let v = v\<lparr>mv_mode := dget msg ''mode''\<rparr>
          in (''ACCEPTED'', if mv_mode v = JStr ''REMOTE_DIRECT'' then v\<lparr>mv_applied_control_seq := 0\<rparr> else v)
      else if t = ''STOP'' then (''ACCEPTED'', mv_safe_stop None True False v)
      else if t = ''RESET'' then
        if mv_state v \<in> {''EMERGENCY_STOP'', ''ERROR''} then
          (''ACCEPTED'', v\<lparr>mv_state := ''READY'', mv_mode := JStr ''WAYPOINT_AUTO'', mv_wait_reason := ''NONE'',
             mv_error_code := ''NONE''\<rparr>)
        else (''INVALID_STATE'', v)
      else (''ACCEPTED'', v))"

definition mv_reliable ::
  "(json \<Rightarrow> string) \<Rightarrow> string \<Rightarrow> pydict \<Rightarrow> mock_vehicle \<Rightarrow> mock_vehicle \<times> mv_out list \<times> bool" where
  "mv_reliable pstr t msg v = (case (as_int (dget msg ''seq''), mv_fingerprint pstr msg) of
       (Some seq, Some fp) \<Rightarrow>
         if seq = mv_last_processed_cmd_seq v then
           let (v, out) = (if Some fp = mv_last_fp v then tell_status (mv_last_result v) 0 v
                           else tell_status ''SEQ_CONFLICT'' seq v)
           in (v, out, True)
         else if seq < mv_last_processed_cmd_seq v then
           let (v, out) = tell_status ''STALE_SEQ'' seq v in (v, out, True)
         else
           let (result, v) = mv_execute t msg v;
               v = v\<lparr>mv_last_processed_cmd_seq := seq, mv_last_fp := Some fp, mv_last_result := result\<rparr>;
               (v, out) = tell_status result 0 v
           in (v, Executed t seq result # out, True)
     | _ \<Rightarrow> (v, [], False))"

text \<open>The number is recorded before the values are read.\<close>

definition mv_direct :: "real \<Rightarrow> pydict \<Rightarrow> mock_vehicle \<Rightarrow> mock_vehicle \<times> bool" where
  "mv_direct now msg v =
     (if \<not> mv_session_active v \<or> dget msg ''session_id'' \<noteq> mv_session_id v then (v, True)
      else if mv_mode v \<noteq> JStr ''REMOTE_DIRECT'' then (v, True)
      else if mv_state v \<in> {''EMERGENCY_STOP'', ''ERROR'', ''COMM_TIMEOUT''} then (v, True)
      else case as_int (dget msg ''control_seq'') of
        None \<Rightarrow> (v, False)
      | Some cseq \<Rightarrow>
          if cseq \<le> mv_applied_control_seq v then (v, True)
          else
            let v = v\<lparr>mv_applied_control_seq := cseq\<rparr>
            in (case (as_float (dget msg ''throttle''), as_float (dget msg ''steering'')) of
                  (Some thr, Some steer) \<Rightarrow>
                    (case mv_apply_direct now thr steer v of
                       (v, False) \<Rightarrow> (v, False)
                     | (v, True) \<Rightarrow>
                         (v\<lparr>mv_state := (if 0 < mv_motor_pwm v then ''MOVING'' else ''READY''),
                            mv_wait_reason := ''NONE''\<rparr>, True))
                | _ \<Rightarrow> (v, False)))"

definition mv_hello_ack :: "real \<Rightarrow> pydict \<Rightarrow> mock_vehicle \<Rightarrow> mock_vehicle \<times> mv_out list \<times> bool" where
  "mv_hello_ack now msg v = (case map_of msg ''session_id'' of
       None \<Rightarrow> (v, [], False)
     | Some sid \<Rightarrow>
         let v = v\<lparr>mv_session_id := sid, mv_session_active := True\<rparr>
         in (case as_int (dget_or msg ''command_seq_start'' (JInt 1)) of
               None \<Rightarrow> (v, [], False)
             | Some start \<Rightarrow>
                 let v = v\<lparr>mv_last_processed_cmd_seq := start - 1, mv_last_heartbeat := now\<rparr>;
                     (v, out) =
                       (if dget msg ''result'' = JStr ''HOLD''
                        then tell_status ''HOLD'' 0 (v\<lparr>mv_state := ''SYNCING''\<rparr>)
                        else tell_status ''ACCEPTED'' 0
                          (v\<lparr>mv_state := ''READY'', mv_mode := JStr ''WAYPOINT_AUTO''\<rparr>))
                 in (v, out, True)))"

text \<open>The body of \<open>rx_loop\<close> for one message.\<close>

definition mv_receive ::
  "(json \<Rightarrow> string) \<Rightarrow> real \<Rightarrow> pydict \<Rightarrow> mock_vehicle \<Rightarrow> mock_vehicle \<times> mv_out list \<times> bool" where
  "mv_receive pstr now msg v = (case dget msg ''type'' of
       JStr t \<Rightarrow>
         if t = ''HELLO_ACK'' then mv_hello_ack now msg v
         else if t = ''HEARTBEAT'' then (v\<lparr>mv_last_heartbeat := now\<rparr>, [], True)
         else if t \<in> {''SET_MODE'', ''STOP'', ''RESET''} then mv_reliable pstr t msg v
         else if t = ''DIRECT_CONTROL'' then (let (v, ok) = mv_direct now msg v in (v, [], ok))
         else (v, [], True)
     | _ \<Rightarrow> (v, [], True))"

section \<open>The periodic loop\<close>

definition mv_count_encoder :: "mock_vehicle \<Rightarrow> mock_vehicle" where
  "mv_count_encoder v =
     (if mv_state v = ''MOVING'' \<and> 0 < mv_motor_pwm v then
        v\<lparr>mv_encoder_count := mv_encoder_count v +
           (if mv_motor_direction v = ''REVERSE'' then - 1 else 1) * max 1 (mv_motor_pwm v div 8)\<rparr>
      else v)"

definition mv_check_direct :: "real \<Rightarrow> mock_vehicle \<Rightarrow> mock_vehicle \<times> mv_out list" where
  "mv_check_direct now v =
     (if mv_mode v = JStr ''REMOTE_DIRECT'' \<and> mv_state v = ''MOVING'' \<and> mv_last_direct_apply v \<noteq> 0 \<and>
         DIRECT_TIMEOUT_S \<le> now - mv_last_direct_apply v
      then tell_status ''NONE'' 0 (mv_safe_stop (Some ''DIRECT_CONTROL_TIMEOUT'') False False v)
      else (v, []))"

definition mv_check_heartbeat :: "real \<Rightarrow> mock_vehicle \<Rightarrow> mock_vehicle \<times> mv_out list" where
  "mv_check_heartbeat now v =
     (if mv_session_active v \<and> HEARTBEAT_TIMEOUT_S \<le> now - mv_last_heartbeat v then
        let (v, out) = tell_status ''NONE'' 0 (mv_safe_stop None False True v)
        in (v\<lparr>mv_last_heartbeat := now\<rparr>, out)
      else (v, []))"

definition mv_report :: "real \<Rightarrow> mock_vehicle \<Rightarrow> mock_vehicle \<times> mv_out list" where
  "mv_report now v =
     (if mv_next_status v \<le> now then tell_status ''NONE'' 0 (v\<lparr>mv_next_status := now + STATUS_PERIOD_S\<rparr>)
      else (v, []))"

definition mv_periodic :: "real \<Rightarrow> mock_vehicle \<Rightarrow> mock_vehicle \<times> mv_out list" where
  "mv_periodic now v =
     (if \<not> mv_session_active v then (v, [Told (mv_build_hello v)])
      else
        let (v, out1) = mv_check_direct now (mv_count_encoder v);
            (v, out2) = mv_check_heartbeat now v;
            (v, out3) = mv_report now v
        in (v, out1 @ out2 @ out3))"

section \<open>Runs\<close>

text \<open>
  An event is a message that arrives or a pass of \<open>periodic\<close>, at a reading of the clock. The flag of the
  state falls when a handler raises: nothing runs after that.
\<close>

datatype mv_event = Arrives real pydict | Passes real

fun mv_step :: "(json \<Rightarrow> string) \<Rightarrow> mock_vehicle \<times> bool \<Rightarrow> mv_event \<Rightarrow> (mock_vehicle \<times> bool) \<times> mv_out list" where
  "mv_step pstr (v, False) e = ((v, False), [])"
| "mv_step pstr (v, True) (Arrives now msg) = (let (v', out, ok) = mv_receive pstr now msg v in ((v', ok), out))"
| "mv_step pstr (v, True) (Passes now) = (let (v', out) = mv_periodic now v in ((v', True), out))"

section \<open>Fields\<close>

lemma tell_status_state [simp]: "fst (tell_status r n v) = v\<lparr>mv_status_seq := mv_status_seq v + 1\<rparr>"
  by (simp add: tell_status_def mv_build_status_def Let_def)

lemma tell_status_out: "\<exists>m. snd (tell_status r n v) = [Told m]"
  by (simp add: tell_status_def mv_build_status_def Let_def)

lemma tell_status_eq: "tell_status r n v = (v\<lparr>mv_status_seq := mv_status_seq v + 1\<rparr>, snd (tell_status r n v))"
  by (metis prod.collapse tell_status_state)

lemma safe_stop_fields [simp]:
  "mv_motor_pwm (mv_safe_stop w e c v) = 0"
  "mv_state (mv_safe_stop w e c v) = (if e then ''EMERGENCY_STOP'' else if c then ''COMM_TIMEOUT'' else ''WAITING'')"
  "mv_session_active (mv_safe_stop w e c v) = (mv_session_active v \<and> (e \<or> \<not> c))"
  "mv_mode (mv_safe_stop w e c v) = mv_mode v"
  "mv_last_processed_cmd_seq (mv_safe_stop w e c v) = mv_last_processed_cmd_seq v"
  "mv_last_fp (mv_safe_stop w e c v) = mv_last_fp v"
  "mv_last_result (mv_safe_stop w e c v) = mv_last_result v"
  "mv_last_heartbeat (mv_safe_stop w e c v) = mv_last_heartbeat v"
  "mv_last_direct_apply (mv_safe_stop w e c v) = 0"
  by (auto simp: mv_safe_stop_def Let_def split: option.split)

section \<open>Commands are executed once, in order\<close>

fun executed_seq :: "mv_out \<Rightarrow> int option" where
  "executed_seq (Executed t n r) = Some n"
| "executed_seq (Told m) = None"

definition no_greeting :: "mv_event \<Rightarrow> bool" where
  "no_greeting e = (case e of Arrives now msg \<Rightarrow> dget msg ''type'' \<noteq> JStr ''HELLO_ACK'' | Passes now \<Rightarrow> True)"

lemma no_greeting_simps [simp]:
  "no_greeting (Arrives now msg) = (dget msg ''type'' \<noteq> JStr ''HELLO_ACK'')" "no_greeting (Passes now)"
  by (simp_all add: no_greeting_def)

lemma executed_none: "list_all (\<lambda>x. executed_seq x = None) out \<Longrightarrow> List.map_filter executed_seq out = []"
  by (induction out) (simp_all add: List.map_filter_def)

lemma tell_status_quiet [simp]: "list_all (\<lambda>x. executed_seq x = None) (snd (tell_status r n v))"
  using tell_status_out [of r n v] by auto

lemma direct_keeps_commands:
  "mv_last_processed_cmd_seq (fst (mv_direct now msg v)) = mv_last_processed_cmd_seq v"
  "mv_last_fp (fst (mv_direct now msg v)) = mv_last_fp v"
  "mv_last_result (fst (mv_direct now msg v)) = mv_last_result v"
  by (simp_all add: mv_direct_def mv_apply_direct_def Let_def split: option.split bool.split)

lemma periodic_keeps_commands:
  "mv_last_processed_cmd_seq (fst (mv_periodic now v)) = mv_last_processed_cmd_seq v"
  "mv_last_fp (fst (mv_periodic now v)) = mv_last_fp v"
  "mv_last_result (fst (mv_periodic now v)) = mv_last_result v"
  "list_all (\<lambda>x. executed_seq x = None) (snd (mv_periodic now v))"
  by (simp_all add: mv_periodic_def mv_check_direct_def mv_check_heartbeat_def mv_report_def mv_count_encoder_def
      split_def Let_def)

lemma execute_keeps_seq [simp]: "mv_last_processed_cmd_seq (snd (mv_execute t msg v)) = mv_last_processed_cmd_seq v"
  by (simp add: mv_execute_def Let_def)

text \<open>The four outcomes of a command.\<close>

definition done_with :: "int \<Rightarrow> string \<Rightarrow> string \<times> mock_vehicle \<Rightarrow> mock_vehicle" where
  "done_with n fp rv =
     (snd rv)\<lparr>mv_last_processed_cmd_seq := n, mv_last_fp := Some fp, mv_last_result := fst rv\<rparr>"

lemma reliable_raises:
  "as_int (dget msg ''seq'') = None \<or> mv_fingerprint pstr msg = None \<Longrightarrow> mv_reliable pstr t msg v = (v, [], False)"
  by (auto simp: mv_reliable_def split: option.split)

lemma reliable_new:
  assumes "as_int (dget msg ''seq'') = Some n" "mv_fingerprint pstr msg = Some fp" "mv_last_processed_cmd_seq v < n"
  shows "mv_reliable pstr t msg v =
    (let rv = mv_execute t msg v; w = done_with n fp rv
     in (w\<lparr>mv_status_seq := mv_status_seq w + 1\<rparr>,
         Executed t n (fst rv) # snd (tell_status (fst rv) 0 w), True))"
  using assms by (simp add: mv_reliable_def split_def Let_def done_with_def)

lemma reliable_repeated:
  assumes "as_int (dget msg ''seq'') = Some n" "mv_fingerprint pstr msg = Some fp" "mv_last_processed_cmd_seq v = n"
    "mv_last_fp v = Some fp"
  shows "mv_reliable pstr t msg v =
    (v\<lparr>mv_status_seq := mv_status_seq v + 1\<rparr>, snd (tell_status (mv_last_result v) 0 v), True)"
  using assms by (simp add: mv_reliable_def split_def Let_def)

lemma reliable_refused:
  assumes "as_int (dget msg ''seq'') = Some n" "mv_fingerprint pstr msg = Some fp"
    "n < mv_last_processed_cmd_seq v \<or> n = mv_last_processed_cmd_seq v \<and> mv_last_fp v \<noteq> Some fp"
  shows "mv_reliable pstr t msg v = (v\<lparr>mv_status_seq := mv_status_seq v + 1\<rparr>,
    snd (tell_status (if n < mv_last_processed_cmd_seq v then ''STALE_SEQ'' else ''SEQ_CONFLICT'') n v), True)"
  using assms by (auto simp: mv_reliable_def split_def Let_def)

lemma reliable_cases [case_names raises executed repeated refused]:
  obtains "mv_reliable pstr t msg v = (v, [], False)"
  | n fp where "as_int (dget msg ''seq'') = Some n" "mv_fingerprint pstr msg = Some fp"
      "mv_last_processed_cmd_seq v < n"
  | n fp where "as_int (dget msg ''seq'') = Some n" "mv_fingerprint pstr msg = Some fp"
      "mv_last_processed_cmd_seq v = n" "mv_last_fp v = Some fp"
  | n fp where "as_int (dget msg ''seq'') = Some n" "mv_fingerprint pstr msg = Some fp"
      "n < mv_last_processed_cmd_seq v \<or> n = mv_last_processed_cmd_seq v \<and> mv_last_fp v \<noteq> Some fp"
  using reliable_raises [of msg pstr t v]
  by (cases "as_int (dget msg ''seq'')"; cases "mv_fingerprint pstr msg") (auto, metis linorder_cases)

lemma executed_tell [simp]: "List.map_filter executed_seq (snd (tell_status r n v)) = []"
  by (rule executed_none) simp

lemma executed_Cons [simp]:
  "List.map_filter executed_seq (Executed t n r # out) = n # List.map_filter executed_seq out"
  by (simp add: List.map_filter_def)

lemma executed_Nil [simp]: "List.map_filter executed_seq [] = []"
  by (simp add: List.map_filter_def)

lemma reliable_numbers:
  "mv_last_processed_cmd_seq v \<le> mv_last_processed_cmd_seq (fst (mv_reliable pstr t msg v)) \<and>
    (let ns = List.map_filter executed_seq (fst (snd (mv_reliable pstr t msg v)));
         n' = mv_last_processed_cmd_seq (fst (mv_reliable pstr t msg v))
     in ns = [] \<or> ns = [n'] \<and> mv_last_processed_cmd_seq v < n')"
proof (cases rule: reliable_cases [of pstr t msg v])
  case raises
  then show ?thesis by simp
next
  case (executed n fp)
  then show ?thesis by (simp add: reliable_new Let_def done_with_def)
next
  case (repeated n fp)
  then show ?thesis by (simp add: reliable_repeated)
next
  case (refused n fp)
  then show ?thesis by (simp add: reliable_refused)
qed

lemma receive_numbers:
  assumes "dget msg ''type'' \<noteq> JStr ''HELLO_ACK''"
  shows "mv_last_processed_cmd_seq v \<le> mv_last_processed_cmd_seq (fst (mv_receive pstr now msg v)) \<and>
    (let ns = List.map_filter executed_seq (fst (snd (mv_receive pstr now msg v)));
         n' = mv_last_processed_cmd_seq (fst (mv_receive pstr now msg v))
     in ns = [] \<or> ns = [n'] \<and> mv_last_processed_cmd_seq v < n')"
  using assms reliable_numbers [of v pstr _ msg]
  by (auto simp: mv_receive_def split_def Let_def direct_keeps_commands split: json.split)

lemma step_numbers:
  assumes "no_greeting e" "mv_step pstr s e = (s', out)"
  shows "mv_last_processed_cmd_seq (fst s) \<le> mv_last_processed_cmd_seq (fst s') \<and>
    (List.map_filter executed_seq out = [] \<or>
     List.map_filter executed_seq out = [mv_last_processed_cmd_seq (fst s')] \<and>
     mv_last_processed_cmd_seq (fst s) < mv_last_processed_cmd_seq (fst s'))"
proof (cases "(pstr, s, e)" rule: mv_step.cases)
  case (2 pstr' v now msg)
  then show ?thesis using assms receive_numbers [of msg v pstr now] by (auto simp: split_def Let_def)
next
  case (3 pstr' v now)
  then show ?thesis using assms periodic_keeps_commands [of now v] executed_none [of "snd (mv_periodic now v)"]
    by (auto simp: split_def Let_def)
qed (use assms in auto)

interpretation commands: guarded_emitter "mv_step pstr" "\<lambda>s. mv_last_processed_cmd_seq (fst s)" executed_seq
  "\<lambda>_. True" no_greeting
  by unfold_locales (auto dest: step_numbers)

text \<open>Within one greeting the simulated vehicle executes the reliable commands in the order of their numbers and
  none of them twice, whatever the bridge resends, however its commands are mixed with control values,
  heartbeats and passes of the loop, and whether or not a malformed message ends it.\<close>

theorem commands_executed_once:
  assumes "list_all no_greeting es" "run_out (mv_step pstr) s es = (s', outs)"
  shows "sorted_wrt (<) (List.map_filter executed_seq outs)"
  using commands.guarded_run [OF TrueI assms] by simp

definition resent_run :: "mv_event list" where
  "resent_run = [Arrives 1 (build_set_mode ''S1'' 1 ''REMOTE_DIRECT''), Arrives (13 / 10) (build_set_mode ''S1'' 1 ''REMOTE_DIRECT''),
     Passes (14 / 10), Arrives (15 / 10) (build_stop ''S1'' 2 ''EMERGENCY'')]"

lemma commands_executed_once_witness:
  "sorted_wrt (<) (List.map_filter executed_seq (snd (run_out (mv_step (\<lambda>_. '''')) (new_vehicle ''B1'' 0, True) resent_run)))"
  by (rule commands_executed_once [where es = resent_run and pstr = "\<lambda>_. ''''" and s = "(new_vehicle ''B1'' 0, True)",
        OF _ prod.collapse [symmetric]])
    (simp add: resent_run_def build_set_mode_def build_stop_def)

definition uncommanded :: "mv_event \<Rightarrow> bool" where
  "uncommanded e = (case e of
       Arrives now msg \<Rightarrow> dget msg ''type'' \<notin> {JStr ''HELLO_ACK'', JStr ''SET_MODE'', JStr ''STOP'', JStr ''RESET''}
     | Passes now \<Rightarrow> True)"

definition answers_as :: "int \<Rightarrow> string \<Rightarrow> string \<Rightarrow> mock_vehicle \<times> bool \<Rightarrow> bool" where
  "answers_as n fp r s =
     (mv_last_processed_cmd_seq (fst s) = n \<and> mv_last_fp (fst s) = Some fp \<and> mv_last_result (fst s) = r)"

interpretation answered: latch "\<lambda>s e. fst (mv_step pstr s e)" "answers_as n fp r" "\<lambda>e. \<not> uncommanded e"
proof
  fix pstr n fp r s e
  assume a: "answers_as n fp r s" "\<not> \<not> uncommanded e"
  show "answers_as n fp r (fst (mv_step pstr s e))"
  proof (cases "(pstr, s, e)" rule: mv_step.cases)
    case (2 pstr' v now msg)
    then show ?thesis using a
      by (auto simp: split_def Let_def answers_as_def uncommanded_def mv_receive_def direct_keeps_commands
          split: json.split)
  next
    case (3 pstr' v now)
    then show ?thesis using a by (auto simp: split_def Let_def answers_as_def periodic_keeps_commands)
  qed (use a in auto)
qed

lemma run_out_state: "fst (run_out step s es) = foldl (\<lambda>s e. fst (step s e)) s es"
  by (induction es arbitrary: s) (simp_all add: split_def Let_def)

lemma tell_status_reads:
  "\<exists>m. snd (tell_status r n v) = [Told m] \<and> dget m ''command_result'' = JStr r \<and>
     dget m ''last_processed_cmd_seq'' = JInt (mv_last_processed_cmd_seq v) \<and>
     dget m ''rejected_seq'' = JInt n \<and> dget m ''status_seq'' = JInt (mv_status_seq v + 1) \<and>
     dget m ''state'' = JStr (mv_state v) \<and> dget m ''mode'' = mv_mode v \<and> dget m ''session_id'' = mv_session_id v"
  by (simp add: tell_status_def mv_build_status_def Let_def)

lemma dget_or_dget: "dget d k = w \<Longrightarrow> w \<noteq> JNull \<Longrightarrow> dget_or d k u = w"
  by (cases "map_of d k") (simp_all add: dget_def dget_or_def)

lemma execute_result: "fst (mv_execute t msg v) \<in> {''ACCEPTED'', ''INVALID_STATE''}"
  by (simp add: mv_execute_def Let_def)

text \<open>C33: A resent command is answered as the first time and changes nothing. The bridge sends a command whose
  number is new to the vehicle; the vehicle executes it with some result; anything but another command or a
  greeting may follow. When the same command arrives again, because its answer was slow, the vehicle only
  advances its status number and answers with the same result, and the bridge, which still has the command
  outstanding, takes that answer as the end of it.\<close>

theorem resent_command_answered_alike:
  assumes "bs_outstanding s = Some cmd" "dget (oc_message cmd) ''seq'' = JInt (oc_seq cmd)"
    "dget (oc_message cmd) ''type'' = JStr t" "t \<in> {''SET_MODE'', ''STOP'', ''RESET''}"
    "mv_fingerprint pstr (oc_message cmd) = Some fp" "mv_last_processed_cmd_seq v < oc_seq cmd"
    "mv_receive pstr t1 (oc_message cmd) v = (v1, out1, ok)"
    "list_all uncommanded es" "fst (run_out (mv_step pstr) (v1, ok) es) = (v2, True)"
  shows "\<exists>r rest answer. out1 = Executed t (oc_seq cmd) r # rest \<and>
    mv_receive pstr t2 (oc_message cmd) v2 = (v2\<lparr>mv_status_seq := mv_status_seq v2 + 1\<rparr>, [Told answer], True) \<and>
    dget answer ''command_result'' = JStr r \<and>
    consume_terminal_result answer s = (Some cmd, s\<lparr>bs_outstanding := None\<rparr>)"
proof -
  let ?msg = "oc_message cmd" and ?n = "oc_seq cmd"
  define rv where "rv = mv_execute t ?msg v"
  have seq: "as_int (dget ?msg ''seq'') = Some ?n" using assms(2) by simp
  have reads: "mv_receive pstr now ?msg w = mv_reliable pstr t ?msg w" for now w
    using assms(3,4) by (auto simp: mv_receive_def)
  have first: "v1 = (done_with ?n fp rv)\<lparr>mv_status_seq := mv_status_seq (done_with ?n fp rv) + 1\<rparr>"
    "\<exists>rest. out1 = Executed t ?n (fst rv) # rest"
    using assms(7) by (auto simp: reads reliable_new [OF seq assms(5,6)] rv_def Let_def)
  have "answers_as ?n fp (fst rv) (v1, ok)" by (simp add: answers_as_def first(1) done_with_def)
  then have "answers_as ?n fp (fst rv) (v2, True)"
    using answered.run_keeps [of ?n fp "fst rv" "(v1, ok)" es pstr] assms(8,9)
    by (simp add: run_out_state list_all_iff)
  then have a2: "mv_last_processed_cmd_seq v2 = ?n" "mv_last_fp v2 = Some fp" "mv_last_result v2 = fst rv"
    by (simp_all add: answers_as_def)
  obtain m where m: "snd (tell_status (fst rv) 0 v2) = [Told m]" "dget m ''command_result'' = JStr (fst rv)"
    "dget m ''last_processed_cmd_seq'' = JInt ?n"
    using tell_status_reads [of "fst rv" 0 v2] a2(1) by auto
  have "fst rv \<in> set TERMINAL_RESULTS"
    using execute_result [of t ?msg v] by (auto simp: rv_def TERMINAL_RESULTS_def)
  then have "consume_terminal_result m s = (Some cmd, s\<lparr>bs_outstanding := None\<rparr>)"
    using m(2,3) assms(1) by (simp add: consume_terminal_result_def terminal_result_matches_def dget_or_dget)
  then show ?thesis using first(2) m reliable_repeated [OF seq assms(5) a2(1,2)] a2(3) by (auto simp: reads)
qed

definition mode_command :: outstanding_command where
  "mode_command = \<lparr>oc_seq = 1, oc_message = build_set_mode ''S1'' 1 ''REMOTE_DIRECT'', oc_fingerprint = ''SET_MODE|'',
     oc_sent_at = 0, oc_resend_timeout_s = 3 / 10, oc_resends = 0\<rparr>"

definition mode_session :: bridge_session where
  "mode_session = (new_bridge_session ''S1'' ''B1'' 1)\<lparr>bs_outstanding := Some mode_command\<rparr>"

lemma new_vehicle_passes: "mv_periodic now (new_vehicle b t) = (new_vehicle b t, [Told (mv_build_hello (new_vehicle b t))])"
  by (simp add: mv_periodic_def new_vehicle_def)

lemma resent_command_answered_alike_witness:
  "\<exists>v answer. mv_receive (\<lambda>_. '''') 2 (oc_message mode_command) v =
     (v\<lparr>mv_status_seq := mv_status_seq v + 1\<rparr>, [Told answer], True) \<and>
   dget answer ''command_result'' = JStr ''ACCEPTED'' \<and>
   consume_terminal_result answer mode_session = (Some mode_command, mode_session\<lparr>bs_outstanding := None\<rparr>)"
proof -
  let ?p = "\<lambda>_::json. ''''" and ?v = "new_vehicle ''B1'' 0"
  obtain v1 out1 ok where 1: "mv_receive ?p 1 (oc_message mode_command) ?v = (v1, out1, ok)" by (metis prod_cases3)
  have out: "\<exists>rest. out1 = Executed ''SET_MODE'' 1 ''ACCEPTED'' # rest" and ok: "ok"
    using 1 by (auto simp: mode_command_def build_set_mode_def mv_receive_def mv_reliable_def mv_fingerprint_def
        new_vehicle_def mv_execute_def Let_def split_def)
  show ?thesis
    using resent_command_answered_alike [where s = mode_session and cmd = mode_command and t = "''SET_MODE''"
        and pstr = ?p and fp = "''SET_MODE|''" and v = ?v and ?t1.0 = 1 and ?t2.0 = 2 and es = "[]"
        and ?v1.0 = v1 and ?v2.0 = v1 and ok = ok and ?out1.0 = out1] 1 out ok
    by (fastforce simp: mode_session_def mode_command_def build_set_mode_def new_vehicle_def mv_fingerprint_def
        new_bridge_session_def)
qed

section \<open>The watchdog\<close>

definition tended :: "mock_vehicle \<Rightarrow> bool" where
  "tended v = (0 < mv_motor_pwm v \<longrightarrow>
     mv_state v = ''MOVING'' \<and> mv_mode v = JStr ''REMOTE_DIRECT'' \<and> mv_session_active v \<and> mv_last_direct_apply v \<noteq> 0)"

fun greeted_at_rest :: "(json \<Rightarrow> string) \<Rightarrow> mock_vehicle \<times> bool \<Rightarrow> mv_event list \<Rightarrow> bool" where
  "greeted_at_rest pstr s [] = True"
| "greeted_at_rest pstr s (e # es) =
     ((no_greeting e \<or> mv_motor_pwm (fst s) \<le> 0) \<and> greeted_at_rest pstr (fst (mv_step pstr s e)) es)"

definition event_time :: "mv_event \<Rightarrow> real" where
  "event_time e = (case e of Arrives now msg \<Rightarrow> now | Passes now \<Rightarrow> now)"

lemma tended_tell [simp]:
  "tended (v\<lparr>mv_status_seq := n\<rparr>) = tended v" "tended (v\<lparr>mv_last_heartbeat := now\<rparr>) = tended v"
  by (simp_all add: tended_def)

lemma tended_rest: "mv_motor_pwm v \<le> 0 \<Longrightarrow> tended v"
  by (simp add: tended_def)

lemma tended_direct:
  assumes "tended v" "now \<noteq> 0" shows "tended (fst (mv_direct now msg v))"
  using assms by (auto simp: mv_direct_def mv_apply_direct_def tended_def Let_def split: option.split bool.split)

lemma tended_execute: "tended v \<Longrightarrow> tended (snd (mv_execute t msg v))"
  by (auto simp: mv_execute_def tended_def Let_def)

lemma tended_reliable:
  assumes "tended v" shows "tended (fst (mv_reliable pstr t msg v))"
proof (cases rule: reliable_cases [of pstr t msg v])
  case (executed n fp)
  then show ?thesis using tended_execute [OF assms, of t msg]
    by (simp add: reliable_new Let_def done_with_def tended_def)
qed (use assms in \<open>simp_all add: reliable_repeated reliable_refused\<close>)

lemma tended_greeting:
  "mv_motor_pwm v \<le> 0 \<Longrightarrow> tended (fst (mv_hello_ack now msg v))"
  by (simp add: mv_hello_ack_def tended_def split_def Let_def split: option.split)

lemma tended_receive:
  assumes "tended v" "now \<noteq> 0" "dget msg ''type'' \<noteq> JStr ''HELLO_ACK'' \<or> mv_motor_pwm v \<le> 0"
  shows "tended (fst (mv_receive pstr now msg v))"
  using assms tended_reliable [of v pstr _ msg] tended_direct [of v now msg] tended_greeting [of v now msg]
  by (auto simp: mv_receive_def split_def Let_def split: json.split)

lemma check_direct_state:
  "fst (mv_check_direct now v) = v \<or> mv_motor_pwm (fst (mv_check_direct now v)) = 0"
  by (simp add: mv_check_direct_def)

lemma tended_periodic: "tended v \<Longrightarrow> tended (fst (mv_periodic now v))"
  by (auto simp: mv_periodic_def mv_check_direct_def mv_check_heartbeat_def mv_report_def mv_count_encoder_def
      tended_def split_def Let_def)

lemma tended_step:
  assumes "tended (fst s)" "event_time e \<noteq> 0" "no_greeting e \<or> mv_motor_pwm (fst s) \<le> 0"
  shows "tended (fst (fst (mv_step pstr s e)))"
proof (cases "(pstr, s, e)" rule: mv_step.cases)
  case (2 pstr' v now msg)
  then show ?thesis using assms tended_receive [of v now msg pstr]
    by (auto simp: split_def Let_def event_time_def)
next
  case (3 pstr' v now)
  then show ?thesis using assms tended_periodic [of v now] by (simp add: split_def Let_def)
qed (use assms in auto)

lemma tended_run:
  "tended (fst s) \<Longrightarrow> list_all (\<lambda>e. 0 < event_time e) es \<Longrightarrow> greeted_at_rest pstr s es \<Longrightarrow>
     tended (fst (foldl (\<lambda>s e. fst (mv_step pstr s e)) s es))"
proof (induction es arbitrary: s)
  case (Cons e es)
  then show ?case using tended_step [of s e pstr] by simp
qed simp

lemma pass_stops:
  assumes "tended v" "0 < mv_motor_pwm (fst (mv_periodic now v))"
  shows "mv_state v = ''MOVING'' \<and> now < mv_last_direct_apply v + DIRECT_TIMEOUT_S \<and>
    now < mv_last_heartbeat v + HEARTBEAT_TIMEOUT_S"
  using assms
  by (auto simp: mv_periodic_def mv_check_direct_def mv_check_heartbeat_def mv_report_def mv_count_encoder_def
      tended_def split_def Let_def split: if_splits)

text \<open>C34: The vehicle's watchdog. Whatever messages arrive from its start, if it is only ever greeted while its
  motor is off, then after every pass of the periodic loop a motor that still runs was commanded within the
  last half second and heard a heartbeat within the last second.\<close>

theorem watchdog_stops_motor:
  assumes "list_all (\<lambda>e. 0 < event_time e) es" "greeted_at_rest pstr (new_vehicle b t, True) es"
    "fst (run_out (mv_step pstr) (new_vehicle b t, True) es) = (v, True)"
    "0 < mv_motor_pwm (fst (mv_periodic now v))"
  shows "mv_state v = ''MOVING'' \<and> now < mv_last_direct_apply v + DIRECT_TIMEOUT_S \<and>
    now < mv_last_heartbeat v + HEARTBEAT_TIMEOUT_S"
proof (rule pass_stops [OF _ assms(4)])
  have "tended (new_vehicle b t)" by (simp add: tended_def new_vehicle_def)
  then show "tended v" using tended_run [of "(new_vehicle b t, True)" es pstr] assms(1-3)
    by (simp add: run_out_state)
qed

definition control_message :: "int \<Rightarrow> real \<Rightarrow> real \<Rightarrow> pydict" where
  "control_message n thr steer =
     [(''type'', JStr ''DIRECT_CONTROL''), (''session_id'', JStr ''S1''), (''control_seq'', JInt n),
      (''throttle'', JFloat (Fin thr)), (''steering'', JFloat (Fin steer))]"

text \<open>A greeting, the switch to the streaming mode and one control value set a fresh vehicle in motion.\<close>

definition driving_run :: "mv_event list" where
  "driving_run = [Arrives 1 (build_hello_ack ''S1'' ''B1'' 1 ''READY_ALLOWED'' ''''),
     Arrives (5 / 4) (build_set_mode ''S1'' 1 ''REMOTE_DIRECT''), Arrives (3 / 2) (control_message 1 1 0)]"

definition driven_vehicle :: mock_vehicle where
  "driven_vehicle = fst (fst (run_out (mv_step (\<lambda>_. '''')) (new_vehicle ''B1'' 0, True) driving_run))"

lemma pwm_straight: "throttle_to_pwm (Fin 1) (Fin 0) = Some 25"
  by (simp add: throttle_to_pwm_def MOTOR_DEADBAND_def lerp_def MV_FORWARD_MIN_def MV_FORWARD_DEFAULT_def
      MV_TURN_MIN_def MV_TURN_DEFAULT_def MOTOR_MAX_PWM_def)

lemma driving_run_state:
  "fst (run_out (mv_step (\<lambda>_. '''')) (new_vehicle ''B1'' 0, True) driving_run) =
     ((new_vehicle ''B1'' 0)\<lparr>mv_session_id := JStr ''S1'', mv_session_active := True, mv_state := ''MOVING'',
        mv_mode := JStr ''REMOTE_DIRECT'', mv_last_processed_cmd_seq := 1, mv_last_fp := Some ''SET_MODE|'',
        mv_last_result := ''ACCEPTED'', mv_status_seq := 2, mv_applied_control_seq := 1,
        mv_applied_throttle := Fin 1, mv_applied_steering := Fin 0, mv_motor_pwm := 25,
        mv_servo_angle := steering_to_angle (Fin 0), mv_last_direct_apply := 3 / 2, mv_last_heartbeat := 1\<rparr>, True)"
  by (simp add: driving_run_def build_hello_ack_def build_set_mode_def control_message_def mv_receive_def
      mv_hello_ack_def mv_reliable_def mv_fingerprint_def mv_execute_def mv_direct_def mv_apply_direct_def
      pwm_straight new_vehicle_def Let_def split_def)

lemma driven_vehicle_eq:
  "fst (run_out (mv_step (\<lambda>_. '''')) (new_vehicle ''B1'' 0, True) driving_run) = (driven_vehicle, True)"
  "mv_motor_pwm driven_vehicle = 25" "mv_state driven_vehicle = ''MOVING''"
  "mv_mode driven_vehicle = JStr ''REMOTE_DIRECT''" "mv_session_active driven_vehicle"
  "mv_last_direct_apply driven_vehicle = 3 / 2" "mv_last_heartbeat driven_vehicle = 1"
  by (simp_all add: driven_vehicle_def driving_run_state)

lemma watchdog_stops_motor_witness:
  "mv_state driven_vehicle = ''MOVING'' \<and> 7 / 4 < mv_last_direct_apply driven_vehicle + DIRECT_TIMEOUT_S \<and>
    7 / 4 < mv_last_heartbeat driven_vehicle + HEARTBEAT_TIMEOUT_S"
proof (rule watchdog_stops_motor [OF _ _ driven_vehicle_eq(1)])
  show "list_all (\<lambda>e. 0 < event_time e) driving_run"
    by (simp add: driving_run_def event_time_def)
  have "no_greeting (Arrives (5 / 4) (build_set_mode ''S1'' 1 ''REMOTE_DIRECT''))"
    "no_greeting (Arrives (3 / 2) (control_message 1 1 0))"
    by (simp_all add: build_set_mode_def control_message_def)
  then show "greeted_at_rest (\<lambda>_. '''') (new_vehicle ''B1'' 0, True) driving_run"
    by (simp add: driving_run_def new_vehicle_def)
  show "0 < mv_motor_pwm (fst (mv_periodic (7 / 4) driven_vehicle))"
    by (simp add: mv_periodic_def mv_check_direct_def mv_check_heartbeat_def mv_report_def mv_count_encoder_def
        driven_vehicle_eq split_def Let_def DIRECT_TIMEOUT_S_def HEARTBEAT_TIMEOUT_S_def)
qed

section \<open>A greeting while driving\<close>

definition stream_only :: "mv_event \<Rightarrow> bool" where
  "stream_only e = (case e of
       Arrives now msg \<Rightarrow> dget msg ''type'' \<in> {JStr ''DIRECT_CONTROL'', JStr ''HEARTBEAT''}
     | Passes now \<Rightarrow> True)"

text \<open>Out of the reach of the watchdog and of the stream, unless the heartbeat is lost.\<close>

definition unattended :: "int \<Rightarrow> mock_vehicle \<times> bool \<Rightarrow> bool" where
  "unattended p s = (snd s \<and> mv_mode (fst s) \<noteq> JStr ''REMOTE_DIRECT'' \<and>
     (mv_state (fst s) = ''COMM_TIMEOUT'' \<and> mv_motor_pwm (fst s) = 0 \<or>
      mv_state (fst s) = ''READY'' \<and> mv_motor_pwm (fst s) = p))"

lemma direct_ignored: "mv_mode v \<noteq> JStr ''REMOTE_DIRECT'' \<Longrightarrow> mv_direct now msg v = (v, True)"
  by (simp add: mv_direct_def)

interpretation runaway: latch "\<lambda>s e. fst (mv_step pstr s e)" "unattended p" "\<lambda>e. \<not> stream_only e"
proof
  fix pstr p s e
  assume a: "unattended p s" "\<not> \<not> stream_only e"
  show "unattended p (fst (mv_step pstr s e))"
  proof (cases "(pstr, s, e)" rule: mv_step.cases)
    case (2 pstr' v now msg)
    then show ?thesis using a
      by (auto simp: unattended_def stream_only_def mv_receive_def direct_ignored)
  next
    case (3 pstr' v now)
    then show ?thesis using a
      by (auto simp: unattended_def mv_periodic_def mv_check_direct_def mv_check_heartbeat_def mv_report_def
          mv_count_encoder_def split_def Let_def)
  qed (use a in auto)
qed

text \<open>A greeting that arrives while the motor runs leaves it running for good. The handler puts the vehicle back
  to \<open>READY\<close> and \<open>WAYPOINT_AUTO\<close> but does not stop it; from then on no control value reaches the motor, not even
  a neutral one, and the half second watchdog no longer applies: as long as only the stream, heartbeats and
  passes follow, the motor keeps its power until the heartbeat is lost. The bridge repeats its greeting for every
  repeated \<open>HELLO\<close>.\<close>

theorem greeting_leaves_motor_on:
  assumes "dget msg ''type'' = JStr ''HELLO_ACK''" "dget msg ''session_id'' = JStr sid"
    "dget msg ''command_seq_start'' = JInt n" "dget msg ''result'' \<noteq> JStr ''HOLD''"
    "list_all stream_only es" "fst (run_out (mv_step pstr) (v, True) (Arrives now msg # es)) = (v', ok)"
  shows "ok \<and> (mv_state v' = ''COMM_TIMEOUT'' \<or> mv_state v' = ''READY'' \<and> mv_motor_pwm v' = mv_motor_pwm v)"
proof -
  have s: "map_of msg ''session_id'' = Some (JStr sid)" "dget_or msg ''command_seq_start'' (JInt 1) = JInt n"
    using assms(2,3) by (auto simp: dget_def dget_or_def split: option.splits)
  have "unattended (mv_motor_pwm v) (fst (mv_step pstr (v, True) (Arrives now msg)))"
    using assms(1,4) s by (simp add: mv_receive_def mv_hello_ack_def unattended_def split_def Let_def)
  then have "unattended (mv_motor_pwm v) (v', ok)"
    using runaway.run_keeps [of "mv_motor_pwm v" "fst (mv_step pstr (v, True) (Arrives now msg))" es pstr] assms(5,6)
    by (simp only: run_out_state foldl_Cons not_not)
  then show ?thesis by (auto simp: unattended_def)
qed

text \<open>The driven vehicle, greeted again, ignores a neutral control value and is still at full power three passes
  later.\<close>

definition greeted_again :: "mv_event list" where
  "greeted_again = [Arrives 2 (control_message 2 0 0), Passes (12 / 5), Passes (5 / 2)]"

definition greeted_vehicle :: "mock_vehicle \<times> bool" where
  "greeted_vehicle = fst (run_out (mv_step (\<lambda>_. '''')) (driven_vehicle, True)
     (Arrives (8 / 5) (build_hello_ack ''S1'' ''B1'' 1 ''READY_ALLOWED'' '''') # greeted_again))"

lemma greeting_leaves_motor_on_witness:
  "snd greeted_vehicle \<and> (mv_state (fst greeted_vehicle) = ''COMM_TIMEOUT'' \<or>
     mv_state (fst greeted_vehicle) = ''READY'' \<and> mv_motor_pwm (fst greeted_vehicle) = 25)"
proof -
  have es: "list_all stream_only greeted_again"
    by (simp add: greeted_again_def stream_only_def control_message_def)
  have r: "fst (run_out (mv_step (\<lambda>_. '''')) (driven_vehicle, True)
      (Arrives (8 / 5) (build_hello_ack ''S1'' ''B1'' 1 ''READY_ALLOWED'' '''') # greeted_again)) =
      (fst greeted_vehicle, snd greeted_vehicle)"
    by (simp only: greeted_vehicle_def prod.collapse)
  show ?thesis
    using greeting_leaves_motor_on [where sid = "''S1''" and n = 1, OF _ _ _ _ es r]
    by (simp add: build_hello_ack_def driven_vehicle_eq)
qed

section \<open>The operator's preview\<close>

lemma lerp_inside: "0 \<le> t \<Longrightarrow> t \<le> 1 \<Longrightarrow> lerp a b t = a + (b - a) * t"
  by (simp add: lerp_def)

definition unit :: "real \<Rightarrow> real" where "unit x = max (- 1) (min 1 x)"

lemma unit_bounds: "- 1 \<le> unit x" "unit x \<le> 1"
  by (auto simp: unit_def)

lemma servo_preview: "steering_to_angle (Fin s) = Fin (servo_angle (unit s))"
proof -
  define u where "u = unit s"
  have u: "- 1 \<le> u" "u \<le> 1" and c: "py_min (py_max (Fin s) (Fin (- 1))) (Fin 1) = Fin u"
    by (auto simp: u_def unit_def min_def max_def)
  have "steering_to_angle (Fin s) = Fin (servo_angle u)"
    using u unfolding steering_to_angle_def c
    by (simp add: servo_angle_def lerp_inside SERVO_LEFT_STRONG_def SERVO_LEFT_WEAK_def
        SERVO_CENTER_def SERVO_RIGHT_WEAK_def SERVO_RIGHT_STRONG_def)
  then show ?thesis by (simp add: u_def)
qed

lemma pwm_preview: "throttle_to_pwm (Fin t) (Fin s) = Some (min 255 (pwm_duty (unit t) (unit s)))"
proof -
  have m: "min \<bar>t\<bar> 1 = \<bar>unit t\<bar>" "min \<bar>s\<bar> 1 = \<bar>unit s\<bar>"
    by (auto simp: unit_def min_def max_def abs_if)
  have b: "\<bar>unit t\<bar> \<le> 1" "\<bar>unit s\<bar> \<le> 1" using unit_bounds by (auto simp: abs_le_iff minus_le_iff)
  show ?thesis
    using b
    by (simp add: throttle_to_pwm_def m pwm_duty_def MOTOR_DEADBAND_def Let_def lerp_inside MOTOR_MAX_PWM_def
        MV_FORWARD_MIN_def MV_FORWARD_DEFAULT_def MV_TURN_MIN_def MV_TURN_DEFAULT_def MV_STRONG_TURN_MIN_def
        MV_STRONG_TURN_DEFAULT_def PWM_FORWARD_MIN_def PWM_FORWARD_DEFAULT_def PWM_TURN_MIN_def
        PWM_TURN_DEFAULT_def PWM_STRONG_TURN_MIN_def PWM_STRONG_TURN_DEFAULT_def)
qed

text \<open>The operator's window shows what the vehicle does. For any control value, the duty, the servo angle and
  the direction that \<open>expected_actuator\<close> previews are the motor power, the angle (to the displayed decimal) and
  the direction the vehicle sets when it applies that value, although the two compute them from tables of their
  own.\<close>

theorem preview_matches_vehicle:
  "snd (mv_apply_direct now (Fin t) (Fin s) v) \<and>
   (mv_motor_pwm (fst (mv_apply_direct now (Fin t) (Fin s) v)),
    fround 1 (mv_servo_angle (fst (mv_apply_direct now (Fin t) (Fin s) v))),
    mv_motor_direction (fst (mv_apply_direct now (Fin t) (Fin s) v))) =
   (fst (expected_actuator t s), Fin (fst (snd (expected_actuator t s))), snd (snd (expected_actuator t s)))"
proof -
  have b: "\<bar>unit t\<bar> \<le> 1" "0 \<le> pwm_duty (unit t) (unit s)"
    using duty_band [of "unit t" "unit s"] unit_bounds [of t] unit_bounds [of s] by (auto simp: abs_le_iff minus_le_iff)
  have d: "unit t < 0 \<longleftrightarrow> t < 0" by (auto simp: unit_def)
  have "expected_actuator t s = (max 0 (min 255 (pwm_duty (unit t) (unit s))), round_dec 1 (servo_angle (unit s)),
      if unit t < 0 then ''REVERSE'' else ''FORWARD'')"
    by (simp add: expected_actuator_def Let_def unit_def)
  then show ?thesis using b(2) by (simp add: mv_apply_direct_def pwm_preview servo_preview d Let_def max_def)
qed

end
