(* ===== verification/Lost_Camera.thy ===== *)
theory Lost_Camera
  imports Pipeline_Safety Mock_Vehicle
begin

text \<open>
  The pipeline, the host's server and the vehicle when the camera loses the car: what the repeated stream
  means to the one who receives it. The vehicle is the simulated one; the firmware drops the same numbers.
\<close>

text \<open>Nothing new arrives: the message \<open>m\<close> again, heartbeats, passes of the vehicle's loop.\<close>

definition frozen :: "pydict \<Rightarrow> mv_event \<Rightarrow> bool" where
  "frozen m e = (case e of
       Arrives now msg \<Rightarrow> msg = m \<or> dget msg ''type'' = JStr ''HEARTBEAT''
     | Passes now \<Rightarrow> True)"

definition fading :: "int \<Rightarrow> real \<Rightarrow> mock_vehicle \<times> bool \<Rightarrow> bool" where
  "fading n since s = (snd s \<and> tended (fst s) \<and> n \<le> mv_applied_control_seq (fst s) \<and>
     (mv_motor_pwm (fst s) \<le> 0 \<or> mv_last_direct_apply (fst s) = since))"

lemma repeated_number_ignored:
  "dget m ''control_seq'' = JInt n \<Longrightarrow> n \<le> mv_applied_control_seq v \<Longrightarrow> mv_direct now m v = (v, True)"
  by (simp add: mv_direct_def)

lemma periodic_fades:
  assumes "fading n since (v, True)"
  shows "fading n since (fst (mv_periodic now v), True)"
proof -
  have "tended (fst (mv_periodic now v))" using assms tended_periodic by (simp add: fading_def)
  moreover have "n \<le> mv_applied_control_seq (fst (mv_periodic now v))"
    using assms by (simp add: fading_def mv_periodic_def mv_check_direct_def mv_check_heartbeat_def mv_report_def
        mv_count_encoder_def mv_safe_stop_def split_def Let_def)
  moreover have "mv_motor_pwm (fst (mv_periodic now v)) \<le> 0 \<or> mv_last_direct_apply (fst (mv_periodic now v)) = since"
    using assms by (auto simp: fading_def mv_periodic_def mv_check_direct_def mv_check_heartbeat_def mv_report_def
        mv_count_encoder_def split_def Let_def)
  ultimately show ?thesis by (simp add: fading_def)
qed

lemma heartbeat_arrives: "dget msg ''type'' = JStr ''HEARTBEAT'' \<Longrightarrow>
    mv_receive pstr now msg v = (v\<lparr>mv_last_heartbeat := now\<rparr>, [], True)"
  by (simp add: mv_receive_def)

lemma repeated_arrives:
  "dget m ''type'' = JStr ''DIRECT_CONTROL'' \<Longrightarrow> dget m ''control_seq'' = JInt n \<Longrightarrow> n \<le> mv_applied_control_seq v \<Longrightarrow>
     mv_receive pstr now m v = (v, [], True)"
  by (simp add: mv_receive_def repeated_number_ignored)

text \<open>The control message \<open>make_direct_control c sid n t st\<close>, repeated.\<close>

lemma control_message_reads:
  "dget (make_direct_control c sid n t st) ''type'' = JStr ''DIRECT_CONTROL''"
  "dget (make_direct_control c sid n t st) ''control_seq'' = JInt n"
  by (simp_all add: make_direct_control_def base_msg_def dupdate_def)

interpretation fade: latch "\<lambda>s e. fst (mv_step pstr s e)" "fading n since"
  "\<lambda>e. \<not> frozen (make_direct_control c sid n t st) e"
proof
  fix pstr n since c sid t st s e
  assume a: "fading n since s" "\<not> \<not> frozen (make_direct_control c sid n t st) e"
  show "fading n since (fst (mv_step pstr s e))"
  proof (cases "(pstr, s, e)" rule: mv_step.cases)
    case (2 pstr' v now msg)
    from a 2 have "msg = make_direct_control c sid n t st \<or> dget msg ''type'' = JStr ''HEARTBEAT''"
      by (simp add: frozen_def)
    then show ?thesis
      using a 2 repeated_arrives [OF control_message_reads] heartbeat_arrives by (auto simp: fading_def)
  next
    case (3 pstr' v now)
    then show ?thesis using a periodic_fades [of n since v now] by (simp add: split_def Let_def)
  qed (use a in \<open>auto simp: fading_def\<close>)
qed

definition resting :: "int \<Rightarrow> mock_vehicle \<times> bool \<Rightarrow> bool" where
  "resting n s = (snd s \<and> n \<le> mv_applied_control_seq (fst s) \<and> mv_motor_pwm (fst s) \<le> 0)"

interpretation rest: latch "\<lambda>s e. fst (mv_step pstr s e)" "resting n"
  "\<lambda>e. \<not> frozen (make_direct_control c sid n t st) e"
proof
  fix pstr n c sid t st s e
  assume a: "resting n s" "\<not> \<not> frozen (make_direct_control c sid n t st) e"
  show "resting n (fst (mv_step pstr s e))"
  proof (cases "(pstr, s, e)" rule: mv_step.cases)
    case (2 pstr' v now msg)
    from a 2 have "msg = make_direct_control c sid n t st \<or> dget msg ''type'' = JStr ''HEARTBEAT''"
      by (simp add: frozen_def)
    then show ?thesis
      using a 2 repeated_arrives [OF control_message_reads] heartbeat_arrives by (auto simp: resting_def)
  next
    case (3 pstr' v now)
    then show ?thesis using a
      by (simp add: resting_def mv_periodic_def mv_check_direct_def mv_check_heartbeat_def mv_report_def
          mv_count_encoder_def mv_safe_stop_def split_def Let_def)
  qed (use a in \<open>auto simp: resting_def\<close>)
qed

lemma periodic_pwm: "mv_motor_pwm (fst (mv_periodic now v)) = 0 \<or> mv_motor_pwm (fst (mv_periodic now v)) = mv_motor_pwm v"
  by (simp add: mv_periodic_def mv_check_direct_def mv_check_heartbeat_def mv_report_def mv_count_encoder_def
      split_def Let_def)

lemma faded_rests:
  assumes "fading n since s" "since + DIRECT_TIMEOUT_S \<le> now"
  shows "resting n (fst (mv_step pstr s (Passes now)))"
proof -
  obtain v where s: "s = (v, True)" using assms(1) by (cases s) (simp add: fading_def)
  have f: "fading n since (fst (mv_periodic now v), True)" using periodic_fades assms(1) s by simp
  have "\<not> 0 < mv_motor_pwm (fst (mv_periodic now v))"
  proof
    assume r: "0 < mv_motor_pwm (fst (mv_periodic now v))"
    have "tended v" using assms(1) s by (simp add: fading_def)
    from pass_stops [OF this r] have "now < mv_last_direct_apply v + DIRECT_TIMEOUT_S" by simp
    moreover have "mv_last_direct_apply v = since"
      using assms(1) s r periodic_pwm [of now v] by (auto simp: fading_def)
    ultimately show False using assms(2) by simp
  qed
  then show ?thesis using f by (simp add: resting_def fading_def s split_def Let_def)
qed


definition blind_frames :: "(real \<times> (int \<Rightarrow> shell_event list) \<times> track_state) list" where
  "blind_frames = replicate 100 (1, \<lambda>_. [], \<lparr>ts_frame_index = 1, ts_detections = [], ts_frame_size = (640, 480)\<rparr>)"

definition never_ticked :: tick_times where
  "never_ticked = \<lparr>last_pose_ms = 0, last_hb_ms = 0, last_control_ms = 0\<rparr>"

lemma driven_vehicle_tended: "tended driven_vehicle" "mv_applied_control_seq driven_vehicle = 1"
  by (simp_all add: tended_def driven_vehicle_def driving_run_state)


end
