(* ===== verification/Operator_Windows.thy ===== *)
theory Operator_Windows
  imports Operator_Keys
begin

text \<open>
  \<open>remote-direct-bridge/wasd_gui.py\<close> and \<open>bridge_gui.py\<close>: the window an operator drives with, its keys, ramp
  and buttons, and the queue through which its calls reach the bridge on the other thread. Labels and
  notices are left out. The pad, the interface shared with the host's window, comes first.
\<close>

section \<open>A pad of held keys\<close>

text \<open>The keys held and the ramped steering; \<open>dir\<close> and \<open>adv\<close> are the key logic.\<close>

type_synonym pad = "string list \<times> real"

definition press_key :: "(real \<Rightarrow> string list \<Rightarrow> real) \<Rightarrow> string \<Rightarrow> pad \<Rightarrow> pad" where
  "press_key adv key p =
     (let pressed = fst p @ [key]
      in (pressed, if key \<in> {''a'', ''d''} then adv (snd p) pressed else snd p))"

definition release_key ::
  "(string list \<Rightarrow> int) \<Rightarrow> (real \<Rightarrow> string list \<Rightarrow> real) \<Rightarrow> string \<Rightarrow> pad \<Rightarrow> pad" where
  "release_key dir adv key p =
     (let pressed = removeAll key (fst p)
      in (pressed, if key \<in> {''a'', ''d''} then (if dir pressed = 0 then 0 else adv 0 pressed) else snd p))"

definition ramp_key :: "(string list \<Rightarrow> int) \<Rightarrow> (real \<Rightarrow> string list \<Rightarrow> real) \<Rightarrow> pad \<Rightarrow> pad" where
  "ramp_key dir adv p = (fst p, if dir (fst p) \<noteq> 0 then adv (snd p) (fst p) else 0)"

text \<open>What a pad promises: the steering is in range and on the held side.\<close>

definition pad_ok :: "(string list \<Rightarrow> int) \<Rightarrow> pad \<Rightarrow> bool" where
  "pad_ok dir p = (\<bar>snd p\<bar> \<le> 1 \<and> 0 \<le> snd p * of_int (dir (fst p)) \<and> (dir (fst p) = 0 \<longrightarrow> snd p = 0))"

locale drive_keys =
  fixes dir :: "string list \<Rightarrow> int"
    and adv :: "real \<Rightarrow> string list \<Rightarrow> real"
  assumes adv_unit: "\<bar>adv v ks\<bar> \<le> 1"
    and adv_side: "0 \<le> adv v ks * of_int (dir ks)"
    and adv_free: "dir ks = 0 \<Longrightarrow> adv v ks = 0"
    and dir_other: "lower key = key \<Longrightarrow> key \<notin> {''a'', ''d''} \<Longrightarrow> dir (ks @ [key]) = dir ks"
    and dir_released: "lower key = key \<Longrightarrow> key \<notin> {''a'', ''d''} \<Longrightarrow> list_all (\<lambda>k. lower k = k) ks \<Longrightarrow>
      dir (removeAll key ks) = dir ks"
begin

lemma press_ok: "pad_ok dir p \<Longrightarrow> lower key = key \<Longrightarrow> pad_ok dir (press_key adv key p)"
  using dir_other [of key "fst p"]
  by (auto simp: pad_ok_def press_key_def adv_unit adv_side adv_free Let_def)

lemma release_ok:
  "pad_ok dir p \<Longrightarrow> lower key = key \<Longrightarrow> list_all (\<lambda>k. lower k = k) (fst p) \<Longrightarrow> pad_ok dir (release_key dir adv key p)"
  using dir_released [of key "fst p"]
  by (auto simp: pad_ok_def release_key_def adv_unit adv_side adv_free Let_def)

lemma ramp_ok: "pad_ok dir p \<Longrightarrow> pad_ok dir (ramp_key dir adv p)"
  by (auto simp: pad_ok_def ramp_key_def adv_unit adv_side adv_free)

end

lemma held_append: "held_keys (ks @ [k]) = held_keys ks @ [lower k]"
  by (simp add: held_keys_def)

lemma held_removeAll:
  "list_all (\<lambda>k. lower k = k) ks \<Longrightarrow> set (held_keys (removeAll key ks)) = set (held_keys ks) - {key}"
  by (auto simp: held_keys_def list_all_iff)

interpretation wasd: drive_keys steering_direction advance_steering
proof
  fix v ks key
  show "\<bar>advance_steering v ks\<bar> \<le> 1" "0 \<le> advance_steering v ks * of_int (steering_direction ks)"
    using steering_ramp [where p = ks and n = 0 and v = v] by simp_all
  show "steering_direction ks = 0 \<Longrightarrow> advance_steering v ks = 0"
    using steering_ramp [where p = ks and n = 0 and v = v] by simp
  show "lower key = key \<Longrightarrow> key \<notin> {''a'', ''d''} \<Longrightarrow> steering_direction (ks @ [key]) = steering_direction ks"
    by (auto simp: steering_direction_def held_append Let_def)
  show "lower key = key \<Longrightarrow> key \<notin> {''a'', ''d''} \<Longrightarrow> list_all (\<lambda>k. lower k = k) ks \<Longrightarrow>
      steering_direction (removeAll key ks) = steering_direction ks"
    by (auto simp: steering_direction_def held_removeAll Let_def)
qed

section \<open>The window\<close>

record wasd_window =
  ww_pad :: pad
  ww_command_keys_down :: "string list"
  ww_last_sent :: "(real \<times> real) option"
  ww_last_action_at :: "string \<Rightarrow> real"
  ww_latest_state :: json
  ww_latest_mode :: json
  ww_remote_armed :: bool
  ww_pending_mode_seq :: json

datatype window_call = SetDrive real real | SetModeRemote | EmergencyStop | ResetCommand | ShutDown

definition COMMAND_COOLDOWN_S :: real where "COMMAND_COOLDOWN_S = 75 / 100"

text \<open>\<open>last_action_at.get(name, -1e9)\<close>. The latest state is kept as it came, not as its text.\<close>

definition wasd_window_new :: wasd_window where
  "wasd_window_new = \<lparr>ww_pad = ([], 0), ww_command_keys_down = [], ww_last_sent = None,
     ww_last_action_at = (\<lambda>_. - (10 ^ 9)), ww_latest_state = JStr ''-'', ww_latest_mode = JStr ''-'',
     ww_remote_armed = False, ww_pending_mode_seq = JNull\<rparr>"

definition allow_action :: "real \<Rightarrow> string \<Rightarrow> wasd_window \<Rightarrow> wasd_window \<times> bool" where
  "allow_action now name w =
     (if now - ww_last_action_at w name < COMMAND_COOLDOWN_S then (w, False)
      else (w\<lparr>ww_last_action_at := (ww_last_action_at w)(name := now)\<rparr>, True))"

definition apply_keys :: "wasd_window \<Rightarrow> wasd_window \<times> window_call list" where
  "apply_keys w =
     (let i = compute_drive_intent (fst (ww_pad w)) (Some (snd (ww_pad w)));
          current = (di_throttle i, di_steering i)
      in if Some current \<noteq> ww_last_sent w
         then (w\<lparr>ww_last_sent := Some current\<rparr>, [SetDrive (fst current) (snd current)])
         else (w, []))"

definition clear_drive :: "wasd_window \<Rightarrow> wasd_window \<times> window_call list" where
  "clear_drive w = (w\<lparr>ww_pad := ([], 0), ww_last_sent := Some (0, 0)\<rparr>, [SetDrive 0 0])"

definition window_command :: "real \<Rightarrow> string \<Rightarrow> window_call \<Rightarrow> wasd_window \<Rightarrow> wasd_window \<times> window_call list" where
  "window_command now name call w =
     (let (w, allowed) = allow_action now name w
      in if \<not> allowed then (w, []) else (let (w, out) = clear_drive w in (w, out @ [call])))"

text \<open>\<open>_mode\<close>, \<open>_stop\<close>, \<open>_reset\<close>.\<close>

definition window_mode :: "real \<Rightarrow> wasd_window \<Rightarrow> wasd_window \<times> window_call list" where
  "window_mode now = window_command now ''mode'' SetModeRemote"

definition window_stop :: "real \<Rightarrow> wasd_window \<Rightarrow> wasd_window \<times> window_call list" where
  "window_stop now = window_command now ''stop'' EmergencyStop"

definition window_reset :: "real \<Rightarrow> wasd_window \<Rightarrow> wasd_window \<times> window_call list" where
  "window_reset now = window_command now ''reset'' ResetCommand"

definition window_close :: "wasd_window \<Rightarrow> wasd_window \<times> window_call list" where
  "window_close w = (let (w, out) = clear_drive w in (w, out @ [EmergencyStop]))"

definition on_key_press :: "real \<Rightarrow> string \<Rightarrow> wasd_window \<Rightarrow> wasd_window \<times> window_call list" where
  "on_key_press now keysym w =
     (let key = lower keysym
      in if key \<in> {''space'', ''m'', ''r'', ''q''} then
           if key \<in> set (ww_command_keys_down w) then (w, [])
           else
             let w = w\<lparr>ww_command_keys_down := ww_command_keys_down w @ [key]\<rparr>
             in (if key = ''space'' then window_stop now w
                 else if key = ''m'' then window_mode now w
                 else if key = ''r'' then window_reset now w
                 else window_close w)
         else if key \<notin> {''w'', ''a'', ''s'', ''d'', ''shift_l'', ''shift_r''} then (w, [])
         else if key \<in> set (fst (ww_pad w)) then (w, [])
         else apply_keys (w\<lparr>ww_pad := press_key advance_steering key (ww_pad w)\<rparr>))"

definition on_key_release :: "string \<Rightarrow> wasd_window \<Rightarrow> wasd_window \<times> window_call list" where
  "on_key_release keysym w =
     (let key = lower keysym;
          w = w\<lparr>ww_command_keys_down := removeAll key (ww_command_keys_down w)\<rparr>
      in if key \<notin> set (fst (ww_pad w)) then (w, [])
         else apply_keys (w\<lparr>ww_pad := release_key steering_direction advance_steering key (ww_pad w)\<rparr>))"

definition steering_ramp_tick :: "wasd_window \<Rightarrow> wasd_window \<times> window_call list" where
  "steering_ramp_tick w =
     (let pad = ramp_key steering_direction advance_steering (ww_pad w)
      in if snd pad \<noteq> snd (ww_pad w) then apply_keys (w\<lparr>ww_pad := pad\<rparr>) else (w, []))"

text \<open>\<open>_poll_backend\<close> for one status from the queue.\<close>

definition poll_status :: "pydict \<Rightarrow> wasd_window \<Rightarrow> wasd_window" where
  "poll_status msg w =
     w\<lparr>ww_latest_state := dget_or msg ''state'' (JStr ''-''), ww_latest_mode := dget_or msg ''mode'' (JStr ''-''),
       ww_remote_armed := truthy (dget_or msg ''bridge_direct_streaming'' (JBool False)),
       ww_pending_mode_seq := dget msg ''bridge_pending_mode_seq''\<rparr>"

datatype window_event =
    KeyPress real string | KeyRelease string | RampTick | FocusOut | CloseWindow | FinishClose
  | ModeButton real | ResetButton real | StopButton real | PollStatus pydict

fun window_step :: "wasd_window \<Rightarrow> window_event \<Rightarrow> wasd_window \<times> window_call list" where
  "window_step w (KeyPress now k) = on_key_press now k w"
| "window_step w (KeyRelease k) = on_key_release k w"
| "window_step w RampTick = steering_ramp_tick w"
| "window_step w FocusOut = clear_drive w"
| "window_step w CloseWindow = window_close w"
| "window_step w FinishClose = (w, [ShutDown])"
| "window_step w (ModeButton now) = window_mode now w"
| "window_step w (ResetButton now) = window_reset now w"
| "window_step w (StopButton now) = window_stop now w"
| "window_step w (PollStatus msg) = (poll_status msg w, [])"

section \<open>What the window asks for\<close>

lemmas window_defs = apply_keys_def clear_drive_def allow_action_def window_command_def window_mode_def
  window_stop_def window_reset_def window_close_def on_key_press_def on_key_release_def steering_ramp_tick_def
  poll_status_def

definition held_drive :: "pad \<Rightarrow> real \<times> real" where
  "held_drive p = (compute_throttle (fst p), snd p)"

text \<open>The keys are in lower case, the steering is on the held side, and what was sent last is what they ask for.\<close>

definition window_ok :: "wasd_window \<Rightarrow> bool" where
  "window_ok w = (pad_ok steering_direction (ww_pad w) \<and> list_all (\<lambda>k. lower k = k) (fst (ww_pad w)) \<and>
     (ww_last_sent w = Some (held_drive (ww_pad w)) \<or> ww_last_sent w = None \<and> ww_pad w = ([], 0)))"

lemma lower_lower [simp]: "lower (lower k) = lower k"
  by (auto simp: lower_def lower_char_def)

lemma no_keys: "steering_direction [] = 0" "compute_throttle [] = 0"
  by (simp_all add: steering_direction_def compute_throttle_def held_keys_def)

lemma empty_pad [simp]: "pad_ok steering_direction ([], 0)" "held_drive ([], 0) = (0, 0)"
  by (simp_all add: pad_ok_def held_drive_def no_keys)

lemma window_new_ok: "window_ok wasd_window_new"
  by (simp add: window_ok_def wasd_window_new_def)

text \<open>Everything the window does ends with what the held keys ask for.\<close>

fun last_drive :: "window_call list \<Rightarrow> (real \<times> real) option" where
  "last_drive [] = None"
| "last_drive (SetDrive t s # cs) = (case last_drive cs of None \<Rightarrow> Some (t, s) | Some x \<Rightarrow> Some x)"
| "last_drive (c # cs) = last_drive cs"

lemma last_drive_append: "last_drive (xs @ ys) = (case last_drive ys of None \<Rightarrow> last_drive xs | Some x \<Rightarrow> Some x)"
  by (induction xs rule: last_drive.induct) (simp_all split: option.split)

definition sends_held :: "wasd_window \<Rightarrow> wasd_window \<times> window_call list \<Rightarrow> bool" where
  "sends_held w r = (window_ok (fst r) \<and>
     (last_drive (snd r) = None \<and> ww_last_sent (fst r) = ww_last_sent w \<or>
      last_drive (snd r) \<noteq> None \<and> last_drive (snd r) = ww_last_sent (fst r)))"

lemma apply_keys_sends:
  assumes "pad_ok steering_direction (ww_pad w)" "list_all (\<lambda>k. lower k = k) (fst (ww_pad w))"
    "ww_last_sent w = ww_last_sent v"
  shows "sends_held v (apply_keys w)"
proof -
  have "max (- 1) (min 1 (snd (ww_pad w))) = snd (ww_pad w)"
    using assms(1) by (auto simp: pad_ok_def abs_le_iff min_def max_def)
  moreover have "held_keys (fst (ww_pad w)) = fst (ww_pad w)"
    using assms(2) by (auto simp: held_keys_def list_all_iff map_idI)
  ultimately show ?thesis
    using assms
    by (auto simp: sends_held_def apply_keys_def compute_drive_intent_def window_ok_def held_drive_def Let_def)
qed

lemma clear_drive_sends: "sends_held v (clear_drive w)"
  by (simp add: sends_held_def clear_drive_def window_ok_def)

lemma window_command_sends: "window_ok w \<Longrightarrow> last_drive [c] = None \<Longrightarrow> sends_held w (window_command now name c w)"
  by (cases c) (auto simp: sends_held_def window_command_def allow_action_def clear_drive_def window_ok_def Let_def)

lemma quiet_sends: "window_ok w \<Longrightarrow> ww_pad w' = ww_pad w \<Longrightarrow> ww_last_sent w' = ww_last_sent w \<Longrightarrow>
    last_drive out = None \<Longrightarrow> sends_held w (w', out)"
  by (simp add: sends_held_def window_ok_def)

lemma close_sends: "sends_held w (window_close w)"
  by (simp add: sends_held_def window_close_def clear_drive_def window_ok_def last_drive_append)

lemma sends_held_cong: "ww_last_sent w' = ww_last_sent w \<Longrightarrow> sends_held w' r \<Longrightarrow> sends_held w r"
  by (simp add: sends_held_def)

lemma either_sends: "sends_held w r \<Longrightarrow> sends_held w r' \<Longrightarrow> sends_held w (if b then r else r')"
  by simp

lemma press_sends:
  assumes "window_ok w" shows "sends_held w (on_key_press now k w)"
proof -
  let ?w = "w\<lparr>ww_command_keys_down := ww_command_keys_down w @ [lower k]\<rparr>"
  have w: "window_ok ?w" using assms by (simp add: window_ok_def)
  have "sends_held w (window_mode now ?w)" "sends_held w (window_stop now ?w)" "sends_held w (window_reset now ?w)"
      "sends_held w (window_close ?w)"
    using w by (auto simp: window_mode_def window_stop_def window_reset_def
        intro!: sends_held_cong [of ?w w] window_command_sends close_sends)
  moreover have "sends_held w (apply_keys (w\<lparr>ww_pad := press_key advance_steering (lower k) (ww_pad w)\<rparr>))"
    using assms wasd.press_ok [of "ww_pad w" "lower k"]
    by (intro apply_keys_sends) (auto simp: window_ok_def press_key_def Let_def)
  moreover have "sends_held w (w, [])" using quiet_sends [OF assms refl refl] by simp
  ultimately show ?thesis
    unfolding on_key_press_def Let_def by (intro either_sends)
qed

lemma release_sends:
  assumes "window_ok w" shows "sends_held w (on_key_release k w)"
proof -
  let ?w = "w\<lparr>ww_command_keys_down := removeAll (lower k) (ww_command_keys_down w)\<rparr>"
  have "sends_held w (apply_keys (?w\<lparr>ww_pad := release_key steering_direction advance_steering (lower k) (ww_pad w)\<rparr>))"
    using assms wasd.release_ok [of "ww_pad w" "lower k"]
    by (intro apply_keys_sends) (auto simp: window_ok_def release_key_def Let_def list_all_iff)
  then show ?thesis using quiet_sends [OF assms, of ?w "[]"] by (simp add: on_key_release_def Let_def)
qed

lemma ramp_sends:
  assumes "window_ok w" shows "sends_held w (steering_ramp_tick w)"
proof -
  let ?pad = "ramp_key steering_direction advance_steering (ww_pad w)"
  have "sends_held w (apply_keys (w\<lparr>ww_pad := ?pad\<rparr>))"
    using assms wasd.ramp_ok [of "ww_pad w"]
    by (intro apply_keys_sends) (auto simp: window_ok_def ramp_key_def)
  then show ?thesis using quiet_sends [OF assms refl refl, of "[]"] by (simp add: steering_ramp_tick_def Let_def)
qed

lemma window_step_sends:
  assumes "window_ok w" shows "sends_held w (window_step w e)"
  using press_sends [OF assms] release_sends [OF assms] ramp_sends [OF assms] clear_drive_sends close_sends
    window_command_sends [OF assms] quiet_sends [OF assms]
  by (cases e) (auto simp: window_mode_def window_stop_def window_reset_def poll_status_def)

section \<open>The window and the bridge\<close>

text \<open>
  \<open>set_drive\<close> is queued with \<open>call_soon_threadsafe\<close>, so drive calls arrive in order. The other calls start a
  coroutine, whose steps are events of the bridge at any later time. No other code of this program sets drive
  values.
\<close>

record desk =
  dk_window :: wasd_window
  dk_queue :: "window_call list"
  dk_bridge :: bridge

datatype desk_event = Operate window_event | Deliver | Backend bridge_event

definition desk_new :: desk where
  "desk_new = \<lparr>dk_window = wasd_window_new, dk_queue = [], dk_bridge = bridge_init\<rparr>"

fun deliver :: "window_call \<Rightarrow> bridge \<Rightarrow> bridge" where
  "deliver (SetDrive t s) c = fst (intent (cmd_set_drive (Fin t) (Fin s)) c)"
| "deliver _ c = c"

fun desk_step :: "(json \<Rightarrow> string) \<Rightarrow> desk \<Rightarrow> desk_event \<Rightarrow> desk" where
  "desk_step pstr d (Operate e) =
     (let (w, out) = window_step (dk_window d) e in d\<lparr>dk_window := w, dk_queue := dk_queue d @ out\<rparr>)"
| "desk_step pstr d Deliver = (case dk_queue d of
       [] \<Rightarrow> d
     | c # cs \<Rightarrow> d\<lparr>dk_queue := cs, dk_bridge := deliver c (dk_bridge d)\<rparr>)"
| "desk_step pstr d (Backend e) = d\<lparr>dk_bridge := fst (bridge_step pstr (dk_bridge d) e)\<rparr>"

fun sets_drive :: "bridge_event \<Rightarrow> bool" where
  "sets_drive (Throttle v) = True"
| "sets_drive (Steering v) = True"
| "sets_drive (Drive t v) = True"
| "sets_drive (NudgeThrottle v) = True"
| "sets_drive (NudgeSteering v) = True"
| "sets_drive Center = True"
| "sets_drive Neutral = True"
| "sets_drive _ = False"

definition desk_event :: "desk_event \<Rightarrow> bool" where
  "desk_event e = (case e of Backend b \<Rightarrow> \<not> sets_drive b | _ \<Rightarrow> True)"

definition keeps_drive :: "bridge \<Rightarrow> bridge \<Rightarrow> bool" where
  "keeps_drive c c' = (desired c' = desired c \<or> desired c' = (0, 0))"

lemma keeps_drive_refl [simp]: "keeps_drive c c"
  by (simp add: keeps_drive_def)

lemma status_keeps_drive: "keeps_drive c (fst (on_status now m c))"
proof (cases "ct_session c")
  case None
  then show ?thesis by (simp add: on_status_def)
next
  case (Some s)
  obtain cmd s1 where s1: "consume_terminal_result m s = (cmd, s1)" by fastforce
  have f: "desired (finish_pending_mode m x) = desired x \<or> desired (finish_pending_mode m x) = (0, 0)" for x
    by (cases rule: finish_pending_cases [of m x]) (auto simp: disarm_stream_def)
  have c0: "desired (c\<lparr>ct_session := Some s1\<rparr>) = desired c"
    using consume_keeps [OF s1] Some by (simp add: desired_def)
  show ?thesis
    using f [of "c\<lparr>ct_session := Some s1\<rparr>"] c0 Some s1
    by (auto simp: on_status_def keeps_drive_def Let_def split_def disarm_stream_def)
qed

lemma hello_keeps_drive: "keeps_drive c (fst (on_hello pstr token m c))"
  by (auto simp: on_hello_def keeps_drive_def new_bridge_session_def desired_def Let_def split_def
      split: json.split option.split)

lemma put_keeps_drive:
  "ct_session c = Some s \<Longrightarrow> bs_desired_throttle s1 = bs_desired_throttle s \<Longrightarrow>
     bs_desired_steering s1 = bs_desired_steering s \<Longrightarrow> keeps_drive c (c\<lparr>ct_session := Some s1\<rparr>)"
  by (simp add: keeps_drive_def desired_def)

lemma off_keeps_drive: "desired c' = (0, 0) \<Longrightarrow> keeps_drive c c'"
  by (simp add: keeps_drive_def)

lemma ticks_keep_drive:
  "keeps_drive c (fst (heartbeat_tick c))" "keeps_drive c (fst (direct_control_tick c))"
  "keeps_drive c (fst (reliable_resend_tick now c))"
  by (auto simp: heartbeat_tick_def next_heartbeat_seq_def direct_control_tick_def next_control_seq_def
      reliable_resend_tick_def set_outstanding_def clear_outstanding_def disarm_stream_def Let_def split_def
      split: option.split sum.split intro: put_keeps_drive off_keeps_drive)

lemma backend_keeps_drive:
  assumes "\<not> sets_drive e" shows "keeps_drive c (fst (bridge_step pstr c e))"
proof (cases e)
  case (Message now token m)
  then show ?thesis using status_keeps_drive [of c now m] hello_keeps_drive [of c pstr token m]
    by (auto simp: sent_by_def on_message_def split_def Let_def)
next
  case Attach
  then show ?thesis by (simp add: attach_def keeps_drive_def desired_def)
next
  case Detach
  then show ?thesis by (simp add: detach_def keeps_drive_def desired_def)
qed (use assms ticks_keep_drive in \<open>auto simp: keeps_drive_def cmd_mode_begin_def cmd_mode_end_def
    send_mode_def send_stop_cmd_def send_reset_cmd_def send_step_keeps cmd_stop_begin_def cmd_reset_begin_def
    cmd_pause_direct_stream_def cmd_resume_direct_stream_def disarm_stream_def split_def Let_def split: option.split\<close>)

definition desk_ok :: "desk \<Rightarrow> bool" where
  "desk_ok d = (window_ok (dk_window d) \<and>
     (case last_drive (dk_queue d) of
        Some x \<Rightarrow> ww_last_sent (dk_window d) = Some x
      | None \<Rightarrow> desired (dk_bridge d) = (0, 0) \<or> ww_last_sent (dk_window d) = Some (desired (dk_bridge d))))"

lemma throttle_unit: "\<bar>compute_throttle p\<bar> \<le> 1"
  by (simp add: compute_throttle_def Let_def)

lemma set_drive_desired:
  assumes "\<bar>t\<bar> \<le> 1" "\<bar>s\<bar> \<le> 1"
  shows "desired (deliver (SetDrive t s) c) = (0, 0) \<or> desired (deliver (SetDrive t s) c) = (t, s)"
proof -
  have "max (- 1) (min 1 t) = t" "max (- 1) (min 1 s) = s" using assms by (auto simp: abs_le_iff min_def max_def)
  then show ?thesis
    by (auto simp: intent_def cmd_set_drive_def clamp_finite_def THROTTLE_MIN_def THROTTLE_MAX_def STEERING_MIN_def
        STEERING_MAX_def desired_def neutralize_desired_def split: option.split)
qed

lemma desk_ok_deliver:
  assumes "desk_ok d" "dk_queue d = c # cs"
  shows "desk_ok (d\<lparr>dk_queue := cs, dk_bridge := deliver c (dk_bridge d)\<rparr>)"
proof (cases "last_drive cs = None \<and> (\<exists>t s. c = SetDrive t s)")
  case True
  then obtain t s where c: "c = SetDrive t s" by blast
  then have sent: "ww_last_sent (dk_window d) = Some (t, s)"
    using assms True by (simp add: desk_ok_def)
  have "ww_last_sent (dk_window d) = Some (held_drive (ww_pad (dk_window d)))" "pad_ok steering_direction (ww_pad (dk_window d))"
    using assms(1) sent by (auto simp: desk_ok_def window_ok_def)
  then have "\<bar>t\<bar> \<le> 1" "\<bar>s\<bar> \<le> 1" using sent throttle_unit by (auto simp: held_drive_def pad_ok_def)
  then show ?thesis
    using set_drive_desired [of t s "dk_bridge d"] assms(1) True sent c by (auto simp: desk_ok_def)
next
  case False
  then show ?thesis using assms by (cases c) (auto simp: desk_ok_def split: option.splits)
qed

lemma desk_step_ok:
  assumes "desk_ok d" "desk_event e" shows "desk_ok (desk_step pstr d e)"
proof (cases e)
  case (Operate x)
  have "sends_held (dk_window d) (window_step (dk_window d) x)"
    using assms(1) by (intro window_step_sends) (simp add: desk_ok_def)
  then show ?thesis using assms(1)
    by (auto simp: Operate desk_ok_def sends_held_def split_def Let_def last_drive_append split: option.splits)
next
  case Deliver
  then show ?thesis using desk_ok_deliver [OF assms(1)] assms(1) by (simp split: list.split)
next
  case (Backend b)
  then show ?thesis using assms backend_keeps_drive [of b "dk_bridge d" pstr]
    by (auto simp: desk_ok_def keeps_drive_def desk_event_def split: option.splits)
qed

interpretation desk_system: guarded_system "desk_step pstr" desk_ok desk_event
  by unfold_locales (rule desk_step_ok)


definition desk_run :: "desk_event list" where
  "desk_run = map Backend arming_run @ [Operate (KeyPress 1 ''w''), Deliver]"

lemma backend_run: "foldl (desk_step pstr) d (map Backend bs) =
    d\<lparr>dk_bridge := foldl (\<lambda>c e. fst (bridge_step pstr c e)) (dk_bridge d) bs\<rparr>"
  by (induction bs arbitrary: d) simp_all

lemma lower_w [simp]: "lower ''w'' = ''w''"
  by (simp add: lower_def lower_char_def code_def chr_def)

lemma held_w: "held_keys [''w''] = [''w'']"
  by (simp add: held_keys_def)

lemma forward_press:
  "on_key_press 1 ''w'' wasd_window_new =
     (wasd_window_new\<lparr>ww_pad := ([''w''], 0), ww_last_sent := Some (1, 0)\<rparr>, [SetDrive 1 0])"
  by (simp add: on_key_press_def wasd_window_new_def apply_keys_def compute_drive_intent_def compute_throttle_def
      press_key_def held_w Let_def)

lemma desk_run_state:
  "foldl (desk_step (\<lambda>_. '''')) desk_new desk_run =
     \<lparr>dk_window = wasd_window_new\<lparr>ww_pad := ([''w''], 0), ww_last_sent := Some (1, 0)\<rparr>, dk_queue = [],
      dk_bridge = deliver (SetDrive 1 0) (live remote_session None True)\<rparr>"
  using arming_run_state [of "\<lambda>_. ''''"]
  by (simp add: desk_run_def backend_run desk_new_def bridge_run_def forward_press)


text \<open>There the car does drive: the stream is armed and the key is held.\<close>

lemma held_forward_drives: "desired (dk_bridge (foldl (desk_step (\<lambda>_. '''')) desk_new desk_run)) = (1, 0)"
  by (simp add: desk_run_state intent_def cmd_set_drive_def live_def clamp_finite_def desired_def
      THROTTLE_MIN_def THROTTLE_MAX_def STEERING_MIN_def STEERING_MAX_def)

end
