(* ===== verification/Host_Windows.thy ===== *)
theory Host_Windows
  imports Operator_Windows Auto_Host
begin

text \<open>
  \<open>host/control/wasd_logic.py\<close> and \<open>hybrid_gui.py\<close>: the host's copy of the key logic and the window that
  switches one car between keyboard and automatic driving, with the switch it drives. Labels and notices are
  left out; an exception of a switch only changes the notice.
\<close>

section \<open>The host's key logic\<close>

definition HK_RAMP_STEP :: real where "HK_RAMP_STEP = 10 / 100"
definition HK_RAMP_FAST_STEP :: real where "HK_RAMP_FAST_STEP = 20 / 100"

definition hk_keys :: "string list \<Rightarrow> string list" where "hk_keys pressed = map lower pressed"

definition hk_throttle :: "string list \<Rightarrow> real" where
  "hk_throttle pressed =
     (let keys = hk_keys pressed; forward = (''w'' \<in> set keys); reverse = (''s'' \<in> set keys)
      in if forward = reverse then 0 else if forward then 1 else - 1)"

definition hk_direction :: "string list \<Rightarrow> int" where
  "hk_direction pressed =
     (let keys = hk_keys pressed; left = (''a'' \<in> set keys); right = (''d'' \<in> set keys)
      in if left = right then 0 else if left then - 1 else 1)"

definition hk_advance :: "real \<Rightarrow> string list \<Rightarrow> real" where
  "hk_advance current pressed =
     (let keys = hk_keys pressed; direction = hk_direction keys
      in if direction = 0 then 0
         else
           let strong = list_ex (\<lambda>k. k \<in> set keys) [''shift_l'', ''shift_r'', ''shift''];
               step = (if strong then HK_RAMP_FAST_STEP else HK_RAMP_STEP);
               value = max (- 1) (min 1 current);
               value = (if value * of_int direction < 0 then 0 else value);
               value = value + of_int direction * step
           in round_dec 3 (max (- 1) (min 1 value)))"

definition hk_intent :: "string list \<Rightarrow> real option \<Rightarrow> drive_intent" where
  "hk_intent pressed given =
     (let keys = hk_keys pressed;
          throttle = hk_throttle keys;
          steer = (case given of
              Some s \<Rightarrow> s
            | None \<Rightarrow> of_int (hk_direction keys) *
                (if list_ex (\<lambda>k. k \<in> set keys) [''shift_l'', ''shift_r'', ''shift''] then 1 else 1 / 2));
          steer = max (- 1) (min 1 steer);
          direction_label = (if throttle = 0 then ''STOP'' else if 0 < throttle then ''FORWARD'' else ''REVERSE'');
          turn_label = (if \<bar>steer\<bar> < 1 / 10 ^ 9 then ''CENTER''
            else (if steer < 0 then ''LEFT '' else ''RIGHT '') @ dec_int (py_round (\<bar>steer\<bar> * 100)) @ ''%'')
      in \<lparr>di_throttle = throttle, di_steering = steer, di_label = direction_label @ '' / '' @ turn_label\<rparr>)"

text \<open>The host's copy still is the bridge's key logic.\<close>

lemma host_keys_agree:
  "hk_throttle = compute_throttle" "hk_direction = steering_direction" "hk_advance = advance_steering"
  "hk_intent = compute_drive_intent"
proof -
  have k: "hk_keys = held_keys" by (simp add: fun_eq_iff hk_keys_def held_keys_def)
  have t: "hk_throttle = compute_throttle" and d: "hk_direction = steering_direction"
    by (simp_all add: fun_eq_iff hk_throttle_def compute_throttle_def hk_direction_def steering_direction_def k)
  show "hk_throttle = compute_throttle" "hk_direction = steering_direction" by (rule t, rule d)
  have st: "list_ex (\<lambda>k. k \<in> set keys) [''shift_l'', ''shift_r'', ''shift''] = strong_keys keys" for keys
    by (simp only: strong_keys_def)
  show "hk_advance = advance_steering"
    by (intro ext) (simp only: hk_advance_def advance_steering_def k d st Let_def HK_RAMP_STEP_def
        HK_RAMP_FAST_STEP_def STEERING_RAMP_STEP_def STEERING_RAMP_FAST_STEP_def)
  show "hk_intent = compute_drive_intent"
    by (intro ext) (simp only: hk_intent_def compute_drive_intent_def k t d st Let_def)
qed

interpretation hybrid: drive_keys hk_direction hk_advance
  unfolding host_keys_agree by (rule wasd.drive_keys_axioms)

section \<open>The window\<close>

record hybrid_window =
  hw_pad :: pad
  hw_last_sent :: "(real \<times> real) option"

datatype hybrid_call = ManualDrive real real | SwitchManual | SwitchAuto | ManualStop

definition hybrid_window_new :: hybrid_window where
  "hybrid_window_new = \<lparr>hw_pad = ([], 0), hw_last_sent = None\<rparr>"

definition hw_apply_keys :: "hybrid_window \<Rightarrow> hybrid_window \<times> hybrid_call list" where
  "hw_apply_keys w =
     (let i = hk_intent (fst (hw_pad w)) (Some (snd (hw_pad w)));
          current = (di_throttle i, di_steering i)
      in if Some current \<noteq> hw_last_sent w
         then (w\<lparr>hw_last_sent := Some current\<rparr>, [ManualDrive (fst current) (snd current)])
         else (w, []))"

text \<open>Every call of \<open>_clear_keys\<close> has \<open>send_zero=True\<close>.\<close>

definition hw_clear_keys :: "hybrid_window \<Rightarrow> hybrid_window \<times> hybrid_call list" where
  "hw_clear_keys w = (w\<lparr>hw_pad := ([], 0), hw_last_sent := Some (0, 0)\<rparr>, [ManualDrive 0 0])"

text \<open>\<open>_manual_mode\<close>, \<open>_auto_mode\<close>, \<open>_stop\<close> and \<open>_close\<close>: the keys are dropped, then the pipeline is called.\<close>

definition hw_command :: "hybrid_call \<Rightarrow> hybrid_window \<Rightarrow> hybrid_window \<times> hybrid_call list" where
  "hw_command call w = (let (w, out) = hw_clear_keys w in (w, out @ [call]))"

definition hw_key_press :: "string \<Rightarrow> hybrid_window \<Rightarrow> hybrid_window \<times> hybrid_call list" where
  "hw_key_press keysym w =
     (let key = lower keysym
      in if key = ''f1'' then hw_command SwitchManual w
         else if key = ''f2'' then hw_command SwitchAuto w
         else if key = ''space'' then hw_command ManualStop w
         else if key \<notin> {''w'', ''a'', ''s'', ''d'', ''shift_l'', ''shift_r''} then (w, [])
         else if key \<in> set (fst (hw_pad w)) then (w, [])
         else hw_apply_keys (w\<lparr>hw_pad := press_key hk_advance key (hw_pad w)\<rparr>))"

definition hw_key_release :: "string \<Rightarrow> hybrid_window \<Rightarrow> hybrid_window \<times> hybrid_call list" where
  "hw_key_release keysym w =
     (let key = lower keysym
      in if key \<notin> set (fst (hw_pad w)) then (w, [])
         else hw_apply_keys (w\<lparr>hw_pad := release_key hk_direction hk_advance key (hw_pad w)\<rparr>))"

definition hw_steering_tick :: "hybrid_window \<Rightarrow> hybrid_window \<times> hybrid_call list" where
  "hw_steering_tick w =
     (let pad = ramp_key hk_direction hk_advance (hw_pad w)
      in if snd pad \<noteq> snd (hw_pad w) then hw_apply_keys (w\<lparr>hw_pad := pad\<rparr>) else (w, []))"

datatype hybrid_event =
    HPress string | HRelease string | HTick | HFocusOut | HManual | HAuto | HStop | HClose

fun hw_step :: "hybrid_window \<Rightarrow> hybrid_event \<Rightarrow> hybrid_window \<times> hybrid_call list" where
  "hw_step w (HPress k) = hw_key_press k w"
| "hw_step w (HRelease k) = hw_key_release k w"
| "hw_step w HTick = hw_steering_tick w"
| "hw_step w HFocusOut = hw_clear_keys w"
| "hw_step w HManual = hw_command SwitchManual w"
| "hw_step w HAuto = hw_command SwitchAuto w"
| "hw_step w HStop = hw_command ManualStop w"
| "hw_step w HClose = hw_command ManualStop w"

section \<open>The window at the switch\<close>

text \<open>
  The pipeline's operator calls for the window's car. \<open>manual_stop\<close> without a switch raises \<open>RuntimeError\<close>; if
  the switch raises, the rest is skipped. \<open>now\<close> is the clock of the neutral tick of \<open>switch_to_auto\<close>.
\<close>

fun hybrid_calls :: "real \<Rightarrow> hybrid_call \<Rightarrow> shell_world \<Rightarrow> shell_world" where
  "hybrid_calls now (ManualDrive t s) w = (set_manual_wire t s (fst w), snd w)"
| "hybrid_calls now SwitchManual w = fst (switch_to_manual w)"
| "hybrid_calls now SwitchAuto w = fst (switch_to_auto now w)"
| "hybrid_calls now ManualStop w =
     (if sh_mux (fst w) = None then w
      else case switch_to_manual w of
        (w1, Some e) \<Rightarrow> w1
      | (w1, None) \<Rightarrow> stop_car (set_manual_wire 0 0 (fst w1), snd w1))"

datatype console_event = Window real hybrid_event | Elsewhere shell_event

fun console_step :: "hybrid_window \<times> shell_world \<Rightarrow> console_event \<Rightarrow> hybrid_window \<times> shell_world" where
  "console_step (win, w) (Window now e) =
     (let (win', out) = hw_step win e in (win', foldl (\<lambda>w c. hybrid_calls now c w) w out))"
| "console_step (win, w) (Elsewhere e) = (win, shell_step w e)"

section \<open>What the switch passes on\<close>

text \<open>The manual input of the switch is neutral, or it is \<open>x\<close> and the keyboard drives.\<close>

definition passes_on :: "manual_input \<Rightarrow> shell_world \<Rightarrow> bool" where
  "passes_on x w = (case sh_mux (fst w) of
       None \<Rightarrow> True
     | Some m \<Rightarrow> mx_manual m = neutral \<or> mx_mode m = MX_MANUAL_WASD \<and> mx_manual m = x)"

lemma passes_on_cong: "sh_mux (fst w') = sh_mux (fst w) \<Longrightarrow> passes_on x w' = passes_on x w"
  by (simp add: passes_on_def)

lemma to_manual_passes: "passes_on x w \<Longrightarrow> passes_on x (fst (switch_to_manual w))"
  by (auto simp: switch_to_manual_def passes_on_def split_def Let_def stop_car_def split: option.splits sum.split)

lemma to_auto_passes: "passes_on x w \<Longrightarrow> passes_on x (fst (switch_to_auto now w))"
  by (auto simp: switch_to_auto_def passes_on_def split_def Let_def split: option.splits sum.split)

lemma mux_stop_passes: "passes_on x w \<Longrightarrow> passes_on x (mux_stop now w)"
  by (auto simp: mux_stop_def passes_on_def Let_def split: option.splits)

lemma runner_stop_passes: "passes_on x (runner_stop w) = passes_on x w"
  by (rule passes_on_cong) (simp add: runner_stop_def)

lemma new_mux_passes: "passes_on x (set_mux mux_new sh, srv)"
  by (simp add: passes_on_def mux_new_def)

lemma arm_finish_mux: "sh_mux (fst (fst (arm_finish w))) = sh_mux (fst w)"
  by (simp add: arm_finish_def fault_shell_def split_def Let_def split: option.split)

lemma shell_step_passes:
  assumes "passes_on x w" "\<And>t s. e \<noteq> Wire t s"
  shows "passes_on x (shell_step w e)"
proof (cases e)
  case (ShellReady now)
  obtain w1 out r where f: "arm_finish w = (w1, out, r)" by (metis prod_cases3)
  have 1: "passes_on x w1" using assms(1) arm_finish_mux [of w] f by (simp add: passes_on_def)
  have 2: "passes_on x (fst (switch_to_manual (set_mux mux_new (fst w1), snd w1)))"
    by (rule to_manual_passes [OF new_mux_passes])
  have "passes_on x (fst (shell_ready now w))"
    using 1 2 by (auto simp: shell_ready_def f abandon_def runner_stop_passes split: option.split prod.split
        intro!: mux_stop_passes)
  then show ?thesis using assms(1) by (simp add: ShellReady)
next
  case (RunnerStarted now)
  obtain w1 out r where f: "arm_finish w = (w1, out, r)" by (metis prod_cases3)
  have 1: "passes_on x w1" using assms(1) arm_finish_mux [of w] f by (simp add: passes_on_def)
  then show ?thesis using assms(1)
    by (simp add: RunnerStarted runner_started_def f runner_stop_passes new_mux_passes split: option.split)
next
  case ToManual
  then show ?thesis using to_manual_passes [OF assms(1)] by simp
next
  case (ToAuto now)
  then show ?thesis using to_auto_passes [OF assms(1)] by simp
next
  case (MuxStop now)
  then show ?thesis using mux_stop_passes [OF assms(1)] by simp
next
  case (CameraPose a b h t)
  then show ?thesis using assms(1)
    by (auto simp: mux_camera_pose_def observe_camera_def passes_on_def Let_def set_mux_def split: option.splits)
qed (use assms in \<open>auto simp: runner_stop_def passes_on_def
    arm_begin_def re_arm_begin_def begin_handshake_def on_command_result_def sh_on_command_rejected_def
    sh_on_comm_fail_def sh_on_resync_def sched_step_def manual_step_def load_waypoints_def fault_shell_def
    arm_finish_mux stop_car_def split_def Let_def split: option.splits sum.split\<close>)

section \<open>The keyboard and the car\<close>

definition hybrid_window_ok :: "hybrid_window \<Rightarrow> bool" where
  "hybrid_window_ok w = (pad_ok hk_direction (hw_pad w) \<and> list_all (\<lambda>k. lower k = k) (fst (hw_pad w)) \<and>
     (hw_last_sent w = Some (held_drive (hw_pad w)) \<or> hw_last_sent w = None \<and> hw_pad w = ([], 0)))"

text \<open>The window asks for nothing, or for what is held and then perhaps for a switch.\<close>

definition asks_held :: "hybrid_window \<Rightarrow> hybrid_window \<times> hybrid_call list \<Rightarrow> bool" where
  "asks_held w r = (hybrid_window_ok (fst r) \<and>
     (snd r = [] \<and> hw_last_sent (fst r) = hw_last_sent w \<or>
      (\<exists>t s rest. snd r = ManualDrive t s # rest \<and> hw_last_sent (fst r) = Some (t, s) \<and> \<bar>t\<bar> \<le> 1 \<and> \<bar>s\<bar> \<le> 1 \<and>
         (rest = [] \<or> t = 0 \<and> s = 0 \<and> rest \<in> {[SwitchManual], [SwitchAuto], [ManualStop]}))))"

lemma hw_apply_asks:
  assumes "pad_ok hk_direction (hw_pad w)" "list_all (\<lambda>k. lower k = k) (fst (hw_pad w))"
    "hw_last_sent w = hw_last_sent v"
  shows "asks_held v (hw_apply_keys w)"
proof -
  have "max (- 1) (min 1 (snd (hw_pad w))) = snd (hw_pad w)"
    using assms(1) by (auto simp: pad_ok_def abs_le_iff min_def max_def)
  moreover have "held_keys (fst (hw_pad w)) = fst (hw_pad w)"
    using assms(2) by (auto simp: held_keys_def list_all_iff map_idI)
  moreover have "\<bar>snd (hw_pad w)\<bar> \<le> 1" using assms(1) by (simp add: pad_ok_def)
  ultimately show ?thesis
    using assms throttle_unit
    by (auto simp: asks_held_def hw_apply_keys_def host_keys_agree compute_drive_intent_def hybrid_window_ok_def
        held_drive_def Let_def)
qed

lemma hw_quiet: "hybrid_window_ok w \<Longrightarrow> asks_held w (w, [])"
  by (simp add: asks_held_def)

lemma hw_clear_ok: "hybrid_window_ok (fst (hw_clear_keys w))"
  by (simp add: hw_clear_keys_def hybrid_window_ok_def host_keys_agree)

lemma hw_command_asks: "c \<in> {SwitchManual, SwitchAuto, ManualStop} \<Longrightarrow> asks_held v (hw_command c w)"
  using hw_clear_ok [of w] by (auto simp: asks_held_def hw_command_def hw_clear_keys_def)

lemma hw_clear_asks: "asks_held v (hw_clear_keys w)"
  using hw_clear_ok [of w] by (auto simp: asks_held_def hw_clear_keys_def)

lemma either_asks: "asks_held w r \<Longrightarrow> asks_held w r' \<Longrightarrow> asks_held w (if b then r else r')"
  by simp

lemma hw_step_asks:
  assumes "hybrid_window_ok w" shows "asks_held w (hw_step w e)"
proof (cases e)
  case (HPress k)
  have "asks_held w (hw_apply_keys (w\<lparr>hw_pad := press_key hk_advance (lower k) (hw_pad w)\<rparr>))"
    using assms hybrid.press_ok [of "hw_pad w" "lower k"]
    by (intro hw_apply_asks) (auto simp: hybrid_window_ok_def press_key_def Let_def)
  then show ?thesis
    unfolding HPress hw_step.simps hw_key_press_def Let_def
    by (intro either_asks hw_quiet [OF assms] hw_command_asks) simp_all
next
  case (HRelease k)
  have "asks_held w (hw_apply_keys (w\<lparr>hw_pad := release_key hk_direction hk_advance (lower k) (hw_pad w)\<rparr>))"
    using assms hybrid.release_ok [of "hw_pad w" "lower k"]
    by (intro hw_apply_asks) (auto simp: hybrid_window_ok_def release_key_def Let_def list_all_iff)
  then show ?thesis
    unfolding HRelease hw_step.simps hw_key_release_def Let_def by (intro either_asks hw_quiet [OF assms])
next
  case HTick
  have "asks_held w (hw_apply_keys (w\<lparr>hw_pad := ramp_key hk_direction hk_advance (hw_pad w)\<rparr>))"
    using assms hybrid.ramp_ok [of "hw_pad w"]
    by (intro hw_apply_asks) (auto simp: hybrid_window_ok_def ramp_key_def)
  then show ?thesis
    unfolding HTick hw_step.simps hw_steering_tick_def Let_def by (intro either_asks hw_quiet [OF assms])
qed (auto intro: hw_command_asks hw_clear_asks)

definition wired :: "hybrid_window \<Rightarrow> manual_input" where
  "wired w = (case hw_last_sent w of None \<Rightarrow> neutral | Some (t, s) \<Rightarrow> \<lparr>mi_throttle = t, mi_steering = - s\<rparr>)"

lemma wire_passes:
  assumes "passes_on x w" "\<bar>t\<bar> \<le> 1" "\<bar>s\<bar> \<le> 1"
  shows "passes_on \<lparr>mi_throttle = t, mi_steering = - s\<rparr> (set_manual_wire t s (fst w), snd w)"
proof -
  have "unit_clip t = t" "unit_clip s = s" using assms(2,3) by (auto simp: unit_clip_def abs_le_iff min_def max_def)
  then show ?thesis using assms(1) by (auto simp: set_manual_wire_def passes_on_def set_mux_def split: option.splits)
qed

lemma neutral_eq: "\<lparr>mi_throttle = 0, mi_steering = 0\<rparr> = neutral"
  by (simp add: neutral_def)

lemma call_passes:
  assumes "passes_on neutral w" "c \<in> {SwitchManual, SwitchAuto, ManualStop}"
  shows "passes_on neutral (hybrid_calls now c w)"
proof (cases "c = ManualStop")
  case True
  obtain w1 e where s: "switch_to_manual w = (w1, e)" by fastforce
  have 1: "passes_on neutral w1" using to_manual_passes [OF assms(1)] s by simp
  show ?thesis
    using assms(1) 1 wire_passes [OF 1, of 0 0]
    by (auto simp: True s neutral_eq stop_car_def passes_on_def split: option.splits)
next
  case False
  then show ?thesis using assms by (auto intro: to_manual_passes to_auto_passes)
qed

definition console_ok :: "hybrid_window \<times> shell_world \<Rightarrow> bool" where
  "console_ok s = (hybrid_window_ok (fst s) \<and> passes_on (wired (fst s)) (snd s))"

definition from_window :: "console_event \<Rightarrow> bool" where
  "from_window e = (case e of Window now x \<Rightarrow> True | Elsewhere x \<Rightarrow> (case x of Wire t s \<Rightarrow> False | _ \<Rightarrow> True))"

lemma console_step_ok:
  assumes "console_ok s" "from_window e" shows "console_ok (console_step s e)"
proof (cases e)
  case (Elsewhere x)
  then show ?thesis using assms shell_step_passes [of "wired (fst s)" "snd s" x]
    by (cases s) (auto simp: console_ok_def from_window_def split: shell_event.splits)
next
  case (Window now x)
  obtain w out where h: "hw_step (fst s) x = (w, out)" by fastforce
  have a: "asks_held (fst s) (w, out)" using hw_step_asks [of "fst s" x] assms(1) h by (simp add: console_ok_def)
  have p: "passes_on (wired (fst s)) (snd s)" using assms(1) by (simp add: console_ok_def)
  from a consider (none) "out = []" "hw_last_sent w = hw_last_sent (fst s)"
    | (drive) t st where "out = [ManualDrive t st]" "hw_last_sent w = Some (t, st)" "\<bar>t\<bar> \<le> 1" "\<bar>st\<bar> \<le> 1"
    | (call) c where "out = [ManualDrive 0 0, c]" "hw_last_sent w = Some (0, 0)"
        "c \<in> {SwitchManual, SwitchAuto, ManualStop}"
    by (auto simp: asks_held_def)
  then have "passes_on (wired w) (foldl (\<lambda>w c. hybrid_calls now c w) (snd s) out)"
  proof cases
    case none
    then show ?thesis using p by (simp add: wired_def)
  next
    case drive
    then show ?thesis using wire_passes [OF p drive(3,4)] by (simp add: wired_def)
  next
    case call
    have "passes_on neutral (set_manual_wire 0 0 (fst (snd s)), snd (snd s))"
      using wire_passes [OF p, of 0 0] by (simp add: neutral_eq)
    then show ?thesis using call_passes [OF _ call(3)] call(1,2) by (simp add: wired_def neutral_eq)
  qed
  then show ?thesis using a h by (cases s) (simp add: Window console_ok_def asks_held_def)
qed

interpretation console: guarded_system console_step console_ok from_window
  by unfold_locales (rule console_step_ok)


definition keyboard_run :: "console_event list" where
  "keyboard_run = map Elsewhere handshake_run @ [Window 5 (HPress ''w'')]"

lemma elsewhere_run: "foldl console_step (win, w) (map Elsewhere es) = (win, foldl shell_step w es)"
  by (induction es arbitrary: w) simp_all

lemma keyboard_press: "hw_step hybrid_window_new (HPress ''w'') =
    (\<lparr>hw_pad = ([''w''], 0), hw_last_sent = Some (1, 0)\<rparr>, [ManualDrive 1 0])"
  by (simp add: hw_key_press_def hybrid_window_new_def hw_apply_keys_def host_keys_agree compute_drive_intent_def
      compute_throttle_def press_key_def held_w Let_def)

lemma keyboard_run_state:
  "\<exists>w m. foldl console_step (hybrid_window_new, (runner_new 1 [], one_car)) keyboard_run =
     (\<lparr>hw_pad = ([''w''], 0), hw_last_sent = Some (1, 0)\<rparr>, w) \<and> sh_mux (fst w) = Some m \<and>
     mx_manual m = \<lparr>mi_throttle = 1, mi_steering = 0\<rparr>"
proof -
  obtain m where "sh_mux (fst (shell_run 1 [] one_car handshake_run)) = Some m" "mx_mode m = MX_MANUAL_WASD"
    using handshake_manual by (auto simp: mode_is_def split: option.splits)
  then show ?thesis
    by (simp add: keyboard_run_def elsewhere_run keyboard_press shell_run_def [symmetric] set_manual_wire_def
        unit_clip_def del: hw_step.simps)
qed


end
