(* ===== verification/Evaluation.thy ===== *)
theory Evaluation
  imports Parking_Episode Allocator
begin

text \<open>
  The evaluation of the slot policies: \<open>_run_episode\<close> and \<open>evaluate_policy\<close> of
  \<open>integrated/host/rl/train_sb3.py\<close>, and \<open>compute_pareto_frontier\<close> of \<open>rl/plot_pareto.py\<close>.
  The random draws of an episode are given by a function of the step number: the raw draw of
  \<open>random.choice\<close>, the draw of the departure time and that of the next arrival. The trained model is
  the parameter it is for the allocator (\<open>policy option\<close>). The loop \<open>while True\<close> is a partial function.
\<close>

section \<open>One episode (\<open>_run_episode\<close>)\<close>

datatype policy_type = P_random | P_heuristic | P_heuristic_v2 | P_heuristic_v3 | P_heuristic_v4 | P_ppo

datatype eval_error = Model_required | Step_error env_error

record tally =
  t_total_reward :: real
  t_conflicts :: nat
  t_waits :: nat
  t_steps :: nat
  t_slots_assigned :: "string list"
  t_travel_times :: "real list"
  t_free_slot_sum :: real
  t_departure_count :: nat
  t_fast_fwd_count :: nat
  t_max_consec_wait :: nat

definition tally_new :: tally where
  "tally_new = \<lparr>t_total_reward = 0, t_conflicts = 0, t_waits = 0, t_steps = 0, t_slots_assigned = [],
     t_travel_times = [], t_free_slot_sum = 0, t_departure_count = 0, t_fast_fwd_count = 0, t_max_consec_wait = 0\<rparr>"

definition random_choice :: "nat \<Rightarrow> nat list \<Rightarrow> nat" where
  "random_choice r xs = xs ! (r mod length xs)"

definition pick_action ::
  "policy_type \<Rightarrow> policy option \<Rightarrow> nat \<Rightarrow> real list \<Rightarrow> bool list \<Rightarrow> penv \<Rightarrow> eval_error + int" where
  "pick_action ptype model r obs masks env = (case ptype of
       P_random \<Rightarrow> Inr (int (random_choice r (filter (\<lambda>i. masks ! i) [0..<length masks])))
     | P_heuristic \<Rightarrow> Inr (heuristic_policy masks)
     | P_heuristic_v2 \<Rightarrow> Inr (heuristic_policy_v2 masks env)
     | P_heuristic_v3 \<Rightarrow> Inr (heuristic_policy_v3 masks env)
     | P_heuristic_v4 \<Rightarrow> Inr (heuristic_policy_v4 masks env)
     | P_ppo \<Rightarrow> (case model of None \<Rightarrow> Inl Model_required | Some predict \<Rightarrow> Inr (predict obs masks)))"

definition travel_time :: "string \<Rightarrow> real" where
  "travel_time slot = real (length (the (map_of SLOT_ROUTES slot))) * NODE_TRAVEL_TIME"

definition count_step :: "real \<Rightarrow> step_info \<Rightarrow> tally \<Rightarrow> tally" where
  "count_step reward info t =
     (let t1 = t\<lparr>t_total_reward := t_total_reward t + reward, t_steps := t_steps t + 1,
                 t_free_slot_sum := t_free_slot_sum t + real (m_free_slot_count (i_metrics info))\<rparr>;
          t2 = (if i_wait info then
                  t1\<lparr>t_waits := t_waits t1 + 1,
                     t_max_consec_wait := (let cw = m_consecutive_waits (i_metrics info)
                       in if t_max_consec_wait t1 < cw then cw else t_max_consec_wait t1)\<rparr>
                else if i_conflict info then t1\<lparr>t_conflicts := t_conflicts t1 + 1\<rparr>
                else if i_reason info \<noteq> Some ''slot_already_taken'' then
                  (case i_slot info of
                     None \<Rightarrow> t1
                   | Some slot \<Rightarrow> t1\<lparr>t_slots_assigned := t_slots_assigned t1 @ [slot],
                                    t_travel_times := t_travel_times t1 @ [travel_time slot]\<rparr>)
                else t1)
      in t2\<lparr>t_departure_count := m_departure_count (i_metrics info),
            t_fast_fwd_count := m_fast_forward_count (i_metrics info)\<rparr>)"

type_synonym draws = "nat \<Rightarrow> nat \<times> real \<times> real"

partial_function (option) run_loop ::
  "env_config \<Rightarrow> policy_type \<Rightarrow> policy option \<Rightarrow> draws \<Rightarrow> penv \<Rightarrow> real list \<Rightarrow> tally
     \<Rightarrow> (eval_error + penv \<times> tally) option" where
  "run_loop cfg ptype model rnd env obs t =
     (let (env1, masks) = action_masks cfg env; (r, u_depart, u_iat) = rnd (t_steps t)
      in if \<not> list_ex id masks then Some (Inr (env1, t))
         else (case pick_action ptype model r obs masks env1 of
             Inl err \<Rightarrow> Some (Inl err)
           | Inr action \<Rightarrow>
               (case step cfg u_depart u_iat action env1 of
                  Inl err \<Rightarrow> Some (Inl (Step_error err))
                | Inr (env2, obs2, reward, terminated, truncated, info) \<Rightarrow>
                    (let t2 = count_step reward info t
                     in if terminated \<or> truncated then Some (Inr (env2, t2))
                        else run_loop cfg ptype model rnd env2 obs2 t2))))"

definition np_mean :: "real list \<Rightarrow> real" where
  "np_mean xs = sum_list xs / real (length xs)"

record episode_metrics =
  k_total_reward :: real
  k_conflicts :: nat
  k_waits :: nat
  k_wait_rate :: real
  k_max_consec_wait :: nat
  k_steps :: nat
  k_throughput :: nat
  k_avg_travel_time :: real
  k_efficiency :: real
  k_slot_reuse :: nat
  k_departure_count :: nat
  k_fast_fwd_count :: nat
  k_occ_utilization :: real
  k_slots_assigned :: "string list"
  k_fallback :: nat

definition episode_result :: "penv \<Rightarrow> tally \<Rightarrow> episode_metrics" where
  "episode_result env t =
     (let throughput = length (t_slots_assigned t); n = real (max (t_steps t) 1); avg_free = t_free_slot_sum t / n
      in \<lparr>k_total_reward = t_total_reward t, k_conflicts = t_conflicts t, k_waits = t_waits t,
          k_wait_rate = real (t_waits t) / n, k_max_consec_wait = t_max_consec_wait t, k_steps = t_steps t,
          k_throughput = throughput,
          k_avg_travel_time = (if t_travel_times t = [] then 0 else np_mean (t_travel_times t)),
          k_efficiency = real throughput / n, k_slot_reuse = throughput - 8,
          k_departure_count = t_departure_count t, k_fast_fwd_count = t_fast_fwd_count t,
          k_occ_utilization = 1 - avg_free / 8, k_slots_assigned = t_slots_assigned t,
          k_fallback = e_fallback_triggers env\<rparr>)"

definition run_episode ::
  "env_config \<Rightarrow> policy_type \<Rightarrow> policy option \<Rightarrow> real \<Rightarrow> (nat \<times> real) list \<Rightarrow> draws
     \<Rightarrow> (eval_error + episode_metrics) option" where
  "run_episode cfg ptype model u_iat chosen rnd =
     (let (env, obs) = reset u_iat chosen
      in map_option (map_sum id (\<lambda>(env', t). episode_result env' t)) (run_loop cfg ptype model rnd env obs tally_new))"

section \<open>What the loop counts\<close>

lemma filtered_index:
  assumes "filter P [0..<n] = x # xs" "y \<in> set (x # xs)" shows "y < n" "P y"
  using assms(2) unfolding assms(1) [symmetric] by auto

lemma masks_fallbacks:
  assumes "action_masks cfg e = (e', masks)" "env_inv e"
  shows "e_fallback_triggers e \<le> e_fallback_triggers e'"
  using assms ensure_free_slot_inv [OF assms(2)] by (auto simp: action_masks_def Let_def split: if_splits list.splits)

text \<open>A masked action is in range; WAIT is offered only below the limit of consecutive waits, and a slot
  only while it is free. Without a forced fallback it also passes the shield.\<close>

lemma masked_action:
  assumes m: "action_masks cfg e = (e', masks)" and inv: "env_inv e" and a: "allowed masks a"
  shows "0 \<le> a \<and> a \<le> 8 \<and> e_fallback_triggers e \<le> e_fallback_triggers e' \<and>
    (if nat a = WAIT_ACTION then e_consecutive_waits e' < max_consecutive_waits cfg
     else nat a < NUM_SLOTS \<and> \<not> e_taken e' ! nat a \<and>
       (quick_conflict_check e' (nat a) \<longrightarrow> e_fallback_triggers e < e_fallback_triggers e'))"
proof -
  have E: "e_fallback_triggers (ensure_free_slot e) = e_fallback_triggers e"
    using ensure_free_slot_inv [OF inv] by simp
  let ?e1 = "ensure_free_slot e" and ?plain = "slot_masks e @ [\<not> e_terminated e \<and> e_consecutive_waits e < max_consecutive_waits cfg]"
  consider (plain) "e' = e" "masks = ?plain"
    | (forward) "e' = ?e1" "masks = slot_masks ?e1 @ [False]"
    | (fallback) i "is" where "filter (\<lambda>i. \<not> e_taken e' ! i) [0..<NUM_SLOTS] = i # is"
        "masks = (slot_masks ?e1 @ [False])[arg_min_list1 entry_distance i is := True]"
        "e_fallback_triggers e' = e_fallback_triggers e + 1" "\<not> list_ex id (slot_masks ?e1)"
  proof (cases "list_ex id ?plain \<or> e_terminated e")
    case True
    then show ?thesis using m by (intro plain) (auto simp: action_masks_def Let_def)
  next
    case False
    then have no: "\<not> list_ex id (slot_masks e)" "\<not> e_terminated e" "\<not> e_consecutive_waits e < max_consecutive_waits cfg"
      by auto
    show ?thesis
    proof (cases "list_ex id (slot_masks ?e1)")
      case True
      then show ?thesis using m no by (intro forward) (auto simp: action_masks_def Let_def)
    next
      case False
      let ?e2 = "?e1\<lparr>e_fallback_triggers := e_fallback_triggers ?e1 + 1\<rparr>"
      have r: "action_masks cfg e = (case filter (\<lambda>i. \<not> e_taken ?e1 ! i) [0..<NUM_SLOTS] of [] \<Rightarrow> (?e2, slot_masks ?e1 @ [False])
          | i # is \<Rightarrow> (?e2, (slot_masks ?e1 @ [False])[arg_min_list1 entry_distance i is := True]))"
        using no False by (auto simp: action_masks_def Let_def split: list.split)
      show ?thesis
      proof (cases "filter (\<lambda>i. \<not> e_taken ?e1 ! i) [0..<NUM_SLOTS]")
        case Nil
        have "\<not> list_ex id masks" using r False m by (simp add: Nil)
        then show ?thesis using a nth_mem [of "nat a" masks] unfolding allowed_def list_ex_iff id_def by blast
      next
        case (Cons i js)
        then show ?thesis using r m False E by (intro fallback [of i js]) auto
      qed
    qed
  qed
  then show ?thesis
  proof cases
    case plain
    then show ?thesis using a by (auto simp: allowed_def nth_append slot_masks_nth WAIT_ACTION_def NUM_SLOTS_def)
  next
    case forward
    then show ?thesis using a E
      by (auto simp: allowed_def nth_append slot_masks_nth WAIT_ACTION_def NUM_SLOTS_def split: if_splits)
  next
    case fallback
    let ?k = "arg_min_list1 entry_distance i is"
    have "?k \<in> set (i # is)" by (rule arg_min_list1_in)
    then have k: "?k < NUM_SLOTS" "\<not> e_taken e' ! ?k" using filtered_index [OF fallback(1), of ?k] by simp_all
    have off: "\<not> (slot_masks (ensure_free_slot e) @ [False]) ! j" if "j < NUM_SLOTS + 1" for j
      using fallback(4) that by (auto simp: nth_append list_ex_length less_Suc_eq)
    have ka: "nat a = ?k"
    proof (rule ccontr)
      assume "nat a \<noteq> ?k"
      then have "masks ! nat a = (slot_masks ?e1 @ [False]) ! nat a" by (simp add: fallback(2))
      then show False using a off [of "nat a"] by (simp add: allowed_def fallback(2))
    qed
    then have "a = int ?k" using a unfolding allowed_def by (metis int_nat_eq)
    then show ?thesis using k a fallback(3) by (auto simp: WAIT_ACTION_def NUM_SLOTS_def allowed_def)
  qed
qed

lemma no_mask_full:
  assumes m: "action_masks cfg e = (e', masks)" and "\<not> list_ex id masks" "\<not> e_terminated e" "env_inv e"
  shows "list_all id (e_taken e')"
proof -
  have free: "filter (\<lambda>i. \<not> e_taken e' ! i) [0..<NUM_SLOTS] = []"
  proof (cases "filter (\<lambda>i. \<not> e_taken e' ! i) [0..<NUM_SLOTS]")
    case (Cons i js)
    have "arg_min_list1 entry_distance i js \<in> set (i # js)" by (rule arg_min_list1_in)
    then have "arg_min_list1 entry_distance i js < NUM_SLOTS"
      using filtered_index [OF Cons, of "arg_min_list1 entry_distance i js"] by simp
    then have "list_ex id ((slot_masks (ensure_free_slot e) @ [False])[arg_min_list1 entry_distance i js := True])"
      by (auto simp: list_ex_length nth_list_update intro: exI [of _ "arg_min_list1 entry_distance i js"])
    then show ?thesis using m assms(2,3) Cons
      by (simp add: action_masks_def Let_def split: if_split_asm list.splits; force)
  qed simp
  have "length (e_taken e') = NUM_SLOTS"
    using action_masks_inv [OF assms(4), of cfg] m by (simp add: env_inv_def lot_inv_def slots_ok_def)
  then show ?thesis using free by (auto simp: list_all_length filter_empty_conv)
qed
lemma slot_is_no_wait: "step_slot cfg u_depart u_iat i e = (e', obs, reward, te, tr, info) \<Longrightarrow> \<not> i_wait info"
  by (auto simp: step_slot_def finish_step_def Let_def split: if_splits prod.splits)

text \<open>What one step with a masked action reports.\<close>

lemma masked_step:
  assumes m: "action_masks cfg e0 = (e, masks)" and inv: "env_inv e0" and a: "allowed masks a"
    and alive: "\<not> e_terminated e0" and cfg: "config_ok cfg" and u: "draw u_depart" "draw u_iat"
  shows "\<exists>e' obs reward info. step cfg u_depart u_iat a e = Inr (e', obs, reward, e_terminated e', False, info) \<and>
    env_inv e' \<and> e_step_count e' = e_step_count e0 + 1 \<and> e_terminated e' = (MAX_STEPS \<le> e_step_count e0 + 1) \<and>
    e_fallback_triggers e' = e_fallback_triggers e \<and> e_fallback_triggers e0 \<le> e_fallback_triggers e \<and>
    (if i_wait info then m_consecutive_waits (i_metrics info) \<le> max_consecutive_waits cfg
     else i_reason info = None \<and> i_slot info \<noteq> None \<and>
       (i_conflict info \<longrightarrow> e_fallback_triggers e0 < e_fallback_triggers e))"
proof -
  have inv1: "env_inv e" and t1: "e_terminated e = e_terminated e0" "e_step_count e = e_step_count e0"
    using action_masks_inv [OF inv, of cfg] m by simp_all
  note A = masked_action [OF m inv a]
  obtain e' obs reward te tr info where s: "step cfg u_depart u_iat a e = Inr (e', obs, reward, te, tr, info)"
    using step_total [of e a cfg u_depart u_iat] A alive t1 by (metis surj_pair)
  note S = step_inv [OF inv1 cfg u s]
  have flags: "te = e_terminated e' \<and> \<not> tr \<and>
     (if i_wait info then m_consecutive_waits (i_metrics info) \<le> max_consecutive_waits cfg
      else i_reason info = None \<and> i_slot info \<noteq> None \<and> (i_conflict info \<longrightarrow> e_fallback_triggers e0 < e_fallback_triggers e))"
  proof (cases "nat a = WAIT_ACTION")
    case True
    then have w: "step_wait cfg e = (e', obs, reward, te, tr, info)" using s by (simp add: step_def split: if_splits)
    have "e_consecutive_waits e' = e_consecutive_waits e + 1" using step_wait_inv [OF inv1 cfg w] by blast
    then show ?thesis
      using w A True by (auto simp: step_wait_def finish_step_def Let_def build_info_metrics_def)
  next
    case False
    then have st: "step_slot cfg u_depart u_iat (nat a) e = (e', obs, reward, te, tr, info)"
      using s by (simp add: step_def split: if_splits)
    obtain r0 i0 where f: "finish_step (uniform ARRIVAL_MIN ARRIVAL_MAX u_iat) r0 i0 (chosen_state u_depart u_iat (nat a) e)
          = (e', obs, reward, te, tr, info)"
      and i0: "i_conflict i0 = (\<not> e_taken e ! nat a \<and> quick_conflict_check e (nat a))"
        "i_slot i0 = Some (SLOT_NAMES ! nat a)" "i_reason i0 = None \<longleftrightarrow> \<not> e_taken e ! nat a"
      using step_slot_eq [of cfg u_depart u_iat "nat a" e] st unfolding quick_conflict_check_def by metis
    have "\<not> i_wait info" by (rule slot_is_no_wait [OF st])
    then show ?thesis using f i0 A False by (auto simp: finish_step_def Let_def)
  qed
  show ?thesis using S A flags s t1 by auto
qed

text \<open>Every step is counted once: as a wait, as a conflict or as an assignment.\<close>

definition tally_ok :: "env_config \<Rightarrow> penv \<Rightarrow> tally \<Rightarrow> bool" where
  "tally_ok cfg env t \<longleftrightarrow> t_steps t = e_step_count env \<and>
     t_steps t = t_waits t + t_conflicts t + length (t_slots_assigned t) \<and>
     length (t_travel_times t) = length (t_slots_assigned t) \<and>
     t_conflicts t \<le> e_fallback_triggers env \<and> t_max_consec_wait t \<le> max_consecutive_waits cfg"

lemma count_step_ok:
  assumes "tally_ok cfg e0 t" "e_step_count e' = e_step_count e0 + 1"
    and "e_fallback_triggers e' = f" "e_fallback_triggers e0 \<le> f"
    and "if i_wait info then m_consecutive_waits (i_metrics info) \<le> max_consecutive_waits cfg
      else i_reason info = None \<and> i_slot info \<noteq> None \<and> (i_conflict info \<longrightarrow> e_fallback_triggers e0 < f)"
  shows "tally_ok cfg e' (count_step reward info t)"
  using assms by (auto simp: tally_ok_def count_step_def Let_def split: if_splits)

lemma pick_action_allowed:
  assumes "list_ex id masks" "length masks = NUM_SLOTS + 1" "mask_honouring model" "ptype = P_ppo \<longrightarrow> model \<noteq> None"
  shows "\<exists>a. pick_action ptype model r obs masks env = Inr a \<and> allowed masks a"
proof -
  have H: "allowed masks a"
    if "a \<in> {heuristic_policy masks, heuristic_policy_v2 masks env, heuristic_policy_v3 masks env, heuristic_policy_v4 masks env}" for a
    using heuristics_respect_mask [OF assms(2) that] assms(1) by blast
  let ?valid = "filter (\<lambda>i. masks ! i) [0..<length masks]"
  have "?valid \<noteq> []" using assms(1) by (auto simp: filter_empty_conv list_ex_length)
  then have "random_choice r ?valid \<in> set ?valid"
    unfolding random_choice_def by (intro nth_mem) simp
  then have "allowed masks (int (random_choice r ?valid))" by (simp add: allowed_def)
  then show ?thesis
    using H assms(1,3,4)
    by (auto simp: pick_action_def mask_honouring_def split: policy_type.splits option.splits)
qed

lemma length_action_masks: "action_masks cfg e = (e', masks) \<Longrightarrow> length masks = NUM_SLOTS + 1"
  by (auto simp: action_masks_def Let_def split: if_splits list.splits)

text \<open>The loop ends, and it ends either with the episode or with a lot that has no free slot.\<close>

lemma run_loop_ok:
  assumes "config_ok cfg" "mask_honouring model" "ptype = P_ppo \<longrightarrow> model \<noteq> None"
    and "\<And>k. draw (fst (snd (rnd k))) \<and> draw (snd (snd (rnd k)))"
    and "env_inv env" "\<not> e_terminated env" "e_step_count env < MAX_STEPS" "tally_ok cfg env t"
  shows "\<exists>env' t'. run_loop cfg ptype model rnd env obs t = Some (Inr (env', t')) \<and> tally_ok cfg env' t' \<and>
    t_steps t' \<le> MAX_STEPS \<and> (t_steps t' = MAX_STEPS \<or> list_all id (e_taken env'))"
  using assms(5-8)
proof (induction "MAX_STEPS - e_step_count env" arbitrary: env obs t rule: less_induct)
  case less
  obtain env1 masks where m: "action_masks cfg env = (env1, masks)" by fastforce
  obtain r ud ui where d: "rnd (t_steps t) = (r, ud, ui)" by (metis surj_pair)
  have u: "draw ud" "draw ui" using assms(4) [of "t_steps t"] d by simp_all
  have n: "e_step_count env1 = e_step_count env" "e_fallback_triggers env \<le> e_fallback_triggers env1"
    using action_masks_inv [OF less.prems(1), of cfg] masks_fallbacks [OF m less.prems(1)] m by simp_all
  show ?case
  proof (cases "list_ex id masks")
    case False
    have "tally_ok cfg env1 t" using less.prems(4) n by (simp add: tally_ok_def)
    then show ?thesis
      using False no_mask_full [OF m False less.prems(2,1)] less.prems(3)
      by (subst run_loop.simps) (simp add: m d tally_ok_def n)
  next
    case True
    obtain a where a: "pick_action ptype model r obs masks env1 = Inr a" "allowed masks a"
      using pick_action_allowed [OF True length_action_masks [OF m] assms(2,3)] by blast
    obtain e' obs' reward info where s: "step cfg ud ui a env1 = Inr (e', obs', reward, e_terminated e', False, info)"
      and e': "env_inv e'" "e_step_count e' = e_step_count env + 1" "e_terminated e' = (MAX_STEPS \<le> e_step_count env + 1)"
        "e_fallback_triggers e' = e_fallback_triggers env1" "e_fallback_triggers env \<le> e_fallback_triggers env1"
        "if i_wait info then m_consecutive_waits (i_metrics info) \<le> max_consecutive_waits cfg
         else i_reason info = None \<and> i_slot info \<noteq> None \<and> (i_conflict info \<longrightarrow> e_fallback_triggers env < e_fallback_triggers env1)"
      using masked_step [OF m less.prems(1) a(2) less.prems(2) assms(1) u] by blast
    have ok: "tally_ok cfg e' (count_step reward info t)"
      by (rule count_step_ok [OF less.prems(4) e'(2,4,5,6)])
    have unfold: "run_loop cfg ptype model rnd env obs t =
        (if e_terminated e' then Some (Inr (e', count_step reward info t))
         else run_loop cfg ptype model rnd e' obs' (count_step reward info t))"
      by (subst run_loop.simps) (simp add: m d True a s)
    show ?thesis
    proof (cases "e_terminated e'")
      case True
      then show ?thesis using ok e'(2,3) less.prems(3) unfold by (auto simp: tally_ok_def)
    next
      case False
      then show ?thesis using less.hyps [of e' "count_step reward info t" obs'] e'(1-3) ok unfold by simp
    qed
  qed
qed

section \<open>Averages and slot distribution (\<open>evaluate_policy\<close>)\<close>

text \<open>\<open>slot_counts[s] += 1\<close> on a \<open>defaultdict(int)\<close>, in insertion order.\<close>

fun count_slot :: "(string \<times> nat) list \<Rightarrow> string \<Rightarrow> (string \<times> nat) list" where
  "count_slot [] s = [(s, 1)]"
| "count_slot ((k, n) # rest) s = (if k = s then (k, n + 1) # rest else (k, n) # count_slot rest s)"

definition np_std :: "real list \<Rightarrow> real" where
  "np_std xs = sqrt (np_mean (map (\<lambda>x. (x - np_mean xs)\<^sup>2) xs))"

record policy_metrics =
  avg_reward :: real
  std_reward :: real
  avg_conflicts :: real
  avg_waits :: real
  avg_wait_rate :: real
  avg_max_consec :: real
  avg_throughput :: real
  avg_travel_time :: real
  avg_efficiency :: real
  avg_slot_reuse :: real
  avg_departures :: real
  avg_fast_fwd :: real
  avg_occ_util :: real
  avg_fallbacks :: real
  slot_distribution :: "(string \<times> nat) list"
  raw_rewards :: "real list"
  raw_conflicts :: "nat list"
  raw_waits :: "nat list"
  raw_fallbacks :: "nat list"
  raw_departures :: "nat list"
  raw_throughputs :: "nat list"

definition aggregate :: "episode_metrics list \<Rightarrow> policy_metrics" where
  "aggregate ms =
     (let mean = (\<lambda>f. np_mean (map f ms))
      in \<lparr>avg_reward = mean k_total_reward, std_reward = np_std (map k_total_reward ms),
          avg_conflicts = mean (\<lambda>m. real (k_conflicts m)), avg_waits = mean (\<lambda>m. real (k_waits m)),
          avg_wait_rate = mean k_wait_rate, avg_max_consec = mean (\<lambda>m. real (k_max_consec_wait m)),
          avg_throughput = mean (\<lambda>m. real (k_throughput m)), avg_travel_time = mean k_avg_travel_time,
          avg_efficiency = mean k_efficiency, avg_slot_reuse = mean (\<lambda>m. real (k_slot_reuse m)),
          avg_departures = mean (\<lambda>m. real (k_departure_count m)), avg_fast_fwd = mean (\<lambda>m. real (k_fast_fwd_count m)),
          avg_occ_util = mean k_occ_utilization, avg_fallbacks = mean (\<lambda>m. real (k_fallback m)),
          slot_distribution = foldl count_slot [] (concat (map k_slots_assigned ms)),
          raw_rewards = map k_total_reward ms, raw_conflicts = map k_conflicts ms, raw_waits = map k_waits ms,
          raw_fallbacks = map k_fallback ms, raw_departures = map k_departure_count ms,
          raw_throughputs = map k_throughput ms\<rparr>)"

text \<open>The episodes one after the other, each with its reset draws and its own stream; an exception of one
  of them ends the evaluation.\<close>

fun run_episodes ::
  "env_config \<Rightarrow> policy_type \<Rightarrow> policy option \<Rightarrow> (real \<times> (nat \<times> real) list \<times> draws) list
     \<Rightarrow> (eval_error + episode_metrics list) option" where
  "run_episodes cfg ptype model [] = Some (Inr [])"
| "run_episodes cfg ptype model ((u_iat, chosen, rnd) # eps) =
     (case run_episode cfg ptype model u_iat chosen rnd of
        None \<Rightarrow> None
      | Some (Inl err) \<Rightarrow> Some (Inl err)
      | Some (Inr m) \<Rightarrow> map_option (map_sum id (\<lambda>ms. m # ms)) (run_episodes cfg ptype model eps))"

definition evaluate_policy ::
  "env_config \<Rightarrow> policy_type \<Rightarrow> policy option \<Rightarrow> (real \<times> (nat \<times> real) list \<times> draws) list
     \<Rightarrow> (eval_error + policy_metrics) option" where
  "evaluate_policy cfg ptype model eps = map_option (map_sum id aggregate) (run_episodes cfg ptype model eps)"

lemma count_slot_total: "sum_list (map snd (count_slot counts s)) = sum_list (map snd counts) + 1"
  by (induction counts s rule: count_slot.induct) auto

lemma count_slots_total: "sum_list (map snd (foldl count_slot counts ss)) = sum_list (map snd counts) + length ss"
  by (induction ss arbitrary: counts) (simp_all add: count_slot_total)

lemma np_mean_add: "np_mean (map f ms) + np_mean (map g ms) = np_mean (map (\<lambda>m. f m + g m) ms)"
  by (simp add: np_mean_def sum_list_addf add_divide_distrib)

lemma np_mean_le: "ms \<noteq> [] \<Longrightarrow> (\<And>m. m \<in> set ms \<Longrightarrow> f m \<le> b) \<Longrightarrow> np_mean (map f ms) \<le> b"
proof -
  assume ne: "ms \<noteq> []" and b: "\<And>m. m \<in> set ms \<Longrightarrow> f m \<le> b"
  have "sum_list (map f ms) \<le> real (length ms) * b"
    using sum_list_mono [of ms f "\<lambda>_. b"] b by (simp add: sum_list_triv)
  then show ?thesis using ne by (simp add: np_mean_def divide_simps mult.commute)
qed

text \<open>Draws the generator can give to an episode.\<close>

definition good_draws :: "real \<times> (nat \<times> real) list \<times> draws \<Rightarrow> bool" where
  "good_draws = (\<lambda>(u_iat, chosen, rnd). reset_ok u_iat chosen \<and> (\<forall>k. draw (fst (snd (rnd k))) \<and> draw (snd (snd (rnd k)))))"

definition counted :: "env_config \<Rightarrow> episode_metrics \<Rightarrow> bool" where
  "counted cfg m \<longleftrightarrow> k_steps m = k_waits m + k_conflicts m + k_throughput m \<and> k_steps m \<le> 64 \<and>
     k_conflicts m \<le> k_fallback m \<and> k_max_consec_wait m \<le> max_consecutive_waits cfg \<and>
     k_throughput m = length (k_slots_assigned m)"

lemma run_episode_counted:
  assumes "good_draws (u_iat, chosen, rnd)" "config_ok cfg" "mask_honouring model" "ptype = P_ppo \<longrightarrow> model \<noteq> None"
  shows "\<exists>m. run_episode cfg ptype model u_iat chosen rnd = Some (Inr m) \<and> counted cfg m"
proof -
  have ro: "reset_ok u_iat chosen" using assms(1) by (simp add: good_draws_def)
  obtain e obs where r: "reset u_iat chosen = (e, obs)" by fastforce
  have e: "env_inv e" "e_step_count e = 0" "\<not> e_terminated e" using reset_inv [OF ro] by (simp_all add: r)
  have d: "draw (fst (snd (rnd k))) \<and> draw (snd (snd (rnd k)))" for k using assms(1) by (simp add: good_draws_def)
  have "tally_ok cfg e tally_new" using e by (simp add: tally_ok_def tally_new_def)
  then obtain e' t where L: "run_loop cfg ptype model rnd e obs tally_new = Some (Inr (e', t))" "tally_ok cfg e' t" "t_steps t \<le> MAX_STEPS"
    using run_loop_ok [OF assms(2-4) d e(1,3)] e(2) by (force simp: MAX_STEPS_def)
  show ?thesis
    by (rule exI [of _ "episode_result e' t"])
      (use L in \<open>simp add: counted_def run_episode_def r episode_result_def Let_def tally_ok_def MAX_STEPS_def\<close>)
qed

text \<open>C35: an evaluation episode is fully accounted for. With any of the policies and any draws,
  \<open>_run_episode\<close> returns; every step it made is counted exactly once, as a wait, as a conflict or as an
  assignment; it makes at most 64 steps; no conflict happens that a forced fallback mask did not cause; and
  no policy waits longer in a row than the environment allows.\<close>

theorem episode_fully_counted:
  assumes "good_draws (u_iat, chosen, rnd)" "config_ok cfg" "mask_honouring model" "ptype = P_ppo \<longrightarrow> model \<noteq> None"
  shows "\<exists>m. run_episode cfg ptype model u_iat chosen rnd = Some (Inr m) \<and>
    k_steps m = k_waits m + k_conflicts m + k_throughput m \<and> k_steps m \<le> 64 \<and>
    k_conflicts m \<le> k_fallback m \<and> k_max_consec_wait m \<le> max_consecutive_waits cfg \<and>
    k_throughput m = length (k_slots_assigned m)"
  using run_episode_counted [OF assms] unfolding counted_def by blast

lemma episode_fully_counted_witness:
  "\<exists>m. run_episode env_config_default P_heuristic_v3 None 0 [(0, 0), (5, 1 / 2)] (\<lambda>k. (k, 0, 1 / 2)) = Some (Inr m) \<and>
    k_steps m = k_waits m + k_conflicts m + k_throughput m \<and> k_steps m \<le> 64 \<and> k_conflicts m \<le> k_fallback m"
  using episode_fully_counted [of 0 "[(0, 0), (5, 1 / 2)]" "\<lambda>k. (k, 0, 1 / 2)" env_config_default None P_heuristic_v3]
    sample_run by (auto simp: mask_honouring_def draw_def good_draws_def)

lemma run_episodes_counted:
  assumes "list_all good_draws eps" "config_ok cfg" "mask_honouring model" "ptype = P_ppo \<longrightarrow> model \<noteq> None"
  shows "\<exists>ms. run_episodes cfg ptype model eps = Some (Inr ms) \<and> length ms = length eps \<and> list_all (counted cfg) ms"
  using assms(1)
proof (induction eps)
  case (Cons ep eps)
  obtain u chosen rnd where ep: "ep = (u, chosen, rnd)" by (metis surj_pair)
  obtain m where m: "run_episode cfg ptype model u chosen rnd = Some (Inr m)" "counted cfg m"
    using run_episode_counted [OF _ assms(2-4), of u chosen rnd] Cons.prems ep by auto
  obtain ms where "run_episodes cfg ptype model eps = Some (Inr ms)" "length ms = length eps" "list_all (counted cfg) ms"
    using Cons by auto
  then show ?case using m by (simp add: ep)
qed simp

text \<open>The figures of an evaluation add up. Over any number of episodes the average numbers of waits,
  conflicts and assignments sum to at most 64, the length of an episode, the conflicts stay below the forced fallbacks,, and the slot distribution counts exactly the
  assignments of all episodes.\<close>

theorem averages_add_up:
  assumes "list_all good_draws eps" "eps \<noteq> []" "config_ok cfg" "mask_honouring model" "ptype = P_ppo \<longrightarrow> model \<noteq> None"
  shows "\<exists>p. evaluate_policy cfg ptype model eps = Some (Inr p) \<and>
    avg_waits p + avg_conflicts p + avg_throughput p \<le> 64 \<and> avg_conflicts p \<le> avg_fallbacks p \<and>
    sum_list (map snd (slot_distribution p)) = sum_list (raw_throughputs p) \<and> length (raw_rewards p) = length eps"
proof -
  obtain ms where ms: "run_episodes cfg ptype model eps = Some (Inr ms)" "length ms = length eps" "list_all (counted cfg) ms"
    using run_episodes_counted [OF assms(1,3,4,5)] by blast
  have ne: "ms \<noteq> []" using ms(2) assms(2) by auto
  have "np_mean (map (\<lambda>m. real (k_waits m) + real (k_conflicts m) + real (k_throughput m)) ms) \<le> 64"
    by (rule np_mean_le [OF ne]) (use ms(3) in \<open>force simp: list_all_iff counted_def\<close>)
  moreover have "np_mean (map (\<lambda>m. real (k_conflicts m)) ms) \<le> np_mean (map (\<lambda>m. real (k_fallback m)) ms)"
    unfolding np_mean_def length_map
    by (intro divide_right_mono sum_list_mono) (use ms(3) in \<open>auto simp: list_all_iff counted_def\<close>)
  moreover have "length (concat (map k_slots_assigned ms)) = sum_list (map k_throughput ms)"
    using ms(3) by (induction ms) (auto simp: counted_def)
  ultimately show ?thesis
    using ms(1,2) by (simp add: evaluate_policy_def aggregate_def Let_def np_mean_add count_slots_total)
qed

lemma averages_add_up_witness:
  "\<exists>p. evaluate_policy env_config_default P_random None [(0, [(0, 0), (5, 1 / 2)], \<lambda>k. (k, 0, 1 / 2)), (1 / 2, [], \<lambda>k. (2 * k, 1 / 3, 0))]
      = Some (Inr p) \<and> avg_waits p + avg_conflicts p + avg_throughput p \<le> 64 \<and> length (raw_rewards p) = 2"
  using averages_add_up [of "[(0, [(0, 0), (5, 1 / 2)], \<lambda>k. (k, 0, 1 / 2)), (1 / 2, [], \<lambda>k. (2 * k, 1 / 3, 0))]"
      env_config_default None P_random]
    sample_run by (auto simp: mask_honouring_def draw_def good_draws_def reset_ok_def)

section \<open>Stability checks (\<open>_check_stability\<close>)\<close>

text \<open>The issues of one policy, in the order they are printed. Rewards are reals here, so the check for
  NaN and infinite rewards never fires.\<close>

datatype stability_issue = Policy_collapse | Low_action_entropy | High_fallback_rate | No_departures
  | Wait_collapse | Wait_limit_hit

definition action_entropy :: "(string \<times> nat) list \<Rightarrow> real" where
  "action_entropy counts =
     (let total = (let s = sum_list (map snd counts) in if s = 0 then 1 else s);
          probs = map (\<lambda>(k, v). real v / real total) counts
      in - sum_list (map (\<lambda>p. p * ln (p + 1 / 10 ^ 9)) probs))"

definition check_stability :: "policy_metrics \<Rightarrow> stability_issue list" where
  "check_stability r =
     (let reward_std = np_std (raw_rewards r);
          entropy_pct = action_entropy (slot_distribution r) / ln 8 * 100;
          avg_fb = np_mean (map real (raw_fallbacks r));
          avg_wait = np_mean (map real (raw_waits r));
          avg_dep = np_mean (map real (raw_departures r));
          avg_mc = avg_max_consec r
      in (if reward_std < 1 / 1000 then [Policy_collapse] else []) @
         (if entropy_pct < 30 then [Low_action_entropy] else []) @
         (if 4 < avg_fb then [High_fallback_rate] else []) @
         (if avg_dep < 1 then [No_departures] else []) @
         (if real MAX_STEPS * (3 / 10) < avg_wait then [Wait_collapse] else []) @
         (if real MAX_CONSECUTIVE_WAITS \<le> avg_mc then [Wait_limit_hit] else []))"

lemma mean_at_bound:
  assumes "ms \<noteq> []" "\<And>m. m \<in> set ms \<Longrightarrow> f m \<le> b"
  shows "b \<le> np_mean (map f ms) \<longleftrightarrow> (\<forall>m \<in> set ms. f m = b)"
proof -
  have "b \<le> np_mean (map f ms) \<longleftrightarrow> sum_list (map (\<lambda>m. b - f m) ms) \<le> 0"
    using assms(1) by (simp add: np_mean_def divide_simps sum_list_subtractf sum_list_triv mult.commute)
  also have "\<dots> \<longleftrightarrow> sum_list (map (\<lambda>m. b - f m) ms) = 0"
    using sum_list_nonneg [of "map (\<lambda>m. b - f m) ms"] assms(2) by fastforce
  also have "\<dots> \<longleftrightarrow> (\<forall>m \<in> set ms. f m = b)"
    using assms(2) by (subst sum_list_nonneg_eq_0_iff) (auto simp: algebra_simps)
  finally show ?thesis .
qed

text \<open>The warning that the limit of consecutive waits was hit speaks of the average of the episodes'
  maxima: under the default limit it is raised exactly when every single episode hit the limit.\<close>

lemma wait_limit_needs_all_episodes:
  assumes "ms \<noteq> []" "list_all (counted env_config_default) ms"
  shows "Wait_limit_hit \<in> set (check_stability (aggregate ms)) \<longleftrightarrow>
    (\<forall>m \<in> set ms. k_max_consec_wait m = MAX_CONSECUTIVE_WAITS)"
proof -
  have "real (k_max_consec_wait m) \<le> real MAX_CONSECUTIVE_WAITS" if "m \<in> set ms" for m
    using assms(2) that by (simp add: list_all_iff counted_def env_config_default_def)
  note mean_at_bound [OF assms(1) this]
  moreover have "Wait_limit_hit \<in> set (check_stability (aggregate ms)) \<longleftrightarrow>
      real MAX_CONSECUTIVE_WAITS \<le> np_mean (map (\<lambda>m. real (k_max_consec_wait m)) ms)"
    by (simp add: check_stability_def Let_def aggregate_def)
  ultimately show ?thesis by simp
qed

section \<open>The Pareto frontier (\<open>plot_pareto.py\<close>)\<close>

type_synonym point = "real \<times> real \<times> string"

definition beats :: "point \<Rightarrow> point \<Rightarrow> bool" where
  "beats = (\<lambda>(x2, y2, n2) (x, y, n). x2 \<le> x \<and> y2 \<ge> y \<and> (x2 < x \<or> y2 > y))"

definition dominated :: "point list \<Rightarrow> nat \<Rightarrow> bool" where
  "dominated points i = list_ex (\<lambda>j. i \<noteq> j \<and> beats (points ! j) (points ! i)) [0..<length points]"

text \<open>The surviving points in their order, then \<open>frontier.sort(key=x)\<close>, which is stable.\<close>

definition compute_pareto_frontier :: "point list \<Rightarrow> point list" where
  "compute_pareto_frontier points =
     sort_key fst (map (\<lambda>i. points ! i) (filter (\<lambda>i. \<not> dominated points i) [0..<length points]))"

text \<open>The reference notion: the order of the objectives, fewer conflicts and more throughput being
  better. The frontier consists of the maximal points of this order.\<close>

datatype objective = Objective (conflicts: real) (throughput: real)

instantiation objective :: order
begin

definition less_eq_objective :: "objective \<Rightarrow> objective \<Rightarrow> bool" where
  "p \<le> q \<longleftrightarrow> conflicts q \<le> conflicts p \<and> throughput p \<le> throughput q"

definition less_objective :: "objective \<Rightarrow> objective \<Rightarrow> bool" where
  "p < q \<longleftrightarrow> p \<le> q \<and> \<not> q \<le> (p :: objective)"

instance
proof (standard, goal_cases)
  case 1 show ?case by (simp add: less_objective_def)
next
  case 2 show ?case by (simp add: less_eq_objective_def)
next
  case 3 then show ?case by (auto simp: less_eq_objective_def)
next
  case 4 then show ?case by (auto simp: less_eq_objective_def objective.expand)
qed

end

definition goals :: "point \<Rightarrow> objective" where
  "goals = (\<lambda>(x, y, n). Objective x y)"

lemma beats_iff: "beats q p \<longleftrightarrow> goals p < goals q"
  by (auto simp: beats_def goals_def less_objective_def less_eq_objective_def split: prod.splits)

lemma set_frontier: "set (compute_pareto_frontier points) = {p \<in> set points. \<forall>q \<in> set points. \<not> goals p < goals q}"
proof -
  have D: "dominated points i \<longleftrightarrow> (\<exists>q \<in> set points. goals (points ! i) < goals q)" if "i < length points" for i
  proof -
    have "(\<exists>q \<in> set points. goals (points ! i) < goals q) \<longleftrightarrow> (\<exists>j < length points. goals (points ! i) < goals (points ! j))"
      by (metis in_set_conv_nth)
    also have "\<dots> \<longleftrightarrow> dominated points i"
      unfolding dominated_def list_ex_iff beats_iff by (auto simp: Bex_def)
    finally show ?thesis by simp
  qed
  have "set (compute_pareto_frontier points) = (\<lambda>i. points ! i) ` {i. i < length points \<and> \<not> dominated points i}"
    by (auto simp: compute_pareto_frontier_def)
  also have "\<dots> = {p \<in> set points. \<not> (\<exists>q \<in> set points. goals p < goals q)}"
    by (simp add: set_conv_nth D image_def cong: conj_cong) (metis (no_types, opaque_lifting) in_set_conv_nth)
  finally show ?thesis by blast
qed

text \<open>C37: the Pareto frontier is exact. It holds precisely the points that no other point beats; every
  point of the input is matched or beaten by a point of the frontier; and along the frontier, sorted by
  conflicts, throughput rises with them.\<close>

theorem pareto_frontier_exact:
  "set (compute_pareto_frontier points) = {p \<in> set points. \<forall>q \<in> set points. \<not> beats q p} \<and>
   (\<forall>p \<in> set points. \<exists>q \<in> set (compute_pareto_frontier points). goals p \<le> goals q) \<and>
   sorted_wrt (\<lambda>(x, y, n) (x', y', n'). x < x' \<and> y < y' \<or> x = x' \<and> y = y') (compute_pareto_frontier points)"
proof (intro conjI ballI)
  show "set (compute_pareto_frontier points) = {p \<in> set points. \<forall>q \<in> set points. \<not> beats q p}"
    by (simp add: set_frontier beats_iff)
next
  fix p assume "p \<in> set points"
  then obtain m where m: "m \<in> goals ` set points" "goals p \<le> m" "\<forall>b \<in> goals ` set points. m \<le> b \<longrightarrow> m = b"
    using finite_has_maximal2 [of "goals ` set points" "goals p"] by auto
  then show "\<exists>q \<in> set (compute_pareto_frontier points). goals p \<le> goals q"
    unfolding set_frontier by fastforce
next
  have "sorted_wrt (\<lambda>p q. fst p \<le> fst q) (compute_pareto_frontier points)"
    using sorted_sort_key [of fst] unfolding compute_pareto_frontier_def sorted_map by blast
  then show "sorted_wrt (\<lambda>(x, y, n) (x', y', n'). x < x' \<and> y < y' \<or> x = x' \<and> y = y') (compute_pareto_frontier points)"
  proof (rule sorted_wrt_mono_rel [rotated])
    fix p q assume "p \<in> set (compute_pareto_frontier points)" "q \<in> set (compute_pareto_frontier points)" "fst p \<le> fst q"
    then have "\<not> goals p < goals q" "\<not> goals q < goals p" by (simp_all add: set_frontier)
    then show "(case p of (x, y, n) \<Rightarrow> (\<lambda>(x', y', n'). x < x' \<and> y < y' \<or> x = x' \<and> y = y')) q"
      using \<open>fst p \<le> fst q\<close>
      by (cases p; cases q) (auto simp: goals_def less_objective_def less_eq_objective_def)
  qed
qed

lemma pareto_frontier_exact_witness:
  "list_ex (\<lambda>q. goals (2, 7, ''v3'') \<le> goals q)
     (compute_pareto_frontier [(3, 10, ''v1''), (1, 8, ''v2''), (2, 7, ''v3''), (3, 10, ''v4'')])"
  unfolding list_ex_iff
  by (rule bspec [OF pareto_frontier_exact [THEN conjunct2, THEN conjunct1]]) simp

lemma frontier_example:
  "compute_pareto_frontier [(3, 10, ''v1''), (1, 8, ''v2''), (2, 7, ''v3''), (3, 10, ''v4'')] =
     [(1, 8, ''v2''), (3, 10, ''v1''), (3, 10, ''v4'')]"
  by (simp add: compute_pareto_frontier_def dominated_def beats_def upt_rec)

section \<open>The knee point of a sweep (\<open>sweep_wait_penalty.py\<close>)\<close>

text \<open>\<open>np.argmax\<close>: the first maximum. The rows are (penalty, conflicts, throughput) in the order of the
  sweep; \<open>max\<close> and \<open>min\<close> of an empty array raise. \<open>Inr None\<close> is the message of insufficient variation.\<close>

datatype knee_error = Empty_sweep

definition knee_score :: "(real \<times> real \<times> real) list \<Rightarrow> real \<times> real \<times> real \<Rightarrow> real" where
  "knee_score rows = (\<lambda>(pen, conf, thp).
     let confs = set (map (fst \<circ> snd) rows); thps = set (map (snd \<circ> snd) rows);
         n_conf = (conf - Min confs) / (Max confs - Min confs);
         n_thp = (thp - Min thps) / (Max thps - Min thps)
     in n_thp - n_conf)"

definition knee_point :: "(real \<times> real \<times> real) list \<Rightarrow> knee_error + (real \<times> real \<times> real) option" where
  "knee_point rows =
     (if rows = [] then Inl Empty_sweep
      else
        let confs = set (map (fst \<circ> snd) rows); thps = set (map (snd \<circ> snd) rows)
        in if Min confs < Max confs \<and> Min thps < Max thps
           then Inr (Some (rows ! arg_min_list1 (\<lambda>i. - knee_score rows (rows ! i)) 0 [1..<length rows]))
           else Inr None)"

text \<open>The recommended penalty is a Pareto-optimal one.\<close>

lemma knee_point_optimal:
  assumes "knee_point rows = Inr (Some (pen, conf, thp))"
  shows "(pen, conf, thp) \<in> set rows" "(pen', conf', thp') \<in> set rows \<Longrightarrow> \<not> beats (conf', thp', n') (conf, thp, n)"
proof -
  define confs where "confs = set (map (fst \<circ> snd) rows)"
  define thps where "thps = set (map (snd \<circ> snd) rows)"
  define best where "best = arg_min_list1 (\<lambda>i. - knee_score rows (rows ! i)) 0 [1..<length rows]"
  have ne: "rows \<noteq> []" and var: "Min confs < Max confs" "Min thps < Max thps" and r: "rows ! best = (pen, conf, thp)"
    using assms by (auto simp: knee_point_def Let_def confs_def thps_def best_def split: if_splits)
  have "best \<in> set (0 # [1..<length rows])" unfolding best_def by (rule arg_min_list1_in)
  then have b: "best < length rows" using ne by auto
  then show "(pen, conf, thp) \<in> set rows" using r nth_mem [OF b] by simp
  assume "(pen', conf', thp') \<in> set rows"
  then obtain j where j: "j < length rows" "rows ! j = (pen', conf', thp')" by (auto simp: in_set_conv_nth)
  then have "j \<in> set (0 # [1..<length rows])" by auto
  then have "- knee_score rows (rows ! best) \<le> - knee_score rows (rows ! j)"
    unfolding best_def by (rule arg_min_list1_le)
  then have le: "(thp' - Min thps) / (Max thps - Min thps) - (conf' - Min confs) / (Max confs - Min confs) \<le>
      (thp - Min thps) / (Max thps - Min thps) - (conf - Min confs) / (Max confs - Min confs)"
    by (simp add: knee_score_def r j(2) confs_def thps_def Let_def)
  show "\<not> beats (conf', thp', n') (conf, thp, n)"
  proof
    assume "beats (conf', thp', n') (conf, thp, n)"
    then have B: "conf' \<le> conf" "thp \<le> thp'" "conf' < conf \<or> thp < thp'" by (auto simp: beats_def)
    have "(conf' - Min confs) / (Max confs - Min confs) \<le> (conf - Min confs) / (Max confs - Min confs)"
      "(thp - Min thps) / (Max thps - Min thps) \<le> (thp' - Min thps) / (Max thps - Min thps)"
      using B(1,2) var by (simp_all add: divide_right_mono)
    moreover have "(conf' - Min confs) / (Max confs - Min confs) < (conf - Min confs) / (Max confs - Min confs) \<or>
      (thp - Min thps) / (Max thps - Min thps) < (thp' - Min thps) / (Max thps - Min thps)"
      using B(3) var by (auto simp: divide_strict_right_mono)
    ultimately show False using le by linarith
  qed
qed

end
