(* ===== verification/Replay.thy ===== *)
theory Replay
  imports Evaluation
begin

text \<open>
  The recording and replay of an episode, \<open>record_episode\<close>, \<open>_vehicle_pos_at\<close> and \<open>_t_max\<close> of
  \<open>integrated/host/rl/visualize.py\<close>. A recording runs the same loop as the evaluation and writes down the
  visits of every vehicle; the colours of the drawing are left out. The node coordinates are those of the map.
\<close>

section \<open>Recording\<close>

record event =
  ev_step :: nat
  ev_slot :: "string option"
  ev_arrive :: real
  ev_iat :: real
  ev_reward :: real
  ev_conflict :: bool
  ev_taken :: bool
  ev_wait :: bool

text \<open>\<open>vr_reward\<close> is absent in the record of an exiting vehicle.\<close>

record vehicle_record =
  vr_id :: int
  vr_slot :: string
  vr_route :: "string list"
  vr_intervals :: "(real \<times> real) list"
  vr_timed :: "(string \<times> real \<times> real) list"
  vr_enter_time :: real
  vr_reward :: "real option"

record trajectory =
  tr_events :: "event list"
  tr_vehicles :: "vehicle_record list"
  tr_exiting :: "vehicle_record list"
  tr_conflicts :: "vehicle_record list"
  tr_reservations :: "string \<Rightarrow> (real \<times> real \<times> string \<times> bool \<times> res_kind) list"

definition trajectory_new :: trajectory where
  "trajectory_new = \<lparr>tr_events = [], tr_vehicles = [], tr_exiting = [], tr_conflicts = [], tr_reservations = (\<lambda>_. [])\<rparr>"

text \<open>The choice of the action: every policy but the first two needs the model here.\<close>

definition pick_recorded :: "policy_type \<Rightarrow> policy option \<Rightarrow> nat \<Rightarrow> real list \<Rightarrow> bool list \<Rightarrow> eval_error + int" where
  "pick_recorded ptype model r obs masks = (case ptype of
       P_random \<Rightarrow> Inr (int (random_choice r (filter (\<lambda>i. masks ! i) [0..<length masks])))
     | P_heuristic \<Rightarrow> Inr (heuristic_policy masks)
     | _ \<Rightarrow> (case model of None \<Rightarrow> Inl Model_required | Some predict \<Rightarrow> Inr (predict obs masks)))"

text \<open>The loop over the nodes of the route: visits, intervals and the entries of the timeline.\<close>

fun time_route :: "string list \<Rightarrow> real \<Rightarrow> (string \<times> real \<times> real) list" where
  "time_route [] t = []"
| "time_route (node # route) t = (node, t, t + NODE_TRAVEL_TIME) # time_route route (t + NODE_TRAVEL_TIME)"

fun add_visits ::
  "(string \<times> real \<times> real) list \<Rightarrow> string \<Rightarrow> bool \<Rightarrow> res_kind \<Rightarrow> trajectory \<Rightarrow> trajectory" where
  "add_visits [] slot conflict kind tr = tr"
| "add_visits ((node, ts, te) # visits) slot conflict kind tr =
     add_visits visits slot conflict kind
       (tr\<lparr>tr_reservations := (tr_reservations tr)(node := tr_reservations tr node @ [(ts, te, slot, conflict, kind)])\<rparr>)"

definition record_step :: "real \<Rightarrow> penv \<Rightarrow> real \<Rightarrow> step_info \<Rightarrow> trajectory \<Rightarrow> trajectory" where
  "record_step t_arrive env reward info tr =
     (let is_taken = (i_reason info = Some ''slot_already_taken'');
          tr1 = tr\<lparr>tr_events := tr_events tr @ [\<lparr>ev_step = i_step info, ev_slot = i_slot info, ev_arrive = t_arrive,
            ev_iat = e_time env - t_arrive, ev_reward = reward, ev_conflict = i_conflict info,
            ev_taken = is_taken, ev_wait = i_wait info\<rparr>]\<rparr>
      in (case (if i_wait info then None else i_slot info) of
            None \<Rightarrow> tr1
          | Some slot \<Rightarrow>
              (let route = the (map_of SLOT_ROUTES slot); timed = time_route route t_arrive;
                   tr2 = add_visits timed slot (i_conflict info) R_entering tr1;
                   rec = \<lparr>vr_id = e_vehicle_id_counter env, vr_slot = slot, vr_route = route,
                     vr_intervals = map snd timed, vr_timed = timed, vr_enter_time = t_arrive, vr_reward = Some reward\<rparr>
               in if i_conflict info then tr2\<lparr>tr_conflicts := tr_conflicts tr2 @ [rec]\<rparr>
                  else if \<not> is_taken then tr2\<lparr>tr_vehicles := tr_vehicles tr2 @ [rec]\<rparr>
                  else tr2)))"

partial_function (option) record_loop ::
  "policy_type \<Rightarrow> policy option \<Rightarrow> draws \<Rightarrow> penv \<Rightarrow> real list \<Rightarrow> trajectory
     \<Rightarrow> (eval_error + penv \<times> trajectory) option" where
  "record_loop ptype model rnd env obs tr =
     (let (env1, masks) = action_masks env_config_default env; (r, u_depart, u_iat) = rnd (length (tr_events tr))
      in if \<not> list_ex id masks then Some (Inr (env1, tr))
         else (case pick_recorded ptype model r obs masks of
             Inl err \<Rightarrow> Some (Inl err)
           | Inr action \<Rightarrow>
               (case step env_config_default u_depart u_iat action env1 of
                  Inl err \<Rightarrow> Some (Inl (Step_error err))
                | Inr (env2, obs2, reward, terminated, truncated, info) \<Rightarrow>
                    (let tr2 = record_step (e_time env1) env2 reward info tr
                     in if terminated \<or> truncated then Some (Inr (env2, tr2))
                        else record_loop ptype model rnd env2 obs2 tr2))))"

definition exit_record :: "exit_entry \<Rightarrow> vehicle_record" where
  "exit_record ev =
     \<lparr>vr_id = x_id ev, vr_slot = x_slot ev, vr_route = x_route ev, vr_intervals = x_intervals ev,
      vr_timed = zip (x_route ev) (x_intervals ev), vr_enter_time = x_enter_time ev, vr_reward = None\<rparr>"

definition record_exit :: "trajectory \<Rightarrow> exit_entry \<Rightarrow> trajectory" where
  "record_exit tr ev =
     add_visits (zip (x_route ev) (x_intervals ev)) (x_slot ev) False R_exiting
       (tr\<lparr>tr_exiting := tr_exiting tr @ [exit_record ev]\<rparr>)"

definition record_episode ::
  "policy_type \<Rightarrow> policy option \<Rightarrow> real \<Rightarrow> (nat \<times> real) list \<Rightarrow> draws \<Rightarrow> (eval_error + trajectory) option" where
  "record_episode ptype model u_iat chosen rnd =
     (let (env, obs) = reset u_iat chosen
      in map_option (map_sum id (\<lambda>(env', tr). foldl record_exit tr (e_exiting_log env')))
           (record_loop ptype model rnd env obs trajectory_new))"

section \<open>Replay\<close>

definition vehicle_pos_at :: "vehicle_record \<Rightarrow> real \<Rightarrow> (real \<times> real) option" where
  "vehicle_pos_at v t =
     (let intervals = vr_intervals v; route = vr_route v
      in if t < fst (hd intervals) then None
         else (case find (\<lambda>i. fst (intervals ! i) \<le> t \<and> t < snd (intervals ! i)) [0..<length intervals] of
             Some i \<Rightarrow>
               (let (t_enter, t_exit) = intervals ! i;
                    frac = (t - t_enter) / max (t_exit - t_enter) (1 / 10 ^ 9);
                    p1 = node_pos (route ! i) (0, 0);
                    p2 = node_pos (if i + 1 < length route then route ! (i + 1) else route ! i) p1
                in Some (fst p1 + frac * (fst p2 - fst p1), snd p1 + frac * (snd p2 - snd p1)))
           | None \<Rightarrow> node_at (last route)))"

definition t_max :: "trajectory \<Rightarrow> real" where
  "t_max tr =
     (let times = concat (map (\<lambda>v. map (\<lambda>(n, ts, te). te) (vr_timed v))
            (tr_vehicles tr @ tr_exiting tr @ tr_conflicts tr))
      in if times = [] then 12 else Max (set times) + 3 / 2)"

lemma time_route_eq: "time_route route t = zip route (build_intervals route t)"
  by (induction route arbitrary: t) simp_all

lemma find_interval:
  assumes "k < length route" "t0 + real k \<le> t" "t < t0 + real k + 1"
  shows "find (\<lambda>i. fst (build_intervals route t0 ! i) \<le> t \<and> t < snd (build_intervals route t0 ! i)) [0..<length route] = Some k"
proof -
  have "find (\<lambda>i. t0 + real i \<le> t \<and> t < t0 + real i + 1) [0..<length route] = Some k"
    unfolding find_Some_iff using assms by (intro exI [of _ k]) auto
  moreover have "find (\<lambda>i. fst (build_intervals route t0 ! i) \<le> t \<and> t < snd (build_intervals route t0 ! i)) [0..<length route] =
      find (\<lambda>i. t0 + real i \<le> t \<and> t < t0 + real i + 1) [0..<length route]"
    by (rule find_cong) (auto simp: nth_build_intervals)
  ultimately show ?thesis by simp
qed

lemma nodes_have_coordinates: "list_all (\<lambda>n. node_at n \<noteq> None) ALL_NODES"
  by code_simp

lemma node_pos_known: "n \<in> set ALL_NODES \<Longrightarrow> node_pos n d = node_pos n d'"
  using nodes_have_coordinates by (auto simp: list_all_iff node_pos_def split: option.split)

text \<open>The interpolation of the animation is that of the simulator.\<close>

lemma pos_at_move:
  assumes r: "on_route table v" "started t v" "t < snd (last (v_intervals v))"
    and rec: "vr_route rec = v_route v" "vr_intervals rec = v_intervals v"
  shows "vehicle_pos_at rec t = Some (v_position (move_vehicle t v))"
proof -
  define k where "k = advance_index (v_intervals v) t (v_route_index v)"
  define t0 where "t0 = v_enter_time v"
  have ivs: "v_intervals v = build_intervals (v_route v) t0" and ne: "v_route v \<noteq> []"
    and nodes: "set (v_route v) \<subseteq> set ALL_NODES"
    using r(1) by (simp_all add: on_route_def t0_def)
  have k: "k < length (v_route v)" "t0 + real k \<le> t" "t < t0 + real k + 1"
    using move_vehicle_placed [OF r] unfolding placed_def move_vehicle_fields k_def t0_def by simp_all
  have early: "\<not> t < fst (hd (v_intervals v))"
    using k(2) by (simp add: ivs hd_build_intervals [OF ne])
  have found: "find (\<lambda>i. fst (v_intervals v ! i) \<le> t \<and> t < snd (v_intervals v ! i)) [0..<length (v_intervals v)] = Some k"
    unfolding ivs length_build_intervals by (rule find_interval [OF k])
  have iv: "v_intervals v ! k = (t0 + real k, t0 + real k + 1)" by (simp add: ivs nth_build_intervals [OF k(1)])
  have known: "node_pos n d = node_pos n d'" if "n \<in> set (v_route v)" for n d d'
    using that nodes by (intro node_pos_known) auto
  have frac: "clip01 (t - (t0 + real k)) = t - (t0 + real k)" using k by (simp add: clip01_def)
  have cur: "node_pos (v_route v ! k) ENTRY_POINT = node_pos (v_route v ! k) (0, 0)"
    by (rule known) (simp add: k(1))
  show ?thesis
    unfolding vehicle_pos_at_def move_vehicle_def Let_def rec k_def [symmetric] iv
    by (simp add: early found iv frac cur del: max_def)
qed

lemma add_visits_fields [simp]:
  "tr_events (add_visits vs s c k tr) = tr_events tr" "tr_vehicles (add_visits vs s c k tr) = tr_vehicles tr"
  "tr_conflicts (add_visits vs s c k tr) = tr_conflicts tr" "tr_exiting (add_visits vs s c k tr) = tr_exiting tr"
  by (induction vs s c k tr rule: add_visits.induct) simp_all

lemma recorded_agrees:
  assumes "if i_wait info then True else i_reason info = None \<and> i_slot info \<noteq> None"
  shows "tr_events (record_step ta env reward info tr) = tr_events tr @
      [\<lparr>ev_step = i_step info, ev_slot = i_slot info, ev_arrive = ta, ev_iat = e_time env - ta, ev_reward = reward,
        ev_conflict = i_conflict info, ev_taken = (i_reason info = Some ''slot_already_taken''), ev_wait = i_wait info\<rparr>]"
    "map vr_slot (tr_vehicles (record_step ta env reward info tr)) =
       (if i_wait info \<or> i_conflict info then map vr_slot (tr_vehicles tr)
        else map vr_slot (tr_vehicles tr) @ [the (i_slot info)])"
    "length (tr_conflicts (record_step ta env reward info tr)) =
       (if \<not> i_wait info \<and> i_conflict info then length (tr_conflicts tr) + 1 else length (tr_conflicts tr))"
proof -
  show "tr_events (record_step ta env reward info tr) = tr_events tr @
      [\<lparr>ev_step = i_step info, ev_slot = i_slot info, ev_arrive = ta, ev_iat = e_time env - ta, ev_reward = reward,
        ev_conflict = i_conflict info, ev_taken = (i_reason info = Some ''slot_already_taken''), ev_wait = i_wait info\<rparr>]"
    by (simp add: record_step_def Let_def split: option.split)
  show "map vr_slot (tr_vehicles (record_step ta env reward info tr)) =
       (if i_wait info \<or> i_conflict info then map vr_slot (tr_vehicles tr)
        else map vr_slot (tr_vehicles tr) @ [the (i_slot info)])"
    using assms by (auto simp: record_step_def Let_def split: option.split)
  show "length (tr_conflicts (record_step ta env reward info tr)) =
       (if \<not> i_wait info \<and> i_conflict info then length (tr_conflicts tr) + 1 else length (tr_conflicts tr))"
    using assms by (auto simp: record_step_def Let_def split: option.split)
qed

text \<open>The animation shows every vehicle where the simulator has it: for a vehicle under way in any
  episode, and any later time before its arrival, the position replayed from its record is the position the
  simulator's own clock would give it.\<close>

theorem replay_matches_simulator:
  assumes "reset_ok u_iat chosen" "config_ok cfg" "list_all good_op ops"
    and "v \<in> set (e_active (episode cfg u_iat chosen ops))"
    and "e_time (episode cfg u_iat chosen ops) \<le> t" "t < snd (last (v_intervals v))"
    and "vr_route rec = v_route v" "vr_intervals rec = v_intervals v"
  shows "vehicle_pos_at rec t = Some (v_position (move_vehicle t v))"
proof -
  let ?e = "episode cfg u_iat chosen ops"
  have "traffic_inv (e_parked ?e) ?e" using episode_inv [OF assms(1-3)] by (simp add: env_inv_def)
  then have "on_route (e_reservations ?e) v \<and> started t v"
    using traffic_inv_started [OF assms(4), of "e_parked ?e" "t - e_time ?e"] assms(5) by simp
  then show ?thesis using pos_at_move assms(6-8) by blast
qed

text \<open>What a recording and the evaluation of the same episode have in common.\<close>

definition same_run :: "tally \<Rightarrow> trajectory \<Rightarrow> bool" where
  "same_run t tr \<longleftrightarrow> t_steps t = length (tr_events tr) \<and> t_slots_assigned t = map vr_slot (tr_vehicles tr) \<and>
     t_conflicts t = length (tr_conflicts tr) \<and> t_waits t = length (filter ev_wait (tr_events tr)) \<and>
     t_total_reward t = sum_list (map ev_reward (tr_events tr))"

lemma same_run_step:
  assumes "same_run t tr" "if i_wait info then True else i_reason info = None \<and> i_slot info \<noteq> None"
  shows "same_run (count_step reward info t) (record_step ta env reward info tr)"
  using assms(1) recorded_agrees [OF assms(2), of ta env reward tr] assms(2)
  by (auto simp: same_run_def count_step_def Let_def split: if_splits)

lemma recording_follows:
  assumes "mask_honouring model" "ptype = P_ppo \<longrightarrow> model \<noteq> None" "ptype = P_random \<or> ptype = P_heuristic \<or> ptype = P_ppo"
    and "\<And>k. draw (fst (snd (rnd k))) \<and> draw (snd (snd (rnd k)))"
    and "env_inv env" "\<not> e_terminated env" "e_step_count env < MAX_STEPS" "same_run t tr"
  shows "\<exists>env' t' tr'. run_loop env_config_default ptype model rnd env obs t = Some (Inr (env', t')) \<and>
    record_loop ptype model rnd env obs tr = Some (Inr (env', tr')) \<and> same_run t' tr'"
  using assms(5-8)
proof (induction "MAX_STEPS - e_step_count env" arbitrary: env obs t tr rule: less_induct)
  case less
  obtain env1 masks where m: "action_masks env_config_default env = (env1, masks)" by fastforce
  obtain r ud ui where d: "rnd (t_steps t) = (r, ud, ui)" by (metis surj_pair)
  have d2: "rnd (length (tr_events tr)) = (r, ud, ui)" using d less.prems(4) by (simp add: same_run_def)
  have u: "draw ud" "draw ui" using assms(4) [of "t_steps t"] d by simp_all
  have cfg: "config_ok env_config_default" using sample_run by blast
  show ?case
  proof (cases "list_ex id masks")
    case False
    then show ?thesis
      using less.prems(4) by (subst run_loop.simps, subst record_loop.simps) (simp add: m d d2)
  next
    case True
    obtain a where a: "pick_action ptype model r obs masks env1 = Inr a" "allowed masks a"
      using pick_action_allowed [OF True length_action_masks [OF m] assms(1,2)] by blast
    have a2: "pick_recorded ptype model r obs masks = Inr a"
      using a(1) assms(3) by (auto simp: pick_action_def pick_recorded_def)
    obtain e' obs' reward info where s: "step env_config_default ud ui a env1 = Inr (e', obs', reward, e_terminated e', False, info)"
      and e': "env_inv e'" "e_step_count e' = e_step_count env + 1" "e_terminated e' = (MAX_STEPS \<le> e_step_count env + 1)"
        "if i_wait info then m_consecutive_waits (i_metrics info) \<le> max_consecutive_waits env_config_default
         else i_reason info = None \<and> i_slot info \<noteq> None \<and> (i_conflict info \<longrightarrow> e_fallback_triggers env < e_fallback_triggers env1)"
      using masked_step [OF m less.prems(1) a(2) less.prems(2) cfg u] by blast
    let ?t = "count_step reward info t" and ?tr = "record_step (e_time env1) e' reward info tr"
    have ok: "same_run ?t ?tr" by (rule same_run_step [OF less.prems(4)]) (use e'(4) in \<open>auto split: if_splits\<close>)
    have run: "run_loop env_config_default ptype model rnd env obs t =
        (if e_terminated e' then Some (Inr (e', ?t)) else run_loop env_config_default ptype model rnd e' obs' ?t)"
      by (subst run_loop.simps) (simp add: m d True a s)
    have rec: "record_loop ptype model rnd env obs tr =
        (if e_terminated e' then Some (Inr (e', ?tr)) else record_loop ptype model rnd e' obs' ?tr)"
      by (subst record_loop.simps) (simp add: m d2 True a2 s)
    show ?thesis
    proof (cases "e_terminated e'")
      case True
      then show ?thesis using ok run rec by simp
    next
      case False
      then show ?thesis using less.hyps [of e' ?t ?tr obs'] e'(1-3) ok run rec by simp
    qed
  qed
qed

lemma advance_lone_vehicle:
  assumes "e_active e = [v]" "e_parked e = [pv]" "e_time e + dt < snd (last (v_intervals v))" "e_time e + dt < pv_depart_time pv"
  shows "e_active (advance_time dt e) = [move_vehicle (e_time e + dt) v] \<and> e_time (advance_time dt e) = e_time e + dt"
  using assms by (simp add: advance_time_def process_departures_def Let_def)

lemma first_car_under_way:
  "\<exists>v. v \<in> set (e_active (episode env_config_default 0 [] [Act 7 0 0])) \<and>
    v_intervals v = [(0, 1), (1, 2), (2, 3), (3, 4)] \<and> v_route v = [''entrance'', ''junction'', ''lane_pt_4'', ''A1_front''] \<and>
    e_time (episode env_config_default 0 [] [Act 7 0 0]) = 4 / 5"
proof -
  let ?e = "init_state\<lparr>e_iat := uniform ARRIVAL_MIN ARRIVAL_MAX 0\<rparr>"
  let ?c = "(chosen_state 0 0 7 ?e)\<lparr>e_step_count := e_step_count (chosen_state 0 0 7 ?e) + 1\<rparr>"
  have e: "fst (reset 0 []) = ?e" by (simp add: reset_def Let_def)
  have free: "\<not> e_taken init_state ! 7" by (simp add: init_state_def NUM_SLOTS_def)
  have shield: "\<not> check_conflict (init_state\<lparr>e_iat := x\<rparr>) route ivs" for x route ivs
    by (rule no_reservations_no_conflict) (simp add: init_state_def)
  have route: "entry_route 7 = [''entrance'', ''junction'', ''lane_pt_4'', ''A1_front'']" by code_simp
  have ivs: "build_intervals (entry_route 7) 0 = [(0, 1), (1, 2), (2, 3), (3, 4)]"
    by (simp add: route NODE_TRAVEL_TIME_def)
  have zero: "e_active init_state = []" "e_parked init_state = []" "e_time init_state = 0" by (simp_all add: init_state_def)
  obtain rw info where "step_slot env_config_default 0 0 7 ?e =
      finish_step (uniform ARRIVAL_MIN ARRIVAL_MAX 0) rw info (chosen_state 0 0 7 ?e)"
    using step_slot_eq by blast
  then have E: "episode env_config_default 0 [] [Act 7 0 0] = fst (finish_step (4 / 5) rw info (chosen_state 0 0 7 ?e))"
    by (simp add: episode_def e step_def NUM_SLOTS_def WAIT_ACTION_def uniform_def ARRIVAL_MIN_def init_state_def split: prod.split)
  let ?v = "new_vehicle (e_vehicle_id_counter init_state + 1) (SLOT_NAMES ! 7) None (entry_route 7)
      (build_intervals (entry_route 7) 0) 0 Moving"
  have "e_active ?c = [?v]" by (simp add: chosen_state_def Let_def free shield zero)
  moreover have "\<exists>pv. e_parked ?c = [pv] \<and> pv_depart_time pv = 12"
    by (simp add: chosen_state_def Let_def free shield zero ivs uniform_def PARK_DURATION_MIN_def)
  moreover have "e_time ?c = 0" by (simp add: zero)
  moreover have "v_intervals ?v = [(0, 1), (1, 2), (2, 3), (3, 4)]" by (simp add: new_vehicle_def ivs)
  ultimately have "e_active (advance_time (4 / 5) ?c) = [move_vehicle (4 / 5) ?v] \<and> e_time (advance_time (4 / 5) ?c) = 4 / 5"
    using advance_lone_vehicle [of ?c ?v _ "4 / 5"] by fastforce
  then show ?thesis unfolding E by (simp add: finish_step_def Let_def new_vehicle_def route NODE_TRAVEL_TIME_def)
qed

lemma replay_matches_simulator_witness:
  "\<exists>v. v \<in> set (e_active (episode env_config_default 0 [] [Act 7 0 0])) \<and>
    vehicle_pos_at \<lparr>vr_id = 1, vr_slot = ''A1'', vr_route = [''entrance'', ''junction'', ''lane_pt_4'', ''A1_front''],
      vr_intervals = [(0, 1), (1, 2), (2, 3), (3, 4)], vr_timed = [], vr_enter_time = 0, vr_reward = None\<rparr> (5 / 2)
      = Some (v_position (move_vehicle (5 / 2) v))"
proof -
  obtain v where v: "v \<in> set (e_active (episode env_config_default 0 [] [Act 7 0 0]))"
    "v_intervals v = [(0, 1), (1, 2), (2, 3), (3, 4)]" "v_route v = [''entrance'', ''junction'', ''lane_pt_4'', ''A1_front'']"
    "e_time (episode env_config_default 0 [] [Act 7 0 0]) = 4 / 5"
    using first_car_under_way by blast
  have ok: "reset_ok 0 []" "config_ok env_config_default" "list_all good_op [Act 7 0 0]"
    by (simp_all add: reset_ok_def draw_def config_ok_def env_config_default_def WAIT_TIME_def)
  show ?thesis
    by (intro exI [of _ v] conjI v(1) replay_matches_simulator [OF ok v(1)]) (simp_all add: v)
qed

text \<open>C36: what is drawn is what was measured. For every policy the recorder supports, the recording and
  the evaluation of an episode with the same draws are the same run: as many events as steps, the same slots
  in the same order, as many conflict attempts as conflicts, the same waits and the same total reward.\<close>

theorem recording_matches_evaluation:
  assumes "good_draws (u_iat, chosen, rnd)" "mask_honouring model" "ptype = P_ppo \<longrightarrow> model \<noteq> None"
    and "ptype = P_random \<or> ptype = P_heuristic \<or> ptype = P_ppo"
  shows "\<exists>m tr. run_episode env_config_default ptype model u_iat chosen rnd = Some (Inr m) \<and>
    record_episode ptype model u_iat chosen rnd = Some (Inr tr) \<and>
    length (tr_events tr) = k_steps m \<and> map vr_slot (tr_vehicles tr) = k_slots_assigned m \<and>
    length (tr_conflicts tr) = k_conflicts m \<and> length (filter ev_wait (tr_events tr)) = k_waits m \<and>
    sum_list (map ev_reward (tr_events tr)) = k_total_reward m"
proof -
  have ro: "reset_ok u_iat chosen" using assms(1) by (simp add: good_draws_def)
  obtain e obs where r: "reset u_iat chosen = (e, obs)" by fastforce
  have e: "env_inv e" "\<not> e_terminated e" "e_step_count e < MAX_STEPS"
    using reset_inv [OF ro] by (simp_all add: r MAX_STEPS_def)
  have d: "draw (fst (snd (rnd k))) \<and> draw (snd (snd (rnd k)))" for k using assms(1) by (simp add: good_draws_def)
  have "same_run tally_new trajectory_new" by (simp add: same_run_def tally_new_def trajectory_new_def)
  then obtain e' t tr where L: "run_loop env_config_default ptype model rnd e obs tally_new = Some (Inr (e', t))"
      "record_loop ptype model rnd e obs trajectory_new = Some (Inr (e', tr))" "same_run t tr"
    using recording_follows [where rnd = rnd and obs = obs, OF assms(2-4) d e] by blast
  have X: "same_run t (foldl record_exit tr evs)" for evs
    using L(3) by (induction evs arbitrary: tr) (simp_all add: same_run_def record_exit_def add_visits_fields)
  show ?thesis
    by (intro exI [of _ "episode_result e' t"] exI [of _ "foldl record_exit tr (e_exiting_log e')"])
      (use L X [of "e_exiting_log e'"] in \<open>simp add: run_episode_def record_episode_def r episode_result_def Let_def same_run_def\<close>)
qed

lemma recording_matches_evaluation_witness:
  "\<exists>m tr. run_episode env_config_default P_random None 0 [(0, 0), (5, 1 / 2)] (\<lambda>k. (k, 0, 1 / 2)) = Some (Inr m) \<and>
    record_episode P_random None 0 [(0, 0), (5, 1 / 2)] (\<lambda>k. (k, 0, 1 / 2)) = Some (Inr tr) \<and>
    map vr_slot (tr_vehicles tr) = k_slots_assigned m"
  using recording_matches_evaluation [of 0 "[(0, 0), (5, 1 / 2)]" "\<lambda>k. (k, 0, 1 / 2)" None P_random] sample_run
  by (auto simp: mask_honouring_def draw_def good_draws_def)

end
