(* ===== verification/Camera_Loop.thy ===== *)
theory Camera_Loop
  imports Pipeline_Safety Operator_Keys
begin

text \<open>
  What feeds the pipeline: the reading of YOLO's results (\<open>YoloVehicleDetector\<close> and
  \<open>MockVehicleDetector\<close> of \<open>integrated/host/cv/vehicle_detector.py\<close>), the stub of the plate reader, the frame counter of
  \<open>cv/camera_capture.py\<close> and the loop of \<open>cv/tracker.py\<close>. The network and OpenCV are not code of the
  repository: a read of the camera gives what the network answers for the image. Sleeping and drawing are
  left out.
\<close>

section \<open>Reading the detector's results\<close>

text \<open>\<open>int(x)\<close> of a finite float.\<close>

definition py_trunc :: "real \<Rightarrow> int" where
  "py_trunc x = (if 0 \<le> x then \<lfloor>x\<rfloor> else \<lceil>x\<rceil>)"

record yolo_box =
  yb_cls :: real
  yb_conf :: real
  yb_xyxy :: "real \<times> real \<times> real \<times> real"
  yb_id :: "real option"

record yolo_result =
  yr_boxes :: "yolo_box list option"
  yr_names :: "int \<Rightarrow> string option"

definition COCO_VEHICLE_CLASSES :: "int list" where "COCO_VEHICLE_CLASSES = [2, 3, 5, 7]"

definition LABEL_ALIASES :: "(string \<times> string) list" where
  "LABEL_ALIASES =
     [(''rc_car'', LABEL_CAR), (''rccar'', LABEL_CAR), (''car'', LABEL_CAR), (''vehicle'', LABEL_CAR),
      (''front_cushion'', LABEL_CUSHION), (''frontcushion'', LABEL_CUSHION), (''cushion'', LABEL_CUSHION),
      (''front'', LABEL_CUSHION)]"

text \<open>\<open>raw_name.strip().lower().replace(" ", "_").replace("-", "_")\<close>, for ASCII names.\<close>

definition label_key :: "string \<Rightarrow> string" where
  "label_key raw_name = map (\<lambda>c. if code c = 32 \<or> code c = 45 then chr 95 else c) (lower (strip raw_name))"

definition resolve_label :: "bool \<Rightarrow> string \<Rightarrow> string" where
  "resolve_label custom raw_name = (case map_of LABEL_ALIASES (label_key raw_name) of
       Some alias \<Rightarrow> alias
     | None \<Rightarrow> if custom then LABEL_CAR else if raw_name = '''' then ''vehicle'' else raw_name)"

definition read_box :: "bool \<Rightarrow> (int \<Rightarrow> string option) \<Rightarrow> yolo_box \<Rightarrow> detection option" where
  "read_box custom names box =
     (let cls_id = py_trunc (yb_cls box)
      in if \<not> custom \<and> cls_id \<notin> set COCO_VEHICLE_CLASSES then None
         else (case yb_xyxy box of (x1, y1, x2, y2) \<Rightarrow>
           Some \<lparr>dt_label = resolve_label custom (case names cls_id of Some n \<Rightarrow> n | None \<Rightarrow> ''''),
             dt_confidence = yb_conf box, dt_bbox = (py_trunc x1, py_trunc y1, py_trunc x2, py_trunc y2),
             dt_track_id = map_option py_trunc (yb_id box)\<rparr>))"

definition parse_results :: "bool \<Rightarrow> yolo_result list \<Rightarrow> detection list" where
  "parse_results custom results =
     concat (map (\<lambda>r. case yr_boxes r of None \<Rightarrow> [] | Some boxes \<Rightarrow> List.map_filter (read_box custom (yr_names r)) boxes) results)"

text \<open>\<open>MockVehicleDetector.detect\<close> on an image of the given size.\<close>

definition mock_detect :: "int \<Rightarrow> int \<Rightarrow> detection list" where
  "mock_detect height width =
     (if height = 0 \<or> width = 0 then []
      else
        let x1 = max 0 (width div 4); y1 = max 0 (height div 4);
            x2 = min (width - 1) (x1 + width div 3); y2 = min (height - 1) (y1 + height div 3)
        in [\<lparr>dt_label = ''rc_car'', dt_confidence = 91 / 100, dt_bbox = (x1, y1, x2, y2), dt_track_id = Some 1\<rparr>])"

text \<open>\<open>MockPlateDetector\<close> of \<open>cv/plate_detector.py\<close>: the plate it was made with, its confidence and its box.\<close>

definition mock_plate :: "string \<Rightarrow> int \<Rightarrow> int \<Rightarrow> (string \<times> real \<times> bbox) list" where
  "mock_plate plate_text height width =
     (if height = 0 \<or> width = 0 then []
      else [(plate_text, 88 / 100,
        (width div 3, height div 3, min (width - 1) (width div 3 + 80), min (height - 1) (height div 3 + 24)))])"

text \<open>The boxes the mock detectors report lie in the image.\<close>

lemma mock_boxes_inside:
  assumes "0 \<le> h" "0 \<le> w" "(x1, y1, x2, y2) \<in> dt_bbox ` set (mock_detect h w) \<union> (snd \<circ> snd) ` set (mock_plate t h w)"
  shows "0 \<le> x1 \<and> x1 \<le> x2 \<and> x2 < w \<and> 0 \<le> y1 \<and> y1 \<le> y2 \<and> y2 < h"
proof -
  have "0 < h" "0 < w" using assms by (auto simp: mock_detect_def mock_plate_def Let_def split: if_splits)
  then show ?thesis using assms(3)
    by (auto simp: mock_detect_def mock_plate_def Let_def)
qed

lemma custom_labels:
  "d \<in> set (parse_results True results) \<Longrightarrow> dt_label d = LABEL_CAR \<or> dt_label d = LABEL_CUSHION"
proof -
  have "resolve_label True n = LABEL_CAR \<or> resolve_label True n = LABEL_CUSHION" for n
    using map_of_SomeD [of LABEL_ALIASES "label_key n"]
    by (auto simp: resolve_label_def LABEL_ALIASES_def split: option.splits)
  moreover assume "d \<in> set (parse_results True results)"
  then obtain n where "dt_label d = resolve_label True n"
    by (auto simp: parse_results_def read_box_def Let_def List.map_filter_def split: option.splits prod.splits)
  ultimately show ?thesis by simp
qed

text \<open>A fallback model lets only vehicle classes through.\<close>

lemma coco_classes_only:
  assumes "d \<in> set (parse_results False results)"
  shows "\<exists>r boxes box. r \<in> set results \<and> yr_boxes r = Some boxes \<and> box \<in> set boxes \<and>
    py_trunc (yb_cls box) \<in> {2, 3, 5, 7} \<and> read_box False (yr_names r) box = Some d"
proof -
  obtain r where r: "r \<in> set results"
      "d \<in> set (case yr_boxes r of None \<Rightarrow> [] | Some boxes \<Rightarrow> List.map_filter (read_box False (yr_names r)) boxes)"
    using assms by (auto simp: parse_results_def)
  then obtain boxes box where b: "r \<in> set results" "yr_boxes r = Some boxes" "box \<in> set boxes" "read_box False (yr_names r) box = Some d"
    by (cases "yr_boxes r") (auto simp: List.map_filter_def)
  have "py_trunc (yb_cls box) \<in> set COCO_VEHICLE_CLASSES"
    using b(4) by (simp add: read_box_def Let_def split: if_splits)
  then show ?thesis using b by (auto simp: COCO_VEHICLE_CLASSES_def)
qed

section \<open>The loop of the tracker\<close>

text \<open>One pass: what the network answers for the next image, the image's size as \<open>(width, height)\<close>, the
  clock after the detection, and whether during the pass the operator pressed \<open>q\<close> or another thread called
  \<open>stop\<close>. \<open>fi_context\<close> is what the pipeline's callback reads: its clock and the threads it lets run.\<close>

record frame_in =
  fi_results :: "yolo_result list"
  fi_size :: "int \<times> int"
  fi_clock :: real
  fi_quit :: bool
  fi_stop :: bool
  fi_context :: "real \<times> (int \<Rightarrow> shell_event list)"

record tracked_frame = track_state +
  tf_timestamp :: real
  tf_fps :: real

text \<open>\<open>CameraCapture.read_frame\<close>: the counter and the frame; the end of the list is the end of the stream.\<close>

definition read_frame :: "int \<Rightarrow> frame_in option list \<Rightarrow> (int \<times> frame_in \<times> frame_in option list) option" where
  "read_frame index reads = (case reads of
       Some f # rest \<Rightarrow> Some (index + 1, f, rest)
     | _ \<Rightarrow> None)"

definition make_state :: "bool \<Rightarrow> real \<Rightarrow> int \<Rightarrow> frame_in \<Rightarrow> tracked_frame" where
  "make_state custom prev index f =
     (let elapsed = fi_clock f - prev
      in \<lparr>ts_frame_index = index, ts_detections = parse_results custom (fi_results f), ts_frame_size = fi_size f,
          tf_timestamp = fi_clock f, tf_fps = (if 0 < elapsed then 1 / elapsed else 0)\<rparr>)"

text \<open>\<open>run\<close> with a callback; \<open>max_frames\<close> of 0 or \<open>None\<close> means no limit. An exception of the
  callback leaves the loop; the camera is released in every case.\<close>

type_synonym callback = "real \<times> (int \<Rightarrow> shell_event list) \<Rightarrow> tracked_frame \<Rightarrow> pipeline \<Rightarrow> call"

function track_loop ::
  "callback \<Rightarrow> bool \<Rightarrow> int option \<Rightarrow> bool \<Rightarrow> real \<Rightarrow> int \<Rightarrow> frame_in option list \<Rightarrow> pipeline \<Rightarrow> call" where
  "track_loop cb custom max_frames shown prev index reads p =
     (case read_frame index reads of
        None \<Rightarrow> done_with p
      | Some (index', f, rest) \<Rightarrow>
          followed_by (cb (fi_context f) (make_state custom prev index' f) p) (\<lambda>p.
            if shown \<and> fi_quit f then done_with p
            else if (case max_frames of Some n \<Rightarrow> n \<noteq> 0 \<and> n \<le> index' | None \<Rightarrow> False) then done_with p
            else if fi_stop f then done_with p
            else track_loop cb custom max_frames shown (fi_clock f) index' rest p))"
  by pat_completeness auto
termination
  by (relation "measure (\<lambda>(cb, custom, max_frames, show, prev, index, reads, p). length reads)")
    (auto simp: read_frame_def split: list.splits option.splits)

declare track_loop.simps [simp del]

datatype camera_error = Unable_to_open

definition tracker_run ::
  "bool \<Rightarrow> callback \<Rightarrow> bool \<Rightarrow> int option \<Rightarrow> bool \<Rightarrow> real \<Rightarrow> frame_in option list \<Rightarrow> pipeline \<Rightarrow> camera_error + call" where
  "tracker_run opened cb custom max_frames shown start reads p =
     (if \<not> opened then Inl Unable_to_open else Inr (track_loop cb custom max_frames shown start 0 reads p))"

text \<open>The frames the loop hands over, when the callback never raises.\<close>

fun handed ::
  "bool \<Rightarrow> int option \<Rightarrow> bool \<Rightarrow> real \<Rightarrow> int \<Rightarrow> frame_in option list \<Rightarrow> ((real \<times> (int \<Rightarrow> shell_event list)) \<times> tracked_frame) list" where
  "handed custom max_frames shown prev index [] = []"
| "handed custom max_frames shown prev index (None # rest) = []"
| "handed custom max_frames shown prev index (Some f # rest) =
     (fi_context f, make_state custom prev (index + 1) f) #
     (if shown \<and> fi_quit f \<or> (case max_frames of Some n \<Rightarrow> n \<noteq> 0 \<and> n \<le> index + 1 | None \<Rightarrow> False) \<or> fi_stop f then []
      else handed custom max_frames shown (fi_clock f) (index + 1) rest)"

lemma followed_by_done: "followed_by c done_with = c"
  by (auto simp: followed_by_def done_with_def split: prod.splits option.splits)

lemma track_loop_hands:
  "track_loop cb custom max_frames shown prev index reads p =
     for_each (\<lambda>(ctx, st). cb ctx st) (handed custom max_frames shown prev index reads) p"
proof (induction custom max_frames shown prev index reads arbitrary: p rule: handed.induct)
  case (3 custom max_frames shown prev index f rest)
  show ?case
  proof (cases "shown \<and> fi_quit f \<or> (case max_frames of Some n \<Rightarrow> n \<noteq> 0 \<and> n \<le> index + 1 | None \<Rightarrow> False) \<or> fi_stop f")
    case True
    have "track_loop cb custom max_frames shown prev index (Some f # rest) p =
        followed_by (cb (fi_context f) (make_state custom prev (index + 1) f) p) done_with"
      by (subst track_loop.simps, simp add: read_frame_def, rule arg_cong [where f = "followed_by _"], rule ext)
        (use True in auto)
    moreover have "for_each (\<lambda>(ctx, st). cb ctx st) [] = done_with" by (rule ext) simp
    ultimately show ?thesis using True by (simp add: followed_by_done)
  next
    case False
    have "handed custom max_frames shown prev index (Some f # rest) =
        (fi_context f, make_state custom prev (index + 1) f) # handed custom max_frames shown (fi_clock f) (index + 1) rest"
      unfolding handed.simps by (simp only: False if_False)
    moreover have "track_loop cb custom max_frames shown prev index (Some f # rest) p =
        followed_by (cb (fi_context f) (make_state custom prev (index + 1) f) p)
          (track_loop cb custom max_frames shown (fi_clock f) (index + 1) rest)"
      by (subst track_loop.simps, simp add: read_frame_def, rule arg_cong [where f = "followed_by _"], rule ext)
        (use False in auto)
    moreover have "track_loop cb custom max_frames shown (fi_clock f) (index + 1) rest =
        for_each (\<lambda>(ctx, st). cb ctx st) (handed custom max_frames shown (fi_clock f) (index + 1) rest)"
      by (rule ext) (rule 3 [OF False])
    ultimately show ?thesis by simp
  qed
qed ((subst track_loop.simps, simp add: read_frame_def)+)

lemma handed_frames:
  "map (\<lambda>x. ts_frame_index (snd x)) (handed custom max_frames shown prev index reads) =
     map (\<lambda>k. index + 1 + int k) [0..<length (handed custom max_frames shown prev index reads)]"
proof (induction custom max_frames shown prev index reads rule: handed.induct)
  case (3 custom max_frames shown prev index f rest)
  have shift: "map (\<lambda>k. index + 1 + int k) [0..<Suc n] = (index + 1) # map (\<lambda>k. index + 1 + 1 + int k) [0..<n]" for n
    by (simp add: upt_conv_Cons map_Suc_upt [symmetric] comp_def del: upt_Suc)
  show ?case using 3 by (simp add: make_state_def shift del: upt_Suc)
qed simp_all

lemma handed_length:
  "max_frames = Some n \<Longrightarrow> 0 \<le> index \<Longrightarrow> index < n \<Longrightarrow>
     index + int (length (handed custom max_frames shown prev index reads)) \<le> n"
  by (induction custom max_frames shown prev index reads rule: handed.induct) auto

lemma handed_detections:
  "x \<in> set (handed custom max_frames shown prev index reads) \<Longrightarrow>
     \<exists>f. Some f \<in> set reads \<and> ts_detections (snd x) = parse_results custom (fi_results f)"
  by (induction custom max_frames shown prev index reads rule: handed.induct)
    (auto simp: make_state_def split: if_splits)

text \<open>The tracker's loop is the pipeline's camera loop. Whatever the camera delivers, running the tracker
  with the pipeline as its callback is \<open>run_camera\<close> on the frames handed over; these are numbered 1, 2, 3 and
  so on without a gap, never more than \<open>max_frames\<close>, and with the trained model every detection in them is a
  car or a cushion.\<close>

theorem tracker_feeds_pipeline:
  assumes "frames = handed custom max_frames shown start 0 reads"
  shows "tracker_run True (\<lambda>ctx st. on_frame cfg fit loaded (fst ctx) (snd ctx) (track_state.truncate st))
      custom max_frames shown start reads p =
      Inr (run_camera cfg fit loaded (map (\<lambda>(ctx, st). (fst ctx, snd ctx, track_state.truncate st)) frames) p) \<and>
    map (\<lambda>x. ts_frame_index (snd x)) frames = map (\<lambda>k. int k + 1) [0..<length frames] \<and>
    (case max_frames of Some n \<Rightarrow> n \<le> 0 \<or> int (length frames) \<le> n | None \<Rightarrow> True) \<and>
    (\<not> custom \<or> list_all (\<lambda>x. list_all (\<lambda>d. dt_label d = LABEL_CAR \<or> dt_label d = LABEL_CUSHION)
      (ts_detections (snd x))) frames)"
proof -
  have fe: "for_each f (map g xs) = for_each (f \<circ> g) xs"
    for f :: "real \<times> (int \<Rightarrow> shell_event list) \<times> track_state \<Rightarrow> pipeline \<Rightarrow> call"
      and g :: "(real \<times> (int \<Rightarrow> shell_event list)) \<times> tracked_frame \<Rightarrow> _" and xs
    by (induction xs) (rule ext, simp)+
  have "tracker_run True (\<lambda>ctx st. on_frame cfg fit loaded (fst ctx) (snd ctx) (track_state.truncate st))
      custom max_frames shown start reads p =
      Inr (run_camera cfg fit loaded (map (\<lambda>(ctx, st). (fst ctx, snd ctx, track_state.truncate st)) frames) p)"
    unfolding tracker_run_def track_loop_hands run_camera_def fe assms
    by (simp add: comp_def split_def)
  moreover have "map (\<lambda>x. ts_frame_index (snd x)) frames = map (\<lambda>k. int k + 1) [0..<length frames]"
    using handed_frames [of custom max_frames shown start 0 reads] by (simp add: assms algebra_simps)
  moreover have "case max_frames of Some n \<Rightarrow> n \<le> 0 \<or> int (length frames) \<le> n | None \<Rightarrow> True"
    using handed_length [of max_frames _ 0 custom shown start reads]
    by (cases max_frames) (simp_all add: assms, metis add_0 not_less)
  moreover have "\<not> custom \<or> list_all (\<lambda>x. list_all (\<lambda>d. dt_label d = LABEL_CAR \<or> dt_label d = LABEL_CUSHION)
      (ts_detections (snd x))) frames"
    using handed_detections [of _ custom max_frames shown start 0 reads] custom_labels
    unfolding list_all_iff assms by (metis (full_types))
  ultimately show ?thesis by blast
qed

definition demo_read :: frame_in where
  "demo_read = \<lparr>fi_results = [\<lparr>yr_boxes = Some [\<lparr>yb_cls = 0, yb_conf = 9 / 10, yb_xyxy = (10, 10, 50, 40), yb_id = Some 1\<rparr>],
     yr_names = (\<lambda>c. if c = 0 then Some '' RC-Car'' else None)\<rparr>],
     fi_size = (640, 480), fi_clock = 1, fi_quit = False, fi_stop = False, fi_context = (1, \<lambda>_. [])\<rparr>"

lemma tracker_feeds_pipeline_witness:
  "map (\<lambda>x. ts_frame_index (snd x)) (handed True (Some 2) False 0 0 [Some demo_read, Some demo_read, Some demo_read]) = [1, 2] \<and>
   tracker_run True (\<lambda>ctx st. on_frame PipelineConfig (\<lambda>_. None) None (fst ctx) (snd ctx) (track_state.truncate st))
      True (Some 2) False 0 [Some demo_read, Some demo_read, Some demo_read] (pipeline_new PipelineConfig) =
    Inr (run_camera PipelineConfig (\<lambda>_. None) None
      (map (\<lambda>(ctx, st). (fst ctx, snd ctx, track_state.truncate st))
        (handed True (Some 2) False 0 0 [Some demo_read, Some demo_read, Some demo_read])) (pipeline_new PipelineConfig))"
proof -
  have "length (handed True (Some 2) False 0 0 [Some demo_read, Some demo_read, Some demo_read]) = 2"
    by (simp add: demo_read_def)
  then show ?thesis using tracker_feeds_pipeline [OF refl, where cfg = PipelineConfig and fit = "\<lambda>_. None" and loaded = None
      and custom = True and max_frames = "Some 2" and shown = False and start = 0
      and reads = "[Some demo_read, Some demo_read, Some demo_read]" and p = "pipeline_new PipelineConfig"]
    by (simp add: upt_rec del: handed.simps)
qed

lemma demo_label: "map dt_label (parse_results True (fi_results demo_read)) = [LABEL_CAR]"
  by code_simp

end
