(* ===== verification/Calibration.thy ===== *)
theory Calibration
  imports Bindings
begin

text \<open>
  From the camera to the map: the calibration tool \<open>integrated/host/tools/calibrate_camera.py\<close>, whose file the
  command \<open>parking/management/commands/run_pipeline.py\<close> turns into the configuration of the pipeline, and the
  diagnosis \<open>tools/debug_pose.py\<close>, which shows the coordinates without allocation and vehicles. The fit of the
  homography is \<open>compute_homography\<close>, a parameter as in \<open>Pipeline\<close>; drawing and printing are left out. A float
  written to the file as JSON is read back as the same float.
\<close>

section \<open>The calibration tool\<close>

record calibrator =
  cb_lot_w :: real
  cb_lot_h :: real
  cb_corners :: "point list"
  cb_probes :: "(point \<times> point) list"
  cb_show_grid :: bool
  cb_homography :: "hmat option"

definition calibrator_new :: "real \<Rightarrow> real \<Rightarrow> calibrator" where
  "calibrator_new lot_w lot_h = \<lparr>cb_lot_w = lot_w, cb_lot_h = lot_h, cb_corners = [], cb_probes = [], cb_show_grid = True,
     cb_homography = None\<rparr>"

type_synonym fitting = "point list \<times> point list \<Rightarrow> hmat option"

text \<open>\<open>_build\<close>; \<open>None\<close> of the fit is the \<open>ValueError\<close> of \<open>compute_homography\<close>, which leaves the handler.\<close>

definition build :: "fitting \<Rightarrow> calibrator \<Rightarrow> calibrator" where
  "build fit c = (case fit (cb_corners c, [(0, cb_lot_h c), (cb_lot_w c, cb_lot_h c), (cb_lot_w c, 0), (0, 0)]) of
       None \<Rightarrow> c
     | Some m \<Rightarrow> c\<lparr>cb_homography := Some m\<rparr>)"

text \<open>\<open>left\<close>: the event is a press of the left button. A probe that cannot be projected raises and is not kept.\<close>

definition on_mouse :: "fitting \<Rightarrow> bool \<Rightarrow> int \<Rightarrow> int \<Rightarrow> calibrator \<Rightarrow> calibrator" where
  "on_mouse fit left x y c =
     (if \<not> left then c
      else if length (cb_corners c) < 4 then
        (let c1 = c\<lparr>cb_corners := cb_corners c @ [(of_int x, of_int y)]\<rparr>
         in if length (cb_corners c1) = 4 then build fit c1 else c1)
      else (case cb_homography c of
          None \<Rightarrow> c
        | Some m \<Rightarrow> (case warp_point m (of_int x, of_int y) of
              Inl _ \<Rightarrow> c
            | Inr world \<Rightarrow> c\<lparr>cb_probes := cb_probes c @ [((of_int x, of_int y), world)]\<rparr>)))"

definition undo :: "calibrator \<Rightarrow> calibrator" where
  "undo c =
     (if cb_probes c \<noteq> [] then c\<lparr>cb_probes := butlast (cb_probes c)\<rparr>
      else if cb_corners c \<noteq> [] then c\<lparr>cb_corners := butlast (cb_corners c), cb_homography := None\<rparr>
      else c)"

definition calib_reset :: "calibrator \<Rightarrow> calibrator" where
  "calib_reset c = c\<lparr>cb_corners := [], cb_probes := [], cb_homography := None\<rparr>"

record calibration_file =
  cf_frame_size :: "int \<times> int"
  cf_lot_width_mm :: real
  cf_lot_height_mm :: real
  cf_homography_src :: "point list"
  cf_probes :: "(point \<times> point) list"

definition round_point :: "point \<Rightarrow> point" where
  "round_point p = (round_dec 1 (fst p), round_dec 1 (snd p))"

definition calib_save :: "int \<times> int \<Rightarrow> calibrator \<Rightarrow> calibration_file" where
  "calib_save frame_size c = \<lparr>cf_frame_size = frame_size, cf_lot_width_mm = cb_lot_w c, cf_lot_height_mm = cb_lot_h c,
     cf_homography_src = map round_point (cb_corners c), cf_probes = map (\<lambda>(p, w). (p, round_point w)) (cb_probes c)\<rparr>"

text \<open>The loop of \<open>main\<close>: the events of the window in order, a key with the size of the current frame, until
  \<open>q\<close> or a save. The result is the calibrator and the file, if one was written.\<close>

datatype window_event = Mouse bool int int | Key char "int \<times> int"

fun calibrate :: "fitting \<Rightarrow> window_event list \<Rightarrow> calibrator \<Rightarrow> calibrator \<times> calibration_file option" where
  "calibrate fit [] c = (c, None)"
| "calibrate fit (Mouse left x y # es) c = calibrate fit es (on_mouse fit left x y c)"
| "calibrate fit (Key k frame_size # es) c =
     (if k = CHR ''q'' then (c, None)
      else if k = CHR ''u'' then calibrate fit es (undo c)
      else if k = CHR ''r'' then calibrate fit es (calib_reset c)
      else if k = CHR ''g'' then calibrate fit es (c\<lparr>cb_show_grid := \<not> cb_show_grid c\<rparr>)
      else if k = CHR ''s'' then
        (if length (cb_corners c) < 4 then calibrate fit es c else (c, Some (calib_save frame_size c)))
      else calibrate fit es c)"

section \<open>The command that starts the pipeline\<close>

record command_options =
  co_calibration :: "calibration_file option"
  co_direct_control :: bool
  co_max_throttle :: "real option"
  co_steering_sign :: "real option"

definition command_limits :: "command_options \<Rightarrow> vehicle_limits" where
  "command_limits opts =
     VehicleLimits\<lparr>vl_max_throttle := (case co_max_throttle opts of Some v \<Rightarrow> v | None \<Rightarrow> vl_max_throttle VehicleLimits),
       vl_steering_sign := (case co_steering_sign opts of Some v \<Rightarrow> v | None \<Rightarrow> vl_steering_sign VehicleLimits)\<rparr>"

definition command_config :: "command_options \<Rightarrow> pipeline_config" where
  "command_config opts =
     PipelineConfig\<lparr>pc_homography_src := map_option cf_homography_src (co_calibration opts),
       pc_lot_width_mm := (case co_calibration opts of Some f \<Rightarrow> cf_lot_width_mm f | None \<Rightarrow> 1200),
       pc_lot_height_mm := (case co_calibration opts of Some f \<Rightarrow> cf_lot_height_mm f | None \<Rightarrow> 1200),
       pc_direct_control := co_direct_control opts, pc_vehicle_limits := command_limits opts\<rparr>"

section \<open>The pipeline projects as the operator saw it\<close>

definition lot_corners :: "calibrator \<Rightarrow> point list" where
  "lot_corners c = [(0, cb_lot_h c), (cb_lot_w c, cb_lot_h c), (cb_lot_w c, 0), (0, 0)]"

lemma lot_corners_simps [simp]:
  "lot_corners (c\<lparr>cb_corners := ps\<rparr>) = lot_corners c" "lot_corners (c\<lparr>cb_probes := qs\<rparr>) = lot_corners c"
  "lot_corners (c\<lparr>cb_homography := hm\<rparr>) = lot_corners c" "lot_corners (c\<lparr>cb_show_grid := b\<rparr>) = lot_corners c"
  by (simp_all add: lot_corners_def)

definition is_pixel :: "point \<Rightarrow> bool" where
  "is_pixel p \<longleftrightarrow> fst p \<in> \<int> \<and> snd p \<in> \<int>"

definition probe_ok :: "hmat option \<Rightarrow> point \<times> point \<Rightarrow> bool" where
  "probe_ok hm probe = (case hm of None \<Rightarrow> False | Some m \<Rightarrow> warp_point m (fst probe) = Inr (snd probe))"

definition calib_inv :: "fitting \<Rightarrow> calibrator \<Rightarrow> bool" where
  "calib_inv fit c \<longleftrightarrow> length (cb_corners c) \<le> 4 \<and> list_all is_pixel (cb_corners c) \<and>
     (if length (cb_corners c) = 4 then fit (cb_corners c, lot_corners c) else None) = cb_homography c \<and>
     list_all (probe_ok (cb_homography c)) (cb_probes c)"

lemma calib_inv_no_probes: "calib_inv fit c \<Longrightarrow> cb_homography c = None \<Longrightarrow> cb_probes c = []"
  by (cases "cb_probes c") (auto simp: calib_inv_def probe_ok_def)

lemma calib_inv_new: "calib_inv fit (calibrator_new w h)"
  by (simp add: calib_inv_def calibrator_new_def)

lemma build_eq:
  "cb_homography c = None \<Longrightarrow> build fit c = c\<lparr>cb_homography := fit (cb_corners c, lot_corners c)\<rparr>"
  by (simp add: build_def lot_corners_def split: option.split)

lemma calib_inv_mouse:
  assumes "calib_inv fit c" shows "calib_inv fit (on_mouse fit left x y c)"
proof (cases "left \<and> length (cb_corners c) < 4")
  case True
  then have "cb_homography c = None" "cb_probes c = []"
    using assms calib_inv_no_probes [OF assms] by (auto simp: calib_inv_def)
  then show ?thesis using assms True
    by (simp add: calib_inv_def on_mouse_def build_eq is_pixel_def Let_def)
next
  case False
  show ?thesis
  proof (cases "cb_homography c")
    case None
    then show ?thesis using assms False by (simp add: on_mouse_def)
  next
    case (Some m)
    show ?thesis
    proof (cases "warp_point m (of_int x, of_int y)")
      case (Inr w)
      then have "probe_ok (Some m) ((of_int x, of_int y), w)" by (simp add: probe_ok_def)
      then show ?thesis using assms False Some Inr by (simp add: calib_inv_def on_mouse_def split: if_splits)
    qed (use assms False Some in \<open>simp add: on_mouse_def\<close>)
  qed
qed

lemma list_all_butlast: "list_all P xs \<Longrightarrow> list_all P (butlast xs)"
  by (auto simp: list_all_iff dest: in_set_butlastD)

lemma calib_inv_undo:
  assumes "calib_inv fit c" shows "calib_inv fit (undo c)"
  using assms by (auto simp: calib_inv_def undo_def list_all_butlast)

lemma calib_inv_keys:
  "calib_inv fit c \<Longrightarrow> calib_inv fit (calib_reset c)"
  "calib_inv fit c \<Longrightarrow> calib_inv fit (c\<lparr>cb_show_grid := b\<rparr>)"
  by (simp_all add: calib_inv_def calib_reset_def split: if_splits)

lemma calibrate_inv:
  "calib_inv fit c \<Longrightarrow> calibrate fit es c = (c', saved) \<Longrightarrow> calib_inv fit c'"
proof (induction fit es c rule: calibrate.induct)
  case (2 fit left x y es c)
  then show ?case using calib_inv_mouse [of fit c left x y] by simp
next
  case (3 fit k sz es c)
  then show ?case using calib_inv_undo [of fit c] calib_inv_keys [of fit c]
    by (simp split: if_splits)
qed simp

lemma calibrate_saves:
  "calibrate fit es c = (c', Some f) \<Longrightarrow> \<exists>sz. f = calib_save sz c' \<and> 4 \<le> length (cb_corners c')"
  by (induction fit es c rule: calibrate.induct) (auto split: if_splits)

lemma round_pixel: "is_pixel p \<Longrightarrow> round_point p = p"
  by (auto simp: is_pixel_def round_point_def elim!: Ints_cases intro: prod_eqI)

text \<open>What the command makes of a saved file: the very point pairs the tool fitted.\<close>

lemma saved_pairs:
  assumes "calib_inv fit c"
  shows "homography_pairs (command_config (opts\<lparr>co_calibration := Some (calib_save sz c)\<rparr>)) w h =
    (cb_corners c, lot_corners c)"
proof -
  have "map round_point (cb_corners c) = cb_corners c"
    using assms by (intro map_idI) (auto simp: calib_inv_def list_all_iff round_pixel)
  then show ?thesis by (simp add: homography_pairs_def command_config_def calib_save_def lot_corners_def)
qed

text \<open>C39: what the operator calibrates is what the pipeline uses. After any clicks and keys, if a file is
  saved, the pipeline started with it gets at its first frame, of whatever size, exactly the homography the tool showed, or
  fails if the tool had none; and each checked point of the file is where the pipeline puts that pixel, to a
  twentieth of a millimetre.\<close>

theorem calibration_reaches_pipeline:
  assumes "calibrate fit es (calibrator_new lot_w lot_h) = (c, Some saved)"
    and "ts_frame_size st = (w, h)" "w \<noteq> 0" "h \<noteq> 0"
  shows "init_homography (command_config (opts\<lparr>co_calibration := Some saved\<rparr>)) fit st p =
      (case cb_homography c of
         None \<Rightarrow> (p, [], Some (OrchExn ValueErr))
       | Some m \<Rightarrow> done_with (p\<lparr>pl_homography := Some m\<rparr>)) \<and>
    list_all (\<lambda>(px, shown). case cb_homography c of
        None \<Rightarrow> False
      | Some m \<Rightarrow> (case warp_now (p\<lparr>pl_homography := Some m\<rparr>) px of
          Inl e \<Rightarrow> False
        | Inr q \<Rightarrow> \<bar>fst shown - fst q\<bar> \<le> 1 / 20 \<and> \<bar>snd shown - snd q\<bar> \<le> 1 / 20)) (cf_probes saved)"
proof -
  have inv: "calib_inv fit c" using calibrate_inv [OF calib_inv_new assms(1)] .
  obtain sz where saved: "saved = calib_save sz c" and four: "length (cb_corners c) = 4"
    using calibrate_saves [OF assms(1)] inv by (auto simp: calib_inv_def)
  have "fit (cb_corners c, lot_corners c) = cb_homography c" using inv four by (simp add: calib_inv_def)
  then have "init_homography (command_config (opts\<lparr>co_calibration := Some saved\<rparr>)) fit st p =
      (case cb_homography c of
         None \<Rightarrow> (p, [], Some (OrchExn ValueErr))
       | Some m \<Rightarrow> done_with (p\<lparr>pl_homography := Some m\<rparr>))"
    using assms(2-4) unfolding init_homography_def saved saved_pairs [OF inv] by simp
  moreover have "\<bar>fst (round_point q) - fst q\<bar> \<le> 1 / 20 \<and> \<bar>snd (round_point q) - snd q\<bar> \<le> 1 / 20" for q
    using round_dec_near [of 1 "fst q"] round_dec_near [of 1 "snd q"] by (simp add: round_point_def)
  ultimately show ?thesis using inv
    by (auto simp: saved calib_save_def calib_inv_def probe_ok_def warp_now_def list_all_iff split: option.splits)
qed

definition scaling :: fitting where
  "scaling pairs = (if length (fst pairs) < 4 then None else Some ((2, 0, 0), (0, - 2, 1200), (0, 0, 1)))"

lemma calibration_reaches_pipeline_witness:
  "let es = [Mouse True 0 0, Mouse True 600 0, Mouse True 600 600, Mouse True 0 600, Mouse True 100 (50::int), Key (CHR ''s'') (600, 600)];
       saved = the (snd (calibrate scaling es (calibrator_new 1200 1200)));
       st = \<lparr>ts_frame_index = 1, ts_detections = [], ts_frame_size = (600, 600)\<rparr>;
       opts = \<lparr>co_calibration = Some saved, co_direct_control = True, co_max_throttle = None, co_steering_sign = None\<rparr>;
       p = pipeline_new PipelineConfig
   in cf_probes saved = [((100, 50), (200, 1100))] \<and>
     init_homography (command_config opts) scaling st p =
       done_with (p\<lparr>pl_homography := Some ((2, 0, 0), (0, - 2, 1200), (0, 0, 1))\<rparr>)"
proof -
  define es where "es = [Mouse True 0 0, Mouse True 600 0, Mouse True 600 600, Mouse True 0 600, Mouse True 100 50, Key (CHR ''s'') (600, 600)]"
  define c where "c = fst (calibrate scaling es (calibrator_new 1200 1200))"
  define saved where "saved = the (snd (calibrate scaling es (calibrator_new 1200 1200)))"
  have run: "calibrate scaling es (calibrator_new 1200 1200) = (c, Some saved)"
    by (simp add: es_def c_def saved_def calibrator_new_def on_mouse_def build_def scaling_def warp_point_def)
  have "cb_homography c = Some ((2, 0, 0), (0, - 2, 1200), (0, 0, 1))"
    by (simp add: es_def c_def calibrator_new_def on_mouse_def build_def scaling_def warp_point_def)
  moreover have "cf_probes saved = [((100, 50), (200, 1100))]"
    by (simp add: es_def saved_def calibrator_new_def on_mouse_def build_def scaling_def warp_point_def calib_save_def
        round_point_def round_dec_of_int [of 1 200, simplified] round_dec_of_int [of 1 1100, simplified])
  ultimately show ?thesis
    using calibration_reaches_pipeline [OF run, of "\<lparr>ts_frame_index = 1, ts_detections = [], ts_frame_size = (600, 600)\<rparr>" 600 600
        "\<lparr>co_calibration = Some saved, co_direct_control = True, co_max_throttle = None, co_steering_sign = None\<rparr>"
        "pipeline_new PipelineConfig"]
    by (simp add: Let_def es_def [symmetric] saved_def [symmetric])
qed

section \<open>The diagnosis of coordinates\<close>

text \<open>\<open>nearest_slot\<close>: the first of the nearest; \<open>SLOT_COORDINATES\<close> is not empty.\<close>

definition nearest_slot :: "point \<Rightarrow> (string \<times> real) option" where
  "nearest_slot pos = fold (closer pos) SLOT_COORDINATES None"

record debug_state =
  db_heading :: heading_estimator
  db_prev :: "int \<Rightarrow> real option"
  db_cushions :: nat

definition debug_new :: debug_state where
  "debug_new = \<lparr>db_heading = heading_new TRAJECTORY_WINDOW 30, db_prev = (\<lambda>_. None), db_cushions = 0\<rparr>"

text \<open>What is printed of a detection.\<close>

record debug_row =
  dr_px :: point
  dr_mm :: point
  dr_node :: "string option"
  dr_slot :: "(string \<times> real) option"
  dr_heading :: heading_result
  dr_cushion :: bool

definition to_map_opt :: "hmat \<Rightarrow> point option \<Rightarrow> vision_error + point option" where
  "to_map_opt h px = (case px of None \<Rightarrow> Inr None | Some q \<Rightarrow> map_sum id Some (warp_point h q))"

text \<open>\<open>front_px\<close> is a pair of numbers, true even at the origin. A track that is missing is track 0 for the headings.\<close>

definition debug_row_of ::
  "hmat \<Rightarrow> detection \<Rightarrow> point option \<Rightarrow> debug_state \<Rightarrow> vision_error + (debug_state \<times> debug_row)" where
  "debug_row_of h det front_px s = (case warp_point h (center (dt_bbox det)) of
       Inl e \<Rightarrow> Inl e
     | Inr m \<Rightarrow> (case to_map_opt h front_px of
         Inl e \<Rightarrow> Inl e
       | Inr front_mm \<Rightarrow>
           (let (hr, he) = heading_update (case dt_track_id det of Some t \<Rightarrow> t | None \<Rightarrow> 0) m front_mm (db_heading s);
                prev = (case (dt_track_id det, hr_heading_deg hr) of
                    (Some t, Some d) \<Rightarrow> (db_prev s)(t \<mapsto> d)
                  | _ \<Rightarrow> db_prev s)
            in Inr (s\<lparr>db_heading := he, db_prev := prev\<rparr>,
                 \<lparr>dr_px = center (dt_bbox det), dr_mm = m, dr_node = position_to_node m, dr_slot = nearest_slot m,
                  dr_heading = hr, dr_cushion = (front_px \<noteq> None)\<rparr>))))"

text \<open>The rows in order; an exception ends the tool, after the rows before it were printed.\<close>

fun debug_rows ::
  "hmat \<Rightarrow> (detection \<times> point option) list \<Rightarrow> debug_state \<Rightarrow> debug_state \<times> debug_row list \<times> vision_error option" where
  "debug_rows h [] s = (s, [], None)"
| "debug_rows h ((det, front) # rest) s = (case debug_row_of h det front s of
       Inl e \<Rightarrow> (s, [], Some e)
     | Inr (s1, row) \<Rightarrow> (case debug_rows h rest s1 of (s2, rows, e) \<Rightarrow> (s2, row # rows, e)))"

definition debug_frame ::
  "hmat \<Rightarrow> int \<Rightarrow> track_state \<Rightarrow> debug_state \<Rightarrow> debug_state \<times> debug_row list \<times> vision_error option" where
  "debug_frame h every st s0 =
     (let s = s0\<lparr>db_cushions := db_cushions s0 + length (labelled LABEL_CUSHION (ts_detections st))\<rparr>
      in case associate (ts_detections st) (db_prev s) (Some (heading_from_pixels (Some h))) of
           Inl e \<Rightarrow> (s, [], Some e)
         | Inr (pairs, unpaired) \<Rightarrow>
             if every = 0 then (s, [], Some ZeroDivision)
             else if ts_frame_index st mod every \<noteq> 0 then (s, [], None)
             else debug_rows h (map (\<lambda>(sc, car, cushion). (snd car, Some (center (dt_bbox (snd cushion))))) pairs @
                 map (\<lambda>car. (snd car, None)) unpaired) s)"

text \<open>A row of the diagnosis and the view the pipeline keeps of the same sighting agree, if the pipeline has no
  offset and the two estimators saw the same before.\<close>

lemma debug_shows_pipeline:
  assumes "pl_homography p = Some h" "pc_bbox_offset_mm cfg = (0, 0)" "pl_heading p = db_heading s" "dt_track_id det = Some t"
    and "debug_row_of h det front s = Inr (s', row)" "\<And>v. view_of p t = Some v \<Longrightarrow> vv_track_id v = t"
  shows "case update_view cfg t det i front p of (p', out, e) \<Rightarrow> e = None \<and> pl_heading p' = db_heading s' \<and>
    (case view_of p' t of
       None \<Rightarrow> False
     | Some v \<Rightarrow> vv_position_mm v = dr_mm row \<and> vv_node v = dr_node row \<and> vv_heading_deg v = hr_heading_deg (dr_heading row))"
proof -
  obtain m where m: "warp_point h (center (dt_bbox det)) = Inr m"
    using assms(5) by (cases "warp_point h (center (dt_bbox det))") (auto simp: debug_row_of_def)
  obtain f where f: "to_map_opt h front = Inr f"
    using assms(5) m by (cases "to_map_opt h front") (auto simp: debug_row_of_def)
  obtain hr he where u: "heading_update t m f (db_heading s) = (hr, he)" by fastforce
  have row: "dr_mm row = m" "dr_node row = position_to_node m" "dr_heading row = hr" "db_heading s' = he"
    using assms(4,5) m f u by (auto simp: debug_row_of_def)
  have "(case front of None \<Rightarrow> Inr None | Some px \<Rightarrow> map_sum id Some (warp_now (set_view v p) px)) = Inr f" for v
    using f assms(1) by (cases front) (simp_all add: to_map_opt_def warp_now_def set_view_def)
  moreover have "vv_track_id (case view_of p t of None \<Rightarrow> view_new t | Some v \<Rightarrow> v) = t"
    using assms(6) by (simp add: view_new_def split: option.split)
  moreover have "pl_heading (set_view v q) = pl_heading q" "pl_homography (set_view v q) = pl_homography q" for v q
    by (simp_all add: set_view_def)
  moreover have "warp_now p (center (dt_bbox det)) = Inr m" using m assms(1) by (simp add: warp_now_def)
  ultimately show ?thesis
    using u row assms(2,3) by (simp add: update_view_def view_set_view done_with_def Let_def)
qed

end
