(* ===== verification/Data_Tools.thy ===== *)
theory Data_Tools
  imports Camera_Loop "HOL-Library.AList"
begin

text \<open>
  The tools that prepare training data: the choice of frames of \<open>integrated/host/tools/extract_frames.py\<close> and
  the labels of \<open>tools/preannotate.py\<close>. Reading a frame of the video and measuring its sharpness are OpenCV, so
  a video is its frame count and the score of each frame that can be read; writing images is left out.
\<close>

section \<open>The sharpest frame of every section\<close>

text \<open>\<open>int(nframes * slot / count)\<close> of numbers that are not negative.\<close>

definition slot_start :: "int \<Rightarrow> int \<Rightarrow> int \<Rightarrow> int" where
  "slot_start nframes count slot = \<lfloor>of_int (nframes * slot) / (of_int count :: real)\<rfloor>"

definition candidate_index :: "int \<Rightarrow> int \<Rightarrow> int \<Rightarrow> int \<Rightarrow> int \<Rightarrow> int" where
  "candidate_index nframes count candidates slot k =
     (let lo = slot_start nframes count slot; hi = max (lo + 1) (slot_start nframes count (slot + 1))
      in min (lo + (hi - lo) * k div max candidates 1) (nframes - 1))"

text \<open>\<open>best_score\<close> starts at -1.\<close>

definition best_score :: "(int \<times> real) option \<Rightarrow> real" where
  "best_score best = (case best of None \<Rightarrow> - 1 | Some (_, b) \<Rightarrow> b)"

definition sharper :: "(int \<Rightarrow> real option) \<Rightarrow> int \<Rightarrow> (int \<times> real) option \<Rightarrow> (int \<times> real) option" where
  "sharper score i best = (case score i of
       None \<Rightarrow> best
     | Some s \<Rightarrow> if best_score best < s then Some (i, s) else best)"

definition best_of_slot :: "int \<Rightarrow> int \<Rightarrow> int \<Rightarrow> (int \<Rightarrow> real option) \<Rightarrow> int \<Rightarrow> (int \<times> real) option" where
  "best_of_slot nframes count candidates score slot =
     fold (\<lambda>k. sharper score (candidate_index nframes count candidates slot k)) [0..candidates - 1] None"

text \<open>The frames \<open>extract\<close> saves, with their scores, in the order of the file names.\<close>

definition extract_frames :: "int \<Rightarrow> int \<Rightarrow> int \<Rightarrow> (int \<Rightarrow> real option) \<Rightarrow> (int \<times> real) list" where
  "extract_frames nframes count candidates score =
     (if nframes \<le> 0 then []
      else List.map_filter (best_of_slot nframes count candidates score) [0..count - 1])"

text \<open>\<open>args.per_video or max(1, args.total // len(videos))\<close>; exactly one of the options is given, and \<open>None\<close>
  is the \<open>TypeError\<close> of \<open>--per-video 0\<close>.\<close>

definition frames_per_video :: "int option \<Rightarrow> int option \<Rightarrow> nat \<Rightarrow> int option" where
  "frames_per_video per_video in_all videos = (case per_video of
       Some n \<Rightarrow> if n \<noteq> 0 then Some n else map_option (\<lambda>t. max 1 (t div int videos)) in_all
     | None \<Rightarrow> map_option (\<lambda>t. max 1 (t div int videos)) in_all)"

lemma zdiv_less:
  assumes "0 < (b :: int)" "a < c * b" shows "a div b < c"
proof (rule ccontr)
  assume "\<not> a div b < c"
  then have "c * b \<le> a div b * b" using assms(1) by simp
  also have "a div b * b \<le> a" using assms(1) div_mult_mod_eq [of a b] pos_mod_sign [of b a] by linarith
  finally show False using assms(2) by simp
qed

lemma slot_start_div: "0 < count \<Longrightarrow> slot_start nframes count slot = nframes * slot div count"
  unfolding slot_start_def by (metis floor_divide_of_int_eq)

lemma slot_start_next:
  assumes "0 < count" "count \<le> nframes" shows "slot_start nframes count slot + 1 \<le> slot_start nframes count (slot + 1)"
proof -
  have "(nframes * slot + count) div count \<le> nframes * (slot + 1) div count"
    using assms by (intro zdiv_mono1) (simp_all add: algebra_simps)
  then show ?thesis using assms by (simp add: slot_start_div)
qed

lemma slot_start_range:
  assumes "0 < count" "0 < nframes" "0 \<le> slot" "slot < count"
  shows "0 \<le> slot_start nframes count slot \<and> slot_start nframes count slot < nframes"
proof -
  have "nframes * slot div count < nframes" using assms by (intro zdiv_less) simp_all
  then show ?thesis using assms by (simp add: slot_start_div pos_imp_zdiv_nonneg_iff)
qed

lemma candidate_in_slot:
  assumes "0 < count" "0 < nframes" "0 \<le> slot" "slot < count" "0 \<le> k" "k < candidates"
  shows "0 \<le> candidate_index nframes count candidates slot k \<and> candidate_index nframes count candidates slot k < nframes \<and>
    slot_start nframes count slot \<le> candidate_index nframes count candidates slot k \<and>
    (count \<le> nframes \<longrightarrow> candidate_index nframes count candidates slot k < slot_start nframes count (slot + 1))"
proof -
  define lo where "lo = slot_start nframes count slot"
  define hi where "hi = max (lo + 1) (slot_start nframes count (slot + 1))"
  have lo: "0 \<le> lo" "lo < nframes" using slot_start_range assms(1-4) unfolding lo_def by blast+
  have "0 < hi - lo" by (simp add: hi_def)
  then have "(hi - lo) * k div candidates < hi - lo"
    using assms(5,6) by (intro zdiv_less) (simp_all add: mult_strict_left_mono)
  moreover have "0 \<le> (hi - lo) * k div candidates"
    using assms(5,6) by (simp add: hi_def pos_imp_zdiv_nonneg_iff)
  moreover have "candidate_index nframes count candidates slot k = min (lo + (hi - lo) * k div candidates) (nframes - 1)"
    using assms(5,6) by (simp add: candidate_index_def Let_def lo_def hi_def)
  moreover have "count \<le> nframes \<Longrightarrow> hi = slot_start nframes count (slot + 1)"
    using slot_start_next [OF assms(1), of nframes slot] by (simp add: hi_def lo_def)
  ultimately show ?thesis using lo lo_def by auto
qed

lemma sharper_step:
  "(sharper score i best = best \<or> (\<exists>s. sharper score i best = Some (i, s) \<and> score i = Some s)) \<and>
    (\<forall>s. score i = Some s \<longrightarrow> s \<le> best_score (sharper score i best)) \<and> best_score best \<le> best_score (sharper score i best)"
  by (auto simp: sharper_def best_score_def split: option.split)

lemma sharper_fold:
  assumes "fold (\<lambda>k. sharper score (f k)) ks best = r"
  shows "(r = best \<or> (\<exists>k \<in> set ks. \<exists>s. r = Some (f k, s) \<and> score (f k) = Some s)) \<and>
    (\<forall>k \<in> set ks. \<forall>s. score (f k) = Some s \<longrightarrow> s \<le> best_score r) \<and> best_score best \<le> best_score r"
  using assms
proof (induction ks arbitrary: best)
  case (Cons k ks)
  have "fold (\<lambda>k. sharper score (f k)) ks (sharper score (f k) best) = r" using Cons.prems by simp
  note ih = Cons.IH [OF this]
  note step = sharper_step [of score "f k" best]
  have "r = best \<or> (\<exists>j \<in> set (k # ks). \<exists>s. r = Some (f j, s) \<and> score (f j) = Some s)"
    using ih [THEN conjunct1] step [THEN conjunct1] by force
  moreover have "s \<le> best_score r" if "score (f k) = Some s" for s
    using that step ih by (meson order_trans)
  moreover have "best_score best \<le> best_score r" using step ih by (meson order_trans)
  ultimately show ?case using ih by simp
qed simp

lemma best_of_slot_sound:
  assumes "best_of_slot nframes count candidates score slot = Some (i, s)"
  shows "(\<exists>k. 0 \<le> k \<and> k < candidates \<and> i = candidate_index nframes count candidates slot k) \<and> score i = Some s \<and>
    (\<forall>k s'. 0 \<le> k \<and> k < candidates \<and> score (candidate_index nframes count candidates slot k) = Some s' \<longrightarrow> s' \<le> s)"
proof -
  note fold = sharper_fold [where f = "candidate_index nframes count candidates slot", OF assms [unfolded best_of_slot_def]]
  have "\<exists>k \<in> set [0..candidates - 1]. i = candidate_index nframes count candidates slot k \<and> score i = Some s"
    using fold [THEN conjunct1] by auto
  moreover have "\<forall>k \<in> set [0..candidates - 1]. \<forall>s'. score (candidate_index nframes count candidates slot k) = Some s' \<longrightarrow> s' \<le> s"
    using fold by (simp add: best_score_def)
  ultimately show ?thesis by auto
qed

text \<open>Every section whose frames can be read gives a frame: scores are variances, so not negative.\<close>

lemma best_of_slot_complete:
  assumes "0 < candidates" "score (candidate_index nframes count candidates slot 0) = Some s" "0 \<le> s"
  shows "best_of_slot nframes count candidates score slot \<noteq> None"
proof
  assume none: "best_of_slot nframes count candidates score slot = None"
  have "(0 :: int) \<in> set [0..candidates - 1]" using assms(1) by simp
  then have "s \<le> best_score None"
    using sharper_fold [where f = "candidate_index nframes count candidates slot", OF none [unfolded best_of_slot_def]] assms(2)
    by blast
  then have "s \<le> - 1" by (simp add: best_score_def)
  then show False using assms(3) by simp
qed

lemma map_filter_Some_iff: "y \<in> set (List.map_filter f xs) \<longleftrightarrow> (\<exists>x \<in> set xs. f x = Some y)"
  by (force simp: List.map_filter_def)

lemma sorted_map_filter:
  assumes "sorted_wrt (\<lambda>x x'. \<forall>y y'. f x = Some y \<longrightarrow> f x' = Some y' \<longrightarrow> R y y') xs"
  shows "sorted_wrt R (List.map_filter f xs)"
  using assms
  by (induction xs) (auto simp: map_filter_Some_iff split: option.split)

text \<open>The frames saved of a video are frames of it, in rising order and so without repetition if the video has
  as many frames as are asked for, each the sharpest of the candidates of its section.\<close>

theorem extract_frames_sound:
  assumes "count \<le> nframes"
  shows "list_all (\<lambda>(i, s). 0 \<le> i \<and> i < nframes \<and> score i = Some s) (extract_frames nframes count candidates score) \<and>
    sorted_wrt (<) (map fst (extract_frames nframes count candidates score)) \<and>
    length (extract_frames nframes count candidates score) \<le> nat count"
proof -
  let ?b = "best_of_slot nframes count candidates score"
  have sound: "0 \<le> i \<and> i < nframes \<and> score i = Some s \<and> slot_start nframes count slot \<le> i \<and> i < slot_start nframes count (slot + 1)"
    if pos: "0 < nframes" and slot: "slot \<in> set [0..count - 1]" and b: "?b slot = Some (i, s)" for slot i s
  proof -
    obtain k where k: "0 \<le> k" "k < candidates" "i = candidate_index nframes count candidates slot k" "score i = Some s"
      using best_of_slot_sound [OF b] by blast
    moreover have "0 < count" "0 \<le> slot" "slot < count" using slot by auto
    ultimately show ?thesis using candidate_in_slot [OF _ pos, of count slot k candidates] assms by simp
  qed
  have mono: "slot_start nframes count (a + 1) \<le> slot_start nframes count b" if "a < b" "0 < count" "0 < nframes" for a b
  proof -
    have "nframes * (a + 1) \<le> nframes * b" using that by simp
    then show ?thesis using that(2) unfolding slot_start_div [OF that(2)] by (rule zdiv_mono1)
  qed
  have "sorted_wrt (\<lambda>x y. fst x < fst y) (List.map_filter ?b [0..count - 1])" if pos: "0 < nframes"
  proof (rule sorted_map_filter, rule sorted_wrt_mono_rel [OF _ sorted_wrt_upto])
    fix a c assume ac: "a \<in> set [0..count - 1]" "c \<in> set [0..count - 1]" "a < c"
    show "\<forall>y y'. ?b a = Some y \<longrightarrow> ?b c = Some y' \<longrightarrow> fst y < fst y'"
      using sound [OF pos ac(1)] sound [OF pos ac(2)] mono [OF ac(3)] ac pos by force
  qed
  moreover have "length (List.map_filter ?b [0..count - 1]) \<le> length [0..count - 1]"
    by (simp add: List.map_filter_def del: length_upto)
  moreover have "list_all (\<lambda>(i, s). 0 \<le> i \<and> i < nframes \<and> score i = Some s) (List.map_filter ?b [0..count - 1])" if "0 < nframes"
    using sound [OF that] by (force simp: list_all_iff map_filter_Some_iff)
  ultimately show ?thesis by (simp add: extract_frames_def sorted_wrt_map)
qed

section \<open>Labels proposed by a model\<close>

definition CLASS_CAR :: int where "CLASS_CAR = 0"

text \<open>\<open>to_yolo_line\<close>: the numbers of the line, which are printed with six decimals.\<close>

type_synonym yolo_line = "int \<times> real \<times> real \<times> real \<times> real"

definition to_yolo_line :: "bbox \<Rightarrow> int \<Rightarrow> int \<Rightarrow> int \<Rightarrow> yolo_line" where
  "to_yolo_line bbox img_w img_h cls = (case bbox of (x1, y1, x2, y2) \<Rightarrow>
     (cls, round_dec 6 (of_int (x1 + x2) / 2 / of_int img_w), round_dec 6 (of_int (y1 + y2) / 2 / of_int img_h),
      round_dec 6 (of_int (x2 - x1) / of_int img_w), round_dec 6 (of_int (y2 - y1) / of_int img_h)))"

text \<open>An image: its name, the stem of the name, by which its label file is called, and what OpenCV and the detector
  see of it: \<open>None\<close> cannot be read, else its width, height and detections.\<close>

type_synonym image_file = "string \<times> string \<times> (int \<times> int \<times> detection list) option"

record annotations =
  an_files :: "(string \<times> yolo_line list) list"
  an_total_boxes :: nat
  an_empty :: "string list"
  an_multi :: "(string \<times> nat) list"

definition annotations_new :: annotations where
  "annotations_new = \<lparr>an_files = [], an_total_boxes = 0, an_empty = [], an_multi = []\<rparr>"

definition annotate :: "image_file \<Rightarrow> annotations \<Rightarrow> annotations" where
  "annotate img a = (case img of
       (name, stem, None) \<Rightarrow> a
     | (name, stem, Some (w, h, dets)) \<Rightarrow>
         (let lines = map (\<lambda>d. to_yolo_line (dt_bbox d) w h CLASS_CAR) dets;
              a1 = a\<lparr>an_files := AList.update stem lines (an_files a), an_total_boxes := an_total_boxes a + length lines\<rparr>
          in if dets = [] then a1\<lparr>an_empty := an_empty a1 @ [name]\<rparr>
             else if 1 < length dets then a1\<lparr>an_multi := an_multi a1 @ [(name, length dets)]\<rparr>
             else a1))"

definition preannotate :: "image_file list \<Rightarrow> annotations" where
  "preannotate images = fold annotate images annotations_new"

text \<open>A box inside its image gives numbers between 0 and 1.\<close>

lemma unit_quotient: "0 \<le> (a :: real) \<Longrightarrow> a \<le> b \<Longrightarrow> 0 < b \<Longrightarrow> 0 \<le> round_dec n (a / b) \<and> round_dec n (a / b) \<le> 1"
  using round_dec_bounds [of 0 "a / b" 1 n] by (simp add: divide_le_eq)

lemma yolo_line_normalised:
  assumes "0 \<le> x1" "x1 \<le> x2" "x2 \<le> w" "0 < w" "0 \<le> y1" "y1 \<le> y2" "y2 \<le> h" "0 < h"
    and "to_yolo_line (x1, y1, x2, y2) w h cls = (c, cx, cy, bw, bh)"
  shows "c = cls \<and> list_all (\<lambda>v. 0 \<le> v \<and> v \<le> 1) [cx, cy, bw, bh]"
proof -
  have "0 \<le> of_int (x1 + x2) / (2 :: real)" "of_int (x1 + x2) / (2 :: real) \<le> of_int w" "(0 :: real) \<le> of_int (x2 - x1)"
      "of_int (x2 - x1) \<le> (of_int w :: real)" "0 \<le> of_int (y1 + y2) / (2 :: real)" "of_int (y1 + y2) / (2 :: real) \<le> of_int h"
      "(0 :: real) \<le> of_int (y2 - y1)" "of_int (y2 - y1) \<le> (of_int h :: real)" "(0 :: real) < of_int w" "(0 :: real) < of_int h"
    using assms(1-8) by simp_all
  then show ?thesis
    using assms(9) unit_quotient [of "of_int (x1 + x2) / 2" "of_int w" 6] unit_quotient [of "of_int (x2 - x1)" "of_int w" 6]
      unit_quotient [of "of_int (y1 + y2) / 2" "of_int h" 6] unit_quotient [of "of_int (y2 - y1)" "of_int h" 6]
    by (auto simp: to_yolo_line_def)
qed

text \<open>The line determines the box: its sides are found again to a millionth of the image.\<close>

lemma yolo_line_recovers:
  assumes "0 < w" "to_yolo_line (x1, y1, x2, y2) w h cls = (c, cx, cy, bw, bh)"
  shows "\<bar>(cx - bw / 2) * of_int w - of_int x1\<bar> \<le> of_int w / 10 ^ 6 \<and>
    \<bar>(cx + bw / 2) * of_int w - of_int x2\<bar> \<le> of_int w / 10 ^ 6"
proof -
  define W where "W = (of_int w :: real)"
  have W: "0 < W" using assms(1) by (simp add: W_def)
  define ex where "ex = cx - (of_int x1 + of_int x2) / 2 / W"
  define ew where "ew = bw - (of_int x2 - of_int x1) / W"
  have e: "\<bar>ex\<bar> \<le> 1 / (2 * 10 ^ 6)" "\<bar>ew\<bar> \<le> 1 / (2 * 10 ^ 6)"
    using assms(2) round_dec_near [of 6 "of_int (x1 + x2) / 2 / of_int w"] round_dec_near [of 6 "of_int (x2 - x1) / of_int w"]
    by (auto simp: to_yolo_line_def ex_def ew_def W_def)
  have "(cx - bw / 2) * W - of_int x1 = (ex - ew / 2) * W" "(cx + bw / 2) * W - of_int x2 = (ex + ew / 2) * W"
    using W by (simp_all add: ex_def ew_def field_simps)
  moreover have "\<bar>ex - ew / 2\<bar> \<le> 1 / 10 ^ 6" "\<bar>ex + ew / 2\<bar> \<le> 1 / 10 ^ 6"
    using e by (simp_all add: abs_if split: if_splits)
  then have "\<bar>ex - ew / 2\<bar> * W \<le> 1 / 10 ^ 6 * W" "\<bar>ex + ew / 2\<bar> * W \<le> 1 / 10 ^ 6 * W"
    using W by (intro mult_right_mono; simp)+
  ultimately show ?thesis using W unfolding W_def [symmetric] by (simp add: abs_mult)
qed

lemma annotate_other: "k \<noteq> fst (snd img) \<Longrightarrow> map_of (an_files (annotate img a)) k = map_of (an_files a) k"
  by (auto simp: annotate_def Let_def update_conv' split: option.split prod.split)

text \<open>Every line is a car, whatever the model found: with weights that know cushions, these are proposed as cars.\<close>

lemma annotate_classes:
  assumes "(name, stem, Some (w, h, dets)) \<in> set images" "distinct (map (\<lambda>img. fst (snd img)) images)"
  shows "\<exists>lines. map_of (an_files (preannotate images)) stem = Some lines \<and> map fst lines = replicate (length dets) CLASS_CAR"
proof -
  have keep: "k \<notin> (\<lambda>img. fst (snd img)) ` set imgs \<Longrightarrow> map_of (an_files (fold annotate imgs a)) k = map_of (an_files a) k" for k a imgs
    by (induction imgs arbitrary: a) (simp_all add: annotate_other)
  let ?lines = "map (\<lambda>d. to_yolo_line (dt_bbox d) w h CLASS_CAR) dets"
  obtain xs ys where images: "images = xs @ (name, stem, Some (w, h, dets)) # ys" using assms(1) by (meson split_list)
  have "map_of (an_files (annotate (name, stem, Some (w, h, dets)) (fold annotate xs annotations_new))) stem = Some ?lines"
    by (simp add: annotate_def Let_def update_conv')
  moreover have "stem \<notin> (\<lambda>img. fst (snd img)) ` set ys" using assms(2) by (auto simp: images)
  ultimately have "map_of (an_files (preannotate images)) stem = Some ?lines"
    by (simp add: preannotate_def images keep)
  moreover have "map fst ?lines = replicate (length dets) CLASS_CAR"
    by (induction dets) (simp_all add: to_yolo_line_def split: prod.split)
  ultimately show ?thesis by blast
qed

end
