(* ===== verification/Contract_Double.thy ===== *)
theory Contract_Double
  imports Server_Runs
begin

text \<open>
  The doubles the host's integration tests run against: \<open>MockFirmware\<close> and \<open>SpecVehicleServer\<close> of
  \<open>integrated/host/integration/backend_contract\<close> (\<open>mock_firmware_spec.py\<close>, \<open>vehicle_server_spec.py\<close>),
  what their own fail-safe guarantees, and how far the double of the server is the server of
  \<open>host/comm/server.py\<close>.
\<close>

section \<open>The firmware double\<close>

datatype fw_mode = FW_SYNCING | FW_READY | FW_REMOTE_DIRECT | FW_WAYPOINT_AUTO

datatype fw_state = FS_READY | FS_WAITING | FS_MOVING

definition DIRECT_CONTROL_TIMEOUT_S :: real where "DIRECT_CONTROL_TIMEOUT_S = 5 / 10"

record mock_firmware =
  fw_mode :: fw_mode
  fw_state :: fw_state
  fw_last_control_seq :: int
  fw_last_throttle :: real
  fw_last_steering :: real
  fw_last_direct_time :: "real option"
  fw_blocked :: bool
  fw_received_types :: "string list"
  fw_direct_history :: "(int \<times> real \<times> real) list"
  fw_rejected :: "(string \<times> string) list"

definition firmware_new :: mock_firmware where
  "firmware_new = \<lparr>fw_mode = FW_READY, fw_state = FS_READY, fw_last_control_seq = 0, fw_last_throttle = 0,
     fw_last_steering = 0, fw_last_direct_time = None, fw_blocked = False, fw_received_types = [],
     fw_direct_history = [], fw_rejected = []\<rparr>"

text \<open>\<open>FwMode(mode)\<close>; \<open>None\<close>: it raises \<open>ValueError\<close>.\<close>

definition fw_mode_of :: "string \<Rightarrow> fw_mode option" where
  "fw_mode_of mode = map_of [(''SYNCING'', FW_SYNCING), (''READY'', FW_READY), (''REMOTE_DIRECT'', FW_REMOTE_DIRECT),
     (''WAYPOINT_AUTO'', FW_WAYPOINT_AUTO)] mode"

definition fw_receives :: "string \<Rightarrow> mock_firmware \<Rightarrow> mock_firmware" where
  "fw_receives t f = f\<lparr>fw_received_types := fw_received_types f @ [t]\<rparr>"

definition fw_refuses :: "string \<Rightarrow> string \<Rightarrow> mock_firmware \<Rightarrow> mock_firmware" where
  "fw_refuses t reason f = f\<lparr>fw_rejected := fw_rejected f @ [(t, reason)]\<rparr>"

definition on_set_mode :: "string \<Rightarrow> mock_firmware \<Rightarrow> mock_firmware \<times> string" where
  "on_set_mode mode f0 =
     (let f = fw_receives ''SET_MODE'' f0
      in if fw_state f = FS_MOVING \<or> fw_blocked f then (fw_refuses ''SET_MODE'' ''INVALID_STATE'' f, ''INVALID_STATE'')
         else (case fw_mode_of mode of
             None \<Rightarrow> (fw_refuses ''SET_MODE'' ''UNKNOWN_MODE'' f, ''INVALID_STATE'')
           | Some m \<Rightarrow>
               (let f1 = f\<lparr>fw_mode := m, fw_last_control_seq := 0, fw_last_throttle := 0, fw_last_steering := 0,
                  fw_last_direct_time := None\<rparr>
                in (if m = FW_REMOTE_DIRECT then f1\<lparr>fw_state := FS_READY\<rparr> else f1, ''ACCEPTED''))))"

definition on_direct_control :: "int \<Rightarrow> real \<Rightarrow> real \<Rightarrow> real \<Rightarrow> mock_firmware \<Rightarrow> mock_firmware \<times> string" where
  "on_direct_control control_seq throttle steering now f0 =
     (let f = fw_receives ''DIRECT_CONTROL'' f0
      in if fw_mode f \<noteq> FW_REMOTE_DIRECT then (fw_refuses ''DIRECT_CONTROL'' ''NOT_REMOTE_DIRECT'' f, ''IGNORED'')
         else if control_seq \<le> fw_last_control_seq f
         then (fw_refuses ''DIRECT_CONTROL'' ''SEQ_NOT_INCREASING'' f, ''IGNORED'')
         else
           let f1 = f\<lparr>fw_last_control_seq := control_seq, fw_last_throttle := throttle, fw_last_steering := steering,
                  fw_last_direct_time := Some now,
                  fw_direct_history := fw_direct_history f @ [(control_seq, throttle, steering)]\<rparr>
           in (if throttle \<noteq> 0 then f1\<lparr>fw_state := FS_MOVING\<rparr>
               else if fw_state f1 = FS_MOVING then f1\<lparr>fw_state := FS_READY\<rparr> else f1, ''APPLIED''))"

definition on_waypoint :: "mock_firmware \<Rightarrow> mock_firmware \<times> string" where
  "on_waypoint f0 =
     (let f = fw_receives ''WAYPOINT'' f0
      in if fw_mode f \<noteq> FW_WAYPOINT_AUTO then (fw_refuses ''WAYPOINT'' ''NOT_WAYPOINT_AUTO'' f, ''INVALID_STATE'')
         else (f\<lparr>fw_state := FS_WAITING\<rparr>, ''ACCEPTED''))"

definition on_go :: "mock_firmware \<Rightarrow> mock_firmware \<times> string" where
  "on_go f = (fw_receives ''GO'' f, ''HOLD'')"

definition tick_timeout :: "real \<Rightarrow> mock_firmware \<Rightarrow> mock_firmware \<times> string option" where
  "tick_timeout now f = (case fw_last_direct_time f of
       Some t \<Rightarrow> (if fw_mode f = FW_REMOTE_DIRECT \<and> fw_state f = FS_MOVING \<and> DIRECT_CONTROL_TIMEOUT_S < now - t
         then (f\<lparr>fw_state := FS_WAITING, fw_last_throttle := 0, fw_last_steering := 0\<rparr>, Some ''SAFE_STOP'')
         else (f, None))
     | None \<Rightarrow> (f, None))"

section \<open>The server double\<close>

definition SPEC_NEGATIVE_RESULTS :: "string list" where
  "SPEC_NEGATIVE_RESULTS = [''REJECTED'', ''INVALID_STATE'', ''HOLD'', ''STALE_ROUTE'', ''TARGET_NOT_LOADED'',
     ''SEQ_CONFLICT'', ''STALE_SEQ'']"

record car_state =
  cs_session_id :: string
  cs_control_seq :: int
  cs_reliable_seq :: int
  cs_latest_throttle :: real
  cs_latest_steering :: real
  cs_has_control :: bool

text \<open>The callbacks that are set; the known ids are kept and never read. \<open>sp_pending\<close> is \<open>_pending_result\<close>.\<close>

record spec_server =
  sp_firmware :: mock_firmware
  sp_cars :: "int \<Rightarrow> car_state option"
  sp_on_rejected :: bool
  sp_on_result :: bool
  sp_direct_control_enabled :: bool
  sp_mode_log :: "(int \<times> string \<times> int) list"
  sp_pending :: "(int \<times> int \<times> string) option"

datatype spec_out = Rejected int string int | Result int int string

definition register_car :: "string \<Rightarrow> int \<Rightarrow> spec_server \<Rightarrow> spec_server" where
  "register_car sid car_id sp = (case sp_cars sp car_id of
       Some _ \<Rightarrow> sp
     | None \<Rightarrow> sp\<lparr>sp_cars := (sp_cars sp)(car_id \<mapsto> \<lparr>cs_session_id = sid, cs_control_seq = 0, cs_reliable_seq = 0,
         cs_latest_throttle = 0, cs_latest_steering = 0, cs_has_control = False\<rparr>)\<rparr>)"

definition spec_send_set_mode :: "string \<Rightarrow> int \<Rightarrow> string \<Rightarrow> spec_server \<Rightarrow> spec_server \<times> int" where
  "spec_send_set_mode sid car_id mode sp0 =
     (let sp = register_car sid car_id sp0; s = the (sp_cars sp car_id); n = cs_reliable_seq s + 1
      in (sp\<lparr>sp_cars := (sp_cars sp)(car_id \<mapsto> s\<lparr>cs_reliable_seq := n\<rparr>), sp_mode_log := sp_mode_log sp @ [(car_id, mode, n)],
             sp_pending := Some (car_id, n, mode)\<rparr>, n))"

definition deliver_command_result :: "int \<Rightarrow> int \<Rightarrow> string \<Rightarrow> spec_server \<Rightarrow> spec_out list" where
  "deliver_command_result car_id seq result sp =
     (if result \<in> set SPEC_NEGATIVE_RESULTS \<and> sp_on_rejected sp then [Rejected car_id result seq] else []) @
     (if sp_on_result sp then [Result car_id seq result] else [])"

text \<open>\<open>None\<close>: nothing was sent, and unpacking \<open>_pending_result\<close> raises.\<close>

definition auto_accept_set_mode :: "spec_server \<Rightarrow> (spec_server \<times> spec_out list \<times> string) option" where
  "auto_accept_set_mode sp = (case sp_pending sp of
       None \<Rightarrow> None
     | Some (cid, seq, mode) \<Rightarrow>
         (let (f, result) = on_set_mode mode (sp_firmware sp); sp' = sp\<lparr>sp_firmware := f\<rparr>
          in Some (sp', deliver_command_result cid seq result sp', result)))"

definition spec_push_control :: "int \<Rightarrow> real \<Rightarrow> real \<Rightarrow> spec_server \<Rightarrow> spec_server" where
  "spec_push_control car_id throttle steering sp = (case sp_cars sp car_id of
       None \<Rightarrow> sp
     | Some s \<Rightarrow> sp\<lparr>sp_cars := (sp_cars sp)(car_id \<mapsto> s\<lparr>cs_control_seq := cs_control_seq s + 1,
         cs_latest_throttle := throttle, cs_latest_steering := steering, cs_has_control := True\<rparr>)\<rparr>)"

definition spec_stop_control :: "int \<Rightarrow> spec_server \<Rightarrow> spec_server" where
  "spec_stop_control car_id = spec_push_control car_id 0 0"

definition spec_tick :: "int \<Rightarrow> real \<Rightarrow> spec_server \<Rightarrow> spec_server" where
  "spec_tick car_id now sp =
     (if \<not> sp_direct_control_enabled sp then sp
      else (case sp_cars sp car_id of
          None \<Rightarrow> sp
        | Some s \<Rightarrow> if \<not> cs_has_control s then sp
            else sp\<lparr>sp_firmware := fst (on_direct_control (cs_control_seq s) (cs_latest_throttle s) (cs_latest_steering s)
              now (sp_firmware sp))\<rparr>))"

section \<open>The double stops an unattended car\<close>

datatype spec_event = E_register int | E_set_mode int string | E_accept | E_push int real real | E_stop int
  | E_enable bool | E_tick int real | E_timeout real | E_waypoint | E_go | E_block bool

fun spec_step :: "(int \<Rightarrow> string) \<Rightarrow> spec_server \<Rightarrow> spec_event \<Rightarrow> spec_server" where
  "spec_step sid sp (E_register c) = register_car (sid c) c sp"
| "spec_step sid sp (E_set_mode c mode) = fst (spec_send_set_mode (sid c) c mode sp)"
| "spec_step sid sp E_accept = (case auto_accept_set_mode sp of None \<Rightarrow> sp | Some (sp', _) \<Rightarrow> sp')"
| "spec_step sid sp (E_push c throttle steering) = spec_push_control c throttle steering sp"
| "spec_step sid sp (E_stop c) = spec_stop_control c sp"
| "spec_step sid sp (E_enable b) = sp\<lparr>sp_direct_control_enabled := b\<rparr>"
| "spec_step sid sp (E_tick c now) = spec_tick c now sp"
| "spec_step sid sp (E_timeout now) = sp\<lparr>sp_firmware := fst (tick_timeout now (sp_firmware sp))\<rparr>"
| "spec_step sid sp E_waypoint = sp\<lparr>sp_firmware := fst (on_waypoint (sp_firmware sp))\<rparr>"
| "spec_step sid sp E_go = sp\<lparr>sp_firmware := fst (on_go (sp_firmware sp))\<rparr>"
| "spec_step sid sp (E_block b) = sp\<lparr>sp_firmware := (sp_firmware sp)\<lparr>fw_blocked := b\<rparr>\<rparr>"

definition spec_new :: spec_server where
  "spec_new = \<lparr>sp_firmware = firmware_new, sp_cars = (\<lambda>_. None), sp_on_rejected = True, sp_on_result = True,
     sp_direct_control_enabled = False, sp_mode_log = [], sp_pending = None\<rparr>"

definition fw_ok :: "mock_firmware \<Rightarrow> bool" where
  "fw_ok f \<longleftrightarrow> (fw_state f = FS_MOVING \<longleftrightarrow> fw_last_throttle f \<noteq> 0) \<and>
     (fw_state f = FS_MOVING \<longrightarrow> fw_mode f = FW_REMOTE_DIRECT \<and> fw_last_direct_time f \<noteq> None)"

lemma fw_ok_set_mode: "fw_ok f \<Longrightarrow> fw_ok (fst (on_set_mode mode f))"
  by (auto simp: on_set_mode_def fw_ok_def fw_receives_def fw_refuses_def Let_def split: option.splits)

lemma fw_ok_direct: "fw_ok f \<Longrightarrow> fw_ok (fst (on_direct_control n thr str now f))"
  by (auto simp: on_direct_control_def fw_ok_def fw_receives_def fw_refuses_def Let_def)

lemma fw_ok_timeout: "fw_ok f \<Longrightarrow> fw_ok (fst (tick_timeout now f))"
  by (auto simp: tick_timeout_def fw_ok_def split: option.splits)

lemma fw_ok_waypoint: "fw_ok f \<Longrightarrow> fw_ok (fst (on_waypoint f))"
  by (auto simp: on_waypoint_def fw_ok_def fw_receives_def fw_refuses_def Let_def)

interpretation dbl: step_system "spec_step sid" "\<lambda>sp. fw_ok (sp_firmware sp)" for sid
proof
  fix sid and sp :: spec_server and e assume ok: "fw_ok (sp_firmware sp)"
  show "fw_ok (sp_firmware (spec_step sid sp e))"
  proof (cases e)
    case E_accept
    then show ?thesis
    proof (cases "sp_pending sp")
      case (Some p)
      then have "sp_firmware (spec_step sid sp e) = fst (on_set_mode (snd (snd p)) (sp_firmware sp))"
        by (simp add: E_accept auto_accept_set_mode_def split_def Let_def)
      then show ?thesis using fw_ok_set_mode [OF ok] by simp
    qed (use ok in \<open>simp add: auto_accept_set_mode_def\<close>)
  next
    case (E_go)
    then show ?thesis using ok by (simp add: on_go_def fw_receives_def fw_ok_def)
  next
    case (E_block b)
    then show ?thesis using ok by (simp add: fw_ok_def)
  qed (use ok in \<open>simp_all add: register_car_def spec_send_set_mode_def Let_def spec_push_control_def spec_stop_control_def
        spec_tick_def fw_ok_direct fw_ok_timeout fw_ok_waypoint split: option.split\<close>)
qed

text \<open>The double of the firmware is fail-safe: whatever was sent, it moves only in the direct mode and only
  with a nonzero throttle, and right after its timeout check at time \<open>now\<close> it moves only if it applied a
  control message at most half a second ago.\<close>

theorem double_fails_safe:
  "let f = sp_firmware (foldl (spec_step sid) spec_new (es @ [E_timeout now]))
   in (fw_state f = FS_MOVING \<longleftrightarrow> fw_last_throttle f \<noteq> 0) \<and>
      (fw_state f \<noteq> FS_MOVING \<or> fw_mode f = FW_REMOTE_DIRECT \<and>
         now - the (fw_last_direct_time f) \<le> 1 / 2)"
proof -
  let ?f = "sp_firmware (foldl (spec_step sid) spec_new es)"
  have "fw_ok ?f" by (rule dbl.run_inv) (simp add: spec_new_def firmware_new_def fw_ok_def)
  then show ?thesis
    by (auto simp: Let_def tick_timeout_def fw_ok_def DIRECT_CONTROL_TIMEOUT_S_def split: option.splits)
qed

section \<open>The double of the server and the server\<close>

text \<open>The calls the host's integration makes on the stream of a car.\<close>

datatype stream_call = Push real real | Stop

fun prod_call :: "int \<Rightarrow> vehicle_server \<Rightarrow> stream_call \<Rightarrow> vehicle_server" where
  "prod_call c st (Push throttle steering) = push_control c (Fin throttle) (Fin steering) st"
| "prod_call c st Stop = stop_control c st"

fun double_call :: "int \<Rightarrow> spec_server \<Rightarrow> stream_call \<Rightarrow> spec_server" where
  "double_call c sp (Push throttle steering) = spec_push_control c throttle steering sp"
| "double_call c sp Stop = spec_stop_control c sp"

text \<open>The session of the car on the server stands for the car of the double.\<close>

definition stands_for :: "int \<Rightarrow> nat \<Rightarrow> vehicle_session \<Rightarrow> vehicle_server \<Rightarrow> spec_server \<Rightarrow> bool" where
  "stands_for c r s st sp \<longleftrightarrow> active st c = Some (r, s) \<and>
     (case sp_cars sp c of
        None \<Rightarrow> False
      | Some cs \<Rightarrow> vs_control_seq s = cs_control_seq cs \<and>
          vs_latest_control s = (if cs_has_control cs
            then Some (make_direct_control c (vs_session_id s) (cs_control_seq cs) (Fin (cs_latest_throttle cs)) (Fin (cs_latest_steering cs)))
            else None))"

lemma put_active: "active st c = Some (r, s) \<Longrightarrow> active (put r s' st) c = Some (r, s')"
  by (auto simp: active_def put_def split: option.splits)

lemma stands_for_push:
  assumes "stands_for c r s st sp"
  shows "\<exists>s'. stands_for c r s' (push_control c (Fin thr) (Fin str) st) (spec_push_control c thr str sp) \<and>
    vs_session_id s' = vs_session_id s"
proof -
  obtain cs where cs: "sp_cars sp c = Some cs" "vs_control_seq s = cs_control_seq cs" and a: "active st c = Some (r, s)"
    using assms by (auto simp: stands_for_def split: option.splits)
  let ?s = "s\<lparr>vs_control_seq := vs_control_seq s + 1,
    vs_latest_control := Some (make_direct_control c (vs_session_id s) (vs_control_seq s + 1) (Fin thr) (Fin str))\<rparr>"
  have "push_control c (Fin thr) (Fin str) st = put r ?s st" by (simp add: push_control_def a Let_def)
  then show ?thesis
    using put_active [OF a] cs
    by (intro exI [of _ ?s]) (simp add: stands_for_def spec_push_control_def)
qed

lemma stands_for_call:
  assumes "stands_for c r s st sp"
  shows "\<exists>s'. stands_for c r s' (prod_call c st call) (double_call c sp call) \<and> vs_session_id s' = vs_session_id s"
  using stands_for_push [OF assms] by (cases call) (simp_all add: stop_control_def spec_stop_control_def)

text \<open>C38: on the control stream the server refines its double. After any calls of \<open>push_control\<close> and
  \<open>stop_control\<close> on a freshly opened session and a freshly registered car, the two hold the same number, and
  the message the server repeats is the encoding of exactly the values the double would hand its firmware.\<close>

theorem server_refines_double:
  assumes "active st c = Some (r, s)" "vs_control_seq s = 0" "vs_latest_control s = None" "sp_cars sp c = None"
  shows "\<exists>s' cs. active (foldl (prod_call c) st calls) c = Some (r, s') \<and>
    sp_cars (foldl (double_call c) (register_car (vs_session_id s) c sp) calls) c = Some cs \<and>
    vs_control_seq s' = cs_control_seq cs \<and> (cs_has_control cs \<longleftrightarrow> calls \<noteq> []) \<and>
    vs_latest_control s' = (if cs_has_control cs
      then Some (make_direct_control c (vs_session_id s) (cs_control_seq cs) (Fin (cs_latest_throttle cs)) (Fin (cs_latest_steering cs)))
      else None)"
proof -
  have run: "\<exists>s'. stands_for c r s' (foldl (prod_call c) st0 calls) (foldl (double_call c) sp0 calls) \<and>
      vs_session_id s' = vs_session_id s0" if "stands_for c r s0 st0 sp0" for s0 st0 sp0
    using that
  proof (induction calls arbitrary: s0 st0 sp0)
    case (Cons call calls)
    then show ?case using stands_for_call [OF Cons.prems, of call] by (metis foldl_Cons)
  qed auto
  have has: "(\<exists>cs. sp_cars (foldl (double_call c) sp0 calls) c = Some cs \<and> (cs_has_control cs \<longleftrightarrow> cs_has_control cs0 \<or> calls \<noteq> []))"
    if "sp_cars sp0 c = Some cs0" for sp0 cs0
    using that
  proof (induction calls arbitrary: sp0 cs0)
    case (Cons call calls)
    obtain cs1 where "sp_cars (double_call c sp0 call) c = Some cs1" "cs_has_control cs1"
      using Cons.prems by (cases call) (simp_all add: spec_stop_control_def spec_push_control_def)
    then show ?case using Cons.IH by fastforce
  qed simp
  let ?sp = "register_car (vs_session_id s) c sp"
  have "stands_for c r s st ?sp" using assms by (simp add: stands_for_def register_car_def)
  then obtain s' where s': "stands_for c r s' (foldl (prod_call c) st calls) (foldl (double_call c) ?sp calls)"
      "vs_session_id s' = vs_session_id s"
    using run by blast
  obtain cs where "sp_cars (foldl (double_call c) ?sp calls) c = Some cs" "cs_has_control cs \<longleftrightarrow> calls \<noteq> []"
    using has [of ?sp] assms(4) by (auto simp: register_car_def)
  then show ?thesis using s' by (auto simp: stands_for_def)
qed

lemma server_refines_double_witness:
  "\<exists>s' cs. active (foldl (prod_call 1)
        (put 0 (new_session 1 ''S1'' ''B1'' 0 (reliable_new 1) 0) (server_new [])\<lparr>srv_sessions := [(1, 0)]\<rparr>) [Push (1 / 2) 0, Stop]) 1
      = Some (0, s') \<and>
    sp_cars (foldl (double_call 1) (register_car ''S1'' 1 spec_new) [Push (1 / 2) 0, Stop]) 1 = Some cs \<and>
    vs_control_seq s' = cs_control_seq cs \<and> cs_has_control cs"
  using server_refines_double [of "put 0 (new_session 1 ''S1'' ''B1'' 0 (reliable_new 1) 0) (server_new [])\<lparr>srv_sessions := [(1, 0)]\<rparr>"
      1 0 "new_session 1 ''S1'' ''B1'' 0 (reliable_new 1) 0" spec_new "[Push (1 / 2) 0, Stop]"]
  by (simp add: active_def put_def server_new_def new_session_def spec_new_def del: prod_call.simps double_call.simps foldl.simps) blast

text \<open>On results the two differ: the double reports a rejection before the result, the server after it, and
  six of the server's negative results are no rejection for the double.\<close>

lemma results_the_double_misses:
  "set NEGATIVE_RESULTS - set SPEC_NEGATIVE_RESULTS =
     {''SESSION_MISMATCH'', ''TARGET_MISMATCH'', ''NEW_ROUTE_REQUIRED'', ''POSE_REQUIRED'', ''LOCKED_STATE'', ''PROTOCOL_ERROR''}"
  by (auto simp: NEGATIVE_RESULTS_def TERMINAL_RESULTS_def SPEC_NEGATIVE_RESULTS_def)

end
