(* ===== verification/Example_Session.thy ===== *)
theory Example_Session
  imports Pose_Control Py_Json
begin

text \<open>
  The integration example of the pose controller, \<open>integrated/host/controller/adapter_example.py\<close>: reading
  poses and waypoints from objects of the backend by their attributes, the wire form of a command, and the
  sample control session. An attribute an object lacks is \<open>None\<close>.
\<close>

record backend_object =
  bo_x_mm :: "real option"
  bo_y_mm :: "real option"
  bo_x :: "real option"
  bo_y :: "real option"
  bo_heading_deg :: "real option"
  bo_valid :: "bool option"
  bo_target_heading_deg :: "real option"
  bo_speed_cm_s :: "real option"
  bo_position_tolerance_cm :: "real option"
  bo_heading_tolerance_deg :: "real option"
  bo_heading_required :: "bool option"
  bo_route_id :: "int option"
  bo_waypoint_id :: "int option"
  bo_phase :: "string option"

datatype attribute_error = AttributeError string

definition getattr_or :: "'a option \<Rightarrow> 'a \<Rightarrow> 'a" where
  "getattr_or attr dflt = (case attr of Some v \<Rightarrow> v | None \<Rightarrow> dflt)"

definition example_pose :: "backend_object \<Rightarrow> real \<Rightarrow> attribute_error + pose" where
  "example_pose obj now = (case (bo_x_mm obj, bo_y_mm obj) of
       (Some x, Some y) \<Rightarrow> Inr \<lparr>x_mm = x, y_mm = y, heading_deg = bo_heading_deg obj, timestamp = now,
         valid = getattr_or (bo_valid obj) True\<rparr>
     | (None, _) \<Rightarrow> Inl (AttributeError ''x_mm'')
     | (_, None) \<Rightarrow> Inl (AttributeError ''y_mm''))"

text \<open>\<open>getattr(obj, "x_mm", None)\<close>, and \<open>obj.x\<close> when that is missing.\<close>

definition coordinate :: "string \<Rightarrow> real option \<Rightarrow> real option \<Rightarrow> attribute_error + real" where
  "coordinate name first second = (case first of
       Some v \<Rightarrow> Inr v
     | None \<Rightarrow> (case second of Some v \<Rightarrow> Inr v | None \<Rightarrow> Inl (AttributeError name)))"

definition example_waypoint :: "backend_object \<Rightarrow> attribute_error + host_waypoint" where
  "example_waypoint obj = (case coordinate ''x'' (bo_x_mm obj) (bo_x obj) of
       Inl e \<Rightarrow> Inl e
     | Inr x \<Rightarrow> (case coordinate ''y'' (bo_y_mm obj) (bo_y obj) of
         Inl e \<Rightarrow> Inl e
       | Inr y \<Rightarrow> Inr \<lparr>wp_x_mm = x, wp_y_mm = y, target_heading_deg = bo_target_heading_deg obj,
           speed_cm_s = getattr_or (bo_speed_cm_s obj) 12,
           position_tolerance_cm = getattr_or (bo_position_tolerance_cm obj) 8,
           heading_tolerance_deg = getattr_or (bo_heading_tolerance_deg obj) 30,
           heading_required = getattr_or (bo_heading_required obj) False, is_final = False,
           wp_route_id = bo_route_id obj, wp_waypoint_id = bo_waypoint_id obj, wp_phase = bo_phase obj\<rparr>))"

definition command_to_direct_control :: "control_command \<Rightarrow> int \<Rightarrow> pydict" where
  "command_to_direct_control cmd control_seq =
     [(''type'', JStr ''DIRECT_CONTROL''), (''control_seq'', JInt control_seq),
      (''throttle'', JFloat (Fin (round_dec 4 (cc_throttle cmd)))),
      (''steering'', JFloat (Fin (round_dec 4 (cc_steering cmd))))]"

definition zero_direct_control :: "int \<Rightarrow> pydict" where
  "zero_direct_control control_seq =
     [(''type'', JStr ''DIRECT_CONTROL''), (''control_seq'', JInt control_seq),
      (''throttle'', JFloat (Fin 0)), (''steering'', JFloat (Fin 0))]"

record example_session =
  es_config :: controller_config
  es_controller :: pd_state
  es_seq :: int

definition example_new :: "controller_config \<Rightarrow> example_session" where
  "example_new cfg = \<lparr>es_config = cfg, es_controller = pd_reset, es_seq = 0\<rparr>"

definition example_step ::
  "pose option \<Rightarrow> host_waypoint \<Rightarrow> bool \<Rightarrow> real \<Rightarrow> example_session \<Rightarrow> example_session \<times> pydict" where
  "example_step pose_or_none wp allow_drive now s =
     (let n = es_seq s + 1; s1 = s\<lparr>es_seq := n\<rparr>
      in (case pose_or_none of
            None \<Rightarrow> (s1, zero_direct_control n)
          | Some p \<Rightarrow>
              (let (cmd, st) = pose_compute (es_config s) (es_controller s) p wp allow_drive now
               in (s1\<lparr>es_controller := st\<rparr>, command_to_direct_control cmd n))))"

text \<open>One call: what the caller passes.\<close>

record example_call =
  ec_pose :: "pose option"
  ec_waypoint :: host_waypoint
  ec_allow :: bool
  ec_now :: real

definition example_call_step :: "example_session \<Rightarrow> example_call \<Rightarrow> example_session \<times> pydict list" where
  "example_call_step s c =
     (let (s', m) = example_step (ec_pose c) (ec_waypoint c) (ec_allow c) (ec_now c) s in (s', [m]))"

interpretation example: seq_emitter example_call_step es_seq "\<lambda>m. as_int (dget m ''control_seq'')"
proof -
  have step: "es_seq s' = es_seq s + 1 \<and> (\<exists>m. out = [m] \<and> dget m ''control_seq'' = JInt (es_seq s + 1))"
    if "example_call_step s c = (s', out)" for s c s' out
    using that by (auto simp: example_call_step_def example_step_def zero_direct_control_def
        command_to_direct_control_def Let_def split: option.splits prod.splits)
  show "seq_emitter example_call_step es_seq (\<lambda>m. as_int (dget m ''control_seq''))"
    by unfold_locales (use step in \<open>force simp: List.map_filter_def\<close>)+
qed

text \<open>The numbers of a session rise, and a message that is not zero was computed from a fresh pose with driving
  allowed and outside the braking radius.\<close>

lemma example_numbers_rise:
  "run_out example_call_step s cs = (s', ms) \<Longrightarrow>
     sorted_wrt (<) (List.map_filter (\<lambda>m. as_int (dget m ''control_seq'')) ms)"
  by (rule example.run_sorted)

lemma example_moves_only_fresh:
  assumes "example_call_step s c = (s', [m])"
    and "dget m ''throttle'' \<noteq> JFloat (Fin 0) \<or> dget m ''steering'' \<noteq> JFloat (Fin 0)"
  shows "\<exists>p. ec_pose c = Some p \<and> fresh_pose (es_config s) p (ec_now c) \<and> ec_allow c \<and>
    \<not> within_brake_radius (es_config s) p (ec_waypoint c)"
proof -
  obtain p where p: "ec_pose c = Some p"
    using assms by (cases "ec_pose c") (auto simp: example_call_step_def example_step_def zero_direct_control_def Let_def)
  obtain cmd st where pc: "pose_compute (es_config s) (es_controller s) p (ec_waypoint c) (ec_allow c) (ec_now c) = (cmd, st)"
    by fastforce
  have "\<not> is_stopped cmd"
  proof
    assume "is_stopped cmd"
    moreover have "round_dec 4 0 = 0" using round_dec_of_int [of 4 0] by simp
    ultimately show False
      using assms p pc by (auto simp: example_call_step_def example_step_def command_to_direct_control_def is_stopped_def Let_def)
  qed
  then show ?thesis using pose_compute_moving pc p by (metis fst_conv)
qed

end
