(* ===== verification/Console_Server.thy ===== *)
theory Console_Server
  imports Bridge_Protocol
begin

text \<open>
  The console test server of the firmware's third day, \<open>integrated/esp32_main/tools/archive/day3_tcp_server.py\<close>:
  one global state under a lock, written by the console, by the receiver of every connection, by the acceptor
  and by the heartbeat. A step is what one thread does under the lock or with one \<open>sendall\<close>, so the threads
  interleave where they can; the console's next step and the messages other threads are about to send are part
  of the state. A line is kept as the object it is the compact JSON of; printing is left out, and with it the
  signature of the last STATUS, which only decides what is printed.
\<close>

definition CAR_ID :: string where "CAR_ID = ''CAR_01''"
definition DAY3_VERSION :: int where "DAY3_VERSION = 1"

datatype draft = D_waypoint string int int string | D_go string int int | D_wait string int int string
  | D_stop string | D_reset string

datatype console = Idle | Choose_target string bool bool | Take_number draft | Transmit pydict bool | Transmit_raw string
  | Remember pydict

record tool_state =
  ts_connection :: "nat option"
  ts_session_id :: string
  ts_boot_id :: string
  ts_next_seq :: int
  ts_heartbeat_seq :: int
  ts_heartbeat_enabled :: bool
  ts_route_id :: int
  ts_waypoint_id :: int
  ts_phase :: string
  ts_last_reliable :: "pydict option"
  ts_stopped :: bool
  ts_console :: console
  ts_waiting :: "pydict list"

definition tool_new :: tool_state where
  "tool_new = \<lparr>ts_connection = None, ts_session_id = '''', ts_boot_id = '''', ts_next_seq = 1, ts_heartbeat_seq = 1,
     ts_heartbeat_enabled = True, ts_route_id = 1, ts_waypoint_id = 1, ts_phase = ''CRUISE'', ts_last_reliable = None,
     ts_stopped = False, ts_console = Idle, ts_waiting = []\<rparr>"

datatype tool_out = Tx nat pydict | Tx_raw nat string | Closed nat

section \<open>Messages\<close>

definition tool_msg :: "string \<Rightarrow> string \<Rightarrow> pydict" where
  "tool_msg t sid = [(''version'', JInt DAY3_VERSION), (''type'', JStr t), (''car_id'', JStr CAR_ID), (''session_id'', JStr sid)]"

fun draft_payload :: "draft \<Rightarrow> int \<Rightarrow> pydict" where
  "draft_payload (D_waypoint sid route wp phase) seq = tool_msg ''WAYPOINT'' sid @
     [(''seq'', JInt seq), (''route_id'', JInt route), (''waypoint_id'', JInt wp), (''phase'', JStr phase),
      (''x_cm'', JFloat (Fin 50)), (''y_cm'', JFloat (Fin 50)), (''target_heading_deg'', JFloat (Fin 0)),
      (''motion_direction'', JStr ''FORWARD''), (''arrival_mode'', JStr ''STOP''), (''speed_cm_s'', JFloat (Fin 5)),
      (''position_tolerance_cm'', JFloat (Fin 5)), (''heading_tolerance_deg'', JFloat (Fin 12)),
      (''heading_required'', JBool False), (''is_final'', JBool (phase = ''FINAL''))]"
| "draft_payload (D_go sid route wp) seq = tool_msg ''GO'' sid @
     [(''seq'', JInt seq), (''route_id'', JInt route), (''waypoint_id'', JInt wp)]"
| "draft_payload (D_wait sid route wp reason) seq = tool_msg ''WAIT'' sid @
     [(''seq'', JInt seq), (''route_id'', JInt route), (''waypoint_id'', JInt wp), (''reason'', JStr reason)]"
| "draft_payload (D_stop sid) seq = tool_msg ''STOP'' sid @ [(''seq'', JInt seq), (''reason'', JStr ''EMERGENCY'')]"
| "draft_payload (D_reset sid) seq = tool_msg ''RESET'' sid @ [(''seq'', JInt seq)]"

section \<open>The console\<close>

text \<open>\<open>send_conflict\<close>: the number of the last reliable command with another logical payload.\<close>

definition conflict_payload :: "tool_state \<Rightarrow> pydict \<Rightarrow> pydict" where
  "conflict_payload s payload =
     (if dget payload ''type'' = JStr ''GO'' then dset payload ''waypoint_id'' (JInt (ts_waypoint_id s + 999))
      else [(''version'', JInt DAY3_VERSION), (''type'', JStr ''GO''), (''car_id'', JStr CAR_ID),
        (''session_id'', dget payload ''session_id''), (''seq'', dget payload ''seq''),
        (''route_id'', JInt (ts_route_id s)), (''waypoint_id'', JInt (ts_waypoint_id s))])"

definition with_session :: "tool_state \<Rightarrow> console \<Rightarrow> tool_state" where
  "with_session s next = (if ts_session_id s = '''' then s else s\<lparr>ts_console := next\<rparr>)"

definition with_last :: "tool_state \<Rightarrow> (pydict \<Rightarrow> pydict) \<Rightarrow> tool_state" where
  "with_last s f = (case ts_last_reliable s of None \<Rightarrow> s | Some p \<Rightarrow> s\<lparr>ts_console := Transmit (f p) False\<rparr>)"

text \<open>What a command does up to the first release of the lock; the rest of the command is the console's next
  step. The target of a GO or a WAIT is read together with the session, that of a WAYPOINT later.\<close>

definition tool_send_waypoint :: "bool \<Rightarrow> bool \<Rightarrow> tool_state \<Rightarrow> tool_state" where
  "tool_send_waypoint new_route next_waypoint s = with_session s (Choose_target (ts_session_id s) new_route next_waypoint)"

definition tool_send_go :: "tool_state \<Rightarrow> tool_state" where
  "tool_send_go s = with_session s (Take_number (D_go (ts_session_id s) (ts_route_id s) (ts_waypoint_id s)))"

definition tool_send_wait :: "string \<Rightarrow> tool_state \<Rightarrow> tool_state" where
  "tool_send_wait reason s =
     with_session s (Take_number (D_wait (ts_session_id s) (ts_route_id s) (ts_waypoint_id s) reason))"

definition tool_send_stop :: "tool_state \<Rightarrow> tool_state" where
  "tool_send_stop s = with_session s (Take_number (D_stop (ts_session_id s)))"

definition tool_send_reset :: "tool_state \<Rightarrow> tool_state" where
  "tool_send_reset s = with_session s (Take_number (D_reset (ts_session_id s)))"

definition resend_duplicate :: "tool_state \<Rightarrow> tool_state" where
  "resend_duplicate s = with_last s id"

definition send_conflict :: "tool_state \<Rightarrow> tool_state" where
  "send_conflict s = with_last s (conflict_payload s)"

text \<open>A command line read at the prompt.\<close>

definition console_command :: "string \<Rightarrow> tool_state \<Rightarrow> tool_state" where
  "console_command line s =
     (let command = strip line
      in if ts_stopped s \<or> ts_console s \<noteq> Idle then s
         else if command = ''wp'' then tool_send_waypoint False False s
         else if command = ''go'' then tool_send_go s
         else if command = ''wait'' then tool_send_wait ''REMOTE_WAIT'' s
         else if command = ''reached'' then tool_send_wait ''WAYPOINT_REACHED'' s
         else if command = ''next'' then tool_send_waypoint False True s
         else if command = ''final'' then tool_send_wait ''FINAL_WAYPOINT_REACHED'' s
         else if command = ''newroute'' then tool_send_waypoint True False s
         else if command = ''stop'' then tool_send_stop s
         else if command = ''reset'' then tool_send_reset s
         else if command = ''dup'' then resend_duplicate s
         else if command = ''conflict'' then send_conflict s
         else if command = ''hb_off'' then s\<lparr>ts_heartbeat_enabled := False\<rparr>
         else if command = ''hb_on'' then s\<lparr>ts_heartbeat_enabled := True\<rparr>
         else if take 4 command = ''raw '' then s\<lparr>ts_console := Transmit_raw (strip (drop 4 command))\<rparr>
         else if command = ''quit'' then s\<lparr>ts_stopped := True\<rparr>
         else s)"

text \<open>The block of \<open>send_waypoint\<close> that moves to the next target.\<close>

definition choose_target :: "bool \<Rightarrow> bool \<Rightarrow> tool_state \<Rightarrow> tool_state" where
  "choose_target new_route next_waypoint s =
     (if new_route then s\<lparr>ts_route_id := ts_route_id s + 1, ts_waypoint_id := 1, ts_phase := ''CRUISE''\<rparr>
      else if next_waypoint then
        (let wp = ts_waypoint_id s + 1
         in s\<lparr>ts_waypoint_id := wp, ts_phase := (if 3 \<le> wp then ''ALIGN'' else ''CRUISE'')\<rparr>)
      else s)"

text \<open>The console thread goes on; \<open>ok\<close>: \<open>sendall\<close> did not raise.\<close>

definition console_go_on :: "bool \<Rightarrow> tool_state \<Rightarrow> tool_state \<times> tool_out list" where
  "console_go_on ok s = (case ts_console s of
       Idle \<Rightarrow> (s, [])
     | Choose_target sid new_route next_waypoint \<Rightarrow>
         (let s' = choose_target new_route next_waypoint s
          in (s'\<lparr>ts_console := Take_number (D_waypoint sid (ts_route_id s') (ts_waypoint_id s') (ts_phase s'))\<rparr>, []))
     | Take_number d \<Rightarrow>
         (s\<lparr>ts_next_seq := ts_next_seq s + 1, ts_console := Transmit (draft_payload d (ts_next_seq s)) True\<rparr>, [])
     | Transmit payload remember \<Rightarrow>
         (case ts_connection s of
            None \<Rightarrow> (s\<lparr>ts_console := Idle\<rparr>, [])
          | Some c \<Rightarrow> if \<not> ok then (s\<lparr>ts_console := Idle\<rparr>, [])
              else (s\<lparr>ts_console := (if remember then Remember payload else Idle)\<rparr>, [Tx c payload]))
     | Transmit_raw line \<Rightarrow>
         (case ts_connection s of
            None \<Rightarrow> (s\<lparr>ts_console := Idle\<rparr>, [])
          | Some c \<Rightarrow> (s\<lparr>ts_console := Idle\<rparr>, if ok then [Tx_raw c line] else []))
     | Remember payload \<Rightarrow> (s\<lparr>ts_last_reliable := Some payload, ts_console := Idle\<rparr>, []))"

section \<open>The other threads\<close>

text \<open>\<open>send_hello_ack\<close> up to the send; \<open>pstr\<close> is \<open>str\<close>, \<open>token\<close> what \<open>secrets.token_hex(4).upper()\<close> gave.\<close>

definition hello_received :: "(json \<Rightarrow> string) \<Rightarrow> string \<Rightarrow> pydict \<Rightarrow> tool_state \<Rightarrow> tool_state" where
  "hello_received pstr token hello s =
     (let boot_id = pstr (dget_or hello ''boot_id'' (JStr ''UNKNOWN''));
          locked = pstr (dget_or hello ''previous_state'' (JStr ''UNKNOWN'')) \<in> {''EMERGENCY_STOP'', ''ERROR''};
          sid = CHR ''S'' # token;
          payload = [(''version'', JInt DAY3_VERSION), (''type'', JStr ''HELLO_ACK''), (''car_id'', JStr CAR_ID),
            (''boot_id'', JStr boot_id), (''session_id'', JStr sid),
            (''result'', JStr (if locked then ''HOLD'' else ''READY_ALLOWED'')), (''command_seq_start'', JInt 1)] @
            (if locked then [(''hold_reason'', JStr ''LOCKED_STATE'')] else [])
      in s\<lparr>ts_boot_id := boot_id, ts_session_id := sid, ts_next_seq := 1, ts_heartbeat_seq := 1, ts_last_reliable := None,
           ts_waiting := ts_waiting s @ [payload]\<rparr>)"

definition receiver_ended :: "nat \<Rightarrow> tool_state \<Rightarrow> tool_state \<times> tool_out list" where
  "receiver_ended c s =
     (if ts_connection s = Some c then s\<lparr>ts_connection := None, ts_session_id := ''''\<rparr> else s, [Closed c])"

text \<open>One line of a connection: \<open>None\<close> does not parse and is skipped; a value that is not an object has no
  \<open>get\<close> and ends the receiver.\<close>

definition line_received ::
  "(json \<Rightarrow> string) \<Rightarrow> nat \<Rightarrow> string \<Rightarrow> json option \<Rightarrow> tool_state \<Rightarrow> tool_state \<times> tool_out list" where
  "line_received pstr c token parsed s = (case parsed of
       None \<Rightarrow> (s, [])
     | Some (JObj payload) \<Rightarrow>
         (if dget payload ''type'' = JStr ''HELLO'' then hello_received pstr token payload s else s, [])
     | Some _ \<Rightarrow> receiver_ended c s)"

definition accepted :: "nat \<Rightarrow> tool_state \<Rightarrow> tool_state \<times> tool_out list" where
  "accepted c s = (s\<lparr>ts_connection := Some c, ts_session_id := ''''\<rparr>,
     case ts_connection s of None \<Rightarrow> [] | Some old \<Rightarrow> [Closed old])"

definition heartbeat_due :: "tool_state \<Rightarrow> tool_state" where
  "heartbeat_due s =
     (if ts_heartbeat_enabled s \<and> ts_session_id s \<noteq> '''' then
        s\<lparr>ts_heartbeat_seq := ts_heartbeat_seq s + 1,
          ts_waiting := ts_waiting s @ [tool_msg ''HEARTBEAT'' (ts_session_id s) @ [(''heartbeat_seq'', JInt (ts_heartbeat_seq s))]]\<rparr>
      else s)"

text \<open>A receiver or the heartbeat sends the message it composed, to the connection there is by then.\<close>

definition send_waiting :: "nat \<Rightarrow> bool \<Rightarrow> tool_state \<Rightarrow> tool_state \<times> tool_out list" where
  "send_waiting n ok s =
     (if n < length (ts_waiting s) then
        (s\<lparr>ts_waiting := take n (ts_waiting s) @ drop (Suc n) (ts_waiting s)\<rparr>,
         case ts_connection s of Some c \<Rightarrow> if ok then [Tx c (ts_waiting s ! n)] else [] | None \<Rightarrow> [])
      else (s, []))"

datatype tool_event = Typed string | Goes_on bool | Line nat string "json option" | Ended nat | Accepts nat
  | Heartbeat_due | Sends nat bool

fun tool_step :: "(json \<Rightarrow> string) \<Rightarrow> tool_state \<Rightarrow> tool_event \<Rightarrow> tool_state \<times> tool_out list" where
  "tool_step pstr s (Typed line) = (console_command line s, [])"
| "tool_step pstr s (Goes_on ok) = console_go_on ok s"
| "tool_step pstr s (Line c token parsed) = line_received pstr c token parsed s"
| "tool_step pstr s (Ended c) = receiver_ended c s"
| "tool_step pstr s (Accepts c) = accepted c s"
| "tool_step pstr s Heartbeat_due = (heartbeat_due s, [])"
| "tool_step pstr s (Sends n ok) = send_waiting n ok s"

section \<open>What the tool can send\<close>

definition not_final :: "pydict \<Rightarrow> bool" where
  "not_final m \<longleftrightarrow> dget m ''type'' \<noteq> JStr ''WAYPOINT'' \<or> dget m ''is_final'' = JBool False"

fun console_ok :: "console \<Rightarrow> bool" where
  "console_ok (Take_number (D_waypoint sid route wp phase)) = (phase \<noteq> ''FINAL'')"
| "console_ok (Transmit m remember) = not_final m"
| "console_ok (Remember m) = not_final m"
| "console_ok _ = True"

definition target_ok :: "tool_state \<Rightarrow> bool" where
  "target_ok s \<longleftrightarrow> 1 \<le> ts_waypoint_id s \<and> ts_phase s = (if 3 \<le> ts_waypoint_id s then ''ALIGN'' else ''CRUISE'')"

definition tool_inv :: "tool_state \<Rightarrow> bool" where
  "tool_inv s \<longleftrightarrow> target_ok s \<and> console_ok (ts_console s) \<and> list_all not_final (ts_waiting s) \<and>
     (case ts_last_reliable s of None \<Rightarrow> True | Some m \<Rightarrow> not_final m)"

lemma draft_not_final: "console_ok (Take_number d) \<Longrightarrow> not_final (draft_payload d n)"
  by (cases d) (simp_all add: not_final_def tool_msg_def)

lemma conflict_not_final: "not_final (conflict_payload s p)"
  by (simp add: conflict_payload_def not_final_def)

lemma with_session_inv: "tool_inv s \<Longrightarrow> console_ok c \<Longrightarrow> tool_inv (with_session s c)"
  by (simp add: with_session_def tool_inv_def target_ok_def)

lemma with_last_inv:
  "tool_inv s \<Longrightarrow> (\<And>p. ts_last_reliable s = Some p \<Longrightarrow> not_final (f p)) \<Longrightarrow> tool_inv (with_last s f)"
  by (simp add: with_last_def tool_inv_def target_ok_def split: option.splits)

lemma console_command_inv:
  assumes "tool_inv s" shows "tool_inv (console_command line s)"
proof -
  have "tool_inv (s\<lparr>ts_heartbeat_enabled := b\<rparr>)" "tool_inv (s\<lparr>ts_stopped := b\<rparr>)" "tool_inv (s\<lparr>ts_console := Transmit_raw r\<rparr>)"
    for b r using assms by (simp_all add: tool_inv_def target_ok_def)
  moreover have "tool_inv (resend_duplicate s)"
    unfolding resend_duplicate_def using assms by (intro with_last_inv) (simp_all add: tool_inv_def)
  moreover have "tool_inv (send_conflict s)"
    unfolding send_conflict_def by (intro with_last_inv assms conflict_not_final)
  moreover have "tool_inv (tool_send_waypoint n x s)" "tool_inv (tool_send_go s)" "tool_inv (tool_send_wait r s)"
      "tool_inv (tool_send_stop s)" "tool_inv (tool_send_reset s)" for n x r
    by (simp_all add: tool_send_waypoint_def tool_send_go_def tool_send_wait_def tool_send_stop_def tool_send_reset_def
        with_session_inv [OF assms])
  ultimately show ?thesis using assms unfolding console_command_def Let_def by simp
qed

lemma choose_target_ok: "target_ok s \<Longrightarrow> target_ok (choose_target n x s) \<and> ts_phase (choose_target n x s) \<noteq> ''FINAL''"
  by (simp add: target_ok_def choose_target_def Let_def)

definition harmless :: "tool_out \<Rightarrow> bool" where
  "harmless out = (case out of Tx c m \<Rightarrow> not_final m | _ \<Rightarrow> True)"

lemma console_go_on_inv:
  assumes "tool_inv s" shows "tool_inv (fst (console_go_on ok s)) \<and> list_all harmless (snd (console_go_on ok s))"
proof (cases "ts_console s")
  case (Choose_target sid n x)
  have "ts_console (choose_target n x s) = ts_console s" "ts_waiting (choose_target n x s) = ts_waiting s"
    "ts_last_reliable (choose_target n x s) = ts_last_reliable s"
    by (simp_all add: choose_target_def Let_def)
  then show ?thesis using assms choose_target_ok [of s n x] Choose_target
    by (simp add: tool_inv_def console_go_on_def Let_def target_ok_def)
next
  case (Take_number d)
  then show ?thesis using assms draft_not_final [of d] by (simp add: tool_inv_def console_go_on_def target_ok_def)
next
  case (Transmit m r)
  then show ?thesis using assms by (auto simp: tool_inv_def console_go_on_def target_ok_def harmless_def split: option.splits)
next
  case (Transmit_raw l)
  then show ?thesis using assms by (auto simp: tool_inv_def console_go_on_def target_ok_def harmless_def split: option.splits)
next
  case (Remember m)
  then show ?thesis using assms by (simp add: tool_inv_def console_go_on_def target_ok_def)
qed (use assms in \<open>simp add: console_go_on_def\<close>)

lemma send_waiting_inv:
  assumes "tool_inv s" shows "tool_inv (fst (send_waiting n ok s)) \<and> list_all harmless (snd (send_waiting n ok s))"
proof -
  have "list_all not_final (take n (ts_waiting s) @ drop (Suc n) (ts_waiting s))"
    using assms by (auto simp: tool_inv_def list_all_iff dest: in_set_takeD in_set_dropD)
  moreover have "n < length (ts_waiting s) \<Longrightarrow> not_final (ts_waiting s ! n)"
    using assms by (simp add: tool_inv_def list_all_length)
  ultimately show ?thesis using assms
    by (simp add: send_waiting_def tool_inv_def target_ok_def harmless_def split: option.split)
qed

lemma line_received_inv:
  assumes "tool_inv s"
  shows "tool_inv (fst (line_received pstr c token parsed s)) \<and> list_all harmless (snd (line_received pstr c token parsed s))"
proof -
  have "tool_inv (hello_received pstr token p s)" for p
    using assms by (simp add: hello_received_def tool_inv_def target_ok_def not_final_def Let_def)
  moreover have "tool_inv (fst (receiver_ended c s)) \<and> list_all harmless (snd (receiver_ended c s))"
    using assms by (simp add: receiver_ended_def tool_inv_def target_ok_def harmless_def)
  ultimately show ?thesis using assms by (simp add: line_received_def split: option.split json.split)
qed

lemma tool_step_inv:
  assumes "tool_inv s" shows "tool_inv (fst (tool_step pstr s e)) \<and> list_all harmless (snd (tool_step pstr s e))"
proof (cases e)
  case (Typed line) then show ?thesis using console_command_inv [OF assms] by simp
next
  case (Goes_on ok) then show ?thesis using console_go_on_inv [OF assms] by simp
next
  case (Line c token parsed) then show ?thesis using line_received_inv [OF assms] by simp
next
  case (Ended c) then show ?thesis
    using assms by (simp add: receiver_ended_def tool_inv_def target_ok_def harmless_def)
next
  case (Accepts c) then show ?thesis
    using assms by (simp add: accepted_def tool_inv_def target_ok_def harmless_def split: option.split)
next
  case Heartbeat_due then show ?thesis
    using assms by (simp add: heartbeat_due_def tool_inv_def target_ok_def not_final_def tool_msg_def)
next
  case (Sends n ok) then show ?thesis using send_waiting_inv [OF assms] by simp
qed

interpretation tool: quiet_latch "tool_step pstr" tool_inv "\<lambda>_. False" harmless
proof
  fix pstr s e s' out assume "tool_inv s" "tool_step pstr s e = (s', out)"
  then show "tool_inv s' \<and> list_all harmless out" using tool_step_inv [of s pstr e] by simp
qed

text \<open>The phase of the tool is CRUISE or ALIGN, never FINAL: in every interleaving of its threads no message
  it composes is a final WAYPOINT, so the firmware's final target is out of its reach (a raw line apart).\<close>

theorem no_final_waypoint:
  assumes "run_out (tool_step pstr) tool_new es = (s, outs)" "Tx c m \<in> set outs" "dget m ''type'' = JStr ''WAYPOINT''"
  shows "dget m ''is_final'' = JBool False \<and> ts_phase s \<in> {''CRUISE'', ''ALIGN''}"
proof -
  have "tool_inv tool_new" by (simp add: tool_inv_def tool_new_def target_ok_def)
  then have "tool_inv s \<and> list_all harmless outs"
    using tool.run_quiet [of tool_new es pstr s outs] assms(1) by (simp add: list_all_iff)
  then show ?thesis using assms(2,3) by (auto simp: list_all_iff harmless_def not_final_def tool_inv_def target_ok_def)
qed

text \<open>\<open>dup\<close> repeats the last reliable command as it was; \<open>conflict\<close> sends its number again with another
  content, unless the last one was a GO for a target 999 above the current one.\<close>

lemma conflict_reuses_number:
  assumes "dget p ''seq'' = JInt n"
  shows "dget (conflict_payload s p) ''seq'' = JInt n \<and> dget (conflict_payload s p) ''session_id'' = dget p ''session_id'' \<and>
    dget (conflict_payload s p) ''type'' = JStr ''GO'' \<and>
    (dget p ''waypoint_id'' \<noteq> JInt (ts_waypoint_id s + 999) \<or> dget p ''type'' \<noteq> JStr ''GO'' \<longrightarrow>
       dget (conflict_payload s p) ''type'' \<noteq> dget p ''type'' \<or>
       dget (conflict_payload s p) ''waypoint_id'' \<noteq> dget p ''waypoint_id'')"
  using assms by (auto simp: conflict_payload_def)

lemma dup_repeats:
  assumes "ts_last_reliable s = Some p" "ts_console s = Idle" "\<not> ts_stopped s" "ts_connection s = Some c"
  shows "run_out (tool_step pstr) s [Typed ''dup'', Goes_on True] = (s, [Tx c p])"
proof -
  have "strip ''dup'' = ''dup''" by code_simp
  then have "console_command ''dup'' s = with_last s id" using assms(2,3) by (simp add: console_command_def resend_duplicate_def)
  then have "console_command ''dup'' s = s\<lparr>ts_console := Transmit p False\<rparr>" using assms(1) by (simp add: with_last_def)
  moreover have "s\<lparr>ts_console := Idle\<rparr> = s" using assms(2) by (cases s) simp
  ultimately show ?thesis using assms(4) by (simp add: console_go_on_def)
qed

end
