(* ===== verification/Parking_Api.thy ===== *)
theory Parking_Api
  imports Parking_Records
begin

text \<open>
  The requests of \<open>integrated/host/parking/views.py\<close> with the validation and the answers that
  \<open>serializers.py\<close> declares. What the REST framework does with a declared field is not code of the repository:
  a field is a function from the value of the request to the validated value, and a time is printed by \<open>iso8601\<close>.
  Then what a car park promises to a customer: leaving undoes entering.
\<close>

section \<open>Validation\<close>

record fields =
  fd_char :: "nat \<Rightarrow> json \<Rightarrow> string option"
  fd_choice :: "string list \<Rightarrow> json \<Rightarrow> string option"
  fd_integer :: "json \<Rightarrow> int option"

definition VEHICLE_TYPES :: "string list" where
  "VEHICLE_TYPES = [''sedan'', ''suv'', ''compact'', ''ev'', ''disabled'']"

definition CAMERA_STATUSES :: "string list" where
  "CAMERA_STATUSES = [''online'', ''offline'', ''maintenance'']"

text \<open>A field that is not required: \<open>Some None\<close> when it is missing, \<open>None\<close> when it is invalid.\<close>

definition optional :: "(json \<Rightarrow> 'a option) \<Rightarrow> string \<Rightarrow> pydict \<Rightarrow> 'a option option" where
  "optional field name req = (case map_of req name of
       None \<Rightarrow> Some None
     | Some j \<Rightarrow> map_option Some (field j))"

definition entry_request :: "fields \<Rightarrow> pydict \<Rightarrow> (string \<times> string option \<times> int option) option" where
  "entry_request fd req = (case Option.bind (map_of req ''license_plate'') (fd_char fd 32) of
       None \<Rightarrow> None
     | Some plate \<Rightarrow>
         (case (optional (fd_choice fd VEHICLE_TYPES) ''vehicle_type'' req, optional (fd_integer fd) ''lot_id'' req) of
            (Some t, Some lot) \<Rightarrow> Some (plate, t, lot)
          | _ \<Rightarrow> None))"

definition exit_request :: "fields \<Rightarrow> pydict \<Rightarrow> string option" where
  "exit_request fd req = Option.bind (map_of req ''license_plate'') (fd_char fd 32)"

definition heartbeat_request :: "fields \<Rightarrow> pydict \<Rightarrow> string option" where
  "heartbeat_request fd req =
     map_option (\<lambda>st. case st of Some s \<Rightarrow> s | None \<Rightarrow> ''online'') (optional (fd_choice fd CAMERA_STATUSES) ''status'' req)"

section \<open>Answers\<close>

definition spot_data :: "spot_row \<Rightarrow> json" where
  "spot_data s = JObj [(''spot_id'', JInt (sp_id s)), (''lot_id'', JInt (sp_lot s)), (''section'', JStr (sp_section s)),
     (''spot_type'', JStr (sp_type s)), (''status'', JStr (sp_status s)), (''coord_x'', JFloat (Fin (sp_x s))),
     (''coord_y'', JFloat (Fin (sp_y s)))]"

definition camera_data :: "(real \<Rightarrow> string) \<Rightarrow> camera_row \<Rightarrow> json" where
  "camera_data iso8601 c = JObj [(''camera_id'', JInt (ca_id c)), (''lot_id'', JInt (ca_lot c)),
     (''spot_id'', case ca_spot c of Some i \<Rightarrow> JInt i | None \<Rightarrow> JNull), (''location_desc'', JStr (ca_desc c)),
     (''status'', JStr (ca_status c)), (''last_heartbeat'', case ca_heartbeat c of Some t \<Rightarrow> JStr (iso8601 t) | None \<Rightarrow> JNull)]"

text \<open>The labels come from the rows the transaction refers to, which it protects.\<close>

definition entry_data :: "(real \<Rightarrow> string) \<Rightarrow> db \<Rightarrow> entry_row \<Rightarrow> json" where
  "entry_data iso8601 d e = JObj [(''transaction_id'', JInt (en_id e)), (''vehicle_id'', JInt (en_vehicle e)),
     (''license_plate'', case find (\<lambda>v. ve_id v = en_vehicle e) (db_vehicles d) of Some v \<Rightarrow> JStr (ve_plate v) | None \<Rightarrow> JNull),
     (''spot_id'', JInt (en_spot e)),
     (''spot_label'', case find_spot (en_spot e) d of Some s \<Rightarrow> JStr (sp_section s) | None \<Rightarrow> JNull),
     (''entry_time'', JStr (iso8601 (en_entry_time e))),
     (''exit_time'', case en_exit_time e of Some t \<Rightarrow> JStr (iso8601 t) | None \<Rightarrow> JNull)]"

definition point_data :: "(real \<times> real) \<times> string \<Rightarrow> json" where
  "point_data w = JObj [(''x'', JFloat (Fin (fst (fst w)))), (''y'', JFloat (Fin (snd (fst w)))), (''label'', JStr (snd w))]"

definition route_data :: "(real \<Rightarrow> string) \<Rightarrow> route_row \<Rightarrow> json" where
  "route_data iso8601 r = JObj [(''route_id'', JInt (ro_id r)), (''vehicle_id'', JInt (ro_vehicle r)),
     (''target_spot_id'', JInt (ro_spot r)), (''start_x'', JFloat (Fin (fst (ro_start r)))),
     (''start_y'', JFloat (Fin (snd (ro_start r)))), (''waypoints'', JList (map point_data (ro_waypoints r))),
     (''policy_name'', JStr (ro_policy r)), (''created_at'', JStr (iso8601 (ro_created_at r)))]"

text \<open>An answer: the status and the body. The framework answers a \<open>ValidationError\<close> with 400, \<open>Http404\<close> with 404,
  and any other exception with 500.\<close>

type_synonym answer = "int \<times> json"

fun error_answer :: "service_error \<Rightarrow> answer" where
  "error_answer NoVacantSpot = (400, JObj [(''detail'', JStr ''No vacant parking spot is available.'')])"
| "error_answer AlreadyParked = (400, JObj [(''detail'', JStr ''Vehicle already has an active parking transaction.'')])"
| "error_answer UnknownVehicle = (400, JObj [(''detail'', JStr ''Vehicle is not registered in the system.'')])"
| "error_answer NoActiveTransaction = (400, JObj [(''detail'', JStr ''No active parking transaction for this vehicle.'')])"
| "error_answer InvalidStatus = (400, JObj [(''detail'', JStr ''Invalid parking spot status.'')])"
| "error_answer NotFound = (404, JNull)"
| "error_answer _ = (500, JNull)"

section \<open>The requests\<close>

text \<open>An answer, the tables and the broadcasts. The body of a rejected field is the framework's and left empty.\<close>

type_synonym handled = "answer \<times> db \<times> broadcast list"

definition entry_api :: "fields \<Rightarrow> (real \<Rightarrow> string) \<Rightarrow> real \<Rightarrow> pydict \<Rightarrow> db \<Rightarrow> handled" where
  "entry_api fd iso8601 now req d = (case entry_request fd req of
       None \<Rightarrow> ((400, JNull), d, [])
     | Some (plate, t, lot) \<Rightarrow>
         (case view_entry now plate t lot d of
            Inl err \<Rightarrow> (error_answer err, d, [])
          | Inr (d', (e, r), out) \<Rightarrow>
              ((201, JObj [(''transaction'', entry_data iso8601 d' e), (''route'', route_data iso8601 r),
                  (''recommended_spot'', case find_spot (en_spot e) d' of Some s \<Rightarrow> spot_data s | None \<Rightarrow> JNull)]), d', out)))"

definition exit_api :: "fields \<Rightarrow> (real \<Rightarrow> string) \<Rightarrow> real \<Rightarrow> pydict \<Rightarrow> db \<Rightarrow> handled" where
  "exit_api fd iso8601 now req d = (case exit_request fd req of
       None \<Rightarrow> ((400, JNull), d, [])
     | Some plate \<Rightarrow>
         (case process_exit now plate d of
            Inl err \<Rightarrow> (error_answer err, d, [])
          | Inr (d', e, out) \<Rightarrow> ((200, JObj [(''transaction'', entry_data iso8601 d' e)]), d', out)))"

definition heartbeat_api :: "fields \<Rightarrow> (real \<Rightarrow> string) \<Rightarrow> real \<Rightarrow> int \<Rightarrow> pydict \<Rightarrow> db \<Rightarrow> handled" where
  "heartbeat_api fd iso8601 now i req d =
     (if \<not> (\<exists>c \<in> set (db_cameras d). ca_id c = i) then (error_answer NotFound, d, [])
      else case heartbeat_request fd req of
          None \<Rightarrow> ((400, JNull), d, [])
        | Some st \<Rightarrow> (case update_camera_heartbeat now i st d of (d', out) \<Rightarrow>
            ((200, case find (\<lambda>c. ca_id c = i) (db_cameras d') of Some c \<Rightarrow> camera_data iso8601 c | None \<Rightarrow> JNull), d', out)))"

definition set_status_api :: "int \<Rightarrow> pydict \<Rightarrow> db \<Rightarrow> handled" where
  "set_status_api i req d = (case view_set_status i (dget req ''status'') d of
       Inl err \<Rightarrow> (error_answer err, d, [])
     | Inr d' \<Rightarrow> ((200, case find_spot i d' of Some s \<Rightarrow> spot_data s | None \<Rightarrow> JNull), d', []))"

text \<open>\<open>pyint\<close> is \<open>int\<close> of a string, \<open>None\<close> its \<open>ValueError\<close>, which nothing catches here. An empty parameter counts as
  missing, except as a vehicle type.\<close>

definition given :: "string \<Rightarrow> (string \<times> string) list \<Rightarrow> string option" where
  "given name params = (case map_of params name of
       Some v \<Rightarrow> if v = '''' then None else Some v
     | None \<Rightarrow> None)"

definition recommend_answer :: "(string \<Rightarrow> int option) \<Rightarrow> string option \<Rightarrow> string \<Rightarrow> db \<Rightarrow> handled" where
  "recommend_answer pyint lot_id vt d =
     (case (case lot_id of None \<Rightarrow> Some None | Some l \<Rightarrow> map_option Some (pyint l)) of
        None \<Rightarrow> ((500, JNull), d, [])
      | Some lot \<Rightarrow> (case recommend_spot lot vt d of
          Inl err \<Rightarrow> (error_answer err, d, [])
        | Inr (d', s) \<Rightarrow> ((200, JObj [(''recommended_spot'', spot_data s)]), d', [])))"

definition recommend_api :: "(string \<Rightarrow> int option) \<Rightarrow> (string \<times> string) list \<Rightarrow> db \<Rightarrow> handled" where
  "recommend_api pyint params d =
     (let vt = (case map_of params ''vehicle_type'' of Some t \<Rightarrow> t | None \<Rightarrow> ''sedan'');
          lot = given ''lot_id'' params
      in case given ''vehicle_id'' params of
           None \<Rightarrow> recommend_answer pyint lot vt d
         | Some vid \<Rightarrow> (case pyint vid of
             None \<Rightarrow> ((500, JNull), d, [])
           | Some i \<Rightarrow> (case find (\<lambda>v. ve_id v = i) (db_vehicles d) of
               None \<Rightarrow> (error_answer NotFound, d, [])
             | Some v \<Rightarrow> recommend_answer pyint lot (ve_type v) d)))"

section \<open>Every request keeps the books\<close>

lemma entry_api_books: "books_ok d \<Longrightarrow> books_ok (fst (snd (entry_api fd iso8601 now req d)))"
  using process_entry_books
  by (fastforce simp: entry_api_def view_entry_def split: option.split sum.split prod.split)

lemma exit_api_books: "books_ok d \<Longrightarrow> books_ok (fst (snd (exit_api fd iso8601 now req d)))"
  using process_exit_books by (fastforce simp: exit_api_def split: option.split sum.split prod.split)

text \<open>A request for a recommendation, though a GET, writes a log row; it changes nothing else.\<close>

lemma recommend_answer_logs:
  assumes "recommend_answer pyint lot vt d = (a, d', out)"
  shows "out = [] \<and> (\<exists>log. d' = d\<lparr>db_logs := log\<rparr>)"
proof -
  have same: "\<exists>log. d = d\<lparr>db_logs := log\<rparr>" by (rule exI [of _ "db_logs d"]) simp
  have log: "recommend_spot l vt d = Inr (d1, s) \<Longrightarrow> \<exists>log. d1 = d\<lparr>db_logs := log\<rparr>" for l d1 s
    by (rule recommend_spot_spec(1))
  show ?thesis using assms same log
    unfolding recommend_answer_def by (fastforce split: option.splits sum.splits prod.splits)
qed

lemma recommend_api_logs:
  assumes "recommend_api pyint params d = (a, d', out)"
  shows "out = [] \<and> (\<exists>log. d' = d\<lparr>db_logs := log\<rparr>)"
proof -
  have same: "\<exists>log. d = d\<lparr>db_logs := log\<rparr>" by (rule exI [of _ "db_logs d"]) simp
  show ?thesis
  proof (cases "\<exists>vt. recommend_api pyint params d = recommend_answer pyint (given ''lot_id'' params) vt d")
    case True
    then show ?thesis using assms recommend_answer_logs by metis
  next
    case False
    then have "d' = d \<and> out = []" using assms
      by (simp add: recommend_api_def Let_def split: option.splits) metis+
    then show ?thesis using same by blast
  qed
qed

text \<open>An answer other than 200 or 201 leaves the tables as they were.\<close>

lemma rejected_changes_nothing:
  "fst (fst (entry_api fd iso8601 now req d)) \<noteq> 201 \<Longrightarrow> fst (snd (entry_api fd iso8601 now req d)) = d"
  "fst (fst (exit_api fd iso8601 now req d)) \<noteq> 200 \<Longrightarrow> fst (snd (exit_api fd iso8601 now req d)) = d"
  by (auto simp: entry_api_def exit_api_def split: option.splits sum.splits prod.splits)

section \<open>Leaving undoes entering\<close>

text \<open>What an accepted entry did.\<close>

lemma find_append_none: "find P xs = None \<Longrightarrow> find P (xs @ ys) = find P ys"
  by (induction xs) (auto split: if_splits)

lemma process_entry_effect:
  assumes "process_entry now plate t lot d = Inr (d', (e, r), out)"
  shows "\<exists>v s. find_plate plate d' = Some v \<and> en_vehicle e = ve_id v \<and> en_exit_time e = None \<and>
    s \<in> set (db_spots d) \<and> sp_status s = ''vacant'' \<and> en_spot e = sp_id s \<and> db_entries d' = db_entries d @ [e] \<and>
    db_spots d' = db_spots (set_spot_status (sp_id s) ''occupied'' d) \<and>
    (\<forall>x \<in> set (db_entries d). en_vehicle x = ve_id v \<longrightarrow> \<not> is_active_entry x)"
proof -
  obtain d1 v created where 1: "get_or_create_vehicle plate t d = (d1, v, created)" by (metis prod.collapse)
  define d2 where "d2 = (if \<not> created \<and> ve_type v \<noteq> t then set_vehicle_type (ve_id v) t d1 else d1)"
  have same: "db_entries d2 = db_entries d" "db_spots d2 = db_spots d"
    using 1 by (auto simp: d2_def get_or_create_vehicle_def set_vehicle_type_def Let_def split: option.splits)
  have "\<exists>w. find_plate plate d2 = Some w \<and> ve_id w = ve_id v"
    using 1 by (auto simp: d2_def get_or_create_vehicle_def find_plate_def set_vehicle_type_def find_update_type
        find_append_none Let_def split: option.splits)
  then obtain w where w: "find_plate plate d2 = Some w" "ve_id w = ve_id v" by blast
  have no: "\<not> (\<exists>e \<in> set (db_entries d2). en_vehicle e = ve_id v \<and> is_active_entry e)"
    using assms by (auto simp: process_entry_def 1 d2_def Let_def split: if_splits)
  obtain d3 s where 3: "recommend_spot lot t d2 = Inr (d3, s)"
    using assms no by (auto simp: process_entry_def 1 d2_def [symmetric] Let_def split: sum.splits)
  obtain log where log: "d3 = d2\<lparr>db_logs := log\<rparr>" using recommend_spot_spec(1) [OF 3] by blast
  have s: "s \<in> set (db_spots d)" "sp_status s = ''vacant''"
    using recommend_spot_spec(2) [OF 3] by (auto simp: vacant_candidates_def same)
  have "en_vehicle e = ve_id v \<and> en_exit_time e = None \<and> en_spot e = sp_id s \<and> db_entries d' = db_entries d2 @ [e] \<and>
      db_spots d' = db_spots (set_spot_status (sp_id s) ''occupied'' d2) \<and> db_vehicles d' = db_vehicles d2"
    using assms no
    by (auto simp: process_entry_def 1 d2_def [symmetric] 3 Let_def build_route_plan_def set_spot_status_def log)
  moreover have "db_spots (set_spot_status (sp_id s) ''occupied'' d2) = db_spots (set_spot_status (sp_id s) ''occupied'' d)"
    by (simp add: set_spot_status_def same)
  ultimately show ?thesis using w s no unfolding same find_plate_def by auto
qed

lemma status_back:
  assumes "keys_ok sp_id n rows" "s \<in> set rows" "sp_status s = st"
  shows "update_where (\<lambda>x. sp_id x = sp_id s) (\<lambda>x. x\<lparr>sp_status := st\<rparr>)
    (update_where (\<lambda>x. sp_id x = sp_id s) (\<lambda>x. x\<lparr>sp_status := w\<rparr>) rows) = rows"
proof -
  have "s\<lparr>sp_status := st\<rparr> = s" using assms(3) by (cases s) simp
  then have "x\<lparr>sp_status := st\<rparr> = x" if "x \<in> set rows" "sp_id x = sp_id s" for x
    using keys_eq [OF assms(1) that(1) assms(2) that(2)] by simp
  then show ?thesis by (auto simp: update_where_def intro!: map_idI)
qed

text \<open>C40: an exit undoes its entry. After any requests that are not manual changes of a spot, a vehicle whose entry is
  accepted can leave: the exit closes the very transaction the entry opened, and then every spot has the status
  it had, and the open transactions are the ones there were, in the same order.\<close>

theorem entry_exit_roundtrip:
  assumes "list_all automatic ops" "process_entry t plate vt lot (db_run ops) = Inr (d, (e, r), out)"
  shows "\<exists>d' e'. process_exit t' plate d = Inr (d', e', [Broadcast ''exit'' plate (en_spot e) (en_id e)]) \<and>
    e' = e\<lparr>en_exit_time := Some t'\<rparr> \<and> db_spots d' = db_spots (db_run ops) \<and>
    active_entries d' = active_entries (db_run ops)"
proof -
  have ok: "books_ok (db_run ops)" using books.guarded_run_inv [OF books_ok_empty assms(1)] by (simp add: db_run_def)
  obtain v s where v: "find_plate plate d = Some v" "en_vehicle e = ve_id v" "en_exit_time e = None"
    and s: "s \<in> set (db_spots (db_run ops))" "sp_status s = ''vacant''" "en_spot e = sp_id s"
    and d: "db_entries d = db_entries (db_run ops) @ [e]"
      "db_spots d = db_spots (set_spot_status (sp_id s) ''occupied'' (db_run ops))"
    and no: "\<forall>x \<in> set (db_entries (db_run ops)). en_vehicle x = ve_id v \<longrightarrow> \<not> is_active_entry x"
    using process_entry_effect [OF assms(2)] by blast
  have keys: "keys_ok en_id (db_next_entry d) (db_entries d)"
    using process_entry_books [OF ok assms(2)] by (simp add: books_ok_def)
  have "filter (\<lambda>e. en_vehicle e = ve_id v \<and> is_active_entry e) (db_entries d) = [e]"
    using no v(2,3) by (auto simp: d(1) is_active_entry_def filter_empty_conv)
  then have exit: "process_exit t' plate d =
      Inr (leave e t' d, e\<lparr>en_exit_time := Some t'\<rparr>, [Broadcast ''exit'' plate (en_spot e) (en_id e)])"
    using v(1,2) by (simp add: process_exit_def leave_def Let_def set_spot_status_def)
  have "db_spots (leave e t' d) = db_spots (db_run ops)"
    using status_back [of "db_next_spot (db_run ops)" "db_spots (db_run ops)" s "''vacant''" "''occupied''"] ok s
    by (simp add: leave_def set_spot_status_def d(2) books_ok_def)
  moreover have "active_entries (leave e t' d) = active_entries (db_run ops)"
  proof -
    have fresh: "e \<notin> set (db_entries (db_run ops))" using no v(2,3) by (auto simp: is_active_entry_def)
    have "active_entries (leave e t' d) = filter (\<lambda>x. x \<noteq> e) (filter is_active_entry (db_entries d))"
      using filter_update_closed [OF keys, of e t'] by (simp add: active_entries_def leave_def set_spot_status_def d(1))
    also have "\<dots> = active_entries (db_run ops)"
      using fresh unfolding d(1) active_entries_def filter_filter
      by (auto intro!: filter_cong)
    finally show ?thesis .
  qed
  ultimately show ?thesis using exit by blast
qed

lemma first_entry:
  assumes "db_vehicles d = []" "db_entries d = []" "vacant_candidates None d \<noteq> []"
  shows "\<exists>d' e r out. process_entry t plate vt None d = Inr (d', (e, r), out)"
proof -
  have "vacant_candidates None (d\<lparr>db_vehicles := vs, db_next_vehicle := n\<rparr>) = vacant_candidates None d" for vs n
    by (simp add: vacant_candidates_def)
  then show ?thesis using assms
    by (simp add: process_entry_def get_or_create_vehicle_def find_plate_def recommend_spot_def build_route_plan_def
        set_spot_status_def Let_def)
qed

lemma seeded:
  "db_vehicles (db_run [Seed]) = [] \<and> db_entries (db_run [Seed]) = [] \<and> vacant_candidates None (db_run [Seed]) \<noteq> []"
  by (simp add: db_run_def seed_demo_data_def upsert_lot_def delete_spots_def upsert_spot_def DEMO_SPOTS_def db_empty_def
      ensure_camera_def vacant_candidates_def update_where_def Let_def)

lemma entry_exit_roundtrip_witness:
  "\<exists>d e r out d' e' out'. process_entry 1 ''A'' ''sedan'' None (db_run [Seed]) = Inr (d, (e, r), out) \<and>
     process_exit 2 ''A'' d = Inr (d', e', out') \<and> db_spots d' = db_spots (db_run [Seed]) \<and> en_exit_time e' = Some 2"
proof -
  obtain d e r out where entry: "process_entry 1 ''A'' ''sedan'' None (db_run [Seed]) = Inr (d, (e, r), out)"
    using first_entry seeded by blast
  show ?thesis using entry_exit_roundtrip [OF _ entry, of 2] entry by fastforce
qed

end
