(* ===== verification/Policy_Reports.thy ===== *)
theory Policy_Reports
  imports Evaluation "HOL-Library.AList"
begin

text \<open>
  What is made of the evaluations: loading a model with its cache (\<open>load_policy\<close> of
  \<open>integrated/host/rl/inference.py\<close>), the comparison of all policies and the slot histogram
  (\<open>evaluate_all\<close>, \<open>_print_slot_histogram\<close> of \<open>rl/train_sb3.py\<close>), the sweep over wait penalties
  (\<open>rl/sweep_wait_penalty.py\<close>) and the summary of the frontier (\<open>main\<close> of \<open>rl/plot_pareto.py\<close>). Files, the loader of
  models and training are parameters; the episodes of an evaluation are given as in \<open>Evaluation\<close>.
\<close>

section \<open>Loading a model\<close>

text \<open>\<open>Import_error\<close>: sb3-contrib is not installed; \<open>Load_error\<close>: any exception of the loader.\<close>

datatype load_error = Import_error | Load_error

record policy_cache =
  pc_model :: "policy option"
  pc_path :: string

definition cache_new :: policy_cache where
  "cache_new = \<lparr>pc_model = None, pc_path = ''''\<rparr>"

definition load_policy ::
  "(string \<Rightarrow> bool) \<Rightarrow> (string \<Rightarrow> load_error + policy) \<Rightarrow> string \<Rightarrow> policy_cache \<Rightarrow> policy_cache \<times> (load_error + policy option)" where
  "load_policy exists load path cache =
     (if \<not> exists path then (cache, Inr None)
      else if pc_model cache \<noteq> None \<and> path = pc_path cache then (cache, Inr (pc_model cache))
      else case load path of
          Inl err \<Rightarrow> (cache, Inl err)
        | Inr m \<Rightarrow> (\<lparr>pc_model = Some m, pc_path = path\<rparr>, Inr (Some m)))"

text \<open>A path is read once: as long as the file exists and no other model is asked for, later calls give the model
  of the first, whatever the file holds by then.\<close>

lemma load_policy_cached:
  assumes "load_policy exists load path cache = (cache', Inr (Some m))" "exists' path"
  shows "load_policy exists' load' path cache' = (cache', Inr (Some m))"
  using assms by (auto simp: load_policy_def split: if_splits sum.splits)

section \<open>Comparing all policies\<close>

type_synonym episodes = "(real \<times> (nat \<times> real) list \<times> draws) list"

type_synonym 'a evaluated = "(eval_error + 'a) option"

definition then_with :: "'a evaluated \<Rightarrow> ('a \<Rightarrow> 'b evaluated) \<Rightarrow> 'b evaluated" where
  "then_with r f = (case r of
       None \<Rightarrow> None
     | Some (Inl err) \<Rightarrow> Some (Inl err)
     | Some (Inr x) \<Rightarrow> f x)"

text \<open>The file of the model: the path itself, or with the missing \<open>.zip\<close>.\<close>

definition ends_with :: "string \<Rightarrow> string \<Rightarrow> bool" where
  "ends_with suffix s \<longleftrightarrow> length suffix \<le> length s \<and> drop (length s - length suffix) s = suffix"

definition model_file :: "(string \<Rightarrow> bool) \<Rightarrow> string \<Rightarrow> string option" where
  "model_file exists model_path =
     (let zp = (if ends_with ''.zip'' model_path then model_path else model_path @ ''.zip'')
      in if exists model_path then Some model_path else if exists zp then Some zp else None)"

definition BASELINES :: "policy_type list" where
  "BASELINES = [P_random, P_heuristic, P_heuristic_v2, P_heuristic_v3, P_heuristic_v4]"

text \<open>The policies to evaluate and the model; only a missing package is caught.\<close>

definition active_policies ::
  "(string \<Rightarrow> bool) \<Rightarrow> (string \<Rightarrow> load_error + policy) \<Rightarrow> string \<Rightarrow> load_error + policy_type list \<times> policy option" where
  "active_policies exists load model_path = (case model_file exists model_path of
       None \<Rightarrow> Inr (BASELINES, None)
     | Some lp \<Rightarrow> if lp = '''' then Inr (BASELINES, None)
         else case load lp of
             Inl Import_error \<Rightarrow> Inr (BASELINES, None)
           | Inl Load_error \<Rightarrow> Inl Load_error
           | Inr m \<Rightarrow> Inr (BASELINES @ [P_ppo], Some m))"

fun evaluate_each ::
  "env_config \<Rightarrow> policy option \<Rightarrow> (policy_type \<Rightarrow> episodes) \<Rightarrow> policy_type list \<Rightarrow> (policy_type \<times> policy_metrics) list evaluated" where
  "evaluate_each cfg model eps [] = Some (Inr [])"
| "evaluate_each cfg model eps (pt # pts) =
     then_with (evaluate_policy cfg pt (if pt = P_ppo then model else None) (eps pt)) (\<lambda>r.
     then_with (evaluate_each cfg model eps pts) (\<lambda>rs. Some (Inr ((pt, r) # rs))))"

definition evaluate_all ::
  "(string \<Rightarrow> bool) \<Rightarrow> (string \<Rightarrow> load_error + policy) \<Rightarrow> string \<Rightarrow> env_config \<Rightarrow> (policy_type \<Rightarrow> episodes)
     \<Rightarrow> load_error + (policy_type \<times> policy_metrics) list evaluated" where
  "evaluate_all exists load model_path cfg eps = (case active_policies exists load model_path of
       Inl err \<Rightarrow> Inl err
     | Inr (active, model) \<Rightarrow> Inr (evaluate_each cfg model eps active))"

text \<open>The comparison is complete: every policy has its figures, and they add up as those of one evaluation do.\<close>

lemma evaluate_each_complete:
  assumes "config_ok cfg" "mask_honouring model" "P_ppo \<in> set pts \<Longrightarrow> model \<noteq> None"
    and "\<And>pt. pt \<in> set pts \<Longrightarrow> list_all good_draws (eps pt)" "mask_honouring None"
  shows "\<exists>rs. evaluate_each cfg model eps pts = Some (Inr rs) \<and> map fst rs = pts \<and>
    list_all (\<lambda>(pt, r). length (raw_rewards r) = length (eps pt)) rs"
  using assms(3,4)
proof (induction pts)
  case (Cons pt pts)
  let ?m = "if pt = P_ppo then model else None"
  have "mask_honouring ?m" "pt = P_ppo \<longrightarrow> ?m \<noteq> None" using assms(2,5) Cons.prems(1) by auto
  then obtain ms where ms: "run_episodes cfg pt ?m (eps pt) = Some (Inr ms)" "length ms = length (eps pt)"
    using run_episodes_counted [of "eps pt" cfg ?m pt] Cons.prems(2) assms(1) by auto
  obtain rs where "evaluate_each cfg model eps pts = Some (Inr rs)" "map fst rs = pts"
    "list_all (\<lambda>(pt, r). length (raw_rewards r) = length (eps pt)) rs" using Cons by auto
  then show ?case using ms by (simp add: evaluate_policy_def then_with_def aggregate_def Let_def)
qed simp

section \<open>The slot histogram\<close>

definition slot_percent :: "(string \<times> nat) list \<Rightarrow> string \<Rightarrow> real" where
  "slot_percent counts name =
     (let total = (let s = sum_list (map snd counts) in if s = 0 then 1 else s);
          cnt = (case map_of counts name of Some n \<Rightarrow> n | None \<Rightarrow> 0)
      in real cnt / real total * 100)"

definition bar_length :: "real \<Rightarrow> int" where
  "bar_length pct = \<lfloor>pct / (5 / 2)\<rfloor>"

definition biased_slots :: "(policy_type \<times> policy_metrics) list \<Rightarrow> string set" where
  "biased_slots results = (\<Union>(pt, r) \<in> set results. {name \<in> set SLOT_NAMES. 20 < slot_percent (slot_distribution r) name})"

text \<open>At most four slots can be flagged for one policy.\<close>

lemma map_of_sum:
  "distinct (map fst counts) \<Longrightarrow> distinct names \<Longrightarrow>
     sum_list (map (\<lambda>n. case map_of counts n of Some c \<Rightarrow> c | None \<Rightarrow> (0 :: nat)) names) \<le> sum_list (map snd counts)"
proof -
  assume d: "distinct (map fst counts)" "distinct names"
  let ?f = "\<lambda>n. case map_of counts n of Some c \<Rightarrow> c | None \<Rightarrow> (0 :: nat)"
  have "sum_list (map ?f names) = sum ?f (set names)" using d(2) by (rule sum_list_distinct_conv_sum_set)
  also have "\<dots> = sum ?f (set names \<inter> fst ` set counts)"
  proof (rule sum.mono_neutral_right)
    have "?f i = 0" if "i \<notin> fst ` set counts" for i using that by (simp add: map_of_eq_None_iff [THEN iffD2])
    then show "\<forall>i \<in> set names - set names \<inter> fst ` set counts. ?f i = 0" by blast
  qed auto
  also have "\<dots> \<le> sum ?f (fst ` set counts)" by (rule sum_mono2) auto
  also have "\<dots> = sum_list (map ?f (map fst counts))" using sum_list_distinct_conv_sum_set [OF d(1), of ?f] by simp
  also have "map ?f (map fst counts) = map snd counts" using d(1) by (auto simp: map_of_is_SomeI)
  finally show ?thesis .
qed

lemma few_biased_slots:
  assumes "distinct (map fst counts)" "distinct names" "list_all (\<lambda>n. 20 < slot_percent counts n) names"
  shows "length names \<le> 4"
proof -
  let ?f = "\<lambda>n. case map_of counts n of Some c \<Rightarrow> c | None \<Rightarrow> (0 :: nat)"
  define total where "total = sum_list (map snd counts)"
  have le: "sum_list (map ?f names) \<le> total" unfolding total_def using map_of_sum [OF assms(1,2)] .
  have each: "total < 5 * ?f n" if "n \<in> set names" for n
  proof -
    have "20 < slot_percent counts n" using assms(3) that by (simp add: list_all_iff)
    then have "20 * real (if total = 0 then 1 else total) < real (?f n) * 100"
      by (simp add: slot_percent_def Let_def total_def divide_simps split: if_splits)
    then show ?thesis by (simp split: if_splits option.splits)
  qed
  have "length names * (total + 1) \<le> 5 * sum_list (map ?f names)"
    using each
  proof (induction names)
    case (Cons a names)
    have "total + 1 \<le> 5 * ?f a" using Cons.prems [of a] by simp
    moreover have "length names * (total + 1) \<le> 5 * sum_list (map ?f names)" using Cons by simp
    ultimately have "(total + 1) + length names * (total + 1) \<le> 5 * ?f a + 5 * sum_list (map ?f names)" by (rule add_mono)
    then show ?case by (simp add: algebra_simps)
  qed simp
  also have "\<dots> \<le> 5 * total" using le by simp
  finally have "length names * (total + 1) < 5 * (total + 1)" by simp
  then have "length names < 5" by (metis mult_less_cancel2)
  then show ?thesis by simp
qed

section \<open>The sweep over wait penalties\<close>

record sweep_row =
  sw_ppo :: policy_metrics
  sw_heuristic :: policy_metrics
  sw_random :: policy_metrics

text \<open>\<open>trained pen\<close>: the model that was trained and saved with this penalty, \<open>None\<close> if it could not be loaded. The
  results are a \<open>dict\<close>, so a repeated penalty keeps its place and its last figures.\<close>

fun run_sweep ::
  "(real \<Rightarrow> policy option) \<Rightarrow> (policy_type \<Rightarrow> episodes) \<Rightarrow> real list \<Rightarrow> (real \<times> sweep_row) list \<Rightarrow> (real \<times> sweep_row) list evaluated" where
  "run_sweep trained eps [] results = Some (Inr results)"
| "run_sweep trained eps (pen # pens) results =
     (let cfg = env_config_default\<lparr>wait_penalty_base := pen\<rparr>
      in then_with (evaluate_policy cfg P_ppo (trained pen) (eps P_ppo)) (\<lambda>ppo.
         then_with (evaluate_policy cfg P_heuristic None (eps P_heuristic)) (\<lambda>heu.
         then_with (evaluate_policy cfg P_random None (eps P_random)) (\<lambda>rnd.
           run_sweep trained eps pens
             (AList.update pen \<lparr>sw_ppo = ppo, sw_heuristic = heu, sw_random = rnd\<rparr> results)))))"

text \<open>The rows of the tables: the gain of the model over the heuristic, and the input of the knee point.\<close>

definition sweep_deltas :: "(real \<times> sweep_row) list \<Rightarrow> (real \<times> real \<times> real \<times> real) list" where
  "sweep_deltas results = map (\<lambda>(pen, r).
     (pen, avg_reward (sw_ppo r) - avg_reward (sw_heuristic r), avg_conflicts (sw_ppo r) - avg_conflicts (sw_heuristic r),
      avg_throughput (sw_ppo r) - avg_throughput (sw_heuristic r))) results"

definition sweep_rows :: "(real \<times> sweep_row) list \<Rightarrow> (real \<times> real \<times> real) list" where
  "sweep_rows results = map (\<lambda>(pen, r). (pen, avg_conflicts (sw_ppo r), avg_throughput (sw_ppo r))) results"

lemma run_sweep_complete:
  assumes "\<And>pen. pen \<in> set pens \<Longrightarrow> trained pen \<noteq> None \<and> mask_honouring (trained pen) \<and>
      config_ok (env_config_default\<lparr>wait_penalty_base := pen\<rparr>)"
    and "\<And>pt. list_all good_draws (eps pt)" "mask_honouring None"
  shows "\<exists>rs. run_sweep trained eps pens results = Some (Inr rs) \<and> fst ` set rs = fst ` set results \<union> set pens"
  using assms(1)
proof (induction pens arbitrary: results)
  case (Cons pen pens)
  let ?cfg = "env_config_default\<lparr>wait_penalty_base := pen\<rparr>"
  have run: "\<exists>p. evaluate_policy ?cfg pt m (eps pt) = Some (Inr p)"
    if "mask_honouring m" "pt = P_ppo \<longrightarrow> m \<noteq> None" for pt m
    using run_episodes_counted [OF assms(2) _ that(1) that(2), of ?cfg] Cons.prems [of pen]
    by (force simp: evaluate_policy_def)
  obtain a b c where e: "evaluate_policy ?cfg P_ppo (trained pen) (eps P_ppo) = Some (Inr a)"
      "evaluate_policy ?cfg P_heuristic None (eps P_heuristic) = Some (Inr b)"
      "evaluate_policy ?cfg P_random None (eps P_random) = Some (Inr c)"
    using run [of "trained pen" P_ppo] run [of None P_heuristic] run [of None P_random] Cons.prems [of pen] assms(3) by auto
  let ?r = "AList.update pen \<lparr>sw_ppo = a, sw_heuristic = b, sw_random = c\<rparr> results"
  obtain rs where "run_sweep trained eps pens ?r = Some (Inr rs)" "fst ` set rs = fst ` set ?r \<union> set pens"
    using Cons.IH [of ?r] Cons.prems by auto
  moreover have "fst ` set ?r = insert pen (fst ` set results)" by (simp add: dom_update)
  ultimately show ?case using e by (simp add: then_with_def Let_def)
qed simp

text \<open>A model that could not be loaded is reported as a warning and replaced by no model at all, with which the
  evaluation of the PPO policy raises at the first action: the sweep ends and its earlier results are lost.\<close>

lemma pre_park_fields:
  "e_terminated (pre_park chosen e) = e_terminated e \<and> e_consecutive_waits (pre_park chosen e) = e_consecutive_waits e"
  by (induction chosen e rule: pre_park.induct) (simp_all add: add_reservation_def Let_def)

lemma missing_model_ends_episode:
  "run_episode (env_config_default\<lparr>wait_penalty_base := pen\<rparr>) P_ppo None u_iat chosen rnd = Some (Inl Model_required)"
proof -
  let ?cfg = "env_config_default\<lparr>wait_penalty_base := pen\<rparr>"
  obtain e obs where r: "reset u_iat chosen = (e, obs)" by fastforce
  have "\<not> e_terminated e" "e_consecutive_waits e = 0" using r pre_park_fields [of chosen "init_state\<lparr>e_iat := uniform ARRIVAL_MIN ARRIVAL_MAX u_iat\<rparr>"]
    by (auto simp: reset_def Let_def init_state_def)
  then have "action_masks ?cfg e = (e, slot_masks e @ [True])"
    by (simp add: action_masks_def Let_def env_config_default_def MAX_CONSECUTIVE_WAITS_def)
  then have "run_loop ?cfg P_ppo None rnd e obs tally_new = Some (Inl Model_required)"
    by (subst run_loop.simps) (simp add: pick_action_def split: prod.split)
  then show ?thesis by (simp add: run_episode_def r)
qed

lemma failed_load_ends_sweep:
  assumes "trained pen = None" "eps P_ppo \<noteq> []"
  shows "run_sweep trained eps (pen # pens) results = Some (Inl Model_required)"
  using assms
  by (cases "eps P_ppo") (auto simp: evaluate_policy_def missing_model_ends_episode then_with_def Let_def split: prod.split)

section \<open>The summary of the frontier\<close>

text \<open>\<open>main\<close> of \<open>plot_pareto.py\<close>: the frontier and the names that are not on it; \<open>results\<close> is a \<open>dict\<close>, so the
  names differ.\<close>

definition pareto_points :: "(string \<times> policy_metrics) list \<Rightarrow> point list" where
  "pareto_points results = map (\<lambda>(k, r). (avg_conflicts r, avg_throughput r, k)) results"

definition dominated_names :: "(string \<times> policy_metrics) list \<Rightarrow> string set" where
  "dominated_names results =
     (let points = pareto_points results
      in (snd \<circ> snd) ` set points - (snd \<circ> snd) ` set (compute_pareto_frontier points))"

lemma dominated_names_iff:
  assumes "distinct (map fst results)" "(k, r) \<in> set results"
  shows "k \<in> dominated_names results \<longleftrightarrow>
    (\<exists>(k', r') \<in> set results. beats (avg_conflicts r', avg_throughput r', k') (avg_conflicts r, avg_throughput r, k))"
proof -
  have only: "r' = r" if "(k, r') \<in> set results" for r' using assms that by (metis eq_key_imp_eq_value)
  have "k \<in> dominated_names results \<longleftrightarrow> (avg_conflicts r, avg_throughput r, k) \<notin> set (compute_pareto_frontier (pareto_points results))"
  proof -
    have "x \<in> set (compute_pareto_frontier (pareto_points results)) \<Longrightarrow> snd (snd x) = k \<Longrightarrow> x = (avg_conflicts r, avg_throughput r, k)" for x
      unfolding set_frontier by (auto simp: pareto_points_def dest: only)
    moreover have "k \<in> (snd \<circ> snd) ` set (pareto_points results)" using assms(2) by (force simp: pareto_points_def)
    ultimately show ?thesis by (force simp: dominated_names_def Let_def)
  qed
  also have "\<dots> \<longleftrightarrow> (\<exists>q \<in> set (pareto_points results). beats q (avg_conflicts r, avg_throughput r, k))"
  proof -
    have "(avg_conflicts r, avg_throughput r, k) \<in> set (pareto_points results)" using assms(2) by (force simp: pareto_points_def)
    then show ?thesis unfolding set_frontier beats_iff by blast
  qed
  also have "\<dots> \<longleftrightarrow> (\<exists>x \<in> set results. beats (case x of (k', r') \<Rightarrow> (avg_conflicts r', avg_throughput r', k'))
      (avg_conflicts r, avg_throughput r, k))"
    by (simp add: pareto_points_def)
  finally show ?thesis by (simp add: split_def)
qed

end
