(* ===== verification/Scheduler_Pace.thy ===== *)
theory Scheduler_Pace
  imports Host_Controller
begin

text \<open>
  Two small parts of \<open>integrated/host/integration\<close> around the host controller: the adapter of the camera
  (\<open>camera_adapter.py\<close>), which never touches the time of an observation, and the pacing of the control loop
  (\<open>run_forever\<close> of \<open>control_scheduler.py\<close>), whose steps are in \<open>Auto_Host\<close>.
\<close>

section \<open>The camera adapter\<close>

record camera_adapter =
  cam_source :: camera_pose_source
  cam_last_obs_time :: "real option"

definition camera_adapter_new :: "camera_pose_source \<Rightarrow> camera_adapter" where
  "camera_adapter_new src = \<lparr>cam_source = src, cam_last_obs_time = None\<rparr>"

definition on_new_observation ::
  "real \<Rightarrow> real \<Rightarrow> real option \<Rightarrow> real \<Rightarrow> bool \<Rightarrow> camera_adapter \<Rightarrow> camera_adapter" where
  "on_new_observation x y heading obs_time ok cam =
     cam\<lparr>cam_source := observe (cam_source cam) x y heading obs_time ok, cam_last_obs_time := Some obs_time\<rparr>"

definition on_track_lost :: "camera_adapter \<Rightarrow> camera_adapter" where
  "on_track_lost cam = cam"

datatype sighting = Seen real real "real option" real bool | Track_lost

fun camera_step :: "camera_adapter \<Rightarrow> sighting \<Rightarrow> camera_adapter" where
  "camera_step cam (Seen x y heading obs_time ok) = on_new_observation x y heading obs_time ok cam"
| "camera_step cam Track_lost = on_track_lost cam"

definition sight_times :: "sighting list \<Rightarrow> real list" where
  "sight_times es = List.map_filter (\<lambda>e. case e of Seen _ _ _ t _ \<Rightarrow> Some t | Track_lost \<Rightarrow> None) es"

text \<open>The pose the controller reads carries the time of the last frame that showed the car, however often the
  track was lost since, so the controller finds it stale by itself.\<close>

lemma camera_time_is_last_sight:
  "let cam = foldl camera_step (camera_adapter_new pose_source_init) es
   in map_option timestamp (latest (cam_source cam)) = cam_last_obs_time cam \<and>
      cam_last_obs_time cam = (if sight_times es = [] then None else Some (last (sight_times es)))"
proof (induction es rule: rev_induct)
  case (snoc e es)
  have "List.map_filter f (xs @ ys) = List.map_filter f xs @ List.map_filter f ys" for f :: "sighting \<Rightarrow> real option" and xs ys
    by (simp add: List.map_filter_def)
  then show ?case using snoc
    by (cases e) (auto simp: on_new_observation_def on_track_lost_def observe_def latest_def sight_times_def Let_def
        List.map_filter_simps)
qed (simp add: camera_adapter_new_def pose_source_init_def latest_def sight_times_def)

lemma lost_pose_goes_stale:
  assumes "last (sight_times es) + max_age < now" "sight_times es \<noteq> []"
  shows "\<exists>a. age_s (cam_source (foldl camera_step (camera_adapter_new pose_source_init) es)) now = Some a \<and> max_age < a"
  using camera_time_is_last_sight [of es] assms
  by (auto simp: Let_def age_s_def latest_def split: option.splits)

section \<open>The pace of the control loop\<close>

text \<open>One pass: the clock after the step, the clock read once more if the loop is late, and whether
  \<open>stop\<close> was called by the end of the pass.\<close>

record pass =
  pa_after :: real
  pa_late :: real
  pa_stop :: bool

text \<open>Per pass the next deadline and the wait, if there is one.\<close>

fun run_forever :: "real \<Rightarrow> real \<Rightarrow> pass list \<Rightarrow> (real \<times> real option) list" where
  "run_forever period next_t [] = []"
| "run_forever period next_t (p # ps) =
     (let next_t = next_t + period; sleep = next_t - pa_after p;
          r = (if 0 < sleep then (next_t, Some sleep) else (pa_late p, None))
      in r # (if pa_stop p then [] else run_forever period (fst r) ps))"

text \<open>Without an overrun the loop does not drift: the deadlines are the multiples of the period.\<close>

lemma run_forever_no_drift:
  assumes "\<And>i. i < length ps \<Longrightarrow> pa_after (ps ! i) < start + real (i + 1) * period"
    and "k < length (run_forever period start ps)"
  shows "run_forever period start ps ! k =
    (start + real (k + 1) * period, Some (start + real (k + 1) * period - pa_after (ps ! k)))"
  using assms
proof (induction period start ps arbitrary: k rule: run_forever.induct)
  case (2 period next_t p ps)
  have now: "pa_after p < next_t + period" using 2(2) [of 0] by simp
  show ?case
  proof (cases k)
    case 0
    then show ?thesis using now by (simp add: Let_def)
  next
    case (Suc j)
    then have go: "\<not> pa_stop p" "j < length (run_forever period (next_t + period) ps)"
      using 2(3) now by (auto simp: Let_def split: if_splits)
    have "pa_after (ps ! i) < next_t + period + real (i + 1) * period" if "i < length ps" for i
      using 2(2) [of "Suc i"] that by (simp add: algebra_simps)
    then have "run_forever period (next_t + period) ps ! j =
        (next_t + period + real (j + 1) * period, Some (next_t + period + real (j + 1) * period - pa_after (ps ! j)))"
      using 2(1) [OF refl refl refl, of j] go now by simp
    then show ?thesis using Suc go now by (simp add: Let_def algebra_simps)
  qed
qed simp

text \<open>An overrun is not made up for: the next deadline is never before the step that just ended, so the loop never
  fires several steps in a row to catch up; and no wait is longer than a period after a step that began on time.\<close>

lemma run_forever_no_burst:
  assumes "list_all (\<lambda>p. pa_after p \<le> pa_late p) ps"
  shows "k < length (run_forever period start ps) \<Longrightarrow> pa_after (ps ! k) \<le> fst (run_forever period start ps ! k)"
  using assms
  by (induction period start ps arbitrary: k rule: run_forever.induct)
    (auto simp: Let_def nth_Cons' split: if_splits)

lemma run_forever_wait_bound:
  assumes "start \<le> pa_after p" "run_forever period start (p # ps) = (next_t, Some w) # rest"
  shows "0 < w \<and> w \<le> period \<and> next_t = start + period"
  using assms by (auto simp: Let_def split: if_splits)

end
