(* ===== verification/Spec2Isabelle.thy ===== *)
theory Spec2Isabelle
  imports Host_Controller Server_Runs Orchestrator Safety Parking_Episode Bridge_Server Operator_Keys Pipeline_Safety
    Bindings Parking_Records Dashboard
    Lost_Camera Host_Windows Replay Camera_Loop Calibration Data_Tools Contract_Double Example_Session Console_Server
    Parking_Api Policy_Reports Scheduler_Pace
begin

text \<open>
  A model of a small automatic car park: a camera over the lot finds the model cars, a policy gives each a
  slot, the host drives them there over TCP, and a second program lets an operator drive one by keyboard.
  All paths are under \<open>src/\<close>; \<open>host\<close> stands for \<open>integrated/host\<close>.

  \<^bold>\<open>The parts and how they meet.\<close>
  \<^item> The camera pipeline (\<open>host/pipeline/runner.py\<close>) is the top of the host. Each frame it pairs detections,
    estimates headings, allocates a slot to a new car, tells the orchestrator where the cars are, and, in the
    direct control mode, runs one waypoint controller per car; the server calls it back on greetings, status
    messages, faults and recoveries.
  \<^item> The orchestrator (\<open>host/comm/orchestrator.py\<close>) keeps one mission per car and sends \<open>WAYPOINT\<close>, \<open>GO\<close> and
    \<open>WAIT\<close> through the server (\<open>host/comm/server.py\<close>), which owns the sessions and, per session, one sender
    that repeats a command until it is answered (\<open>host/comm/reliability.py\<close>).
  \<^item> The AUTO_HOST chain (\<open>host/integration\<close>, \<open>host/control\<close>, \<open>host/host_control\<close>, \<open>host/controller\<close>) is the
    other way to drive a car: a handshake arms an authority, a scheduler ticks a host controller, an operator
    switches between keyboard and automatic driving.
  \<^item> The allocation environment (\<open>host/rl/parking_env.py\<close>) is what the policy is trained in; its map, masks and
    observation are used live by the allocator (\<open>host/rl/bridge.py\<close>, \<open>host/rl/inference.py\<close>).
  \<^item> The remote bridge (\<open>remote-direct-bridge\<close>) is a program of its own with its own server, session and key logic.

  \<^bold>\<open>Theories.\<close>
  \<^item> \<open>Prelude\<close>: Python numbers and rounding, lists, the interfaces (invariants, latches, emitters of sequence
    numbers). \<open>Py_Json\<close>: JSON values and message dictionaries. \<open>Framing\<close>: the line buffer of the connections.
  \<^item> \<open>Geometry\<close>, \<open>Pose_Control\<close>: \<open>host/controller\<close>. \<open>Authority\<close>, \<open>Host_Parts\<close>, \<open>Host_Controller\<close>:
    \<open>host/host_control\<close>. \<open>Auto_Host\<close>: \<open>host/integration\<close>, \<open>auto_host_runner.py\<close>, \<open>hybrid_control.py\<close>;
    \<open>Scheduler_Pace\<close>: the pace of its loop and the camera adapter.
  \<^item> \<open>Comm_Protocol\<close>, \<open>Reliability\<close>, \<open>Comm_Server\<close>, \<open>Orchestrator\<close>: \<open>host/comm\<close>, file by file. \<open>Server_Runs\<close>:
    all runs of the server. \<open>Waypoints\<close>, \<open>Safety\<close>: \<open>host/parking/waypoints.py\<close>, \<open>safety.py\<close>.
  \<^item> \<open>Parking_Map\<close>, \<open>Parking_Env\<close>, \<open>Parking_Shield\<close>, \<open>Parking_Episode\<close>: \<open>host/rl/parking_env.py\<close> and
    \<open>reward.py\<close>, the invariant of the reservation table, whole episodes. \<open>Allocator\<close>: the live allocation.
    \<open>Evaluation\<close>, \<open>Policy_Reports\<close>, \<open>Replay\<close>: the evaluation of policies and what is reported of it
    (\<open>train_sb3.py\<close>, \<open>plot_pareto.py\<close>, \<open>sweep_wait_penalty.py\<close>), and the recording of an episode for the
    animation (\<open>visualize.py\<close>).
  \<^item> \<open>Vision\<close>: \<open>host/cv\<close>, with \<open>Camera_Loop\<close> for the detector's results and the loop of the tracker.
    \<open>Calibration\<close>: from \<open>host/tools/calibrate_camera.py\<close> over \<open>run_pipeline.py\<close> to the homography of the
    pipeline, and \<open>debug_pose.py\<close>. \<open>Data_Tools\<close>: \<open>extract_frames.py\<close>, \<open>preannotate.py\<close>.
  \<^item> \<open>Waypoint_Controller\<close>: \<open>host/control/waypoint_controller.py\<close>. \<open>Pipeline\<close>: \<open>host/pipeline\<close>. \<open>Pipeline_Safety\<close>, \<open>Bindings\<close>: what holds of the composition, and of the relation of
    cars to camera tracks over all its runs. \<open>Dashboard\<close>: the live view (\<open>host/pipeline/dashboard.py\<close>,
    \<open>host/parking/protocol.py\<close>, \<open>consumers.py\<close>). \<open>Parking_Records\<close>, \<open>Parking_Api\<close>: the tables and services of
    \<open>host/parking\<close>, and its requests and answers.
  \<^item> \<open>Bridge_Protocol\<close>, \<open>Bridge_Controller\<close>, \<open>Bridge_Server\<close>, \<open>Operator_Keys\<close>: \<open>remote-direct-bridge\<close>.
    \<open>Bridge_Runs\<close>: all interleavings of its handlers. \<open>Mock_Vehicle\<close>: its simulated vehicle,
    \<open>tools/mock_esp32.py\<close>. \<open>Operator_Windows\<close>, \<open>Host_Windows\<close>: the keyboard windows of both programs
    (\<open>wasd_gui.py\<close>, \<open>bridge_gui.py\<close>, \<open>host/control/hybrid_gui.py\<close>) and what they can make a car do. \<open>Lost_Camera\<close>: the pipeline, the
    server and a vehicle when the camera loses the car.
  \<^item> \<open>Contract_Double\<close>, \<open>Example_Session\<close>: the doubles of \<open>host/integration/backend_contract\<close> against the server they
    stand for, and the example session of the pose controller. \<open>Console_Server\<close>: the console test server of the firmware
    (\<open>esp32_main/tools/archive\<close>) with its threads.

  \<^bold>\<open>How the code is rendered.\<close> A class is a record of its attributes, a method a function from the record to the
  new one, its outputs in order and its exception, if it raises one; what was done before an exception stays
  done. Definitions carry the names of the source, with a prefix where two parts use one name. A \<open>dict\<close> is an
  association list where its order is observable and a function otherwise; sessions, which are shared, live in a
  store. Floats are reals, with \<open>pyfloat\<close> where NaN or an infinity can arrive from outside; \<open>round(x, n)\<close> is
  \<open>round_dec\<close>, half to even. Threads and coroutines are interleaved at the points where they can be: calls
  that wait are split into a beginning and an end. A clock reading is an argument, one per call. The two
  sets of car ids of the pipeline are sorted lists, the order in which CPython iterates small ids.

  \<^bold>\<open>What the lemmas show.\<close> Per component: the behaviour of each operation, and an invariant kept by every
  operation as an instance of one of the interfaces of \<open>Prelude\<close>. Over runs: numbering and single-session facts
  of the server, the missions' rules on when a car may move, the shield's separation of reservations over
  episodes, the arming discipline of the bridge and of the AUTO_HOST chain, and, for the pipeline, when a car is driven
  at all; that a calibration reaches the pipeline unchanged, that an exit undoes its entry, and that the server's
  stream is that of the double the tests use. Where the parts do not fit together, theorems state what happens instead: a
  mission that could not start, a hold lifted too early, a link that recovers, a route from one node, a reconnection.

  \<^bold>\<open>Bounds.\<close> No definition uses fuel: the loops are structural, over a finite list, or, for the two
  \<open>while True\<close> loops over an episode, partial functions proved to return. The
  retransmission count (5), the episode length (64) and the line limit (512) are the source's constants.

  \<^bold>\<open>Not modelled.\<close> The C firmware (its messages are arbitrary inputs); OpenCV, YOLO, the trained network, \<open>json\<close>
  and \<open>float\<close> parsing (parameters); sockets and threads as such; logging, drawing and widgets; Django's routing,
  settings, admin, migrations, generic CRUD and the validation of a single field (its tables are lists of rows); training,
  plotting and the animation itself; the wrappers that only start the test firmware. A
  \<open>tick\<close> takes one clock reading where the code may take two a few microseconds apart.
\<close>

end
